(* ===== verification/Machine_Words.thy ===== *)
theory Machine_Words
  imports Main "HOL-Library.Word"
begin

text \<open>
  The prelude of the development: machine integers of the C++ sources as words of their
  width, fixed four-element arrays (\<open>uint32_t x[4]\<close>) as the datatype \<open>quad\<close>, counted
  loops, big-endian byte access, and the integer mixers that several source files share
  (\<open>rotl32\<close>, \<open>mix32\<close>, \<open>secure_prng_step\<close>).
\<close>

unbundle bit_operations_syntax

type_synonym u8 = "8 word"
type_synonym u16 = "16 word"
type_synonym u32 = "32 word"
type_synonym u64 = "64 word"

named_theorems word_mix \<open>definitions of the integer mixers\<close>

section \<open>Fixed arrays of four elements\<close>

datatype 'a quad = Quad (q0: 'a) (q1: 'a) (q2: 'a) (q3: 'a)

fun quad_nth :: "'a quad \<Rightarrow> nat \<Rightarrow> 'a" where
  "quad_nth (Quad a b c d) i = (if i = 0 then a else if i = 1 then b else if i = 2 then c else d)"

fun quad_upd :: "'a quad \<Rightarrow> nat \<Rightarrow> 'a \<Rightarrow> 'a quad" where
  "quad_upd (Quad a b c d) i x =
     (if i = 0 then Quad x b c d else if i = 1 then Quad a x c d
      else if i = 2 then Quad a b x d else Quad a b c x)"

fun quad_map2 :: "('a \<Rightarrow> 'b \<Rightarrow> 'c) \<Rightarrow> 'a quad \<Rightarrow> 'b quad \<Rightarrow> 'c quad" where
  "quad_map2 f (Quad a b c d) (Quad x y z w) = Quad (f a x) (f b y) (f c z) (f d w)"

fun quad_list :: "'a quad \<Rightarrow> 'a list" where
  "quad_list (Quad a b c d) = [a, b, c, d]"

definition quad_gen :: "(nat \<Rightarrow> 'a) \<Rightarrow> 'a quad" where
  "quad_gen f = Quad (f 0) (f 1) (f 2) (f 3)"

definition quad_of_list :: "'a list \<Rightarrow> 'a quad" where
  "quad_of_list xs = quad_gen (\<lambda>i. xs ! i)"

fun quad_transpose :: "'a quad quad \<Rightarrow> 'a quad quad" where
  "quad_transpose (Quad a b c d) =
     Quad (Quad (q0 a) (q0 b) (q0 c) (q0 d)) (Quad (q1 a) (q1 b) (q1 c) (q1 d))
          (Quad (q2 a) (q2 b) (q2 c) (q2 d)) (Quad (q3 a) (q3 b) (q3 c) (q3 d))"

type_synonym block = "u32 quad"

lemma less_4_cases: "(i::nat) < 4 \<Longrightarrow> i = 0 \<or> i = 1 \<or> i = 2 \<or> i = 3"
  by arith

lemma quad_eqI:
  assumes "\<And>i. i < 4 \<Longrightarrow> quad_nth x i = quad_nth y i"
  shows "x = y"
  using assms[of 0] assms[of 1] assms[of 2] assms[of 3] by (cases x; cases y) simp

lemma quad_nth_upd:
  "i < 4 \<Longrightarrow> j < 4 \<Longrightarrow> quad_nth (quad_upd q i x) j = (if i = j then x else quad_nth q j)"
  by (cases q) (auto dest!: less_4_cases)

lemma quad_nth_gen [simp]: "i < 4 \<Longrightarrow> quad_nth (quad_gen f) i = f i"
  by (auto simp: quad_gen_def dest!: less_4_cases)

lemma quad_gen_nth [simp]: "quad_gen (quad_nth q) = q"
  by (cases q) (simp add: quad_gen_def)

lemma quad_nth_map [simp]: "i < 4 \<Longrightarrow> quad_nth (map_quad f q) i = f (quad_nth q i)"
  by (cases q) (auto dest!: less_4_cases)

lemma quad_nth_map2 [simp]: "quad_nth (quad_map2 f p q) i = f (quad_nth p i) (quad_nth q i)"
  by (cases p; cases q) simp

lemma length_quad_list [simp]: "length (quad_list q) = 4"
  by (cases q) simp

lemma quad_list_nth: "i < 4 \<Longrightarrow> quad_list q ! i = quad_nth q i"
  by (cases q) (auto dest!: less_4_cases)

lemma quad_list_inject [simp]: "quad_list p = quad_list q \<longleftrightarrow> p = q"
  by (cases p; cases q) simp

lemma quad_of_list_list [simp]: "quad_of_list (quad_list q) = q"
  by (cases q) (simp add: quad_of_list_def quad_gen_def)

lemma quad_transpose_transpose [simp]: "quad_transpose (quad_transpose q) = q"
  by (cases q) (simp add: quad.expand)

lemma quad_gen_cong:
  assumes "\<And>i. i < 4 \<Longrightarrow> f i = g i"
  shows "quad_gen f = quad_gen g"
  by (rule quad_eqI) (simp add: assms)

section \<open>Counted loops\<close>

text \<open>\<open>for_up a b body s\<close> is \<open>for (i = a; i < b; ++i) body\<close> on the loop state \<open>s\<close>.\<close>

definition for_up :: "nat \<Rightarrow> nat \<Rightarrow> (nat \<Rightarrow> 's \<Rightarrow> 's) \<Rightarrow> 's \<Rightarrow> 's" where
  "for_up a b body s = fold body [a..<b] s"

lemma for_up_empty [simp]: "b \<le> a \<Longrightarrow> for_up a b body s = s"
  by (simp add: for_up_def)

lemma for_up_Suc: "a \<le> b \<Longrightarrow> for_up a (Suc b) body s = body b (for_up a b body s)"
  by (simp add: for_up_def)

lemma for_up_first: "a < b \<Longrightarrow> for_up a b body s = for_up (Suc a) b body (body a s)"
  by (simp add: for_up_def upt_conv_Cons)

lemma for_up_invariant:
  assumes "P s" and "\<And>i s. a \<le> i \<Longrightarrow> i < b \<Longrightarrow> P s \<Longrightarrow> P (body i s)"
  shows "P (for_up a b body s)"
  using assms(2)
proof (induction b)
  case 0
  then show ?case using assms(1) by simp
next
  case (Suc b)
  then show ?case using assms(1) by (cases "a \<le> b") (simp_all add: for_up_Suc)
qed

text \<open>A loop that writes one cell of an array per round.\<close>

lemma for_up_cells:
  "for_up 0 n (\<lambda>i m. m(i := f i (m i))) m = (\<lambda>i. if i < n then f i (m i) else m i)"
  by (induction n) (auto simp: for_up_Suc fun_eq_iff less_Suc_eq)

section \<open>Bytes of a word, big-endian\<close>

definition be32 :: "u8 \<Rightarrow> u8 \<Rightarrow> u8 \<Rightarrow> u8 \<Rightarrow> u32" where
  "be32 a b c d = push_bit 24 (ucast a) OR push_bit 16 (ucast b) OR push_bit 8 (ucast c) OR ucast d"

text \<open>\<open>p[0] = (uint8_t)((x >> 24) & 0xFF); ...\<close> and its inverse, on byte lists.\<close>

definition store_be32 :: "u32 \<Rightarrow> u8 list" where
  "store_be32 x =
     [ucast (drop_bit 24 x AND 0xFF), ucast (drop_bit 16 x AND 0xFF),
      ucast (drop_bit 8 x AND 0xFF), ucast (x AND 0xFF)]"

definition load_be32 :: "u8 list \<Rightarrow> u32" where
  "load_be32 p =
     push_bit 24 (ucast (p ! 0)) OR push_bit 16 (ucast (p ! 1)) OR push_bit 8 (ucast (p ! 2))
     OR ucast (p ! 3)"

lemma mask_FF: "(0xFF :: u32) = mask 8"
  by (simp add: mask_eq_exp_minus_1)

lemma be32_split:
  "be32 (ucast (drop_bit 24 x AND 0xFF)) (ucast (drop_bit 16 x AND 0xFF))
        (ucast (drop_bit 8 x AND 0xFF)) (ucast (x AND 0xFF)) = x"
proof (rule bit_word_eqI)
  fix n assume "n < LENGTH(32)"
  then consider "n < 8" | "8 \<le> n" "n < 16" | "16 \<le> n" "n < 24" | "24 \<le> n" "n < 32"
    by fastforce
  then show "bit (be32 (ucast (drop_bit 24 x AND 0xFF)) (ucast (drop_bit 16 x AND 0xFF))
        (ucast (drop_bit 8 x AND 0xFF)) (ucast (x AND 0xFF))) n = bit x n"
    by cases (simp_all add: be32_def mask_FF bit_simps less_diff_conv2)
qed

lemma be32_bytes:
  "(ucast (drop_bit 24 (be32 a b c d) AND 0xFF) :: u8) = a"
  "(ucast (drop_bit 16 (be32 a b c d) AND 0xFF) :: u8) = b"
  "(ucast (drop_bit 8 (be32 a b c d) AND 0xFF) :: u8) = c"
  "(ucast (be32 a b c d AND 0xFF) :: u8) = d"
  by (rule bit_word_eqI; auto simp: be32_def mask_FF bit_simps dest: bit_imp_le_length)+

lemma length_store_be32 [simp]: "length (store_be32 x) = 4"
  by (simp add: store_be32_def)

lemma load_store_be32 [simp]: "load_be32 (store_be32 x @ r) = x"
  using be32_split[of x] by (simp add: load_be32_def store_be32_def be32_def numeral_eq_Suc)

lemma load_store_be32_only [simp]: "load_be32 (store_be32 x) = x"
  using load_store_be32[of x "[]"] by simp

lemma store_load_be32:
  assumes "length p = 4"
  shows "store_be32 (load_be32 p) = p"
proof -
  obtain a b c d where "p = [a, b, c, d]"
    using assms by (auto simp: numeral_eq_Suc length_Suc_conv)
  then show ?thesis
    using be32_bytes[of a b c d] by (simp add: store_be32_def load_be32_def be32_def numeral_eq_Suc)
qed

lemma store_be32_inject [simp]: "store_be32 x = store_be32 y \<longleftrightarrow> x = y"
  by (metis load_store_be32_only)

lemma store_be32_append_inject:
  "store_be32 x @ r = store_be32 y @ t \<longleftrightarrow> x = y \<and> r = t"
  by simp

section \<open>Exclusive or\<close>

lemma bit_times_2: "bit ((a :: 'a::len word) * 2) n \<longleftrightarrow> n < LENGTH('a) \<and> 0 < n \<and> bit a (n - 1)"
  unfolding mult.commute[of a 2] bit_double_iff by auto

lemma xor_cancel_left [simp]: "(a :: 'a::len word) XOR (a XOR b) = b"
  by (simp flip: xor.assoc)

lemma xor_cancel_right [simp]: "((a :: 'a::len word) XOR b) XOR b = a"
  by (simp add: xor.assoc)

lemma xor_eq_0_word: "(a :: 'a::len word) XOR b = 0 \<longleftrightarrow> a = b"
  by (metis xor_cancel_left xor.right_neutral xor_self_eq)

lemma or_eq_0_word: "(a :: 'a::len word) OR b = 0 \<longleftrightarrow> a = 0 \<and> b = 0"
  by (metis or.left_idem or.right_idem or.right_neutral or_eq_0_iff)

lemmas xor_ac_cancel = xor.assoc xor.commute xor.left_commute xor_cancel_left

section \<open>Shared integer mixers\<close>

definition rotl32 :: "u32 \<Rightarrow> nat \<Rightarrow> u32" where
  [word_mix]: "rotl32 x r = push_bit r x OR drop_bit (32 - r) x"

definition secure_rotr32 :: "u32 \<Rightarrow> nat \<Rightarrow> u32" where
  [word_mix]: "secure_rotr32 x r = drop_bit r x OR push_bit (32 - r) x"

definition mix32 :: "u32 \<Rightarrow> u32" where
  [word_mix]: "mix32 x =
     (let x = x XOR drop_bit 16 x;
          x = x * 0x7FEB352D;
          x = x XOR drop_bit 15 x;
          x = x * 0x846CA68B
      in x XOR drop_bit 16 x)"

definition secure_prng_step :: "u32 \<Rightarrow> u32" where
  [word_mix]: "secure_prng_step x =
     (let x = x XOR push_bit 13 x;
          x = x XOR drop_bit 17 x;
          x = x XOR push_bit 5 x
      in if x \<noteq> 0 then x else 0xA5A5A5A5)"

lemma secure_prng_step_nonzero: "secure_prng_step x \<noteq> 0"
  by (simp add: secure_prng_step_def Let_def)

end
