(* ===== verification/AES.thy ===== *)
theory AES
  imports Machine_Words
begin

text \<open>
  The AES-128 block primitive of \<open>src/3d.cpp\<close> (\<open>aes_encrypt_block\<close>, \<open>aes_decrypt_block\<close>):
  tables, Galois multiplication, round steps, key expansion and the two round loops on the
  \<open>state[4][4]\<close> byte matrix, indexed row first. The lemmas show that each step of the
  decryption undoes the matching step of the encryption, that the two block functions are
  inverse to each other for every key, and that the FIPS-197 vector is reproduced. The
  interface \<open>block_cipher\<close> states what every client of the primitive relies on.
\<close>

section \<open>Tables\<close>

definition sbox :: "u8 list" where
  "sbox =
    [0x63, 0x7c, 0x77, 0x7b, 0xf2, 0x6b, 0x6f, 0xc5, 0x30, 0x01, 0x67, 0x2b, 0xfe, 0xd7, 0xab, 0x76,
     0xca, 0x82, 0xc9, 0x7d, 0xfa, 0x59, 0x47, 0xf0, 0xad, 0xd4, 0xa2, 0xaf, 0x9c, 0xa4, 0x72, 0xc0,
     0xb7, 0xfd, 0x93, 0x26, 0x36, 0x3f, 0xf7, 0xcc, 0x34, 0xa5, 0xe5, 0xf1, 0x71, 0xd8, 0x31, 0x15,
     0x04, 0xc7, 0x23, 0xc3, 0x18, 0x96, 0x05, 0x9a, 0x07, 0x12, 0x80, 0xe2, 0xeb, 0x27, 0xb2, 0x75,
     0x09, 0x83, 0x2c, 0x1a, 0x1b, 0x6e, 0x5a, 0xa0, 0x52, 0x3b, 0xd6, 0xb3, 0x29, 0xe3, 0x2f, 0x84,
     0x53, 0xd1, 0x00, 0xed, 0x20, 0xfc, 0xb1, 0x5b, 0x6a, 0xcb, 0xbe, 0x39, 0x4a, 0x4c, 0x58, 0xcf,
     0xd0, 0xef, 0xaa, 0xfb, 0x43, 0x4d, 0x33, 0x85, 0x45, 0xf9, 0x02, 0x7f, 0x50, 0x3c, 0x9f, 0xa8,
     0x51, 0xa3, 0x40, 0x8f, 0x92, 0x9d, 0x38, 0xf5, 0xbc, 0xb6, 0xda, 0x21, 0x10, 0xff, 0xf3, 0xd2,
     0xcd, 0x0c, 0x13, 0xec, 0x5f, 0x97, 0x44, 0x17, 0xc4, 0xa7, 0x7e, 0x3d, 0x64, 0x5d, 0x19, 0x73,
     0x60, 0x81, 0x4f, 0xdc, 0x22, 0x2a, 0x90, 0x88, 0x46, 0xee, 0xb8, 0x14, 0xde, 0x5e, 0x0b, 0xdb,
     0xe0, 0x32, 0x3a, 0x0a, 0x49, 0x06, 0x24, 0x5c, 0xc2, 0xd3, 0xac, 0x62, 0x91, 0x95, 0xe4, 0x79,
     0xe7, 0xc8, 0x37, 0x6d, 0x8d, 0xd5, 0x4e, 0xa9, 0x6c, 0x56, 0xf4, 0xea, 0x65, 0x7a, 0xae, 0x08,
     0xba, 0x78, 0x25, 0x2e, 0x1c, 0xa6, 0xb4, 0xc6, 0xe8, 0xdd, 0x74, 0x1f, 0x4b, 0xbd, 0x8b, 0x8a,
     0x70, 0x3e, 0xb5, 0x66, 0x48, 0x03, 0xf6, 0x0e, 0x61, 0x35, 0x57, 0xb9, 0x86, 0xc1, 0x1d, 0x9e,
     0xe1, 0xf8, 0x98, 0x11, 0x69, 0xd9, 0x8e, 0x94, 0x9b, 0x1e, 0x87, 0xe9, 0xce, 0x55, 0x28, 0xdf,
     0x8c, 0xa1, 0x89, 0x0d, 0xbf, 0xe6, 0x42, 0x68, 0x41, 0x99, 0x2d, 0x0f, 0xb0, 0x54, 0xbb, 0x16]"

definition inv_sbox :: "u8 list" where
  "inv_sbox =
    [0x52, 0x09, 0x6a, 0xd5, 0x30, 0x36, 0xa5, 0x38, 0xbf, 0x40, 0xa3, 0x9e, 0x81, 0xf3, 0xd7, 0xfb,
     0x7c, 0xe3, 0x39, 0x82, 0x9b, 0x2f, 0xff, 0x87, 0x34, 0x8e, 0x43, 0x44, 0xc4, 0xde, 0xe9, 0xcb,
     0x54, 0x7b, 0x94, 0x32, 0xa6, 0xc2, 0x23, 0x3d, 0xee, 0x4c, 0x95, 0x0b, 0x42, 0xfa, 0xc3, 0x4e,
     0x08, 0x2e, 0xa1, 0x66, 0x28, 0xd9, 0x24, 0xb2, 0x76, 0x5b, 0xa2, 0x49, 0x6d, 0x8b, 0xd1, 0x25,
     0x72, 0xf8, 0xf6, 0x64, 0x86, 0x68, 0x98, 0x16, 0xd4, 0xa4, 0x5c, 0xcc, 0x5d, 0x65, 0xb6, 0x92,
     0x6c, 0x70, 0x48, 0x50, 0xfd, 0xed, 0xb9, 0xda, 0x5e, 0x15, 0x46, 0x57, 0xa7, 0x8d, 0x9d, 0x84,
     0x90, 0xd8, 0xab, 0x00, 0x8c, 0xbc, 0xd3, 0x0a, 0xf7, 0xe4, 0x58, 0x05, 0xb8, 0xb3, 0x45, 0x06,
     0xd0, 0x2c, 0x1e, 0x8f, 0xca, 0x3f, 0x0f, 0x02, 0xc1, 0xaf, 0xbd, 0x03, 0x01, 0x13, 0x8a, 0x6b,
     0x3a, 0x91, 0x11, 0x41, 0x4f, 0x67, 0xdc, 0xea, 0x97, 0xf2, 0xcf, 0xce, 0xf0, 0xb4, 0xe6, 0x73,
     0x96, 0xac, 0x74, 0x22, 0xe7, 0xad, 0x35, 0x85, 0xe2, 0xf9, 0x37, 0xe8, 0x1c, 0x75, 0xdf, 0x6e,
     0x47, 0xf1, 0x1a, 0x71, 0x1d, 0x29, 0xc5, 0x89, 0x6f, 0xb7, 0x62, 0x0e, 0xaa, 0x18, 0xbe, 0x1b,
     0xfc, 0x56, 0x3e, 0x4b, 0xc6, 0xd2, 0x79, 0x20, 0x9a, 0xdb, 0xc0, 0xfe, 0x78, 0xcd, 0x5a, 0xf4,
     0x1f, 0xdd, 0xa8, 0x33, 0x88, 0x07, 0xc7, 0x31, 0xb1, 0x12, 0x10, 0x59, 0x27, 0x80, 0xec, 0x5f,
     0x60, 0x51, 0x7f, 0xa9, 0x19, 0xb5, 0x4a, 0x0d, 0x2d, 0xe5, 0x7a, 0x9f, 0x93, 0xc9, 0x9c, 0xef,
     0xa0, 0xe0, 0x3b, 0x4d, 0xae, 0x2a, 0xf5, 0xb0, 0xc8, 0xeb, 0xbb, 0x3c, 0x83, 0x53, 0x99, 0x61,
     0x17, 0x2b, 0x04, 0x7e, 0xba, 0x77, 0xd6, 0x26, 0xe1, 0x69, 0x14, 0x63, 0x55, 0x21, 0x0c, 0x7d]"

definition Rcon :: "u8 list" where
  "Rcon = [0x00, 0x01, 0x02, 0x04, 0x08, 0x10, 0x20, 0x40, 0x80, 0x1b, 0x36]"

section \<open>Galois multiplication\<close>

text \<open>One round of the loop of \<open>galois_mul\<close> on the variables \<open>(a, b, p)\<close>.\<close>

fun galois_step :: "u8 \<times> u8 \<times> u8 \<Rightarrow> u8 \<times> u8 \<times> u8" where
  "galois_step (a, b, p) =
     (let p = (if b AND 1 \<noteq> 0 then p XOR a else p);
          hi = a AND 0x80;
          a = push_bit 1 a;
          a = (if hi \<noteq> 0 then a XOR 0x1b else a)
      in (a, drop_bit 1 b, p))"

definition galois_mul :: "u8 \<Rightarrow> u8 \<Rightarrow> u8" where
  "galois_mul a b = (case for_up 0 8 (\<lambda>_. galois_step) (a, b, 0) of (_, _, p) \<Rightarrow> p)"

section \<open>Round steps\<close>

type_synonym aes_state = "u8 quad quad"

definition add_round_key :: "aes_state \<Rightarrow> aes_state \<Rightarrow> aes_state" where
  "add_round_key s rk = quad_map2 (quad_map2 (XOR)) s rk"

definition sub_bytes :: "aes_state \<Rightarrow> aes_state" where
  "sub_bytes s = map_quad (map_quad (\<lambda>b. sbox ! unat b)) s"

definition inv_sub_bytes :: "aes_state \<Rightarrow> aes_state" where
  "inv_sub_bytes s = map_quad (map_quad (\<lambda>b. inv_sbox ! unat b)) s"

fun shift_rows :: "aes_state \<Rightarrow> aes_state" where
  "shift_rows (Quad (Quad s00 s01 s02 s03) (Quad s10 s11 s12 s13)
                    (Quad s20 s21 s22 s23) (Quad s30 s31 s32 s33)) =
     Quad (Quad s00 s01 s02 s03) (Quad s11 s12 s13 s10)
          (Quad s22 s23 s20 s21) (Quad s33 s30 s31 s32)"

fun inv_shift_rows :: "aes_state \<Rightarrow> aes_state" where
  "inv_shift_rows (Quad (Quad s00 s01 s02 s03) (Quad s10 s11 s12 s13)
                        (Quad s20 s21 s22 s23) (Quad s30 s31 s32 s33)) =
     Quad (Quad s00 s01 s02 s03) (Quad s13 s10 s11 s12)
          (Quad s22 s23 s20 s21) (Quad s31 s32 s33 s30)"

fun mix_column :: "u8 quad \<Rightarrow> u8 quad" where
  "mix_column (Quad a0 a1 a2 a3) =
     Quad (galois_mul a0 2 XOR galois_mul a1 3 XOR a2 XOR a3)
          (a0 XOR galois_mul a1 2 XOR galois_mul a2 3 XOR a3)
          (a0 XOR a1 XOR galois_mul a2 2 XOR galois_mul a3 3)
          (galois_mul a0 3 XOR a1 XOR a2 XOR galois_mul a3 2)"

fun inv_mix_column :: "u8 quad \<Rightarrow> u8 quad" where
  "inv_mix_column (Quad a0 a1 a2 a3) =
     Quad (galois_mul a0 0x0e XOR galois_mul a1 0x0b XOR galois_mul a2 0x0d XOR galois_mul a3 0x09)
          (galois_mul a0 0x09 XOR galois_mul a1 0x0e XOR galois_mul a2 0x0b XOR galois_mul a3 0x0d)
          (galois_mul a0 0x0d XOR galois_mul a1 0x09 XOR galois_mul a2 0x0e XOR galois_mul a3 0x0b)
          (galois_mul a0 0x0b XOR galois_mul a1 0x0d XOR galois_mul a2 0x09 XOR galois_mul a3 0x0e)"

text \<open>The loop over the columns \<open>i\<close> of \<open>mix_columns\<close>, \<open>inv_mix_columns\<close>.\<close>

definition mix_columns :: "aes_state \<Rightarrow> aes_state" where
  "mix_columns s = quad_transpose (map_quad mix_column (quad_transpose s))"

definition inv_mix_columns :: "aes_state \<Rightarrow> aes_state" where
  "inv_mix_columns s = quad_transpose (map_quad inv_mix_column (quad_transpose s))"

section \<open>Key expansion\<close>

definition sub_word :: "u32 \<Rightarrow> u32" where
  "sub_word t =
     push_bit 24 (ucast (sbox ! unat (drop_bit 24 t AND 0xFF)))
     OR push_bit 16 (ucast (sbox ! unat (drop_bit 16 t AND 0xFF)))
     OR push_bit 8 (ucast (sbox ! unat (drop_bit 8 t AND 0xFF)))
     OR ucast (sbox ! unat (t AND 0xFF))"

definition expand_step :: "nat \<Rightarrow> u32 list \<Rightarrow> u32 list" where
  "expand_step i w =
     (let temp = w ! (i - 1);
          temp = (if i mod 4 = 0
                  then sub_word (push_bit 8 temp OR drop_bit 24 temp)
                       XOR push_bit 24 (ucast (Rcon ! (i div 4)))
                  else temp)
      in w @ [w ! (i - 4) XOR temp])"

text \<open>Column \<open>c\<close> of a byte matrix from word \<open>c\<close>, most significant byte in row 0.\<close>

definition words_to_state :: "block \<Rightarrow> aes_state" where
  "words_to_state w =
     Quad (map_quad (\<lambda>x. ucast (drop_bit 24 x AND 0xFF)) w)
          (map_quad (\<lambda>x. ucast (drop_bit 16 x AND 0xFF)) w)
          (map_quad (\<lambda>x. ucast (drop_bit 8 x AND 0xFF)) w)
          (map_quad (\<lambda>x. ucast (x AND 0xFF)) w)"

fun column_word :: "u8 quad \<Rightarrow> u32" where
  "column_word (Quad s0 s1 s2 s3) =
     push_bit 24 (ucast s0) OR push_bit 16 (ucast s1) OR push_bit 8 (ucast s2) OR ucast s3"

definition state_to_words :: "aes_state \<Rightarrow> block" where
  "state_to_words s = map_quad column_word (quad_transpose s)"

definition expanded_key :: "aes_state \<Rightarrow> u32 list" where
  "expanded_key ks = for_up 4 44 expand_step (quad_list (state_to_words ks))"

text \<open>Round key \<open>r\<close> of the \<open>round_keys[11][4][4]\<close> that \<open>key_expansion\<close> fills.\<close>

definition key_expansion :: "aes_state \<Rightarrow> nat \<Rightarrow> aes_state" where
  "key_expansion ks r = words_to_state (quad_gen (\<lambda>c. expanded_key ks ! (r * 4 + c)))"

section \<open>Block functions\<close>

definition encrypt_round :: "aes_state \<Rightarrow> aes_state \<Rightarrow> aes_state" where
  "encrypt_round rk s = add_round_key (mix_columns (shift_rows (sub_bytes s))) rk"

definition decrypt_round :: "aes_state \<Rightarrow> aes_state \<Rightarrow> aes_state" where
  "decrypt_round rk s = inv_mix_columns (add_round_key (inv_sub_bytes (inv_shift_rows s)) rk)"

text \<open>The C++ arguments are \<open>(input, key, output)\<close>; the model returns the output.\<close>

definition aes_encrypt_block :: "block \<Rightarrow> block \<Rightarrow> block" where
  "aes_encrypt_block inp key =
     (let rks = key_expansion (words_to_state key);
          s = add_round_key (words_to_state inp) (rks 0);
          s = fold (\<lambda>rnd. encrypt_round (rks rnd)) [1..<10] s;
          s = shift_rows (sub_bytes s)
      in state_to_words (add_round_key s (rks 10)))"

definition aes_decrypt_block :: "block \<Rightarrow> block \<Rightarrow> block" where
  "aes_decrypt_block inp key =
     (let rks = key_expansion (words_to_state key);
          s = add_round_key (words_to_state inp) (rks 10);
          s = fold (\<lambda>rnd. decrypt_round (rks rnd)) (rev [1..<10]) s;
          s = inv_sub_bytes (inv_shift_rows s)
      in state_to_words (add_round_key s (rks 0)))"

section \<open>The multiplication by constants through \<open>xtime\<close>\<close>

definition xtime :: "u8 \<Rightarrow> u8" where
  "xtime a = (if a AND 0x80 \<noteq> 0 then push_bit 1 a XOR 0x1b else push_bit 1 a)"

lemma xtime_bit: "xtime a = push_bit 1 a XOR (if bit a 7 then 0x1b else 0)"
proof -
  have "a AND 0x80 = 0 \<longleftrightarrow> \<not> bit a 7"
    using and_exp_eq_0_iff_not_bit[of a 7] by simp
  then show ?thesis by (simp add: xtime_def)
qed

lemma xtime_xor: "xtime (a XOR b) = xtime a XOR xtime b"
  by (simp add: xtime_bit bit_xor_iff push_bit_xor xor.assoc xor.left_commute)

lemma galois_step_xtime:
  "galois_step (a, b, p) = (xtime a, drop_bit 1 b, if b AND 1 \<noteq> 0 then p XOR a else p)"
  by (simp add: xtime_def Let_def)

lemma galois_mul_consts:
  "galois_mul a 2 = xtime a"
  "galois_mul a 3 = a XOR xtime a"
  "galois_mul a 9 = a XOR xtime (xtime (xtime a))"
  "galois_mul a 11 = a XOR xtime a XOR xtime (xtime (xtime a))"
  "galois_mul a 13 = a XOR xtime (xtime a) XOR xtime (xtime (xtime a))"
  "galois_mul a 14 = xtime a XOR xtime (xtime a) XOR xtime (xtime (xtime a))"
  by (simp_all add: galois_mul_def for_up_def upt_rec galois_step_xtime xor.assoc
      del: galois_step.simps)

section \<open>Each decryption step undoes its encryption step\<close>

lemma add_round_key_twice [simp]: "add_round_key (add_round_key s rk) rk = s"
  by (rule quad_eqI, rule quad_eqI) (simp add: add_round_key_def)

lemma inv_shift_rows_shift_rows [simp]: "inv_shift_rows (shift_rows s) = s"
  by (induction s rule: shift_rows.induct) simp

lemma shift_rows_inv_shift_rows [simp]: "shift_rows (inv_shift_rows s) = s"
  by (induction s rule: inv_shift_rows.induct) simp

lemma inv_sbox_sbox_table: "map (\<lambda>b. inv_sbox ! unat b) sbox = map word_of_nat [0..<256]"
  by (simp add: sbox_def inv_sbox_def upt_rec)

lemma length_sbox [simp]: "length sbox = 256" "length inv_sbox = 256"
  by (simp_all add: sbox_def inv_sbox_def)

lemma inv_sbox_sbox [simp]: "inv_sbox ! unat (sbox ! unat b) = b"
proof -
  have "unat b < 2 ^ LENGTH(8)" by (rule unsigned_less)
  then have n: "unat b < 256" by simp
  have "map (\<lambda>b. inv_sbox ! unat b) sbox ! unat b = map word_of_nat [0..<256] ! unat b"
    by (simp only: inv_sbox_sbox_table)
  with n show ?thesis by simp
qed

text \<open>A left inverse on a finite type is a right inverse.\<close>

lemma sbox_inv_sbox [simp]: "sbox ! unat (inv_sbox ! unat b) = b"
proof -
  let ?f = "\<lambda>b::u8. sbox ! unat b"
  have "inj ?f" by (rule inj_on_inverseI[where g = "\<lambda>b. inv_sbox ! unat b"]) simp
  then have "surj ?f" by (simp add: finite_UNIV_inj_surj)
  then obtain c where "b = ?f c" by (metis surjD)
  then show ?thesis by simp
qed

lemma inv_sub_bytes_sub_bytes [simp]: "inv_sub_bytes (sub_bytes s) = s"
  by (simp add: inv_sub_bytes_def sub_bytes_def quad.map_comp o_def quad.map_ident)

lemma sub_bytes_inv_sub_bytes [simp]: "sub_bytes (inv_sub_bytes s) = s"
  by (simp add: inv_sub_bytes_def sub_bytes_def quad.map_comp o_def quad.map_ident)

lemma inv_mix_column_mix_column [simp]: "inv_mix_column (mix_column q) = q"
  by (cases q) (simp add: galois_mul_consts xtime_xor xor_ac_cancel)

lemma mix_column_inv_mix_column [simp]: "mix_column (inv_mix_column q) = q"
  by (cases q) (simp add: galois_mul_consts xtime_xor xor_ac_cancel)

lemma inv_mix_columns_mix_columns [simp]: "inv_mix_columns (mix_columns s) = s"
  by (simp add: mix_columns_def inv_mix_columns_def quad.map_comp o_def quad.map_ident)

lemma mix_columns_inv_mix_columns [simp]: "mix_columns (inv_mix_columns s) = s"
  by (simp add: mix_columns_def inv_mix_columns_def quad.map_comp o_def quad.map_ident)

lemma column_word_be32: "column_word (Quad a b c d) = be32 a b c d"
  by (simp add: be32_def)

lemma state_to_words_to_state [simp]: "state_to_words (words_to_state w) = w"
proof (cases w)
  case (Quad a b c d)
  show ?thesis
    using be32_split[of a] be32_split[of b] be32_split[of c] be32_split[of d]
    by (simp add: Quad state_to_words_def words_to_state_def column_word_be32 del: column_word.simps)
qed

lemma words_to_state_to_words [simp]: "words_to_state (state_to_words s) = s"
proof (induction s rule: shift_rows.induct)
  case (1 s00 s01 s02 s03 s10 s11 s12 s13 s20 s21 s22 s23 s30 s31 s32 s33)
  show ?case
    by (simp add: state_to_words_def words_to_state_def column_word_be32 be32_bytes
        del: column_word.simps)
qed

section \<open>The round loops\<close>

lemma decrypt_rounds_undo:
  "fold (\<lambda>r. decrypt_round (rks r)) (rev rs)
     (shift_rows (sub_bytes (fold (\<lambda>r. encrypt_round (rks r)) rs s))) = shift_rows (sub_bytes s)"
  by (induction rs rule: rev_induct) (simp_all add: decrypt_round_def encrypt_round_def)

lemma encrypt_rounds_undo:
  "fold (\<lambda>r. encrypt_round (rks r)) rs
     (inv_sub_bytes (inv_shift_rows (fold (\<lambda>r. decrypt_round (rks r)) (rev rs) s)))
     = inv_sub_bytes (inv_shift_rows s)"
  by (induction rs arbitrary: s rule: rev_induct) (simp_all add: decrypt_round_def encrypt_round_def)

section \<open>The cipher as an interface\<close>

text \<open>
  What the memory, the sealed image and the processor rely on: for every key the two block
  functions are inverse to each other.
\<close>

locale block_cipher =
  fixes enc :: "'b \<Rightarrow> 'k \<Rightarrow> 'b" and dec :: "'b \<Rightarrow> 'k \<Rightarrow> 'b"
  assumes dec_enc: "dec (enc x k) k = x"
    and enc_dec: "enc (dec x k) k = x"
begin

lemma enc_inject: "enc x k = enc y k \<longleftrightarrow> x = y"
  by (metis dec_enc)

lemma enc_bij: "bij (\<lambda>x. enc x k)"
  by (rule bij_betw_byWitness[where f' = "\<lambda>x. dec x k"]) (simp_all add: dec_enc enc_dec)

text \<open>Read-modify-write of one block: the other positions keep their plain value.\<close>

lemma read_modify_write: "dec (enc (upd (dec c k)) k) k = upd (dec c k)"
  by (rule dec_enc)

lemma map_blocks: "map (\<lambda>b. dec b k) (map (\<lambda>b. enc b k) bs) = bs"
  by (simp add: o_def dec_enc)

end

interpretation aes: block_cipher aes_encrypt_block aes_decrypt_block
proof unfold_locales
  show "aes_decrypt_block (aes_encrypt_block x k) k = x" for x k
    by (simp add: aes_encrypt_block_def aes_decrypt_block_def decrypt_rounds_undo)
  show "aes_encrypt_block (aes_decrypt_block x k) k = x" for x k
    by (simp add: aes_encrypt_block_def aes_decrypt_block_def encrypt_rounds_undo)
qed

text \<open>C15: \<open>aes_decrypt_block\<close> and \<open>aes_encrypt_block\<close> of \<open>src/3d.cpp\<close> are inverse to each
  other under every key: what one writes the other reads back, in both orders.\<close>

theorem aes_round_trip:
  "aes_decrypt_block (aes_encrypt_block x k) k = x
   \<and> aes_encrypt_block (aes_decrypt_block x k) k = x"
  by (simp add: aes.dec_enc aes.enc_dec)

section \<open>Known answer of FIPS-197, appendix C.1\<close>

lemma kat_expanded_key:
  "expanded_key (words_to_state (Quad 0x00010203 0x04050607 0x08090A0B 0x0C0D0E0F)) =
    [0x00010203, 0x04050607, 0x08090a0b, 0x0c0d0e0f, 0xd6aa74fd, 0xd2af72fa, 0xdaa678f1,
     0xd6ab76fe, 0xb692cf0b, 0x643dbdf1, 0xbe9bc500, 0x6830b3fe, 0xb6ff744e, 0xd2c2c9bf,
     0x6c590cbf, 0x0469bf41, 0x47f7f7bc, 0x95353e03, 0xf96c32bc, 0xfd058dfd, 0x3caaa3e8,
     0xa99f9deb, 0x50f3af57, 0xadf622aa, 0x5e390f7d, 0xf7a69296, 0xa7553dc1, 0x0aa31f6b,
     0x14f9701a, 0xe35fe28c, 0x440adf4d, 0x4ea9c026, 0x47438735, 0xa41c65b9, 0xe016baf4,
     0xaebf7ad2, 0x549932d1, 0xf0855768, 0x1093ed9c, 0xbe2c974e, 0x13111d7f, 0xe3944a17,
     0xf307a78b, 0x4d2b30c5]"
  by (simp add: expanded_key_def for_up_def upt_rec expand_step_def sub_word_def sbox_def Rcon_def
      words_to_state_def state_to_words_def)

lemma kat_round_keys:
  "key_expansion (words_to_state (Quad 0x00010203 0x04050607 0x08090A0B 0x0C0D0E0F)) 0 =
     (Quad (Quad 0x00 0x04 0x08 0x0c) (Quad 0x01 0x05 0x09 0x0d) (Quad 0x02 0x06 0x0a 0x0e) (Quad 0x03 0x07 0x0b 0x0f))"
  "key_expansion (words_to_state (Quad 0x00010203 0x04050607 0x08090A0B 0x0C0D0E0F)) 1 =
     (Quad (Quad 0xd6 0xd2 0xda 0xd6) (Quad 0xaa 0xaf 0xa6 0xab) (Quad 0x74 0x72 0x78 0x76) (Quad 0xfd 0xfa 0xf1 0xfe))"
  "key_expansion (words_to_state (Quad 0x00010203 0x04050607 0x08090A0B 0x0C0D0E0F)) 2 =
     (Quad (Quad 0xb6 0x64 0xbe 0x68) (Quad 0x92 0x3d 0x9b 0x30) (Quad 0xcf 0xbd 0xc5 0xb3) (Quad 0x0b 0xf1 0x00 0xfe))"
  "key_expansion (words_to_state (Quad 0x00010203 0x04050607 0x08090A0B 0x0C0D0E0F)) 3 =
     (Quad (Quad 0xb6 0xd2 0x6c 0x04) (Quad 0xff 0xc2 0x59 0x69) (Quad 0x74 0xc9 0x0c 0xbf) (Quad 0x4e 0xbf 0xbf 0x41))"
  "key_expansion (words_to_state (Quad 0x00010203 0x04050607 0x08090A0B 0x0C0D0E0F)) 4 =
     (Quad (Quad 0x47 0x95 0xf9 0xfd) (Quad 0xf7 0x35 0x6c 0x05) (Quad 0xf7 0x3e 0x32 0x8d) (Quad 0xbc 0x03 0xbc 0xfd))"
  "key_expansion (words_to_state (Quad 0x00010203 0x04050607 0x08090A0B 0x0C0D0E0F)) 5 =
     (Quad (Quad 0x3c 0xa9 0x50 0xad) (Quad 0xaa 0x9f 0xf3 0xf6) (Quad 0xa3 0x9d 0xaf 0x22) (Quad 0xe8 0xeb 0x57 0xaa))"
  "key_expansion (words_to_state (Quad 0x00010203 0x04050607 0x08090A0B 0x0C0D0E0F)) 6 =
     (Quad (Quad 0x5e 0xf7 0xa7 0x0a) (Quad 0x39 0xa6 0x55 0xa3) (Quad 0x0f 0x92 0x3d 0x1f) (Quad 0x7d 0x96 0xc1 0x6b))"
  "key_expansion (words_to_state (Quad 0x00010203 0x04050607 0x08090A0B 0x0C0D0E0F)) 7 =
     (Quad (Quad 0x14 0xe3 0x44 0x4e) (Quad 0xf9 0x5f 0x0a 0xa9) (Quad 0x70 0xe2 0xdf 0xc0) (Quad 0x1a 0x8c 0x4d 0x26))"
  "key_expansion (words_to_state (Quad 0x00010203 0x04050607 0x08090A0B 0x0C0D0E0F)) 8 =
     (Quad (Quad 0x47 0xa4 0xe0 0xae) (Quad 0x43 0x1c 0x16 0xbf) (Quad 0x87 0x65 0xba 0x7a) (Quad 0x35 0xb9 0xf4 0xd2))"
  "key_expansion (words_to_state (Quad 0x00010203 0x04050607 0x08090A0B 0x0C0D0E0F)) 9 =
     (Quad (Quad 0x54 0xf0 0x10 0xbe) (Quad 0x99 0x85 0x93 0x2c) (Quad 0x32 0x57 0xed 0x97) (Quad 0xd1 0x68 0x9c 0x4e))"
  "key_expansion (words_to_state (Quad 0x00010203 0x04050607 0x08090A0B 0x0C0D0E0F)) 10 =
     (Quad (Quad 0x13 0xe3 0xf3 0x4d) (Quad 0x11 0x94 0x07 0x2b) (Quad 0x1d 0x4a 0xa7 0x30) (Quad 0x7f 0x17 0x8b 0xc5))"
  by (simp_all only: key_expansion_def kat_expanded_key)
     (simp_all add: quad_gen_def words_to_state_def)

lemma kat_rounds:
  "encrypt_round (Quad (Quad 0xd6 0xd2 0xda 0xd6) (Quad 0xaa 0xaf 0xa6 0xab) (Quad 0x74 0x72 0x78 0x76) (Quad 0xfd 0xfa 0xf1 0xfe))
     (Quad (Quad 0x00 0x40 0x80 0xc0) (Quad 0x10 0x50 0x90 0xd0) (Quad 0x20 0x60 0xa0 0xe0) (Quad 0x30 0x70 0xb0 0xf0)) =
     (Quad (Quad 0x89 0x85 0x2d 0xcb) (Quad 0xd8 0x5a 0x18 0x12) (Quad 0x10 0xce 0x43 0x8f) (Quad 0xe8 0x68 0xd8 0xe4))"
  "encrypt_round (Quad (Quad 0xb6 0x64 0xbe 0x68) (Quad 0x92 0x3d 0x9b 0x30) (Quad 0xcf 0xbd 0xc5 0xb3) (Quad 0x0b 0xf1 0x00 0xfe))
     (Quad (Quad 0x89 0x85 0x2d 0xcb) (Quad 0xd8 0x5a 0x18 0x12) (Quad 0x10 0xce 0x43 0x8f) (Quad 0xe8 0x68 0xd8 0xe4)) =
     (Quad (Quad 0x49 0x55 0xda 0x1f) (Quad 0x15 0xe5 0xca 0x0a) (Quad 0x59 0xd7 0x94 0x63) (Quad 0x8f 0xa0 0xfa 0xf7))"
  "encrypt_round (Quad (Quad 0xb6 0xd2 0x6c 0x04) (Quad 0xff 0xc2 0x59 0x69) (Quad 0x74 0xc9 0x0c 0xbf) (Quad 0x4e 0xbf 0xbf 0x41))
     (Quad (Quad 0x49 0x55 0xda 0x1f) (Quad 0x15 0xe5 0xca 0x0a) (Quad 0x59 0xd7 0x94 0x63) (Quad 0x8f 0xa0 0xfa 0xf7)) =
     (Quad (Quad 0xfa 0x25 0x40 0x57) (Quad 0x63 0xb3 0x66 0x24) (Quad 0x6a 0x39 0x8a 0x4d) (Quad 0x28 0xc9 0x31 0x17))"
  "encrypt_round (Quad (Quad 0x47 0x95 0xf9 0xfd) (Quad 0xf7 0x35 0x6c 0x05) (Quad 0xf7 0x3e 0x32 0x8d) (Quad 0xbc 0x03 0xbc 0xfd))
     (Quad (Quad 0xfa 0x25 0x40 0x57) (Quad 0x63 0xb3 0x66 0x24) (Quad 0x6a 0x39 0x8a 0x4d) (Quad 0x28 0xc9 0x31 0x17)) =
     (Quad (Quad 0x24 0x69 0x6e 0x88) (Quad 0x72 0x66 0xd2 0x42) (Quad 0x40 0xb3 0x75 0x5b) (Quad 0x23 0xfa 0x32 0x6c))"
  "encrypt_round (Quad (Quad 0x3c 0xa9 0x50 0xad) (Quad 0xaa 0x9f 0xf3 0xf6) (Quad 0xa3 0x9d 0xaf 0x22) (Quad 0xe8 0xeb 0x57 0xaa))
     (Quad (Quad 0x24 0x69 0x6e 0x88) (Quad 0x72 0x66 0xd2 0x42) (Quad 0x40 0xb3 0x75 0x5b) (Quad 0x23 0xfa 0x32 0x6c)) =
     (Quad (Quad 0xc8 0x9b 0x25 0xb0) (Quad 0x16 0x7a 0x02 0x26) (Quad 0x77 0xc9 0x79 0x19) (Quad 0xbc 0x3b 0x92 0x96))"
  "encrypt_round (Quad (Quad 0x5e 0xf7 0xa7 0x0a) (Quad 0x39 0xa6 0x55 0xa3) (Quad 0x0f 0x92 0x3d 0x1f) (Quad 0x7d 0x96 0xc1 0x6b))
     (Quad (Quad 0xc8 0x9b 0x25 0xb0) (Quad 0x16 0x7a 0x02 0x26) (Quad 0x77 0xc9 0x79 0x19) (Quad 0xbc 0x3b 0x92 0x96)) =
     (Quad (Quad 0xc6 0xf7 0xcc 0x84) (Quad 0x2f 0x5e 0x79 0xf9) (Quad 0xe1 0xed 0x39 0xcf) (Quad 0x09 0xc3 0x5d 0x5d))"
  "encrypt_round (Quad (Quad 0x14 0xe3 0x44 0x4e) (Quad 0xf9 0x5f 0x0a 0xa9) (Quad 0x70 0xe2 0xdf 0xc0) (Quad 0x1a 0x8c 0x4d 0x26))
     (Quad (Quad 0xc6 0xf7 0xcc 0x84) (Quad 0x2f 0x5e 0x79 0xf9) (Quad 0xe1 0xed 0x39 0xcf) (Quad 0x09 0xc3 0x5d 0x5d)) =
     (Quad (Quad 0xd1 0x79 0xb4 0xd6) (Quad 0x87 0xc4 0x55 0x6f) (Quad 0x6c 0x30 0x94 0xf4) (Quad 0x0f 0x0a 0xad 0x1f))"
  "encrypt_round (Quad (Quad 0x47 0xa4 0xe0 0xae) (Quad 0x43 0x1c 0x16 0xbf) (Quad 0x87 0x65 0xba 0x7a) (Quad 0x35 0xb9 0xf4 0xd2))
     (Quad (Quad 0xd1 0x79 0xb4 0xd6) (Quad 0x87 0xc4 0x55 0x6f) (Quad 0x6c 0x30 0x94 0xf4) (Quad 0x0f 0x0a 0xad 0x1f)) =
     (Quad (Quad 0xfd 0x05 0x35 0xf1) (Quad 0xe3 0xe5 0x47 0xfe) (Quad 0xba 0xd0 0x96 0x37) (Quad 0xd2 0xd7 0x4e 0xf1))"
  "encrypt_round (Quad (Quad 0x54 0xf0 0x10 0xbe) (Quad 0x99 0x85 0x93 0x2c) (Quad 0x32 0x57 0xed 0x97) (Quad 0xd1 0x68 0x9c 0x4e))
     (Quad (Quad 0xfd 0x05 0x35 0xf1) (Quad 0xe3 0xe5 0x47 0xfe) (Quad 0xba 0xd0 0x96 0x37) (Quad 0xd2 0xd7 0x4e 0xf1)) =
     (Quad (Quad 0xbd 0xf2 0x0b 0x8b) (Quad 0x6e 0xb5 0x61 0x10) (Quad 0x7c 0x77 0x21 0xb6) (Quad 0x3d 0x9e 0x6e 0x89))"
  by (simp_all add: encrypt_round_def sub_bytes_def sbox_def mix_columns_def add_round_key_def
      galois_mul_consts xtime_def)

text \<open>The model of \<open>aes_encrypt_block\<close> reproduces the FIPS-197 appendix C.1 vector that
  \<open>src/crypto_kat_test.cpp\<close> tests, and \<open>aes_decrypt_block\<close> recovers its plaintext.\<close>

theorem aes_fips197_kat:
  "aes_encrypt_block (Quad 0x00112233 0x44556677 0x8899AABB 0xCCDDEEFF)
     (Quad 0x00010203 0x04050607 0x08090A0B 0x0C0D0E0F)
     = Quad 0x69C4E0D8 0x6A7B0430 0xD8CDB780 0x70B4C55A
   \<and> aes_decrypt_block (Quad 0x69C4E0D8 0x6A7B0430 0xD8CDB780 0x70B4C55A)
     (Quad 0x00010203 0x04050607 0x08090A0B 0x0C0D0E0F)
     = Quad 0x00112233 0x44556677 0x8899AABB 0xCCDDEEFF"
  (is "?enc = ?c \<and> ?dec = ?p")
proof
  have init: "add_round_key (words_to_state (Quad 0x00112233 0x44556677 0x8899AABB 0xCCDDEEFF))
       (Quad (Quad 0x00 0x04 0x08 0x0c) (Quad 0x01 0x05 0x09 0x0d) (Quad 0x02 0x06 0x0a 0x0e) (Quad 0x03 0x07 0x0b 0x0f)) =
       (Quad (Quad 0x00 0x40 0x80 0xc0) (Quad 0x10 0x50 0x90 0xd0) (Quad 0x20 0x60 0xa0 0xe0) (Quad 0x30 0x70 0xb0 0xf0))"
    by (simp add: words_to_state_def add_round_key_def)
  have rounds: "[1..<10] = [1, 2, 3, 4, 5, 6, 7, 8, 9::nat]"
    by (simp add: upt_rec)
  show enc: "?enc = ?c"
    unfolding aes_encrypt_block_def Let_def kat_round_keys init
    by (simp only: rounds fold_simps id_apply o_apply kat_round_keys kat_rounds)
       (simp add: sub_bytes_def sbox_def add_round_key_def state_to_words_def)
  show "?dec = ?p"
    by (metis enc aes.dec_enc)
qed

end
