(* ===== verification/Bit_Scatter.thy ===== *)
theory Bit_Scatter
  imports Machine_Words
begin

text \<open>
  Hiding a key bit by bit in the words of a store. \<open>StackedMemory3D::hideKeyInLayer\<close> and
  \<open>secure_hide_wrapped\<close> write bit \<open>i\<close> of the key to bit position \<open>positions[i]\<close> of the layer, the
  extraction routines collect the bits again. Both pairs run the same loop over different
  word accessors; the locale \<open>word_store\<close> states what the loops need of the accessors, and
  the round trip and frame lemmas are proved once inside it.
\<close>

definition set_bit_to :: "u32 \<Rightarrow> nat \<Rightarrow> u32 \<Rightarrow> u32" where
  "set_bit_to w b v = (w AND NOT (push_bit b 1)) OR push_bit b v"

lemma bit_set_bit_to:
  "b < 32 \<Longrightarrow> n < 32 \<Longrightarrow> bit (set_bit_to w b (v AND 1)) n = (if n = b then bit v 0 else bit w n)"
  by (auto simp: set_bit_to_def bit_simps)

definition scatter ::
  "('s \<Rightarrow> nat \<Rightarrow> u32) \<Rightarrow> ('s \<Rightarrow> nat \<Rightarrow> u32 \<Rightarrow> 's) \<Rightarrow> u32 list \<Rightarrow> nat list \<Rightarrow> 's \<Rightarrow> 's" where
  "scatter rd wr key pos s = for_up 0 (length pos)
     (\<lambda>i s. wr s (pos ! i div 32)
        (set_bit_to (rd s (pos ! i div 32)) (pos ! i mod 32) (drop_bit (i mod 32) (key ! (i div 32)) AND 1))) s"

definition gather :: "(nat \<Rightarrow> u32) \<Rightarrow> nat list \<Rightarrow> nat \<Rightarrow> u32 list" where
  "gather rd pos n = for_up 0 (length pos)
     (\<lambda>i key. key[i div 32 := key ! (i div 32) OR
        push_bit (i mod 32) (drop_bit (pos ! i mod 32) (rd (pos ! i div 32)) AND 1)]) (replicate n 0)"

lemma length_gather [simp]: "length (gather rd pos n) = n"
  unfolding gather_def by (rule for_up_invariant) simp_all

lemma gather_cong:
  assumes "\<And>x. x \<in> set pos \<Longrightarrow> rd (x div 32) = rd' (x div 32)"
  shows "gather rd pos n = gather rd' pos n"
  unfolding gather_def for_up_def by (rule fold_cong) (auto simp: assms)

lemma bit_gather:
  assumes len: "length pos = 32 * n" and j: "j < n" and b: "b < 32"
  shows "bit (gather rd pos n ! j) b = bit (rd (pos ! (32 * j + b) div 32)) (pos ! (32 * j + b) mod 32)"
proof -
  let ?step = "\<lambda>i key. key[i div 32 := key ! (i div 32) OR
        push_bit (i mod 32) (drop_bit (pos ! i mod 32) (rd (pos ! i div 32)) AND 1)]"
  have inv: "k \<le> length pos \<Longrightarrow> length (for_up 0 k ?step (replicate n 0)) = n \<and>
     (\<forall>j<n. \<forall>b<32. bit (for_up 0 k ?step (replicate n 0) ! j) b =
        (32 * j + b < k \<and> bit (rd (pos ! (32 * j + b) div 32)) (pos ! (32 * j + b) mod 32)))" for k
  proof (induction k)
    case (Suc k)
    let ?key = "for_up 0 k ?step (replicate n 0)"
    have k: "k div 32 < n" using Suc.prems len by (simp add: less_mult_imp_div_less mult.commute)
    have IH: "length ?key = n" "\<And>j b. j < n \<Longrightarrow> b < 32 \<Longrightarrow> bit (?key ! j) b =
        (32 * j + b < k \<and> bit (rd (pos ! (32 * j + b) div 32)) (pos ! (32 * j + b) mod 32))"
      using Suc by auto
    have "bit (?step k ?key ! j) b =
        (32 * j + b < Suc k \<and> bit (rd (pos ! (32 * j + b) div 32)) (pos ! (32 * j + b) mod 32))"
      if "j < n" "b < 32" for j b
    proof (cases "32 * j + b = k")
      case True
      then have kd: "k div 32 = j" "k mod 32 = b" using that by auto
      have "bit (?step k ?key ! j) b \<longleftrightarrow> bit (?key ! j) b \<or>
          bit (push_bit b (drop_bit (pos ! k mod 32) (rd (pos ! k div 32)) AND 1)) b"
        using that IH(1) by (simp add: kd bit_simps)
      then show ?thesis using IH(2)[OF that] True that by (simp add: bit_simps)
    next
      case False
      have "\<not> (j = k div 32 \<and> b = k mod 32)" using False that by auto
      then have "bit (?step k ?key ! j) b = bit (?key ! j) b"
        using that k IH(1) by (cases "j = k div 32") (auto simp: bit_simps)
      then show ?thesis using IH(2)[OF that] False by (auto simp: less_Suc_eq)
    qed
    then show ?case using IH(1) by (simp add: for_up_Suc)
  qed simp
  have "32 * j + b < length pos" using len j b by auto
  then show ?thesis using inv[of "length pos"] j b by (simp add: gather_def)
qed

section \<open>What the loops need of a store of words\<close>

locale word_store =
  fixes rd :: "'s \<Rightarrow> nat \<Rightarrow> u32"
    and wr :: "'s \<Rightarrow> nat \<Rightarrow> u32 \<Rightarrow> 's"
    and ok :: "'s \<Rightarrow> bool"
    and cells :: nat
  assumes wr_ok: "ok s \<Longrightarrow> w < cells \<Longrightarrow> ok (wr s w v)"
    and rd_wr: "ok s \<Longrightarrow> w < cells \<Longrightarrow> x < cells \<Longrightarrow> rd (wr s w v) x = (if x = w then v else rd s x)"
begin

lemma scatter_bits:
  assumes "ok s" and range: "set pos \<subseteq> {..<32 * cells}" and dist: "distinct pos"
  shows "ok (scatter rd wr key pos s) \<and>
    (\<forall>i<length pos. bit (rd (scatter rd wr key pos s) (pos ! i div 32)) (pos ! i mod 32) =
        bit (key ! (i div 32)) (i mod 32)) \<and>
    (\<forall>x<cells. \<forall>b<32. 32 * x + b \<notin> set pos \<longrightarrow>
        bit (rd (scatter rd wr key pos s) x) b = bit (rd s x) b)"
proof -
  let ?step = "\<lambda>i s. wr s (pos ! i div 32)
        (set_bit_to (rd s (pos ! i div 32)) (pos ! i mod 32) (drop_bit (i mod 32) (key ! (i div 32)) AND 1))"
  define S where "S = (\<lambda>k. for_up 0 k ?step s)"
  have inv: "k \<le> length pos \<Longrightarrow> ok (S k) \<and>
    (\<forall>i<k. bit (rd (S k) (pos ! i div 32)) (pos ! i mod 32) = bit (key ! (i div 32)) (i mod 32)) \<and>
    (\<forall>x<cells. \<forall>b<32. 32 * x + b \<notin> set (take k pos) \<longrightarrow> bit (rd (S k) x) b = bit (rd s x) b)" for k
  proof (induction k)
    case 0
    then show ?case using assms(1) by (simp add: S_def)
  next
    case (Suc k)
    have ok: "ok (S k)" and old: "\<And>i. i < k \<Longrightarrow>
        bit (rd (S k) (pos ! i div 32)) (pos ! i mod 32) = bit (key ! (i div 32)) (i mod 32)"
      and frame: "\<And>x b. x < cells \<Longrightarrow> b < 32 \<Longrightarrow> 32 * x + b \<notin> set (take k pos) \<Longrightarrow>
        bit (rd (S k) x) b = bit (rd s x) b"
      using Suc by auto
    have in_range: "pos ! i div 32 < cells" if "i \<le> k" for i
    proof -
      have "pos ! i \<in> set pos" using that Suc.prems by simp
      then show ?thesis using range by (auto simp: less_mult_imp_div_less mult.commute)
    qed
    have step: "S (Suc k) = ?step k (S k)" by (simp add: S_def for_up_Suc)
    have bits: "bit (rd (S (Suc k)) x) b =
        (if x = pos ! k div 32 \<and> b = pos ! k mod 32 then bit (key ! (k div 32)) (k mod 32)
         else bit (rd (S k) x) b)" if "x < cells" "b < 32" for x b
      using that by (simp add: step rd_wr ok in_range bit_set_bit_to bit_simps)
    have pair: "pos ! i = pos ! k" if "pos ! i div 32 = pos ! k div 32" "pos ! i mod 32 = pos ! k mod 32" for i
      using that by (metis div_mult_mod_eq)
    have "\<forall>i<Suc k. bit (rd (S (Suc k)) (pos ! i div 32)) (pos ! i mod 32) = bit (key ! (i div 32)) (i mod 32)"
    proof (intro allI impI)
      fix i assume i: "i < Suc k"
      have "i < k \<Longrightarrow> pos ! i \<noteq> pos ! k" using dist Suc.prems by (simp add: nth_eq_iff_index_eq)
      then show "bit (rd (S (Suc k)) (pos ! i div 32)) (pos ! i mod 32) = bit (key ! (i div 32)) (i mod 32)"
        using i old[of i] pair[of i] by (auto simp: bits in_range less_Suc_eq split: if_splits)
    qed
    moreover have "bit (rd (S (Suc k)) x) b = bit (rd s x) b"
      if "x < cells" "b < 32" "32 * x + b \<notin> set (take (Suc k) pos)" for x b
    proof -
      have "32 * x + b \<notin> set (take k pos)" "32 * x + b \<noteq> pos ! k"
        using that(3) Suc.prems by (auto simp: take_Suc_conv_app_nth)
      moreover have "\<not> (x = pos ! k div 32 \<and> b = pos ! k mod 32)"
        using calculation(2) by (metis mult_div_mod_eq)
      ultimately show ?thesis using that by (auto simp: bits frame)
    qed
    moreover have "ok (S (Suc k))" by (simp add: step wr_ok ok in_range)
    ultimately show ?case by blast
  qed
  show ?thesis using inv[of "length pos"] by (simp add: S_def scatter_def)
qed

lemma scatter_ok:
  "ok s \<Longrightarrow> set pos \<subseteq> {..<32 * cells} \<Longrightarrow> distinct pos \<Longrightarrow> ok (scatter rd wr key pos s)"
  using scatter_bits by blast

lemma gather_scatter:
  assumes "ok s" "set pos \<subseteq> {..<32 * cells}" "distinct pos" and len: "length pos = 32 * length key"
  shows "gather (rd (scatter rd wr key pos s)) pos (length key) = key"
proof (rule nth_equalityI)
  fix j assume "j < length (gather (rd (scatter rd wr key pos s)) pos (length key))"
  then have j: "j < length key" by simp
  show "gather (rd (scatter rd wr key pos s)) pos (length key) ! j = key ! j"
  proof (rule bit_word_eqI)
    fix b assume "b < LENGTH(32)"
    then have b: "b < 32" by simp
    have "32 * j + b < length pos" using j b len by simp
    then show "bit (gather (rd (scatter rd wr key pos s)) pos (length key) ! j) b = bit (key ! j) b"
      using scatter_bits[OF assms(1-3), of key] b by (simp add: bit_gather[OF len j b])
  qed
qed simp

lemma scatter_frame:
  assumes "ok s" "set pos \<subseteq> {..<32 * cells}" "distinct pos" and x: "x < cells"
    and "\<forall>p\<in>set pos. p div 32 \<noteq> x"
  shows "rd (scatter rd wr key pos s) x = rd s x"
proof (rule bit_word_eqI)
  fix b assume "b < LENGTH(32)"
  then have "b < 32" by simp
  moreover have "32 * x + b \<notin> set pos" using assms(5) \<open>b < 32\<close> by fastforce
  ultimately show "bit (rd (scatter rd wr key pos s) x) b = bit (rd s x) b"
    using scatter_bits[OF assms(1-3), of key] x by blast
qed

end

end
