(* ===== verification/Stacked_Memory.thy ===== *)
theory Stacked_Memory
  imports AES Bit_Scatter
begin

text \<open>
  The four-layer stacked memory of \<open>src/3d.h\<close> (class \<open>StackedMemory3D\<close>). The record \<open>smem\<close>
  holds its members; it extends the record of the caches of \<open>src/3d.cpp\<close>, global variables
  that the memory resets through \<open>invalidateCaches\<close>. Arrays are functions of their index, and
  every access the code guards is guarded here. \<open>SIZE_MAX\<close> as "no processing layer" is
  \<open>None\<close>; a pointer with a length is a list. The log of a layer is its array of
  \<open>MAX_LOG_LEN\<close> characters.
\<close>

section \<open>Caches\<close>

record caches =
  iCache_data :: "nat \<Rightarrow> block"
  iCache_tag :: "nat \<Rightarrow> u32"
  iCache_valid :: "nat \<Rightarrow> bool"
  dcache_data :: "nat \<Rightarrow> u32"
  dcache_tag :: "nat \<Rightarrow> u32"
  dcache_valid :: "nat \<Rightarrow> bool"

definition invalidateCaches :: "'a caches_scheme \<Rightarrow> 'a caches_scheme" where
  "invalidateCaches s =
     s\<lparr>iCache_valid := (\<lambda>i. if i < 4 then False else iCache_valid s i),
       dcache_valid := (\<lambda>i. if i < 4 then False else dcache_valid s i)\<rparr>"

section \<open>State\<close>

abbreviation (input) INSTRS_PER_BLOCK :: nat where "INSTRS_PER_BLOCK \<equiv> 4"
abbreviation (input) MAX_LAYERS :: nat where "MAX_LAYERS \<equiv> 4"
abbreviation (input) MAX_WORDS :: nat where "MAX_WORDS \<equiv> 1024"
abbreviation (input) MAX_LOG_LEN :: nat where "MAX_LOG_LEN \<equiv> 128"
abbreviation (input) DEFAULT_LAYER :: nat where "DEFAULT_LAYER \<equiv> 0"

record smem = caches +
  lfsr_state :: u32
  layer_is_encrypted :: "nat \<Rightarrow> bool"
  layer_has_hidden_key :: "nat \<Rightarrow> bool"
  disable_processing_scramble :: bool
  tamper_detected :: bool
  security_lockdown :: bool
  tamper_events :: u32
  processing_layer :: "nat option"
  hardware_root :: block
  layer_keys :: "nat \<Rightarrow> block"
  memory :: "nat \<Rightarrow> nat \<Rightarrow> u32"
  layer_access :: "nat \<Rightarrow> bool"
  layer_log :: "nat \<Rightarrow> string"
  num_layers :: nat
  num_words :: nat

definition isValidLayer :: "'a smem_scheme \<Rightarrow> nat \<Rightarrow> bool" where
  "isValidLayer s layer \<longleftrightarrow> layer < num_layers s \<and> layer < MAX_LAYERS"

definition normalizeLayer :: "'a smem_scheme \<Rightarrow> nat \<Rightarrow> nat" where
  "normalizeLayer s layer = (if isValidLayer s layer then layer else DEFAULT_LAYER)"

section \<open>Logs\<close>

text \<open>\<open>dst\<close> is the whole array; the copy starts at its first NUL and stops one short of the end.\<close>

definition appendLog :: "string \<Rightarrow> string \<Rightarrow> string" where
  "appendLog dst tag =
     (let len = length (takeWhile (\<lambda>c. c \<noteq> CHR 0x00) dst);
          n = min (length tag) (MAX_LOG_LEN - 1 - len)
      in (take len dst @ take n tag @ drop (len + n) dst)[MAX_LOG_LEN - 1 := CHR 0x00])"

fun digit_char :: "nat \<Rightarrow> char" where
  "digit_char d = (if d < 10 then char_of (48 + d) else char_of (55 + d))"

text \<open>\<open>%u\<close> and \<open>%08X\<close> of \<open>snprintf\<close>, and its truncation to the buffer.\<close>

fun format_u :: "nat \<Rightarrow> string" where
  "format_u n = (if n < 10 then [digit_char n] else format_u (n div 10) @ [digit_char (n mod 10)])"

declare format_u.simps [simp del]

definition format_08X :: "u32 \<Rightarrow> string" where
  "format_08X w = map (\<lambda>i. digit_char (unat (drop_bit (4 * (7 - i)) w AND 0xF))) [0..<8]"

definition snprintf :: "nat \<Rightarrow> string \<Rightarrow> string" where
  "snprintf sz txt = take (sz - 1) txt"

definition add_log :: "'a smem_scheme \<Rightarrow> nat \<Rightarrow> string \<Rightarrow> 'a smem_scheme" where
  "add_log s layer txt = s\<lparr>layer_log := (layer_log s)(layer := appendLog (layer_log s layer) txt)\<rparr>"

section \<open>Keys of the layers\<close>

definition deriveLayerKeyWord :: "block \<Rightarrow> nat \<Rightarrow> nat \<Rightarrow> u32" where
  "deriveLayerKeyWord root layer wd =
     (let x = quad_nth root (wd mod 4);
          x = x XOR mix32 (quad_nth root ((wd + 1) mod 4) XOR of_nat (layer + 1));
          x = x XOR mix32 (quad_nth root ((wd + 2) mod 4) XOR of_nat (wd + 1));
          x = x XOR 0x9E3779B9 * of_nat (layer + 1);
          x = x XOR 0x85EBCA6B * of_nat (wd + 1);
          x = x XOR (push_bit 16 (of_nat layer) XOR of_nat wd)
      in mix32 x)"

definition initLayerKeys :: "'a smem_scheme \<Rightarrow> 'a smem_scheme" where
  "initLayerKeys s =
     s\<lparr>layer_keys := (\<lambda>l. if l < MAX_LAYERS then quad_gen (deriveLayerKeyWord (hardware_root s) l)
                         else layer_keys s l)\<rparr>"

definition deriveHardwareWord :: "'a smem_scheme \<Rightarrow> u32 \<Rightarrow> u32 \<Rightarrow> u32" where
  "deriveHardwareWord s nonce salt =
     (let root = (\<lambda>x::u32. quad_nth (hardware_root s) (unat (x AND 3)));
          x = root salt XOR nonce XOR (salt * 0x9E3779B9);
          x = x XOR mix32 (root (salt + 1) XOR 0xA5C39D27);
          x = x XOR mix32 (root (salt + 2) XOR 0x3C6EF372)
      in mix32 x XOR root (salt + 3))"

definition StackedMemory3D :: "nat \<Rightarrow> nat \<Rightarrow> smem" where
  "StackedMemory3D layers words_per_layer =
     (let nl = (if layers = 0 then 1 else layers);
          nl = (if nl > MAX_LAYERS then MAX_LAYERS else nl);
          nw = (if words_per_layer > MAX_WORDS then MAX_WORDS else words_per_layer);
          nw = (nw div INSTRS_PER_BLOCK) * INSTRS_PER_BLOCK;
          nw = (if nw = 0 then INSTRS_PER_BLOCK else nw)
      in initLayerKeys
        \<lparr>iCache_data = (\<lambda>_. Quad 0 0 0 0), iCache_tag = (\<lambda>_. 0), iCache_valid = (\<lambda>_. False),
         dcache_data = (\<lambda>_. 0), dcache_tag = (\<lambda>_. 0), dcache_valid = (\<lambda>_. False),
         lfsr_state = 0xACE1, layer_is_encrypted = (\<lambda>_. False), layer_has_hidden_key = (\<lambda>_. False),
         disable_processing_scramble = False, tamper_detected = False, security_lockdown = False,
         tamper_events = 0, processing_layer = None,
         hardware_root = Quad 0x2B7E1516 0x28AED2A6 0xABF71588 0x09CF4F3C,
         layer_keys = (\<lambda>_. Quad 0 0 0 0), memory = (\<lambda>_ _. 0), layer_access = (\<lambda>l. l < nl),
         layer_log = (\<lambda>_. replicate MAX_LOG_LEN (CHR 0x00)), num_layers = nl, num_words = nw\<rparr>)"

section \<open>Basic information and policies\<close>

definition getNumLayers :: "'a smem_scheme \<Rightarrow> nat" where
  "getNumLayers s = num_layers s"

definition getNumWords :: "'a smem_scheme \<Rightarrow> nat" where
  "getNumWords s = num_words s"

definition addLayers :: "'a smem_scheme \<Rightarrow> nat \<Rightarrow> 'a smem_scheme" where
  "addLayers s count =
     (let requested = (num_layers s + count) mod 2 ^ 64;
          requested = (if requested > MAX_LAYERS then MAX_LAYERS else requested);
          fresh = (\<lambda>l. num_layers s \<le> l \<and> l < requested);
          s = s\<lparr>layer_access := (\<lambda>l. if fresh l then True else layer_access s l),
                layer_is_encrypted := (\<lambda>l. if fresh l then False else layer_is_encrypted s l),
                layer_has_hidden_key := (\<lambda>l. if fresh l then False else layer_has_hidden_key s l),
                layer_log := (\<lambda>l. if fresh l then (layer_log s l)[0 := CHR 0x00] else layer_log s l),
                memory := (\<lambda>l w. if fresh l \<and> w < num_words s then 0 else memory s l w),
                num_layers := requested\<rparr>
      in add_log s DEFAULT_LAYER ''[LAYERS UPDATED] '')"

definition isLayerEncrypted :: "'a smem_scheme \<Rightarrow> nat \<Rightarrow> bool" where
  "isLayerEncrypted s layer = (if \<not> isValidLayer s layer then False else layer_is_encrypted s layer)"

definition pickRandomLayer :: "'a smem_scheme \<Rightarrow> nat \<times> 'a smem_scheme" where
  "pickRandomLayer s =
     (let x = lfsr_state s;
          x = x XOR push_bit 13 x;
          x = x XOR drop_bit 17 x;
          x = x XOR push_bit 5 x;
          s = s\<lparr>lfsr_state := x\<rparr>
      in if num_layers s = 0 then (DEFAULT_LAYER, s)
         else (unat (x mod of_nat (num_layers s)), s))"

definition setLayerAccess :: "'a smem_scheme \<Rightarrow> nat \<Rightarrow> bool \<Rightarrow> 'a smem_scheme" where
  "setLayerAccess s layer allowed =
     (if \<not> isValidLayer s layer then s
      else s\<lparr>layer_access := (layer_access s)(layer := allowed)\<rparr>)"

section \<open>Read and write paths\<close>

definition scramble_key :: "nat \<Rightarrow> u32" where
  "scramble_key layer = 0xCAFEBABE XOR of_nat layer * 0x9E3779B9"

definition mem_block :: "(nat \<Rightarrow> u32) \<Rightarrow> nat \<Rightarrow> block" where
  "mem_block m base = quad_gen (\<lambda>i. m (base + i))"

definition put_block :: "(nat \<Rightarrow> u32) \<Rightarrow> nat \<Rightarrow> block \<Rightarrow> nat \<Rightarrow> u32" where
  "put_block m base b = for_up 0 4 (\<lambda>i m. m(base + i := quad_nth b i)) m"

definition logicalReadNoAccessCheck :: "'a smem_scheme \<Rightarrow> nat \<Rightarrow> nat \<Rightarrow> u32" where
  "logicalReadNoAccessCheck s layer addr =
     (let nl = normalizeLayer s layer in
      if addr \<ge> num_words s then 0xDEADBEEF
      else if \<not> layer_is_encrypted s nl then memory s nl addr
      else let base = (addr div INSTRS_PER_BLOCK) * INSTRS_PER_BLOCK in
           if base + INSTRS_PER_BLOCK > num_words s then 0xDEADBEEF
           else let out = aes_decrypt_block (mem_block (memory s nl) base) (layer_keys s nl)
                in quad_nth out (addr mod INSTRS_PER_BLOCK) XOR scramble_key nl)"

definition rawRead :: "'a smem_scheme \<Rightarrow> nat \<Rightarrow> nat \<Rightarrow> u32" where
  "rawRead s layer addr =
     (if \<not> isValidLayer s layer then 0 else if addr \<ge> num_words s then 0 else memory s layer addr)"

definition mem_read :: "'a smem_scheme \<Rightarrow> nat \<Rightarrow> nat \<Rightarrow> u32" where
  "mem_read s layer addr =
     (if \<not> isValidLayer s layer then 0xFFFFFFFF
      else if addr \<ge> num_words s then 0xDEADBEEF
      else if \<not> layer_access s layer then 0xFFFFFFFF
      else if \<not> layer_is_encrypted s layer then memory s layer addr
      else let base = (addr div INSTRS_PER_BLOCK) * INSTRS_PER_BLOCK in
           if base + INSTRS_PER_BLOCK > num_words s then 0xDEADBEEF
           else let out = aes_decrypt_block (mem_block (memory s layer) base) (layer_keys s layer)
                in quad_nth out (addr mod INSTRS_PER_BLOCK) XOR scramble_key layer)"

definition write_log_text :: "nat \<Rightarrow> nat \<Rightarrow> string" where
  "write_log_text layer addr =
     snprintf 24 (''W'' @ format_u layer @ ''('' @ format_u addr @ '') '')"

definition mem_write :: "'a smem_scheme \<Rightarrow> nat \<Rightarrow> nat \<Rightarrow> u32 \<Rightarrow> 'a smem_scheme" where
  "mem_write s layer addr v =
     (if \<not> isValidLayer s layer then s
      else if addr \<ge> num_words s \<or> \<not> layer_access s layer then s
      else if \<not> layer_is_encrypted s layer then
        add_log (s\<lparr>memory := (memory s)(layer := (memory s layer)(addr := v))\<rparr>)
          layer (write_log_text layer addr)
      else let base = (addr div INSTRS_PER_BLOCK) * INSTRS_PER_BLOCK in
        if base + INSTRS_PER_BLOCK > num_words s then s
        else let plain = aes_decrypt_block (mem_block (memory s layer) base) (layer_keys s layer);
                 plain = map_quad (\<lambda>x. x XOR scramble_key layer) plain;
                 plain = quad_upd plain (addr mod INSTRS_PER_BLOCK) v;
                 plain = map_quad (\<lambda>x. x XOR scramble_key layer) plain;
                 e = aes_encrypt_block plain (layer_keys s layer)
             in add_log (s\<lparr>memory := (memory s)(layer := put_block (memory s layer) base e)\<rparr>)
                  layer (write_log_text layer addr))"

section \<open>Scrambling and encryption of a layer\<close>

definition xor_words :: "'a smem_scheme \<Rightarrow> nat \<Rightarrow> u32 \<Rightarrow> 'a smem_scheme" where
  "xor_words s layer key =
     s\<lparr>memory := (memory s)(layer :=
         for_up 0 (num_words s) (\<lambda>i m. m(i := m i XOR key)) (memory s layer))\<rparr>"

definition scrambleLayerWithKey :: "'a smem_scheme \<Rightarrow> nat \<Rightarrow> u32 \<Rightarrow> 'a smem_scheme" where
  "scrambleLayerWithKey s layer key =
     (if \<not> isValidLayer s layer then s
      else if layer_is_encrypted s layer then s
      else invalidateCaches (add_log (xor_words s layer key) layer ''[SCRAMBLED] ''))"

definition unscrambleLayerWithKey :: "'a smem_scheme \<Rightarrow> nat \<Rightarrow> u32 \<Rightarrow> 'a smem_scheme" where
  "unscrambleLayerWithKey s layer key =
     (if \<not> isValidLayer s layer then s
      else invalidateCaches (add_log (xor_words s layer key) layer ''[UNSCRAMBLED] ''))"

definition scrambleLayer :: "'a smem_scheme \<Rightarrow> nat \<Rightarrow> 'a smem_scheme" where
  "scrambleLayer s layer =
     (if \<not> isValidLayer s layer then s
      else if layer_is_encrypted s layer then s
      else let x = 0x9E3779B9 XOR of_nat layer * 0x85EBCA6B;
               x = x XOR push_bit 13 x;
               x = x XOR drop_bit 17 x;
               x = x XOR push_bit 5 x
           in invalidateCaches (add_log (xor_words s layer x) layer ''[SCRAMBLED] ''))"

text \<open>\<open>for (w = 0; w + 4 <= num_words; w += 4)\<close> over the blocks of a layer.\<close>

definition map_blocks_in_place :: "(block \<Rightarrow> block) \<Rightarrow> nat \<Rightarrow> (nat \<Rightarrow> u32) \<Rightarrow> nat \<Rightarrow> u32" where
  "map_blocks_in_place f nw m =
     for_up 0 (nw div INSTRS_PER_BLOCK)
       (\<lambda>j m. put_block m (j * INSTRS_PER_BLOCK) (f (mem_block m (j * INSTRS_PER_BLOCK)))) m"

definition encryptLayer :: "'a smem_scheme \<Rightarrow> nat \<Rightarrow> 'a smem_scheme" where
  "encryptLayer s layer =
     (if \<not> isValidLayer s layer then s
      else if layer_is_encrypted s layer then s
      else let s = scrambleLayerWithKey s layer (scramble_key layer);
               s = s\<lparr>memory := (memory s)(layer := map_blocks_in_place
                     (\<lambda>b. aes_encrypt_block b (layer_keys s layer)) (num_words s) (memory s layer))\<rparr>;
               s = s\<lparr>layer_is_encrypted := (layer_is_encrypted s)(layer := True)\<rparr>
           in invalidateCaches (add_log s layer ''[AES ENCRYPTED] ''))"

definition decryptLayer :: "'a smem_scheme \<Rightarrow> nat \<Rightarrow> 'a smem_scheme" where
  "decryptLayer s layer =
     (if \<not> isValidLayer s layer then s
      else if \<not> layer_is_encrypted s layer then s
      else let s = s\<lparr>memory := (memory s)(layer := map_blocks_in_place
                     (\<lambda>b. aes_decrypt_block b (layer_keys s layer)) (num_words s) (memory s layer))\<rparr>;
               s = add_log s layer ''[AES DECRYPTED] '';
               s = unscrambleLayerWithKey s layer (scramble_key layer);
               s = s\<lparr>layer_is_encrypted := (layer_is_encrypted s)(layer := False)\<rparr>
           in invalidateCaches s)"

section \<open>Hardware root\<close>

definition setHardwareRootKey :: "'a smem_scheme \<Rightarrow> block \<Rightarrow> 'a smem_scheme" where
  "setHardwareRootKey s new_root =
     add_log (initLayerKeys (s\<lparr>hardware_root := new_root\<rparr>)) DEFAULT_LAYER ''[HW ROOT UPDATED] ''"

definition seed_step :: "u32 \<Rightarrow> nat \<Rightarrow> u32" where
  "seed_step x i = mix32 (x XOR (0x9E3779B9 * of_nat (i + 1)))"

definition setHardwareKey :: "'a smem_scheme \<Rightarrow> u32 \<Rightarrow> 'a smem_scheme" where
  "setHardwareKey s new_key =
     (let x0 = seed_step new_key 0; x1 = seed_step x0 1; x2 = seed_step x1 2; x3 = seed_step x2 3
      in add_log (initLayerKeys (s\<lparr>hardware_root := Quad x0 x1 x2 x3\<rparr>)) DEFAULT_LAYER
           ''[HW ROOT SEEDED] '')"

definition hardwareObfuscate :: "'a smem_scheme \<Rightarrow> 'a smem_scheme" where
  "hardwareObfuscate s =
     invalidateCaches (for_up 0 (num_layers s)
       (\<lambda>l s. if layer_is_encrypted s l then s
              else if layer_has_hidden_key s l then s
              else let key = deriveHardwareWord s (of_nat l) (0x70 + of_nat l)
                   in add_log (xor_words s l key) l ''[HW OBFUSCATED] '') s)"

section \<open>Tamper reaction and lockdown\<close>

definition zero_words :: "'a smem_scheme \<Rightarrow> nat \<Rightarrow> 'a smem_scheme" where
  "zero_words s layer =
     s\<lparr>memory := (memory s)(layer :=
         for_up 0 (num_words s) (\<lambda>w m. m(w := 0)) (memory s layer)),
       layer_is_encrypted := (layer_is_encrypted s)(layer := False),
       layer_has_hidden_key := (layer_has_hidden_key s)(layer := False)\<rparr>"

definition autoReset :: "'a smem_scheme \<Rightarrow> 'a smem_scheme" where
  "autoReset s =
     (let s = for_up 0 (num_layers s) (\<lambda>l s. add_log (zero_words s l) l ''[AUTO RESET] '') s
      in invalidateCaches (s\<lparr>security_lockdown := True\<rparr>))"

definition autoResetCritical :: "'a smem_scheme \<Rightarrow> nat list \<Rightarrow> 'a smem_scheme" where
  "autoResetCritical s critical_layers =
     invalidateCaches (fold
       (\<lambda>l s. if \<not> isValidLayer s l then s
              else add_log ((zero_words s l)\<lparr>tamper_events := tamper_events s + 1,
                                            security_lockdown := True\<rparr>)
                     l ''[CRITICAL AUTO RESET] '') critical_layers s)"

definition checkTamper :: "'a smem_scheme \<Rightarrow> nat \<Rightarrow> nat \<Rightarrow> u32 \<Rightarrow> 'a smem_scheme" where
  "checkTamper s layer addr expected =
     (if \<not> isValidLayer s layer then s
      else if addr \<ge> num_words s then s
      else if logicalReadNoAccessCheck s layer addr \<noteq> expected then
        autoReset (add_log
          (s\<lparr>tamper_detected := True, tamper_events := tamper_events s + 1, security_lockdown := True\<rparr>)
          layer (snprintf 48 (''[TAMPER L'' @ format_u layer @ '' @'' @ format_u addr @ ''] '')))
      else s)"

definition checkMultipleTamper :: "'a smem_scheme \<Rightarrow> (nat \<times> nat \<times> u32) list \<Rightarrow> 'a smem_scheme" where
  "checkMultipleTamper s points = fold (\<lambda>(l, a, e) s. checkTamper s l a e) points s"

definition lockSecurity :: "'a smem_scheme \<Rightarrow> string \<Rightarrow> 'a smem_scheme" where
  "lockSecurity s reason =
     (let s = s\<lparr>tamper_detected := True, tamper_events := tamper_events s + 1, security_lockdown := True\<rparr>
      in if reason \<noteq> [] then add_log s DEFAULT_LAYER (snprintf 64 (''[LOCK: '' @ reason @ ''] ''))
         else add_log s DEFAULT_LAYER ''[LOCK] '')"

definition clearSecurityLockdown :: "'a smem_scheme \<Rightarrow> 'a smem_scheme" where
  "clearSecurityLockdown s =
     add_log (s\<lparr>security_lockdown := False, tamper_detected := False\<rparr>) DEFAULT_LAYER ''[LOCK CLEARED] ''"

definition getTamperCount :: "'a smem_scheme \<Rightarrow> u32" where
  "getTamperCount s = tamper_events s"

definition getTamperStatus :: "'a smem_scheme \<Rightarrow> string" where
  "getTamperStatus s =
     (if tamper_detected s then ''Tamper detected! Memory reset.'' else ''No tamper detected.'')"

definition isSecurityLocked :: "'a smem_scheme \<Rightarrow> bool" where
  "isSecurityLocked s = security_lockdown s"

section \<open>Key hiding and extraction\<close>

definition hideKeyInLayer :: "'a smem_scheme \<Rightarrow> nat \<Rightarrow> u32 list \<Rightarrow> nat list \<Rightarrow> 'a smem_scheme" where
  "hideKeyInLayer s layer key secret =
     (if \<not> isValidLayer s layer then s
      else if length secret mod 32 \<noteq> 0 then s
      else if length key = 0 \<or> length key * 32 \<noteq> length secret then s
      else if layer_is_encrypted s layer then s
      else let m = for_up 0 (length secret)
             (\<lambda>i m. let word_index = secret ! i div 32; bit_in_word = secret ! i mod 32 in
                    if word_index \<ge> num_words s then m
                    else let bit_val = drop_bit (i mod 32) (key ! (i div 32)) AND 1
                         in m(word_index := set_bit_to (m word_index) bit_in_word bit_val))
             (memory s layer);
           s = add_log (s\<lparr>memory := (memory s)(layer := m)\<rparr>) layer ''[KEY HIDDEN] ''
        in s\<lparr>layer_has_hidden_key := (layer_has_hidden_key s)(layer := True)\<rparr>)"

text \<open>The result is \<open>(key, state)\<close>; the key is zeroed before the first check. The flag
  \<open>disable_processing_scramble\<close> is set for the duration of the call and restored on each exit.\<close>

definition extractKeyFromLayer ::
  "'a smem_scheme \<Rightarrow> nat \<Rightarrow> nat list \<Rightarrow> nat \<Rightarrow> u32 list \<times> 'a smem_scheme" where
  "extractKeyFromLayer s layer secret key_words =
     (let key = replicate key_words 0 in
      if \<not> isValidLayer s layer then (key, s)
      else let prev_flag = disable_processing_scramble s;
               s = (if processing_layer s = Some layer
                    then s\<lparr>disable_processing_scramble := True\<rparr> else s)
      in if key_words = 0 \<or> key_words * 32 \<noteq> length secret
         then (key, s\<lparr>disable_processing_scramble := prev_flag\<rparr>)
         else if layer_is_encrypted s layer
         then (key, s\<lparr>disable_processing_scramble := prev_flag\<rparr>)
         else let key = for_up 0 (length secret)
                (\<lambda>i key. let word_index = secret ! i div 32; bit_in_word = secret ! i mod 32 in
                   if word_index \<ge> num_words s then key
                   else let bit_val = drop_bit bit_in_word (memory s layer word_index) AND 1
                        in key[i div 32 := key ! (i div 32) OR push_bit (i mod 32) bit_val]) key;
              s = add_log s layer ''[KEY EXTRACTED] ''
           in (key, s\<lparr>disable_processing_scramble := prev_flag\<rparr>))"

section \<open>Processing layer\<close>

definition scrambleProcessingLayer :: "'a smem_scheme \<Rightarrow> u32 \<Rightarrow> 'a smem_scheme" where
  "scrambleProcessingLayer s custom_key =
     (if disable_processing_scramble s then s
      else case processing_layer s of None \<Rightarrow> s
      | Some pl \<Rightarrow> if \<not> isValidLayer s pl then s
          else let key = (if custom_key \<noteq> 0 then custom_key else 0xA5A5A5A5 XOR of_nat pl)
               in add_log s pl (snprintf 48
                    (''[VIRTUAL SCRAMBLE L'' @ format_u pl @ '' 0x'' @ format_08X key @ ''] '')))"

definition logReverseEngAttempt :: "'a smem_scheme \<Rightarrow> string \<Rightarrow> nat \<Rightarrow> 'a smem_scheme" where
  "logReverseEngAttempt s ty addr =
     (case processing_layer s of None \<Rightarrow> s
      | Some pl \<Rightarrow> if isValidLayer s pl
          then add_log s pl (snprintf 72 (''[REVERSE ENG ATTEMPT: '' @ ty @ '' L'' @ format_u pl
                 @ '' @'' @ format_u (addr mod 2 ^ 32) @ ''] ''))
          else s)"

text \<open>What \<open>protectedRead\<close> and \<open>protectedWrite\<close> record before the access.\<close>

definition note_access :: "'a smem_scheme \<Rightarrow> string \<Rightarrow> nat \<Rightarrow> nat \<Rightarrow> 'a smem_scheme" where
  "note_access s ty layer addr =
     (if processing_layer s = Some layer \<and> \<not> disable_processing_scramble s
      then logReverseEngAttempt (scrambleProcessingLayer s 0) ty addr else s)"

definition protectedRead :: "'a smem_scheme \<Rightarrow> nat \<Rightarrow> nat \<Rightarrow> u32 \<times> 'a smem_scheme" where
  "protectedRead s layer addr =
     (if \<not> isValidLayer s layer then (0xFFFFFFFF, s)
      else let s = note_access s ''READ'' layer addr in (mem_read s layer addr, s))"

definition protectedWrite :: "'a smem_scheme \<Rightarrow> nat \<Rightarrow> nat \<Rightarrow> u32 \<Rightarrow> 'a smem_scheme" where
  "protectedWrite s layer addr v =
     (if \<not> isValidLayer s layer then s
      else mem_write (note_access s ''WRITE'' layer addr) layer addr v)"

definition enableProcessingLayer :: "'a smem_scheme \<Rightarrow> nat \<Rightarrow> 'a smem_scheme" where
  "enableProcessingLayer s layer =
     (if \<not> isValidLayer s layer then s
      else add_log (s\<lparr>processing_layer := Some layer\<rparr>) layer
             (snprintf 48 (''[PROCESSING LAYER '' @ format_u layer @ '' ENABLED] '')))"

definition clearProcessingLayer :: "'a smem_scheme \<Rightarrow> 'a smem_scheme" where
  "clearProcessingLayer s =
     (let s = (case processing_layer s of None \<Rightarrow> s
               | Some pl \<Rightarrow> if isValidLayer s pl then add_log s pl ''[PROCESSING CLEARED] '' else s)
      in s\<lparr>processing_layer := None\<rparr>)"

definition readProcessing :: "'a smem_scheme \<Rightarrow> nat \<Rightarrow> u32 \<times> 'a smem_scheme" where
  "readProcessing s addr =
     (case processing_layer s of None \<Rightarrow> (0xDEADBEEF, s)
      | Some pl \<Rightarrow> if \<not> isValidLayer s pl then (0xFFFFFFFF, s)
          else let s = (if \<not> disable_processing_scramble s
                        then add_log (scrambleProcessingLayer s 0) pl ''[REVERSE ENG DETECTED] '' else s)
               in (mem_read s pl addr, s))"

definition isProcessingLayerEnabled :: "'a smem_scheme \<Rightarrow> bool" where
  "isProcessingLayerEnabled s =
     (case processing_layer s of None \<Rightarrow> False | Some pl \<Rightarrow> isValidLayer s pl)"

section \<open>Batch operations\<close>

definition clearLayer :: "'a smem_scheme \<Rightarrow> nat \<Rightarrow> 'a smem_scheme" where
  "clearLayer s layer =
     (if \<not> isValidLayer s layer then s
      else invalidateCaches (add_log (zero_words s layer) layer ''[CLEARED] ''))"

definition copyLayer :: "'a smem_scheme \<Rightarrow> nat \<Rightarrow> nat \<Rightarrow> 'a smem_scheme" where
  "copyLayer s src dst =
     (if \<not> isValidLayer s src \<or> \<not> isValidLayer s dst then s
      else let s = s\<lparr>memory := for_up 0 (num_words s)
                     (\<lambda>w m. m(dst := (m dst)(w := m src w))) (memory s)\<rparr>;
               s = s\<lparr>layer_keys := (layer_keys s)(dst := layer_keys s src),
                     layer_is_encrypted := (layer_is_encrypted s)(dst := layer_is_encrypted s src),
                     layer_has_hidden_key := (layer_has_hidden_key s)(dst := layer_has_hidden_key s src),
                     layer_access := (layer_access s)(dst := layer_access s src)\<rparr>
           in invalidateCaches (add_log s dst
                (snprintf 48 (''[COPIED from L'' @ format_u src @ ''] ''))))"

section \<open>The logical view of a layer\<close>

text \<open>
  What a reader sees at an address: the stored word of a plain layer, the unscrambled word of
  the decrypted block of an encrypted one.
\<close>

definition word_view :: "(nat \<Rightarrow> u32) \<Rightarrow> bool \<Rightarrow> block \<Rightarrow> nat \<Rightarrow> nat \<Rightarrow> u32" where
  "word_view m encrypted key layer a =
     (if \<not> encrypted then m a
      else quad_nth (aes_decrypt_block (mem_block m (a div 4 * 4)) key) (a mod 4) XOR scramble_key layer)"

definition layer_view :: "'a smem_scheme \<Rightarrow> nat \<Rightarrow> nat \<Rightarrow> u32" where
  "layer_view s l = word_view (memory s l) (layer_is_encrypted s l) (layer_keys s l) l"

lemma mem_block_nth [simp]: "i < 4 \<Longrightarrow> quad_nth (mem_block m base) i = m (base + i)"
  by (simp add: mem_block_def)

lemma put_block_apply:
  "put_block m base b a = (if base \<le> a \<and> a < base + 4 then quad_nth b (a - base) else m a)"
proof -
  have "put_block m base b = m(base := quad_nth b 0, base + 1 := quad_nth b 1,
          base + 2 := quad_nth b 2, base + 3 := quad_nth b 3)"
    by (simp add: put_block_def for_up_def upt_rec numeral_eq_Suc)
  moreover have "base \<le> a \<and> a < base + 4 \<longleftrightarrow> a = base \<or> a = base + 1 \<or> a = base + 2 \<or> a = base + 3"
    by linarith
  ultimately show ?thesis by (cases b) auto
qed

lemma mem_block_put_block:
  assumes "4 dvd base" "4 dvd base'"
  shows "mem_block (put_block m base b) base' = (if base = base' then b else mem_block m base')"
proof -
  have "\<not> (base \<le> base' + i \<and> base' + i < base + 4)" if "base \<noteq> base'" "i < 4" for i
    using assms that unfolding dvd_def by auto
  then have "base \<noteq> base' \<Longrightarrow> i < 4 \<Longrightarrow>
      quad_nth (mem_block (put_block m base b) base') i = quad_nth (mem_block m base') i" for i
    by (subst (2) mem_block_nth, simp) (subst mem_block_nth, simp, subst put_block_apply, auto)
  moreover have "mem_block (put_block m base b) base = b"
    by (rule quad_eqI) (simp add: put_block_apply)
  ultimately show ?thesis by (auto intro: quad_eqI)
qed

lemma mem_block_cong: "(\<And>i. i < 4 \<Longrightarrow> m (base + i) = m' (base + i)) \<Longrightarrow> mem_block m base = mem_block m' base"
  by (simp add: quad_eqI)

lemma block_in_bounds: "4 dvd n \<Longrightarrow> a < n \<Longrightarrow> a div 4 * 4 + 4 \<le> (n :: nat)"
  by presburger

lemma map_blocks_in_place_apply:
  "map_blocks_in_place f nw m a =
     (if a < nw div 4 * 4 then quad_nth (f (mem_block m (a div 4 * 4))) (a mod 4) else m a)"
proof -
  let ?body = "\<lambda>j m. put_block m (j * 4) (f (mem_block m (j * 4)))"
  have "for_up 0 k ?body m a =
     (if a < k * 4 then quad_nth (f (mem_block m (a div 4 * 4))) (a mod 4) else m a)" for k a
  proof (induction k arbitrary: a)
    case (Suc k)
    have blk: "mem_block (for_up 0 k ?body m) (k * 4) = mem_block m (k * 4)"
      by (rule mem_block_cong) (simp add: Suc)
    have step: "for_up 0 (Suc k) ?body m a =
        put_block (for_up 0 k ?body m) (k * 4) (f (mem_block m (k * 4))) a"
      by (subst for_up_Suc) (simp_all add: blk)
    consider "a < k * 4" | "k * 4 \<le> a" "a < k * 4 + 4" | "k * 4 + 4 \<le> a" by linarith
    then show ?case
    proof cases
      case 2
      then have "a div 4 = k" by auto
      moreover from this have "a - k * 4 = a mod 4" by (metis minus_div_mult_eq_mod)
      ultimately show ?thesis using 2 unfolding step by (subst put_block_apply) simp
    qed (unfold step, (subst put_block_apply, simp add: Suc)+)
  qed simp
  then show ?thesis by (simp add: map_blocks_in_place_def)
qed

lemma mem_block_map_blocks:
  assumes "4 dvd base" "base + 4 \<le> nw div 4 * 4"
  shows "mem_block (map_blocks_in_place f nw m) base = f (mem_block m base)"
proof (rule quad_eqI)
  fix i :: nat assume i: "i < 4"
  have "(base + i) div 4 * 4 = base" "(base + i) mod 4 = i" using assms(1) i by (auto simp: dvd_def)
  then show "quad_nth (mem_block (map_blocks_in_place f nw m) base) i = quad_nth (f (mem_block m base)) i"
    using i assms(2) by (simp add: map_blocks_in_place_apply)
qed

lemma xor_words_memory [simp]:
  "memory (xor_words s l k) x a =
     (if x = l \<and> a < num_words s then memory s l a XOR k else memory s x a)"
  by (simp add: xor_words_def for_up_cells[of _ "\<lambda>_ x. x XOR k"])

lemma zero_words_memory [simp]:
  "memory (zero_words s l) x a = (if x = l \<and> a < num_words s then 0 else memory s x a)"
  by (simp add: zero_words_def for_up_cells[of _ "\<lambda>_ _. 0"])

section \<open>Which members an operation leaves alone\<close>

lemma add_log_simps [simp]:
  "iCache_data (add_log s l t) = iCache_data s" "iCache_tag (add_log s l t) = iCache_tag s"
  "iCache_valid (add_log s l t) = iCache_valid s" "dcache_data (add_log s l t) = dcache_data s"
  "dcache_tag (add_log s l t) = dcache_tag s" "dcache_valid (add_log s l t) = dcache_valid s"
  "lfsr_state (add_log s l t) = lfsr_state s"
  "layer_is_encrypted (add_log s l t) = layer_is_encrypted s"
  "layer_has_hidden_key (add_log s l t) = layer_has_hidden_key s"
  "disable_processing_scramble (add_log s l t) = disable_processing_scramble s"
  "tamper_detected (add_log s l t) = tamper_detected s"
  "security_lockdown (add_log s l t) = security_lockdown s"
  "tamper_events (add_log s l t) = tamper_events s"
  "processing_layer (add_log s l t) = processing_layer s"
  "hardware_root (add_log s l t) = hardware_root s" "layer_keys (add_log s l t) = layer_keys s"
  "memory (add_log s l t) = memory s" "layer_access (add_log s l t) = layer_access s"
  "num_layers (add_log s l t) = num_layers s" "num_words (add_log s l t) = num_words s"
  "smem.more (add_log s l t) = smem.more s"
  by (simp_all add: add_log_def)

lemma invalidateCaches_simps [simp]:
  "lfsr_state (invalidateCaches s) = lfsr_state s"
  "layer_is_encrypted (invalidateCaches s) = layer_is_encrypted s"
  "layer_has_hidden_key (invalidateCaches s) = layer_has_hidden_key s"
  "disable_processing_scramble (invalidateCaches s) = disable_processing_scramble s"
  "tamper_detected (invalidateCaches s) = tamper_detected s"
  "security_lockdown (invalidateCaches s) = security_lockdown s"
  "tamper_events (invalidateCaches s) = tamper_events s"
  "processing_layer (invalidateCaches s) = processing_layer s"
  "hardware_root (invalidateCaches s) = hardware_root s"
  "layer_keys (invalidateCaches s) = layer_keys s" "memory (invalidateCaches s) = memory s"
  "layer_access (invalidateCaches s) = layer_access s" "layer_log (invalidateCaches s) = layer_log s"
  "num_layers (invalidateCaches s) = num_layers s" "num_words (invalidateCaches s) = num_words s"
  for s :: "'a smem_scheme"
  by (simp_all add: invalidateCaches_def)

lemma xor_words_simps [simp]:
  "layer_is_encrypted (xor_words s l k) = layer_is_encrypted s"
  "security_lockdown (xor_words s l k) = security_lockdown s"
  "layer_keys (xor_words s l k) = layer_keys s" "layer_access (xor_words s l k) = layer_access s"
  "layer_log (xor_words s l k) = layer_log s"
  "processing_layer (xor_words s l k) = processing_layer s"
  "num_layers (xor_words s l k) = num_layers s" "num_words (xor_words s l k) = num_words s"
  by (simp_all add: xor_words_def)

lemma zero_words_simps [simp]:
  "layer_is_encrypted (zero_words s l) = (layer_is_encrypted s)(l := False)"
  "layer_has_hidden_key (zero_words s l) = (layer_has_hidden_key s)(l := False)"
  "security_lockdown (zero_words s l) = security_lockdown s"
  "tamper_events (zero_words s l) = tamper_events s"
  "layer_keys (zero_words s l) = layer_keys s" "layer_access (zero_words s l) = layer_access s"
  "layer_log (zero_words s l) = layer_log s"
  "processing_layer (zero_words s l) = processing_layer s"
  "num_layers (zero_words s l) = num_layers s" "num_words (zero_words s l) = num_words s"
  by (simp_all add: zero_words_def)

text \<open>The monitoring of the processing layer only touches the log.\<close>

lemma note_access_log: "\<exists>f. note_access s t l a = s\<lparr>layer_log := f\<rparr>"
  by (cases "processing_layer s")
     (auto simp: note_access_def logReverseEngAttempt_def scrambleProcessingLayer_def add_log_def
        intro: exI[of _ "layer_log s"])

section \<open>Operations and reachable states\<close>

datatype mem_op =
    AddLayers nat | PickRandomLayer | SetLayerAccess nat bool
  | Write nat nat u32 | ProtectedRead nat nat | ProtectedWrite nat nat u32 | ReadProcessing nat
  | ScrambleLayerWithKey nat u32 | UnscrambleLayerWithKey nat u32 | ScrambleLayer nat
  | EncryptLayer nat | DecryptLayer nat
  | SetHardwareRootKey block | SetHardwareKey u32 | HardwareObfuscate
  | CheckTamper nat nat u32 | CheckMultipleTamper "(nat \<times> nat \<times> u32) list"
  | AutoReset | AutoResetCritical "nat list" | LockSecurity string | ClearSecurityLockdown
  | HideKey nat "u32 list" "nat list" | ExtractKey nat "nat list" nat
  | ScrambleProcessing u32 | EnableProcessing nat | ClearProcessing
  | ClearLayer nat | CopyLayer nat nat
  | InitLayerKeys | LogReverseEngAttempt string nat

fun exec_mem :: "mem_op \<Rightarrow> 'a smem_scheme \<Rightarrow> 'a smem_scheme" where
  "exec_mem (AddLayers n) s = addLayers s n"
| "exec_mem PickRandomLayer s = snd (pickRandomLayer s)"
| "exec_mem (SetLayerAccess l b) s = setLayerAccess s l b"
| "exec_mem (Write l a v) s = mem_write s l a v"
| "exec_mem (ProtectedRead l a) s = snd (protectedRead s l a)"
| "exec_mem (ProtectedWrite l a v) s = protectedWrite s l a v"
| "exec_mem (ReadProcessing a) s = snd (readProcessing s a)"
| "exec_mem (ScrambleLayerWithKey l k) s = scrambleLayerWithKey s l k"
| "exec_mem (UnscrambleLayerWithKey l k) s = unscrambleLayerWithKey s l k"
| "exec_mem (ScrambleLayer l) s = scrambleLayer s l"
| "exec_mem (EncryptLayer l) s = encryptLayer s l"
| "exec_mem (DecryptLayer l) s = decryptLayer s l"
| "exec_mem (SetHardwareRootKey r) s = setHardwareRootKey s r"
| "exec_mem (SetHardwareKey k) s = setHardwareKey s k"
| "exec_mem HardwareObfuscate s = hardwareObfuscate s"
| "exec_mem (CheckTamper l a e) s = checkTamper s l a e"
| "exec_mem (CheckMultipleTamper ps) s = checkMultipleTamper s ps"
| "exec_mem AutoReset s = autoReset s"
| "exec_mem (AutoResetCritical ls) s = autoResetCritical s ls"
| "exec_mem (LockSecurity r) s = lockSecurity s r"
| "exec_mem ClearSecurityLockdown s = clearSecurityLockdown s"
| "exec_mem (HideKey l k pos) s = hideKeyInLayer s l k pos"
| "exec_mem (ExtractKey l pos n) s = snd (extractKeyFromLayer s l pos n)"
| "exec_mem (ScrambleProcessing k) s = scrambleProcessingLayer s k"
| "exec_mem (EnableProcessing l) s = enableProcessingLayer s l"
| "exec_mem ClearProcessing s = clearProcessingLayer s"
| "exec_mem (ClearLayer l) s = clearLayer s l"
| "exec_mem (CopyLayer a b) s = copyLayer s a b"
| "exec_mem InitLayerKeys s = initLayerKeys s"
| "exec_mem (LogReverseEngAttempt ty a) s = logReverseEngAttempt s ty a"

inductive mem_reachable :: "smem \<Rightarrow> bool" where
  boot: "mem_reachable (StackedMemory3D layers words_per_layer)"
| step: "mem_reachable s \<Longrightarrow> mem_reachable (exec_mem op s)"

section \<open>The invariant\<close>

named_theorems wf_intros \<open>how the members of a well-formed memory may change\<close>

definition smem_wf :: "'a smem_scheme \<Rightarrow> bool" where
  "smem_wf s \<longleftrightarrow> num_layers s \<le> 4 \<and> 0 < num_words s \<and> num_words s \<le> 1024 \<and> 4 dvd num_words s
     \<and> (\<forall>l. length (layer_log s l) = 128 \<and> layer_log s l ! 127 = CHR 0x00)
     \<and> (\<forall>l a. 4 \<le> l \<or> num_words s \<le> a \<longrightarrow> memory s l a = 0)
     \<and> (\<forall>p. processing_layer s = Some p \<longrightarrow> p < 4)"

lemma smem_wf_words [dest]: "smem_wf s \<Longrightarrow> 4 dvd num_words s"
  by (simp add: smem_wf_def)

lemma length_appendLog [simp]: "length dst = 128 \<Longrightarrow> length (appendLog dst t) = 128"
  using length_takeWhile_le[of "\<lambda>c. c \<noteq> CHR 0x00" dst] by (auto simp: appendLog_def Let_def)

lemma appendLog_terminated [simp]: "length dst = 128 \<Longrightarrow> appendLog dst t ! 127 = CHR 0x00"
  using length_takeWhile_le[of "\<lambda>c. c \<noteq> CHR 0x00" dst] by (auto simp: appendLog_def Let_def)

lemma wf_add_log [wf_intros]: "smem_wf s \<Longrightarrow> smem_wf (add_log s l t)"
  by (auto simp: smem_wf_def add_log_def)

lemma wf_unrelated [simp]:
  "smem_wf (lfsr_state_update f s) = smem_wf s"
  "smem_wf (layer_is_encrypted_update g s) = smem_wf s"
  "smem_wf (layer_has_hidden_key_update g s) = smem_wf s"
  "smem_wf (disable_processing_scramble_update h s) = smem_wf s"
  "smem_wf (tamper_detected_update h s) = smem_wf s"
  "smem_wf (security_lockdown_update h s) = smem_wf s"
  "smem_wf (tamper_events_update f s) = smem_wf s"
  "smem_wf (hardware_root_update k s) = smem_wf s"
  "smem_wf (layer_keys_update m s) = smem_wf s"
  "smem_wf (layer_access_update g s) = smem_wf s"
  "smem_wf (invalidateCaches s) = smem_wf s"
  "smem_wf (initLayerKeys s) = smem_wf s"
  by (simp_all add: smem_wf_def invalidateCaches_def initLayerKeys_def)

lemma wf_memory [wf_intros]:
  assumes "smem_wf s" "l < 4" "\<And>a. num_words s \<le> a \<Longrightarrow> m a = memory s l a"
  shows "smem_wf (s\<lparr>memory := (memory s)(l := m)\<rparr>)"
  using assms by (auto simp: smem_wf_def)

lemma wf_xor_words [wf_intros]: "smem_wf s \<Longrightarrow> l < 4 \<Longrightarrow> smem_wf (xor_words s l k)"
  unfolding xor_words_def by (rule wf_memory) (auto simp: for_up_cells[of _ "\<lambda>_ x. x XOR k"])

lemma wf_zero_words [wf_intros]: "smem_wf s \<Longrightarrow> l < 4 \<Longrightarrow> smem_wf (zero_words s l)"
  unfolding zero_words_def
  by (simp, rule wf_memory) (auto simp: for_up_cells[of _ "\<lambda>_ _. 0"])

lemma isValidLayer_less [dest]: "isValidLayer s l \<Longrightarrow> l < 4"
  by (simp add: isValidLayer_def)

lemma isValidLayer_simps [simp]:
  "isValidLayer (add_log s l t) x = isValidLayer s x"
  "isValidLayer (invalidateCaches s) x = isValidLayer s x"
  "isValidLayer (zero_words s l) x = isValidLayer s x"
  "isValidLayer (xor_words s l k) x = isValidLayer s x"
  "isValidLayer (memory_update m s) x = isValidLayer s x"
  "isValidLayer (layer_log_update f s) x = isValidLayer s x"
  "isValidLayer (layer_is_encrypted_update g s) x = isValidLayer s x"
  by (simp_all add: isValidLayer_def)

lemma wf_put_block [wf_intros]:
  assumes "smem_wf s" "l < 4" "base + 4 \<le> num_words s"
  shows "smem_wf (s\<lparr>memory := (memory s)(l := put_block (memory s l) base b)\<rparr>)"
  by (rule wf_memory) (use assms in \<open>auto simp: put_block_apply\<close>)

lemma wf_map_blocks [wf_intros]:
  "smem_wf s \<Longrightarrow> l < 4 \<Longrightarrow>
     smem_wf (s\<lparr>memory := (memory s)(l := map_blocks_in_place f (num_words s) (memory s l))\<rparr>)"
  by (rule wf_memory) (auto simp: map_blocks_in_place_apply)

lemma wf_for_up [wf_intros]:
  "smem_wf s \<Longrightarrow> (\<And>i s. a \<le> i \<Longrightarrow> i < b \<Longrightarrow> smem_wf s \<Longrightarrow> smem_wf (body i s)) \<Longrightarrow>
     smem_wf (for_up a b body s)"
  by (rule for_up_invariant)

lemma wf_fold: "smem_wf s \<Longrightarrow> (\<And>x s. smem_wf s \<Longrightarrow> smem_wf (f x s)) \<Longrightarrow> smem_wf (fold f xs s)"
  by (induction xs arbitrary: s) simp_all

lemma wf_layers: "smem_wf s \<Longrightarrow> num_layers s \<le> 4"
  by (simp add: smem_wf_def)

lemma wf_note_access [wf_intros]: "smem_wf s \<Longrightarrow> smem_wf (note_access s t l a)"
  by (auto simp: note_access_def logReverseEngAttempt_def scrambleProcessingLayer_def Let_def
      intro: wf_add_log split: option.splits)

lemma wf_initLayerKeys: "smem_wf s \<Longrightarrow> smem_wf (initLayerKeys s)"
  by (simp add: smem_wf_def initLayerKeys_def)

lemma wf_logReverseEngAttempt: "smem_wf s \<Longrightarrow> smem_wf (logReverseEngAttempt s t a)"
  by (auto simp: logReverseEngAttempt_def intro: wf_add_log split: option.splits)

lemma wf_mem_write [wf_intros]: "smem_wf s \<Longrightarrow> smem_wf (mem_write s l a v)"
  by (auto simp: mem_write_def Let_def intro!: wf_intros)

lemma wf_autoReset [wf_intros]:
  assumes "smem_wf s" shows "smem_wf (autoReset s)"
  unfolding autoReset_def Let_def wf_unrelated
  by (rule wf_for_up[OF assms]) (use wf_layers[OF assms] in \<open>auto intro!: wf_intros\<close>)

lemma wf_checkTamper [wf_intros]: "smem_wf s \<Longrightarrow> smem_wf (checkTamper s l a e)"
  by (auto simp: checkTamper_def intro!: wf_intros)

lemma wf_autoResetCritical: "smem_wf s \<Longrightarrow> smem_wf (autoResetCritical s ls)"
  by (auto simp: autoResetCritical_def intro!: wf_fold wf_intros dest!: isValidLayer_less)

lemma wf_hardwareObfuscate:
  assumes "smem_wf s" shows "smem_wf (hardwareObfuscate s)"
  unfolding hardwareObfuscate_def Let_def wf_unrelated
  by (rule wf_for_up[OF assms]) (use wf_layers[OF assms] in \<open>auto intro!: wf_intros\<close>)

lemma wf_layer_ciphers:
  assumes "smem_wf s"
  shows "smem_wf (scrambleLayerWithKey s l k)" "smem_wf (unscrambleLayerWithKey s l k)"
    "smem_wf (scrambleLayer s l)" "smem_wf (encryptLayer s l)" "smem_wf (decryptLayer s l)"
proof -
  show scr: "smem_wf (scrambleLayerWithKey s l k)" for k
    using assms by (auto simp: scrambleLayerWithKey_def intro!: wf_intros)
  have un: "smem_wf t \<Longrightarrow> smem_wf (unscrambleLayerWithKey t l k)" for t :: "'a smem_scheme" and k
    by (auto simp: unscrambleLayerWithKey_def intro!: wf_intros)
  show "smem_wf (unscrambleLayerWithKey s l k)" by (rule un[OF assms])
  show "smem_wf (scrambleLayer s l)"
    using assms by (auto simp: scrambleLayer_def Let_def intro!: wf_intros)
  show "smem_wf (encryptLayer s l)"
    using assms scr by (auto simp: encryptLayer_def Let_def intro!: wf_intros)
  show "smem_wf (decryptLayer s l)"
    using assms by (auto simp: decryptLayer_def Let_def intro!: un wf_intros)
qed

lemma wf_hide_extract:
  assumes "smem_wf s"
  shows "smem_wf (hideKeyInLayer s l key pos)" "smem_wf (snd (extractKeyFromLayer s l pos n))"
proof -
  have "for_up 0 k (\<lambda>i m. let word_index = pos ! i div 32; bit_in_word = pos ! i mod 32 in
                    if word_index \<ge> num_words s then m
                    else let bit_val = drop_bit (i mod 32) (key ! (i div 32)) AND 1
                         in m(word_index := set_bit_to (m word_index) bit_in_word bit_val)) m a = m a"
    if "num_words s \<le> a" for k m a
    by (rule for_up_invariant[where P = "\<lambda>m'. m' a = m a"]) (use that in \<open>auto simp: Let_def\<close>)
  then show "smem_wf (hideKeyInLayer s l key pos)"
    using assms by (auto simp: hideKeyInLayer_def Let_def intro!: wf_intros)
  show "smem_wf (snd (extractKeyFromLayer s l pos n))"
    using assms by (auto simp: extractKeyFromLayer_def Let_def intro!: wf_intros)
qed

lemma wf_copyLayer:
  assumes "smem_wf s" shows "smem_wf (copyLayer s x y)"
proof (cases "isValidLayer s x \<and> isValidLayer s y")
  case True
  have "smem_wf (s\<lparr>memory := for_up 0 k (\<lambda>w m. m(y := (m y)(w := m x w))) (memory s)\<rparr>)"
    if "k \<le> num_words s" for k
    using that
  proof (induction k)
    case (Suc k)
    have IH: "smem_wf (s\<lparr>memory := for_up 0 k (\<lambda>w m. m(y := (m y)(w := m x w))) (memory s)\<rparr>)"
      by (rule Suc.IH[OF Suc_leD[OF Suc.prems]])
    let ?M = "for_up 0 k (\<lambda>w m. m(y := (m y)(w := m x w))) (memory s)"
    have "smem_wf ((s\<lparr>memory := ?M\<rparr>)\<lparr>memory := (memory (s\<lparr>memory := ?M\<rparr>))(y := (?M y)(k := ?M x k))\<rparr>)"
      by (rule wf_memory[OF IH]) (use Suc.prems True in auto)
    then show ?case by (simp add: for_up_Suc del: fun_upd_apply)
  qed (simp add: assms)
  then show ?thesis using True
    by (auto simp: copyLayer_def Let_def intro!: wf_intros)
qed (use assms in \<open>auto simp: copyLayer_def\<close>)

lemma wf_addLayers:
  assumes "smem_wf s" shows "smem_wf (addLayers s n)"
  unfolding addLayers_def Let_def
  by (rule wf_add_log) (use assms in \<open>auto simp: smem_wf_def\<close>)

lemma wf_processing:
  assumes "smem_wf s"
  shows "smem_wf (enableProcessingLayer s l)" "smem_wf (clearProcessingLayer s)"
    "smem_wf (scrambleProcessingLayer s k)" "smem_wf (snd (readProcessing s a))"
proof -
  show scr: "smem_wf (scrambleProcessingLayer s k)" for k
    using assms by (auto simp: scrambleProcessingLayer_def Let_def intro: wf_add_log split: option.split)
  show "smem_wf (snd (readProcessing s a))"
    using assms scr by (auto simp: readProcessing_def Let_def intro: wf_add_log split: option.split)
  have "smem_wf (s\<lparr>processing_layer := Some l\<rparr>)" if "isValidLayer s l"
    using assms that by (auto simp: smem_wf_def)
  then show "smem_wf (enableProcessingLayer s l)"
    using assms by (auto simp: enableProcessingLayer_def intro: wf_add_log)
  have "smem_wf t \<Longrightarrow> smem_wf (t\<lparr>processing_layer := None\<rparr>)" for t :: "'a smem_scheme"
    by (auto simp: smem_wf_def)
  then show "smem_wf (clearProcessingLayer s)"
    using assms by (auto simp: clearProcessingLayer_def Let_def intro: wf_add_log split: option.split)
qed

lemma wf_exec_mem: "smem_wf s \<Longrightarrow> smem_wf (exec_mem op s)"
proof (cases op)
  case (CheckMultipleTamper ps)
  then show "smem_wf s \<Longrightarrow> smem_wf (exec_mem op s)"
    by (auto simp: checkMultipleTamper_def intro!: wf_fold wf_checkTamper)
qed (auto simp: wf_addLayers wf_mem_write wf_layer_ciphers wf_hardwareObfuscate wf_checkTamper
  wf_autoReset wf_autoResetCritical wf_hide_extract wf_processing wf_copyLayer wf_initLayerKeys wf_logReverseEngAttempt
  pickRandomLayer_def setLayerAccess_def protectedRead_def protectedWrite_def setHardwareRootKey_def
  setHardwareKey_def lockSecurity_def clearSecurityLockdown_def clearLayer_def Let_def intro!: wf_intros)

lemma wf_StackedMemory3D: "smem_wf (StackedMemory3D layers n)"
  by (auto simp: StackedMemory3D_def Let_def smem_wf_def initLayerKeys_def)

section \<open>Lockdown\<close>

definition clears_lockdown :: "mem_op \<Rightarrow> bool" where
  "clears_lockdown op \<longleftrightarrow> (case op of ClearSecurityLockdown \<Rightarrow> True | _ \<Rightarrow> False)"

lemma note_access_simps [simp]:
  "security_lockdown (note_access s t l a) = security_lockdown s"
  "layer_is_encrypted (note_access s t l a) = layer_is_encrypted s"
  "layer_keys (note_access s t l a) = layer_keys s" "layer_access (note_access s t l a) = layer_access s"
  "memory (note_access s t l a) = memory s"
  "num_layers (note_access s t l a) = num_layers s" "num_words (note_access s t l a) = num_words s"
  "isValidLayer (note_access s t l a) x = isValidLayer s x"
  using note_access_log[of s t l a] by (auto simp: isValidLayer_def)

lemma lockdown_autoReset [simp]: "security_lockdown (autoReset s)"
  by (simp add: autoReset_def Let_def)

lemma lockdown_checkTamper: "security_lockdown s \<Longrightarrow> security_lockdown (checkTamper s l a e)"
  by (simp add: checkTamper_def)

lemma lockdown_fold:
  "security_lockdown s \<Longrightarrow> (\<And>x s. security_lockdown s \<Longrightarrow> security_lockdown (f x s)) \<Longrightarrow>
     security_lockdown (fold f xs s)"
  by (induction xs arbitrary: s) simp_all

lemma lockdown_for_up:
  "security_lockdown s \<Longrightarrow> (\<And>i s. security_lockdown s \<Longrightarrow> security_lockdown (body i s)) \<Longrightarrow>
     security_lockdown (for_up a b body s)"
  by (rule for_up_invariant)

lemma lockdown_simps [simp]:
  "security_lockdown (initLayerKeys s) = security_lockdown s"
  "security_lockdown (scrambleLayerWithKey s l k) = security_lockdown s"
  "security_lockdown (unscrambleLayerWithKey s l k) = security_lockdown s"
  "security_lockdown (scrambleProcessingLayer s k) = security_lockdown s"
  "security_lockdown (logReverseEngAttempt s t a) = security_lockdown s"
  "security_lockdown (mem_write s l a v) = security_lockdown s"
  by (auto simp: initLayerKeys_def scrambleLayerWithKey_def unscrambleLayerWithKey_def
      scrambleProcessingLayer_def logReverseEngAttempt_def mem_write_def Let_def split: option.splits)

lemma lockdown_exec_mem:
  assumes "security_lockdown s" "\<not> clears_lockdown op"
  shows "security_lockdown (exec_mem op s)"
proof (cases op)
  case (CheckMultipleTamper ps)
  then show ?thesis using assms(1)
    by (auto simp: checkMultipleTamper_def intro!: lockdown_fold lockdown_checkTamper)
next
  case (AutoResetCritical ls)
  then show ?thesis using assms(1) by (auto simp: autoResetCritical_def intro!: lockdown_fold)
next
  case HardwareObfuscate
  then show ?thesis using assms(1)
    by (auto simp: hardwareObfuscate_def Let_def intro!: lockdown_for_up)
next
  case ClearSecurityLockdown
  then show ?thesis using assms(2) by (simp add: clears_lockdown_def)
qed (use assms(1) in \<open>auto simp: addLayers_def pickRandomLayer_def setLayerAccess_def protectedRead_def
  protectedWrite_def readProcessing_def scrambleLayer_def encryptLayer_def decryptLayer_def
  setHardwareRootKey_def setHardwareKey_def lockSecurity_def clearLayer_def copyLayer_def
  hideKeyInLayer_def extractKeyFromLayer_def enableProcessingLayer_def clearProcessingLayer_def
  Let_def lockdown_checkTamper split: option.splits\<close>)

section \<open>Reads and writes through the logical view\<close>

definition accessible :: "'a smem_scheme \<Rightarrow> nat \<Rightarrow> bool" where
  "accessible s l \<longleftrightarrow> isValidLayer s l \<and> layer_access s l"

lemma mem_read_view:
  assumes "smem_wf s"
  shows "mem_read s l a =
     (if \<not> isValidLayer s l then 0xFFFFFFFF
      else if a \<ge> num_words s then 0xDEADBEEF
      else if \<not> layer_access s l then 0xFFFFFFFF else layer_view s l a)"
  using block_in_bounds[OF smem_wf_words[OF assms], of a]
  by (auto simp: mem_read_def layer_view_def word_view_def Let_def)

lemma logicalRead_view:
  assumes "smem_wf s" "isValidLayer s l" "a < num_words s"
  shows "logicalReadNoAccessCheck s l a = layer_view s l a"
  using block_in_bounds[OF smem_wf_words[OF assms(1)], of a] assms
  by (auto simp: logicalReadNoAccessCheck_def normalizeLayer_def layer_view_def word_view_def Let_def)

lemma word_view_put_block:
  "word_view (put_block m (a div 4 * 4) (aes_encrypt_block b key)) True key l x =
     (if x div 4 = a div 4 then quad_nth b (x mod 4) XOR scramble_key l
      else word_view m True key l x)"
  by (simp add: word_view_def mem_block_put_block aes.dec_enc)

lemma same_block: "x div 4 = a div 4 \<Longrightarrow> x mod 4 = a mod 4 \<longleftrightarrow> x = (a::nat)"
  by (metis mod_div_mult_eq)

lemma layer_view_write:
  assumes "smem_wf s" "accessible s l" "a < num_words s"
  shows "layer_view (mem_write s l a v) x b = (if x = l \<and> b = a then v else layer_view s x b)"
proof (cases "layer_is_encrypted s l")
  case False
  then show ?thesis using assms by (simp add: mem_write_def accessible_def layer_view_def word_view_def)
next
  case True
  let ?plain = "aes_decrypt_block (mem_block (memory s l) (a div 4 * 4)) (layer_keys s l)"
  let ?b = "map_quad (\<lambda>x. x XOR scramble_key l)
      (quad_upd (map_quad (\<lambda>x. x XOR scramble_key l) ?plain) (a mod 4) v)"
  have bit: "quad_nth ?b (b mod 4) XOR scramble_key l = (if b mod 4 = a mod 4 then v
      else quad_nth ?plain (b mod 4) XOR scramble_key l)"
    by (simp add: quad_nth_upd xor.assoc)
  have view: "layer_view (mem_write s l a v) l b =
      word_view (put_block (memory s l) (a div 4 * 4) (aes_encrypt_block ?b (layer_keys s l)))
        True (layer_keys s l) l b"
    using assms True block_in_bounds[OF smem_wf_words[OF assms(1)], of a]
    by (simp add: mem_write_def accessible_def layer_view_def Let_def)
  have "layer_view (mem_write s l a v) l b = (if b = a then v else layer_view s l b)"
    unfolding view word_view_put_block bit using same_block[of b a]
    by (simp add: layer_view_def word_view_def True)
  moreover have "x \<noteq> l \<Longrightarrow> layer_view (mem_write s l a v) x b = layer_view s x b"
    by (simp add: mem_write_def layer_view_def Let_def)
  ultimately show ?thesis by (cases "x = l") auto
qed

lemma mem_write_same_access [simp]:
  "isValidLayer (mem_write s l a v) x = isValidLayer s x"
  "layer_access (mem_write s l a v) = layer_access s"
  "num_words (mem_write s l a v) = num_words s" "num_layers (mem_write s l a v) = num_layers s"
  "layer_is_encrypted (mem_write s l a v) = layer_is_encrypted s"
  by (simp_all add: mem_write_def Let_def isValidLayer_def)

lemma mem_read_write:
  assumes "smem_wf s" "accessible s l" "a < num_words s"
  shows "mem_read (mem_write s l a v) x b = (if x = l \<and> b = a then v else mem_read s x b)"
  using assms wf_mem_write[OF assms(1), of l a v]
  by (auto simp: mem_read_view layer_view_write accessible_def)

lemma layer_view_note_access [simp]: "layer_view (note_access s t l a) = layer_view s"
  by (simp add: layer_view_def fun_eq_iff)

lemma mem_read_note_access [simp]: "mem_read (note_access s t l a) x b = mem_read s x b"
  by (simp add: mem_read_def Let_def)

lemma protectedRead_value: "fst (protectedRead s l a) = mem_read s l a"
  by (simp add: protectedRead_def Let_def mem_read_def[of s])

lemma protectedWrite_read:
  assumes "smem_wf s" "accessible s l" "a < num_words s"
  shows "mem_read (protectedWrite s l a v) x b = (if x = l \<and> b = a then v else mem_read s x b)"
  using assms
  by (simp add: protectedWrite_def accessible_def mem_read_write wf_note_access)

section \<open>A layer as a store of words\<close>

interpretation arr: word_store "\<lambda>m. m" "\<lambda>m w v. m(w := v)" "\<lambda>_. True" n for n
  by unfold_locales simp_all

text \<open>The read-modify-write that the loader performs on a word: \<open>protectedRead\<close>, then \<open>protectedWrite\<close>.\<close>

definition rmw_write :: "nat \<Rightarrow> 'a smem_scheme \<Rightarrow> nat \<Rightarrow> u32 \<Rightarrow> 'a smem_scheme" where
  "rmw_write l s w v = protectedWrite (snd (protectedRead s l w)) l w v"

lemma accessible_note_access [simp]: "accessible (note_access s t l a) x = accessible s x"
  by (simp add: accessible_def)

lemma rmw_write_unfold:
  "isValidLayer s l \<Longrightarrow>
     rmw_write l s w v = mem_write (note_access (note_access s ''READ'' l w) ''WRITE'' l w) l w v"
  by (simp add: rmw_write_def protectedRead_def protectedWrite_def Let_def)

interpretation layer_store: word_store "\<lambda>s. mem_read s l" "rmw_write l"
    "\<lambda>s. smem_wf s \<and> accessible s l \<and> num_words s = n" n for l n
proof
  fix s :: "'a smem_scheme" and w x v
  assume *: "smem_wf s \<and> accessible s l \<and> num_words s = n" "w < n"
  then have v: "isValidLayer s l" by (simp add: accessible_def)
  show "smem_wf (rmw_write l s w v) \<and> accessible (rmw_write l s w v) l \<and> num_words (rmw_write l s w v) = n"
    using * v by (auto simp: rmw_write_unfold accessible_def intro!: wf_intros)
  show "mem_read (rmw_write l s w v) l x = (if x = w then v else mem_read s l x)"
    using * v by (simp add: rmw_write_unfold mem_read_write wf_note_access)
qed

section \<open>Encryption, decryption and scrambling of a whole layer\<close>

lemma div4_range: "4 dvd n \<Longrightarrow> n div 4 * 4 = (n::nat)"
  by simp

lemma scrambleLayerWithKey_memory:
  assumes "isValidLayer s l" "\<not> layer_is_encrypted s l"
  shows "memory (scrambleLayerWithKey s l k) x a =
           (if x = l \<and> a < num_words s then memory s l a XOR k else memory s x a)"
    "layer_keys (scrambleLayerWithKey s l k) = layer_keys s"
    "num_words (scrambleLayerWithKey s l k) = num_words s"
    "num_layers (scrambleLayerWithKey s l k) = num_layers s"
    "layer_access (scrambleLayerWithKey s l k) = layer_access s"
    "layer_is_encrypted (scrambleLayerWithKey s l k) = layer_is_encrypted s"
  using assms by (simp_all add: scrambleLayerWithKey_def)

lemma encryptLayer_fields:
  assumes "isValidLayer s l" "\<not> layer_is_encrypted s l"
  shows "layer_is_encrypted (encryptLayer s l) = (layer_is_encrypted s)(l := True)"
    "layer_keys (encryptLayer s l) = layer_keys s"
    "num_words (encryptLayer s l) = num_words s" "num_layers (encryptLayer s l) = num_layers s"
    "layer_access (encryptLayer s l) = layer_access s"
    "memory (encryptLayer s l) = (memory s)(l := map_blocks_in_place
        (\<lambda>b. aes_encrypt_block b (layer_keys s l)) (num_words s)
        (\<lambda>a. if a < num_words s then memory s l a XOR scramble_key l else memory s l a))"
proof -
  have "memory (scrambleLayerWithKey s l k) =
      (memory s)(l := \<lambda>a. if a < num_words s then memory s l a XOR k else memory s l a)" for k
    using assms by (auto simp: fun_eq_iff scrambleLayerWithKey_memory)
  then show "layer_is_encrypted (encryptLayer s l) = (layer_is_encrypted s)(l := True)"
    "layer_keys (encryptLayer s l) = layer_keys s"
    "num_words (encryptLayer s l) = num_words s" "num_layers (encryptLayer s l) = num_layers s"
    "layer_access (encryptLayer s l) = layer_access s"
    "memory (encryptLayer s l) = (memory s)(l := map_blocks_in_place
        (\<lambda>b. aes_encrypt_block b (layer_keys s l)) (num_words s)
        (\<lambda>a. if a < num_words s then memory s l a XOR scramble_key l else memory s l a))"
    using assms by (simp_all add: encryptLayer_def Let_def scrambleLayerWithKey_memory(2-))
qed

lemma layer_view_encryptLayer:
  assumes "smem_wf s" "a < num_words s"
  shows "layer_view (encryptLayer s l) x a = layer_view s x a"
proof (cases "isValidLayer s l \<and> \<not> layer_is_encrypted s l")
  case True
  then have v: "isValidLayer s l" "\<not> layer_is_encrypted s l" by simp_all
  note f = encryptLayer_fields[OF v]
  have nw: "4 dvd num_words s" using assms(1) by blast
  have blk: "a div 4 * 4 + 4 \<le> num_words s" by (rule block_in_bounds[OF nw assms(2)])
  show ?thesis
  proof (cases "x = l")
    case True
    have "a mod 4 < 4" "a div 4 * 4 + a mod 4 = a" by simp_all
    then show ?thesis using v(2) True assms(2) blk nw
      by (simp add: layer_view_def word_view_def f mem_block_map_blocks aes.dec_enc xor.assoc)
  qed (simp add: layer_view_def f)
qed (auto simp: encryptLayer_def)

lemma encryptLayer_keeps [simp]:
  "isValidLayer (encryptLayer s l) x = isValidLayer s x"
  "layer_access (encryptLayer s l) = layer_access s"
  "num_words (encryptLayer s l) = num_words s" "num_layers (encryptLayer s l) = num_layers s"
  by (auto simp: encryptLayer_def scrambleLayerWithKey_def Let_def isValidLayer_def)

lemma mem_read_encryptLayer:
  "smem_wf s \<Longrightarrow> mem_read (encryptLayer s l) x a = mem_read s x a"
  by (auto simp: mem_read_view wf_layer_ciphers layer_view_encryptLayer)

lemma decryptLayer_fields:
  assumes "isValidLayer s l" "layer_is_encrypted s l"
  shows "layer_is_encrypted (decryptLayer s l) = (layer_is_encrypted s)(l := False)"
    "layer_keys (decryptLayer s l) = layer_keys s"
    "num_words (decryptLayer s l) = num_words s" "num_layers (decryptLayer s l) = num_layers s"
    "layer_access (decryptLayer s l) = layer_access s"
    "memory (decryptLayer s l) = (memory s)(l :=
        (\<lambda>a. let v = map_blocks_in_place (\<lambda>b. aes_decrypt_block b (layer_keys s l)) (num_words s) (memory s l) a
             in if a < num_words s then v XOR scramble_key l else v))"
  using assms
  by (auto simp: decryptLayer_def unscrambleLayerWithKey_def Let_def fun_eq_iff)

lemma layer_view_decryptLayer:
  assumes "smem_wf s" "a < num_words s"
  shows "layer_view (decryptLayer s l) x a = layer_view s x a"
proof (cases "isValidLayer s l \<and> layer_is_encrypted s l")
  case True
  then have v: "isValidLayer s l" "layer_is_encrypted s l" by simp_all
  have "num_words s div 4 * 4 = num_words s" using assms(1) by (simp add: smem_wf_words)
  then show ?thesis using v(2) assms(2)
    by (cases "x = l")
       (simp_all add: layer_view_def word_view_def decryptLayer_fields[OF v] map_blocks_in_place_apply Let_def)
qed (auto simp: decryptLayer_def)

text \<open>Decryption gives back the plain words of the layer, inside and outside the used range.\<close>

lemma decrypt_encrypt_memory:
  assumes "smem_wf s" "isValidLayer s l" "\<not> layer_is_encrypted s l"
  shows "memory (decryptLayer (encryptLayer s l) l) = memory s"
proof (intro ext)
  fix x a
  have nw: "4 dvd num_words s" using assms(1) by blast
  note f = encryptLayer_fields[OF assms(2,3)]
  have v: "isValidLayer (encryptLayer s l) l" "layer_is_encrypted (encryptLayer s l) l"
    using assms(2) by (simp_all add: f)
  note g = decryptLayer_fields[OF v]
  have wf: "smem_wf (encryptLayer s l)" by (rule wf_layer_ciphers[OF assms(1)])
  show "memory (decryptLayer (encryptLayer s l) l) x a = memory s x a"
  proof (cases "x = l \<and> a < num_words s")
    case True
    have "layer_view (decryptLayer (encryptLayer s l) l) l a = layer_view s l a"
      using True by (simp add: layer_view_decryptLayer[OF wf] layer_view_encryptLayer[OF assms(1)])
    then show ?thesis using True assms(3) by (simp add: layer_view_def word_view_def g(1))
  next
    case False
    then show ?thesis using nw by (auto simp: f g Let_def map_blocks_in_place_apply)
  qed
qed

lemma scramble_involution:
  assumes "isValidLayer s l" "\<not> layer_is_encrypted s l"
  shows "memory (unscrambleLayerWithKey (scrambleLayerWithKey s l k) l k) = memory s"
  using assms by (auto simp: unscrambleLayerWithKey_def scrambleLayerWithKey_def fun_eq_iff)

section \<open>Copying a layer\<close>

lemma copy_words:
  "for_up 0 n (\<lambda>w m. m(dst := (m dst)(w := m src w))) m =
     m(dst := (\<lambda>w. if w < n then m src w else m dst w))" for m :: "nat \<Rightarrow> nat \<Rightarrow> 'a"
proof (induction n)
  case (Suc n)
  then show ?case by (auto simp: for_up_Suc fun_eq_iff less_Suc_eq)
qed (simp add: fun_eq_iff)

lemma layer_view_copyLayer:
  assumes "smem_wf s" "isValidLayer s src" "isValidLayer s dst" "a < num_words s"
  shows "layer_view (copyLayer s src dst) dst a =
    (if layer_is_encrypted s src then layer_view s src a XOR scramble_key src XOR scramble_key dst
     else layer_view s src a)"
proof -
  have blk: "a div 4 * 4 + 4 \<le> num_words s"
    by (rule block_in_bounds[OF smem_wf_words[OF assms(1)] assms(4)])
  have "mem_block (\<lambda>w. if w < num_words s then memory s src w else memory s dst w) (a div 4 * 4) =
      mem_block (memory s src) (a div 4 * 4)"
    by (rule mem_block_cong) (use blk in simp)
  then show ?thesis using assms
    by (simp add: copyLayer_def Let_def copy_words layer_view_def word_view_def xor.assoc)
qed

section \<open>Hiding and extracting a key\<close>

lemma hide_loop:
  assumes "set secret \<subseteq> {..<32 * nw}"
  shows "for_up 0 (length secret)
    (\<lambda>i m. let word_index = secret ! i div 32; bit_in_word = secret ! i mod 32 in
       if word_index \<ge> nw then m
       else let bit_val = drop_bit (i mod 32) (key ! (i div 32)) AND 1
            in m(word_index := set_bit_to (m word_index) bit_in_word bit_val)) m =
   scatter (\<lambda>m. m) (\<lambda>m w v. m(w := v)) key secret m"
proof -
  have "\<not> nw \<le> secret ! i div 32" if "i < length secret" for i
    using nth_mem[OF that] assms by (auto simp: less_mult_imp_div_less mult.commute not_le)
  then show ?thesis unfolding scatter_def for_up_def
    by (intro fold_cong) (auto simp: Let_def simp del: fun_upd_apply)
qed

lemma extract_loop:
  assumes "set secret \<subseteq> {..<32 * nw}"
  shows "for_up 0 (length secret)
    (\<lambda>i key. let word_index = secret ! i div 32; bit_in_word = secret ! i mod 32 in
       if word_index \<ge> nw then key
       else let bit_val = drop_bit bit_in_word (m word_index) AND 1
            in key[i div 32 := key ! (i div 32) OR push_bit (i mod 32) bit_val]) (replicate n 0) =
   gather m secret n"
proof -
  have "\<not> nw \<le> secret ! i div 32" if "i < length secret" for i
    using nth_mem[OF that] assms by (auto simp: less_mult_imp_div_less mult.commute not_le)
  then show ?thesis unfolding gather_def for_up_def
    by (intro fold_cong) (auto simp: Let_def)
qed

lemma hide_state:
  assumes "isValidLayer s l" "\<not> layer_is_encrypted s l"
    and "set secret \<subseteq> {..<32 * num_words s}" "length secret = 32 * length key" "key \<noteq> []"
  shows "memory (hideKeyInLayer s l key secret) = (memory s)(l :=
           scatter (\<lambda>m. m) (\<lambda>m w v. m(w := v)) key secret (memory s l))"
    "layer_is_encrypted (hideKeyInLayer s l key secret) = layer_is_encrypted s"
    "layer_has_hidden_key (hideKeyInLayer s l key secret) l"
    "num_words (hideKeyInLayer s l key secret) = num_words s"
    "isValidLayer (hideKeyInLayer s l key secret) x = isValidLayer s x"
  using assms hide_loop[OF assms(3), of key "memory s l"]
  by (simp_all add: hideKeyInLayer_def Let_def isValidLayer_def)

lemma extract_value:
  assumes "isValidLayer s l" "\<not> layer_is_encrypted s l"
    and "set secret \<subseteq> {..<32 * num_words s}" "length secret = 32 * n" "n \<noteq> 0"
  shows "fst (extractKeyFromLayer s l secret n) = gather (memory s l) secret n"
  using assms extract_loop[OF assms(3), of "memory s l" n]
  by (simp add: extractKeyFromLayer_def Let_def cong: if_cong)

section \<open>Tamper reaction\<close>

lemma autoReset_loop:
  "k \<le> num_layers s \<Longrightarrow>
   (\<forall>x a. memory (for_up 0 k (\<lambda>l s. add_log (zero_words s l) l t) s) x a =
      (if x < k \<and> a < num_words s then 0 else memory s x a)) \<and>
   (\<forall>x. layer_is_encrypted (for_up 0 k (\<lambda>l s. add_log (zero_words s l) l t) s) x =
      (k \<le> x \<and> layer_is_encrypted s x)) \<and>
   (\<forall>x. layer_has_hidden_key (for_up 0 k (\<lambda>l s. add_log (zero_words s l) l t) s) x =
      (k \<le> x \<and> layer_has_hidden_key s x)) \<and>
   num_words (for_up 0 k (\<lambda>l s. add_log (zero_words s l) l t) s) = num_words s \<and>
   num_layers (for_up 0 k (\<lambda>l s. add_log (zero_words s l) l t) s) = num_layers s \<and>
   tamper_events (for_up 0 k (\<lambda>l s. add_log (zero_words s l) l t) s) = tamper_events s \<and>
   tamper_detected (for_up 0 k (\<lambda>l s. add_log (zero_words s l) l t) s) = tamper_detected s"
proof (induction k)
  case (Suc k)
  then show ?case
    by (auto simp: for_up_Suc zero_words_def[where layer = k] for_up_cells[of _ "\<lambda>_ _. 0"] less_Suc_eq)
qed simp

lemma autoReset_fields:
  "memory (autoReset s) x a = (if x < num_layers s \<and> a < num_words s then 0 else memory s x a)"
  "layer_is_encrypted (autoReset s) x = (num_layers s \<le> x \<and> layer_is_encrypted s x)"
  "layer_has_hidden_key (autoReset s) x = (num_layers s \<le> x \<and> layer_has_hidden_key s x)"
  "num_words (autoReset s) = num_words s" "num_layers (autoReset s) = num_layers s"
  "tamper_events (autoReset s) = tamper_events s" "tamper_detected (autoReset s) = tamper_detected s"
  using autoReset_loop[of "num_layers s" s "''[AUTO RESET] ''"]
  by (simp_all add: autoReset_def Let_def)

lemma autoReset_caches:
  "i < 4 \<Longrightarrow> \<not> iCache_valid (autoReset s) i \<and> \<not> dcache_valid (autoReset s) i"
  by (simp add: autoReset_def Let_def invalidateCaches_def)

section \<open>Properties\<close>

text \<open>
  C17: Every state the memory can reach from its constructor by any sequence of its operations,
  with any arguments, is well formed: at most four layers, a positive number of words that is a
  multiple of the AES block and at most 1024, every log NUL-terminated in its 128 characters, no
  word ever stored outside the used range, and a processing layer inside the arrays.
\<close>

theorem reachable_smem_wf:
  assumes "mem_reachable s"
  shows "smem_wf s"
  using assms by induction (simp_all add: wf_StackedMemory3D wf_exec_mem)

theorem reachable_smem_wf_witness:
  "smem_wf (exec_mem (EncryptLayer 1) (exec_mem (Write 0 3 7) (StackedMemory3D 2 18)))"
  by (rule reachable_smem_wf) (intro mem_reachable.intros)

text \<open>
  C18: Once the memory is locked down it stays locked through any sequence of operations that does
  not contain \<open>clearSecurityLockdown\<close>: resets, key changes, encryption, copying and tamper
  checks with whatever arguments cannot lift it.
\<close>

theorem lockdown_persists:
  assumes "security_lockdown s" and "\<forall>op\<in>set ops. \<not> clears_lockdown op"
  shows "isSecurityLocked (fold exec_mem ops s)"
  using assms
proof (induction ops arbitrary: s)
  case (Cons op ops)
  then show ?case using lockdown_exec_mem[of s op] by simp
qed (simp add: isSecurityLocked_def)

theorem lockdown_persists_witness:
  "isSecurityLocked (fold exec_mem [AutoReset, SetHardwareKey 5, EncryptLayer 0, ClearLayer 0]
     (lockSecurity (StackedMemory3D 4 1024) ''X''))"
  by (rule lockdown_persists) (simp_all add: lockSecurity_def Let_def clears_lockdown_def)

text \<open>
  C19: Reads through the monitored interface return the last value written, on a plain layer and on
  an AES-encrypted one (where a write decrypts, patches and re-encrypts a whole block), and a write
  changes no other address of any layer as seen by a reader.
\<close>

theorem protected_read_after_write:
  assumes "smem_wf s" "accessible s l" "a < num_words s"
  shows "fst (protectedRead (protectedWrite s l a v) x b) =
           (if x = l \<and> b = a then v else fst (protectedRead s x b))"
  unfolding protectedRead_value by (rule protectedWrite_read[OF assms])

theorem protected_read_after_write_witness:
  "fst (protectedRead (protectedWrite (encryptLayer (StackedMemory3D 2 16) 1) 1 6 0xCAFE) 1 6) = 0xCAFE"
proof -
  let ?s = "encryptLayer (StackedMemory3D 2 16) 1"
  have "smem_wf ?s" by (rule wf_layer_ciphers(4)[OF wf_StackedMemory3D])
  moreover have "accessible ?s 1" "6 < num_words ?s"
    by (simp_all add: accessible_def isValidLayer_def StackedMemory3D_def initLayerKeys_def Let_def)
  ultimately show ?thesis using protected_read_after_write[of ?s 1 6 "0xCAFE" 1 6] by simp
qed

text \<open>
  C20: Encrypting a layer is invisible to readers: every address of every layer reads the same
  before and after. Decrypting it again restores the stored words exactly.
\<close>

theorem encryptLayer_transparent:
  assumes "smem_wf s"
  shows "mem_read (encryptLayer s l) x a = mem_read s x a \<and>
    (isValidLayer s l \<and> \<not> isLayerEncrypted s l \<longrightarrow>
       memory (decryptLayer (encryptLayer s l) l) = memory s)"
  using assms by (simp add: mem_read_encryptLayer decrypt_encrypt_memory isLayerEncrypted_def)

theorem encryptLayer_transparent_witness:
  "memory (decryptLayer (encryptLayer (StackedMemory3D 3 64) 2) 2) = memory (StackedMemory3D 3 64)"
  using encryptLayer_transparent[OF wf_StackedMemory3D, of 3 64 2 0 0]
  by (simp add: isLayerEncrypted_def isValidLayer_def StackedMemory3D_def initLayerKeys_def Let_def)

text \<open>
  A key hidden in a plain layer at distinct bit positions inside the layer is extracted
  unchanged with the same positions; words none of whose bits are listed, and the other layers,
  keep their contents.
\<close>

theorem hide_extract_key:
  assumes "isValidLayer s l" "\<not> layer_is_encrypted s l"
    and "distinct secret" "set secret \<subseteq> {..<32 * num_words s}"
    and "length secret = 32 * length key" "key \<noteq> []"
  shows "fst (extractKeyFromLayer (hideKeyInLayer s l key secret) l secret (length key)) = key \<and>
    (\<forall>x a. x \<noteq> l \<or> (a < num_words s \<and> (\<forall>p\<in>set secret. p div 32 \<noteq> a)) \<longrightarrow>
       memory (hideKeyInLayer s l key secret) x a = memory s x a)"
proof -
  note h = hide_state[OF assms(1,2,4,5,6)]
  have "fst (extractKeyFromLayer (hideKeyInLayer s l key secret) l secret (length key)) =
      gather (scatter (\<lambda>m. m) (\<lambda>m w v. m(w := v)) key secret (memory s l)) secret (length key)"
    by (subst extract_value) (use assms in \<open>simp_all add: h\<close>)
  also have "\<dots> = key" by (rule arr.gather_scatter) (use assms in simp_all)
  finally show ?thesis using arr.scatter_frame[OF TrueI assms(4,3)] by (simp add: h(1))
qed

theorem hide_extract_key_witness:
  "fst (extractKeyFromLayer (hideKeyInLayer (StackedMemory3D 1 8) 0 [0xDEADBEEF, 5] (rev [40..<104])) 0
     (rev [40..<104]) 2) = [0xDEADBEEF, 5]"
proof -
  let ?s = "StackedMemory3D 1 8"
  have "isValidLayer ?s 0" "\<not> layer_is_encrypted ?s 0" "num_words ?s = 8"
    by (simp_all add: isValidLayer_def StackedMemory3D_def initLayerKeys_def Let_def)
  moreover have "set (rev [40..<104]) \<subseteq> {..<32 * num_words ?s}"
    using calculation(3) by auto
  moreover have "length (rev [40..<104]) = 32 * length [0xDEADBEEF, 5 :: u32]" by simp
  moreover have "length [0xDEADBEEF, 5 :: u32] = 2" by simp
  ultimately show ?thesis
    using hide_extract_key[of ?s 0 "rev [40..<104]" "[0xDEADBEEF, 5]"]
    by (metis distinct_rev distinct_upt list.distinct(1))
qed

text \<open>
  C21: \<open>checkTamper\<close> leaves the state alone when the logical word equals the expected one or the
  point is outside the memory. Otherwise it counts the event, locks the memory down, and wipes
  every word and both flags of every layer and all cache lines.
\<close>

theorem checkTamper_reaction:
  "(\<not> isValidLayer s l \<or> num_words s \<le> a \<or> logicalReadNoAccessCheck s l a = e \<longrightarrow>
      checkTamper s l a e = s) \<and>
   (isValidLayer s l \<and> a < num_words s \<and> logicalReadNoAccessCheck s l a \<noteq> e \<longrightarrow>
      (let t = checkTamper s l a e in
         security_lockdown t \<and> tamper_detected t \<and> tamper_events t = tamper_events s + 1 \<and>
         (\<forall>x < num_layers s. \<not> layer_is_encrypted t x \<and> \<not> layer_has_hidden_key t x \<and>
            (\<forall>b < num_words s. memory t x b = 0)) \<and>
         (\<forall>i < 4. \<not> iCache_valid t i \<and> \<not> dcache_valid t i)))"
  by (auto simp: checkTamper_def Let_def autoReset_fields autoReset_caches)

theorem checkTamper_reaction_witness:
  "let s = mem_write (StackedMemory3D 2 8) 0 3 7; t = checkTamper s 0 3 8 in
   security_lockdown t \<and> memory t 0 3 = 0"
proof -
  let ?s = "mem_write (StackedMemory3D 2 8) 0 3 7"
  have "isValidLayer ?s 0" "num_words ?s = 8" "logicalReadNoAccessCheck ?s 0 3 = 7" "num_layers ?s = 2"
    by (simp_all add: mem_write_def StackedMemory3D_def initLayerKeys_def Let_def isValidLayer_def
        logicalReadNoAccessCheck_def normalizeLayer_def)
  then show ?thesis using checkTamper_reaction[of ?s 0 3 8] by (simp add: Let_def)
qed

text \<open>
  \<open>copyLayer\<close> makes the destination read like the source when the source is plain. When it is
  encrypted, the copied key decrypts the blocks but the scramble constant depends on the layer,
  so every word of the copy reads as the source's word with both scramble constants mixed in.
\<close>

theorem copyLayer_reads:
  assumes "smem_wf s" "isValidLayer s src" "isValidLayer s dst" "a < num_words s" "layer_access s src"
  shows "mem_read (copyLayer s src dst) dst a =
    (if isLayerEncrypted s src then mem_read s src a XOR scramble_key src XOR scramble_key dst
     else mem_read s src a)"
proof -
  have "isValidLayer (copyLayer s src dst) dst" "num_words (copyLayer s src dst) = num_words s"
    "layer_access (copyLayer s src dst) dst"
    using assms by (simp_all add: copyLayer_def Let_def isValidLayer_def)
  then show ?thesis using assms
    by (simp add: mem_read_view wf_copyLayer layer_view_copyLayer isLayerEncrypted_def)
qed

theorem copyLayer_reads_witness:
  "mem_read (copyLayer (encryptLayer (StackedMemory3D 2 8) 0) 0 1) 1 5 \<noteq>
   mem_read (encryptLayer (StackedMemory3D 2 8) 0) 0 5"
proof -
  let ?s = "encryptLayer (StackedMemory3D 2 8) 0"
  have "smem_wf ?s" by (rule wf_layer_ciphers(4)[OF wf_StackedMemory3D])
  moreover have "isValidLayer ?s 0" "isValidLayer ?s 1" "5 < num_words ?s" "layer_access ?s 0"
    by (simp_all add: isValidLayer_def StackedMemory3D_def initLayerKeys_def Let_def)
  moreover have "isLayerEncrypted ?s 0"
    by (simp add: isLayerEncrypted_def encryptLayer_fields isValidLayer_def StackedMemory3D_def
        initLayerKeys_def Let_def)
  moreover have "scramble_key 0 XOR scramble_key 1 \<noteq> 0" by (simp add: scramble_key_def)
  ultimately show ?thesis using copyLayer_reads[of ?s 0 1 5]
    by (simp add: xor.assoc) (metis xor_cancel_left xor.right_neutral xor_self_eq)
qed

end
