(* ===== verification/CMAC.thy ===== *)
theory CMAC
  imports AES
begin

text \<open>
  AES-CMAC of \<open>src/aes_cmac.h\<close> and its HLS wrapper \<open>src/vtf_hls.cpp\<close>: subkey derivation by the
  128-bit shift, the padding of the last block, the chaining loop, the constant-time tag
  comparison. Byte arrays \<open>uint8_t[16]\<close> and messages are lists of bytes. The lemmas relate
  the byte loops to the construction of NIST SP 800-38B (\<open>cmac_reference\<close>).
\<close>

section \<open>Bytes and words\<close>

definition cmac_store_be32 :: "u32 \<Rightarrow> u8 list" where
  "cmac_store_be32 x = store_be32 x"

definition cmac_load_be32 :: "u8 list \<Rightarrow> u32" where
  "cmac_load_be32 p = load_be32 p"

definition cmac_words_to_bytes :: "block \<Rightarrow> u8 list" where
  "cmac_words_to_bytes inp = concat (map cmac_store_be32 (quad_list inp))"

definition cmac_bytes_to_words :: "u8 list \<Rightarrow> block" where
  "cmac_bytes_to_words inp = quad_gen (\<lambda>i. cmac_load_be32 (drop (i * 4) inp))"

definition cmac_xor16 :: "u8 list \<Rightarrow> u8 list \<Rightarrow> u8 list" where
  "cmac_xor16 a b = map (\<lambda>i. a ! i XOR b ! i) [0..<16]"

text \<open>The loop runs from the last byte to the first, carrying the top bit.\<close>

definition cmac_left_shift_128 :: "u8 list \<Rightarrow> u8 list" where
  "cmac_left_shift_128 inp =
     fst (foldr (\<lambda>b (out, carry). ((push_bit 1 b OR carry) # out, drop_bit 7 b AND 1)) inp ([], 0))"

definition cmac_aes_block :: "u8 list \<Rightarrow> block \<Rightarrow> u8 list" where
  "cmac_aes_block inp key = cmac_words_to_bytes (aes_encrypt_block (cmac_bytes_to_words inp) key)"

section \<open>The MAC\<close>

definition cmac_subkey :: "u8 list \<Rightarrow> u8 list" where
  "cmac_subkey L =
     (let msb = (L ! 0 AND 0x80 \<noteq> 0);
          K = cmac_left_shift_128 L
      in if msb then K[15 := K ! 15 XOR 0x87] else K)"

definition cmac_last_block :: "u8 list \<Rightarrow> u8 list \<Rightarrow> u8 list \<Rightarrow> u8 list" where
  "cmac_last_block msg K1 K2 =
     (let len = length msg;
          n = (len + 15) div 16;
          complete = (len \<noteq> 0 \<and> len mod 16 = 0);
          n = (if n = 0 then 1 else n);
          off = (n - 1) * 16
      in if complete then map (\<lambda>i. msg ! (off + i) XOR K1 ! i) [0..<16]
         else let rem = (if off < len then len - off else 0);
                  last = for_up 0 rem (\<lambda>i l. l[i := msg ! (off + i)]) (replicate 16 0);
                  last = last[rem := 0x80]
              in map (\<lambda>i. last ! i XOR K2 ! i) [0..<16])"

definition aes_cmac_128 :: "block \<Rightarrow> u8 list \<Rightarrow> block" where
  "aes_cmac_128 key msg =
     (let zero = replicate 16 0;
          L = cmac_aes_block zero key;
          K1 = cmac_subkey L;
          K2 = cmac_subkey K1;
          n = (length msg + 15) div 16;
          n = (if n = 0 then 1 else n);
          last = cmac_last_block msg K1 K2;
          X = for_up 0 (n - 1)
                (\<lambda>b X. let block = map (\<lambda>i. msg ! (b * 16 + i)) [0..<16]
                        in cmac_aes_block (cmac_xor16 X block) key)
                zero
      in cmac_bytes_to_words (cmac_aes_block (cmac_xor16 X last) key))"

definition cmac_tag_equal :: "block \<Rightarrow> block \<Rightarrow> bool" where
  "cmac_tag_equal a b = (fold (\<lambda>i diff. diff OR (quad_nth a i XOR quad_nth b i)) [0..<4] 0 = 0)"

section \<open>The HLS wrapper\<close>

definition crypto3d_vtf_cmac_tag :: "u32 list \<Rightarrow> block \<Rightarrow> block" where
  "crypto3d_vtf_cmac_tag message_words key_words =
     aes_cmac_128 key_words (concat (map (\<lambda>i. cmac_store_be32 (message_words ! i)) [0..<8]))"

definition crypto3d_vtf_cmac_verify :: "u32 list \<Rightarrow> block \<Rightarrow> block \<Rightarrow> int" where
  "crypto3d_vtf_cmac_verify message_words key_words expected_tag =
     (if cmac_tag_equal (crypto3d_vtf_cmac_tag message_words key_words) expected_tag then 1 else 0)"

section \<open>Conversions\<close>

lemma length_cmac_words_to_bytes [simp]: "length (cmac_words_to_bytes w) = 16"
  by (cases w) (simp add: cmac_words_to_bytes_def cmac_store_be32_def)

lemma cmac_bytes_words [simp]: "cmac_bytes_to_words (cmac_words_to_bytes w) = w"
  by (cases w) (simp add: cmac_bytes_to_words_def cmac_words_to_bytes_def cmac_load_be32_def
      cmac_store_be32_def quad_gen_def)

lemma list_16_split:
  assumes "length p = 16"
  shows "p = take 4 p @ take 4 (drop 4 p) @ take 4 (drop 8 p) @ drop 12 p"
proof -
  have "drop 4 p = take 4 (drop 4 p) @ drop 4 (drop 4 p)"
    "drop 8 p = take 4 (drop 8 p) @ drop 4 (drop 8 p)"
    by (rule append_take_drop_id [symmetric])+
  then show ?thesis using append_take_drop_id[of 4 p] by simp
qed

lemma load_be32_take: "load_be32 (take 4 p) = load_be32 p"
  by (simp add: load_be32_def)

lemma cmac_words_bytes:
  assumes "length p = 16"
  shows "cmac_words_to_bytes (cmac_bytes_to_words p) = p"
proof -
  have "store_be32 (load_be32 (drop i p)) = take 4 (drop i p)" if "i \<le> 12" for i
    using store_load_be32[of "take 4 (drop i p)"] that assms by (simp add: load_be32_take)
  from this[of 0] this[of 4] this[of 8] this[of 12] list_16_split[OF assms] assms
  show ?thesis
    by (simp add: cmac_bytes_to_words_def cmac_words_to_bytes_def cmac_load_be32_def
        cmac_store_be32_def quad_gen_def)
qed

lemma length_cmac_xor16 [simp]: "length (cmac_xor16 a b) = 16"
  by (simp add: cmac_xor16_def)

lemma length_cmac_aes_block [simp]: "length (cmac_aes_block b k) = 16"
  by (simp add: cmac_aes_block_def)

text \<open>The tag comparison accumulates the differences and so decides equality.\<close>

lemma cmac_tag_equal_iff [simp]: "cmac_tag_equal a b \<longleftrightarrow> a = b"
  by (cases a; cases b)
     (simp add: cmac_tag_equal_def upt_rec or_eq_0_word xor_eq_0_word)

section \<open>The construction of NIST SP 800-38B\<close>

text \<open>A byte string as a 128-bit number, most significant byte first, and back.\<close>

definition be_word :: "u8 list \<Rightarrow> 128 word" where
  "be_word bs = fold (\<lambda>b w. push_bit 8 w OR ucast b) bs 0"

definition word_bytes :: "128 word \<Rightarrow> u8 list" where
  "word_bytes w = map (\<lambda>i. ucast (drop_bit (8 * (15 - i)) w)) [0..<16]"

definition dbl128 :: "128 word \<Rightarrow> 128 word" where
  "dbl128 w = (if bit w 127 then push_bit 1 w XOR 0x87 else push_bit 1 w)"

fun split_blocks :: "u8 list \<Rightarrow> u8 list list" where
  "split_blocks m = (if length m \<le> 16 then [m] else take 16 m # split_blocks (drop 16 m))"

declare split_blocks.simps [simp del]

definition pad_block :: "u8 list \<Rightarrow> u8 list" where
  "pad_block m = m @ [0x80] @ replicate (15 - length m) 0"

definition cmac_reference :: "block \<Rightarrow> u8 list \<Rightarrow> block" where
  "cmac_reference key msg =
     (let ciph = (\<lambda>x. cmac_aes_block x key);
          K1 = word_bytes (dbl128 (be_word (ciph (replicate 16 0))));
          K2 = word_bytes (dbl128 (be_word K1));
          Ms = split_blocks msg;
          Mn = (if length (last Ms) = 16 then map2 (XOR) (last Ms) K1
                else map2 (XOR) (pad_block (last Ms)) K2)
      in cmac_bytes_to_words (fold (\<lambda>M C. ciph (map2 (XOR) C M)) (butlast Ms @ [Mn]) (replicate 16 0)))"

subsection \<open>Subkeys\<close>

lemma bit_be_word:
  "bit (be_word bs) n \<longleftrightarrow> n < 128 \<and> n < 8 * length bs \<and> bit (rev bs ! (n div 8)) (n mod 8)"
proof (induction bs arbitrary: n rule: rev_induct)
  case Nil
  then show ?case by (simp add: be_word_def)
next
  case (snoc b bs)
  have step: "be_word (bs @ [b]) = push_bit 8 (be_word bs) OR ucast b"
    by (simp add: be_word_def)
  show ?case
  proof (cases "n < 8")
    case True
    then show ?thesis by (simp add: step bit_simps)
  next
    case False
    then have "rev (bs @ [b]) ! (n div 8) = rev bs ! ((n - 8) div 8)" "(n - 8) mod 8 = n mod 8"
      by (simp_all add: nth_Cons' le_mod_geq div_if [of n 8])
    with False show ?thesis
      by (auto simp: step bit_simps snoc.IH less_diff_conv2 dest: bit_imp_le_length)
  qed
qed

lemma left_shift_nth:
  assumes "i < length bs"
  shows "cmac_left_shift_128 bs ! i = push_bit 1 (bs ! i)
           OR (if Suc i < length bs then drop_bit 7 (bs ! Suc i) AND 1 else 0)"
    and "length (cmac_left_shift_128 bs) = length bs"
proof -
  let ?f = "\<lambda>(b::u8) (out, carry). ((push_bit 1 b OR carry) # out, drop_bit 7 b AND 1)"
  have carry: "snd (foldr ?f xs ([], 0)) = (case xs of [] \<Rightarrow> 0 | b # _ \<Rightarrow> drop_bit 7 b AND 1)" for xs
    by (cases xs) (auto split: prod.splits)
  have len: "length (fst (foldr ?f xs ([], 0))) = length xs" for xs
    by (induction xs) (auto split: prod.splits)
  show "length (cmac_left_shift_128 bs) = length bs"
    unfolding cmac_left_shift_128_def by (rule len)
  have "i < length xs \<Longrightarrow> fst (foldr ?f xs ([], 0)) ! i = push_bit 1 (xs ! i)
      OR (if Suc i < length xs then drop_bit 7 (xs ! Suc i) AND 1 else 0)" for xs
  proof (induction xs arbitrary: i)
    case (Cons b xs)
    obtain out c where fc: "foldr ?f xs ([], 0) = (out, c)" by fastforce
    with carry[of xs] have c: "c = (case xs of [] \<Rightarrow> 0 | b # _ \<Rightarrow> drop_bit 7 b AND 1)" by simp
    show ?case
    proof (cases i)
      case 0
      with fc c show ?thesis by (cases xs) simp_all
    next
      case (Suc j)
      with Cons.IH[of j] Cons.prems fc show ?thesis by simp
    qed
  qed simp
  then show "cmac_left_shift_128 bs ! i = push_bit 1 (bs ! i)
      OR (if Suc i < length bs then drop_bit 7 (bs ! Suc i) AND 1 else 0)"
    unfolding cmac_left_shift_128_def using assms .
qed

lemma rev_nth_16: "length bs = 16 \<Longrightarrow> k < 16 \<Longrightarrow> rev bs ! k = bs ! (15 - k)"
  by (simp add: rev_nth)

lemma be_word_left_shift:
  assumes len: "length bs = 16"
  shows "be_word (cmac_left_shift_128 bs) = push_bit 1 (be_word bs)"
proof (rule bit_word_eqI)
  fix n assume "n < LENGTH(128)"
  then have n: "n < 128" by simp
  define k where "k = n div 8"
  have k: "k < 16" using n by (simp add: k_def less_mult_imp_div_less)
  have suc: "Suc (15 - k) = 16 - k" using k by simp
  have lhs: "bit (be_word (cmac_left_shift_128 bs)) n \<longleftrightarrow>
      bit (push_bit 1 (bs ! (15 - k)) OR (if 0 < k then drop_bit 7 (bs ! (16 - k)) AND 1 else 0)) (n mod 8)"
    using n k len left_shift_nth(1)[of "15 - k" bs] left_shift_nth(2)[of "0" bs]
    by (simp add: bit_be_word rev_nth_16 suc flip: k_def)
  show "bit (be_word (cmac_left_shift_128 bs)) n = bit (push_bit 1 (be_word bs)) n"
  proof (cases "n mod 8 = 0")
    case True
    then have n8: "n = 8 * k" unfolding k_def by presburger
    show ?thesis
    proof (cases "k = 0")
      case True
      with lhs n8 show ?thesis by (simp add: bit_simps bit_times_2)
    next
      case False
      then obtain j where j: "k = Suc j" using not0_implies_Suc by blast
      then have "n - 1 = 7 + j * 8" using n8 by simp
      then have d: "(n - 1) div 8 = j" "(n - 1) mod 8 = 7" "n \<noteq> 0" "15 - j = 16 - k"
        using j n8 by simp_all
      then have "bit (push_bit 1 (be_word bs)) n = bit (bs ! (16 - k)) 7"
        using n k len by (auto simp: bit_times_2 bit_be_word rev_nth_16 j)
      moreover have "bit (be_word (cmac_left_shift_128 bs)) n = bit (bs ! (16 - k)) 7"
        using lhs True False by (simp add: bit_simps bit_times_2)
      ultimately show ?thesis by simp
    qed
  next
    case False
    then obtain r where r: "n mod 8 = Suc r" using not0_implies_Suc by blast
    then have "n - 1 = r + k * 8" "r < 8"
      using div_mult_mod_eq[of n 8] mod_less_divisor[of 8 n] unfolding k_def by linarith+
    then have d: "(n - 1) div 8 = k" "(n - 1) mod 8 = r" "n - 1 < 128" "0 < n"
      using r n by (auto intro: gr0I)
    then have "bit (push_bit 1 (be_word bs)) n = bit (bs ! (15 - k)) r"
      using n k len by (auto simp: bit_times_2 bit_be_word rev_nth_16)
    moreover have "bit (be_word (cmac_left_shift_128 bs)) n = bit (bs ! (15 - k)) r"
      using lhs r \<open>r < 8\<close> mod_less_divisor[of 8 n] by (auto simp: bit_simps bit_times_2)
    ultimately show ?thesis by simp
  qed
qed

lemma be_word_last_xor:
  assumes len: "length bs = 16"
  shows "be_word (bs[15 := bs ! 15 XOR c]) = be_word bs XOR ucast c"
proof (rule bit_word_eqI)
  fix n assume "n < LENGTH(128)"
  then have n: "n < 128" and k: "n div 8 < 16" by (simp_all add: less_mult_imp_div_less)
  show "bit (be_word (bs[15 := bs ! 15 XOR c])) n = bit (be_word bs XOR ucast c) n"
  proof (cases "n < 8")
    case True
    with len show ?thesis by (simp add: bit_be_word rev_nth_16 bit_simps bit_times_2)
  next
    case False
    then have "n div 8 \<noteq> 0" "\<not> bit c n"
      using bit_imp_le_length[of c n] by auto
    then have "15 - n div 8 \<noteq> 15" using k by linarith
    with k len \<open>\<not> bit c n\<close> n show ?thesis
      by (simp add: bit_be_word rev_nth_16 bit_simps bit_times_2)
  qed
qed

lemma word_bytes_be_word:
  assumes len: "length bs = 16"
  shows "word_bytes (be_word bs) = bs"
proof (rule nth_equalityI)
  show "length (word_bytes (be_word bs)) = length bs" by (simp add: word_bytes_def len)
  fix i assume "i < length (word_bytes (be_word bs))"
  then have i: "i < 16" by (simp add: word_bytes_def)
  show "word_bytes (be_word bs) ! i = bs ! i"
  proof (rule bit_word_eqI)
    fix n assume "n < LENGTH(8)"
    then have n: "n < 8" by simp
    have "8 * (15 - i) + n < 128" "(8 * (15 - i) + n) div 8 = 15 - i" "(8 * (15 - i) + n) mod 8 = n"
      using i n by auto
    with i n len show "bit (word_bytes (be_word bs) ! i) n = bit (bs ! i) n"
      by (simp add: word_bytes_def bit_simps bit_times_2 bit_be_word rev_nth_16)
  qed
qed

lemma cmac_subkey_dbl:
  assumes len: "length L = 16"
  shows "cmac_subkey L = word_bytes (dbl128 (be_word L))" "length (cmac_subkey L) = 16"
proof -
  have ls: "length (cmac_left_shift_128 L) = 16"
    using left_shift_nth(2)[of 0 L] len by simp
  then show l: "length (cmac_subkey L) = 16" by (simp add: cmac_subkey_def Let_def)
  have msb: "L ! 0 AND 0x80 \<noteq> 0 \<longleftrightarrow> bit (be_word L) 127"
    using and_exp_eq_0_iff_not_bit[of "L ! 0" 7] len by (simp add: bit_be_word rev_nth_16)
  have "be_word (cmac_subkey L) = dbl128 (be_word L)"
    using be_word_last_xor[OF ls, of "0x87"] be_word_left_shift[OF len] msb
    by (simp add: cmac_subkey_def dbl128_def Let_def)
  then show "cmac_subkey L = word_bytes (dbl128 (be_word L))"
    using word_bytes_be_word[OF l] by simp
qed
subsection \<open>Chaining\<close>

definition block_count :: "u8 list \<Rightarrow> nat" where
  "block_count m = (let n = (length m + 15) div 16 in if n = 0 then 1 else n)"

lemma block_count_rec:
  "block_count m = (if length m \<le> 16 then 1 else Suc (block_count (drop 16 m)))"
  by (auto simp: block_count_def Let_def)

lemma split_blocks_map:
  "split_blocks m = map (\<lambda>b. take 16 (drop (16 * b) m)) [0..<block_count m]"
proof (induction m rule: split_blocks.induct)
  case (1 m)
  show ?case
  proof (cases "length m \<le> 16")
    case True
    then show ?thesis by (simp add: split_blocks.simps[of m] block_count_rec[of m])
  next
    case False
    then have "split_blocks m = take 16 m # map (\<lambda>b. take 16 (drop (16 * b) (drop 16 m)))
        [0..<block_count (drop 16 m)]"
      using 1 by (simp add: split_blocks.simps[of m])
    also have "\<dots> = map (\<lambda>b. take 16 (drop (16 * b) m)) [0..<Suc (block_count (drop 16 m))]"
      by (simp add: upt_conv_Cons map_Suc_upt[symmetric] o_def add.commute del: upt_Suc)
    finally show ?thesis using False by (simp add: block_count_rec[of m])
  qed
qed

lemma block_count_pos: "0 < block_count m"
  by (simp add: block_count_def Let_def)

lemma block_count_bounds:
  "16 * (block_count m - 1) \<le> length m" "length m \<le> 16 * block_count m"
  "m \<noteq> [] \<Longrightarrow> 16 * (block_count m - 1) < length m"
  unfolding block_count_def Let_def by (auto split: if_splits)

lemma take_16_nth:
  assumes "off + 16 \<le> length m"
  shows "map (\<lambda>i. m ! (off + i)) [0..<16] = take 16 (drop off m)"
  using assms by (intro nth_equalityI) simp_all

lemma last_split_blocks: "last (split_blocks m) = drop (16 * (block_count m - 1)) m"
  using block_count_pos[of m] block_count_bounds(2)[of m]
  by (simp add: split_blocks_map last_map)

lemma butlast_split_blocks:
  "butlast (split_blocks m) = map (\<lambda>b. map (\<lambda>i. m ! (b * 16 + i)) [0..<16]) [0..<block_count m - 1]"
proof -
  have "b * 16 + 16 \<le> length m" if "b < block_count m - 1" for b
    using that block_count_bounds(1)[of m] by linarith
  then have "take 16 (drop (16 * b) m) = map (\<lambda>i. m ! (b * 16 + i)) [0..<16]"
    if "b < block_count m - 1" for b
    using that take_16_nth[of "b * 16" m] by (simp add: mult.commute)
  then show ?thesis
    using block_count_pos[of m] by (cases "block_count m") (simp_all add: split_blocks_map)
qed

lemma copy_loop:
  assumes "rem \<le> n"
  shows "for_up 0 rem (\<lambda>i l. l[i := f i]) (replicate n z) = map f [0..<rem] @ replicate (n - rem) z"
  using assms
proof (induction rem)
  case (Suc rem)
  then have "(map f [0..<rem] @ replicate (n - rem) z)[rem := f rem]
      = map f [0..<rem] @ f rem # replicate (n - Suc rem) z"
    by (simp add: list_update_append Suc_diff_Suc[symmetric] del: diff_Suc_Suc)
  with Suc show ?case by (simp add: for_up_Suc)
qed simp

lemma xor_map2:
  assumes "length a = 16" "length b = 16"
  shows "map (\<lambda>i. a ! i XOR b ! i) [0..<16] = map2 (XOR) a (b :: u8 list)"
  using assms by (intro nth_equalityI) simp_all

lemma cmac_last_block_reference:
  assumes "length K1 = 16" "length K2 = 16"
  shows "cmac_last_block m K1 K2 =
    (if length (last (split_blocks m)) = 16 then map2 (XOR) (last (split_blocks m)) K1
     else map2 (XOR) (pad_block (last (split_blocks m))) K2)"
proof -
  let ?off = "(block_count m - 1) * 16" and ?l = "last (split_blocks m)"
  have l: "?l = drop ?off m" by (simp add: last_split_blocks mult.commute)
  have complete: "length m \<noteq> 0 \<and> length m mod 16 = 0 \<longleftrightarrow> length ?l = 16"
  proof
    assume a: "length m \<noteq> 0 \<and> length m mod 16 = 0"
    then obtain k where k: "length m = 16 * k" by (auto elim: dvdE simp: mod_eq_0_iff_dvd)
    have "16 * (block_count m - 1) < length m" using a block_count_bounds(3)[of m] by auto
    with k block_count_bounds(2)[of m] have "k = block_count m" by linarith
    with k block_count_pos[of m] show "length ?l = 16" by (simp add: l)
  next
    assume "length ?l = 16"
    then have "length m = 16 * block_count m"
      using block_count_pos[of m] by (simp add: l)
    then show "length m \<noteq> 0 \<and> length m mod 16 = 0" using block_count_pos[of m] by simp
  qed
  show ?thesis
  proof (cases "length ?l = 16")
    case True
    then have "cmac_last_block m K1 K2 = map (\<lambda>i. ?l ! i XOR K1 ! i) [0..<16]"
      using complete unfolding l by (simp add: cmac_last_block_def block_count_def Let_def)
    with True assms show ?thesis by (simp add: xor_map2)
  next
    case False
    have len: "length ?l < 16" and off: "?off \<le> length m"
      using False l block_count_bounds[of m] by (auto simp: l)
    have rem: "(if ?off < length m then length m - ?off else 0) = length ?l"
      by (simp add: l)
    have copy: "for_up 0 (length ?l) (\<lambda>i l. l[i := m ! (?off + i)]) (replicate 16 0)
        = ?l @ replicate (16 - length ?l) 0"
      using len off by (simp add: copy_loop l) (intro nth_equalityI; simp)
    have pad: "(?l @ replicate (16 - length ?l) 0)[length ?l := 0x80] = pad_block ?l"
      using len by (cases "16 - length ?l") (simp_all add: pad_block_def list_update_append)
    have "cmac_last_block m K1 K2 = map (\<lambda>i. pad_block ?l ! i XOR K2 ! i) [0..<16]"
      using complete False unfolding cmac_last_block_def Let_def
      by (simp only: rem[unfolded block_count_def Let_def] copy[unfolded block_count_def Let_def]
          pad if_False)
    moreover have "length (pad_block ?l) = 16" using len by (simp add: pad_block_def)
    ultimately show ?thesis using False assms by (simp add: xor_map2)
  qed
qed

lemma cmac_chain:
  assumes "length X = 16" and "\<forall>M \<in> set Ms. length M = 16"
  shows "fold (\<lambda>M C. cmac_aes_block (cmac_xor16 C M) key) Ms X
       = fold (\<lambda>M C. cmac_aes_block (map2 (XOR) C M) key) Ms X
    \<and> length (fold (\<lambda>M C. cmac_aes_block (map2 (XOR) C M) key) Ms X) = 16"
  using assms by (induction Ms arbitrary: X) (simp_all add: cmac_xor16_def xor_map2)

text \<open>C16: \<open>aes_cmac_128\<close> of \<open>src/aes_cmac.h\<close>, with its byte loops for the shift, the padding and
  the chaining, computes the CMAC of NIST SP 800-38B for every key and every message length,
  the empty message included.\<close>

theorem aes_cmac_128_reference: "aes_cmac_128 key msg = cmac_reference key msg"
proof -
  let ?ciph = "\<lambda>x. cmac_aes_block x key" and ?z = "replicate 16 0 :: u8 list"
  let ?K1 = "cmac_subkey (?ciph ?z)" and ?Ms = "butlast (split_blocks msg)"
  have K1: "?K1 = word_bytes (dbl128 (be_word (?ciph ?z)))" "length ?K1 = 16"
    by (rule cmac_subkey_dbl, simp)+
  have K2: "cmac_subkey ?K1 = word_bytes (dbl128 (be_word ?K1))" "length (cmac_subkey ?K1) = 16"
    by (rule cmac_subkey_dbl, rule K1)+
  have X: "fold (\<lambda>M C. ?ciph (cmac_xor16 C M)) ?Ms ?z = fold (\<lambda>M C. ?ciph (map2 (XOR) C M)) ?Ms ?z"
    "length (fold (\<lambda>M C. ?ciph (map2 (XOR) C M)) ?Ms ?z) = 16"
    using cmac_chain[of ?z ?Ms key] by (auto simp: butlast_split_blocks)
  have loop: "for_up 0 (block_count msg - 1)
      (\<lambda>b X. ?ciph (cmac_xor16 X (map (\<lambda>i. msg ! (b * 16 + i)) [0..<16]))) ?z
    = fold (\<lambda>M C. ?ciph (cmac_xor16 C M)) ?Ms ?z"
    by (simp add: for_up_def butlast_split_blocks fold_map o_def)
  have len: "length (cmac_last_block msg ?K1 (cmac_subkey ?K1)) = 16"
    by (simp add: cmac_last_block_def Let_def)
  show ?thesis
    using loop X len cmac_last_block_reference[OF K1(2) K2(2), of msg]
    unfolding aes_cmac_128_def cmac_reference_def Let_def block_count_def
    by (simp add: cmac_xor16_def xor_map2 flip: K1(1) K2(1))
qed

text \<open>The HLS verifier accepts a tag exactly when it is the tag of the message.\<close>

theorem vtf_cmac_verify_iff:
  "crypto3d_vtf_cmac_verify m key t = (if t = crypto3d_vtf_cmac_tag m key then 1 else 0)"
  by (simp add: crypto3d_vtf_cmac_verify_def)

end
