(* ===== verification/Integrity_Tree.thy ===== *)
theory Integrity_Tree
  imports CMAC
begin

text \<open>
  The memory encryption with counter tree of \<open>src/memory_integrity.h\<close>
  (class \<open>MemoryIntegrityTree\<close>). The record \<open>mit\<close> holds its members: the \<open>ext_\<close> arrays are
  untrusted storage, the keys, the root and the tamper flag are the engine's. A \<open>Block\<close> is a
  list of sixteen bytes; a call returns its status, its output buffer and the new state.
  \<open>tree_node\<close> is the reference: the value every inner node of the tree must have.
\<close>

type_synonym byte_block = "u8 list"

datatype MitStatus = MIT_OK | MIT_TAMPER | MIT_EXHAUSTED

record mit =
  ext_ct :: "byte_block list"
  ext_mac :: "byte_block list"
  ext_ctr :: "u32 list"
  ext_node :: "byte_block list"
  mit_B :: nat
  mit_D :: nat
  k_enc :: block
  k_mac :: block
  k_tree :: block
  mit_root :: byte_block
  mit_tamper :: bool

section \<open>Keys, leaves and node hashes\<close>

definition ascii :: "string \<Rightarrow> u8 list" where
  "ascii str = map (\<lambda>c. of_nat (of_char c)) str"

definition deriveKey :: "block \<Rightarrow> string \<Rightarrow> block" where
  "deriveKey root_key label =
     cmac_bytes_to_words (cmac_aes_block (take 12 (ascii label) @ [0, 0, 0, 1]) root_key)"

definition mit_equal :: "byte_block \<Rightarrow> byte_block \<Rightarrow> bool" where
  "mit_equal a b \<longleftrightarrow> for_up 0 16 (\<lambda>i d. d OR (a ! i XOR b ! i)) 0 = 0"

definition mit_off :: "nat \<Rightarrow> nat \<Rightarrow> nat" where
  "mit_off B level = B - drop_bit (level - 1) B"

definition mit_leaf :: "nat \<Rightarrow> u32 \<Rightarrow> byte_block" where
  "mit_leaf i ctr = cmac_store_be32 ctr @ cmac_store_be32 (of_nat i) @ ascii ''CTR0LEAF''"

definition cmac2 :: "block \<Rightarrow> byte_block \<Rightarrow> byte_block \<Rightarrow> byte_block" where
  "cmac2 key a b = cmac_words_to_bytes (aes_cmac_128 key (a @ b))"

definition mit_keystream :: "block \<Rightarrow> nat \<Rightarrow> u32 \<Rightarrow> byte_block" where
  "mit_keystream key blk ctr =
     cmac_aes_block (cmac_store_be32 (of_nat blk) @ cmac_store_be32 ctr @ ascii ''CTRKVTF3'') key"

definition mit_dataMac :: "block \<Rightarrow> nat \<Rightarrow> u32 \<Rightarrow> byte_block \<Rightarrow> byte_block" where
  "mit_dataMac key blk ctr ct =
     cmac2 key ct (cmac_store_be32 (of_nat blk) @ cmac_store_be32 ctr @ ascii ''DMACVTF3'')"

section \<open>Construction\<close>

text \<open>\<open>while ((1 << D) < B) ++D;\<close>\<close>

function depth_from :: "nat \<Rightarrow> nat \<Rightarrow> nat" where
  "depth_from B d = (if 2 ^ d < B then depth_from B (d + 1) else d)"
  by auto
termination
proof (relation "measure (\<lambda>(B, d). B - d)", goal_cases)
  case (2 B d)
  have "d < (2::nat) ^ d" by (rule less_exp)
  then have "d < B" using 2 by linarith
  then show ?case by simp
qed simp

declare depth_from.simps [simp del]

text \<open>One level of \<open>build\<close>: the hashes of the level and the stores to \<open>ext_node\<close>.\<close>

definition build_level :: "block \<Rightarrow> nat \<Rightarrow> nat \<Rightarrow> nat \<Rightarrow> byte_block list \<times> byte_block list \<Rightarrow>
    byte_block list \<times> byte_block list" where
  "build_level key B D level st =
     (let (prev, node) = st;
          cur = map (\<lambda>j. cmac2 key (prev ! (2 * j)) (prev ! (2 * j + 1))) [0..<length prev div 2];
          node = (if level < D
                  then for_up 0 (length cur) (\<lambda>j node. node[mit_off B level + j := cur ! j]) node
                  else node)
      in (cur, node))"

definition mit_build :: "mit \<Rightarrow> mit" where
  "mit_build t =
     (let leaves = map (\<lambda>i. mit_leaf i (ext_ctr t ! i)) [0..<mit_B t];
          (top, node) = for_up 1 (mit_D t + 1) (build_level (k_tree t) (mit_B t) (mit_D t))
                          (leaves, ext_node t)
      in t\<lparr>ext_node := node, mit_root := top ! 0\<rparr>)"

definition MemoryIntegrityTree :: "block \<Rightarrow> nat \<Rightarrow> mit" where
  "MemoryIntegrityTree root_key blocks = mit_build
     \<lparr>ext_ct = replicate blocks (replicate 16 0), ext_mac = replicate blocks (replicate 16 0),
      ext_ctr = replicate blocks 0, ext_node = replicate (blocks - 2) (replicate 16 0),
      mit_B = blocks, mit_D = depth_from blocks 0,
      k_enc = deriveKey root_key ''VTFMEMENCKEY'', k_mac = deriveKey root_key ''VTFMEMMACKEY'',
      k_tree = deriveKey root_key ''VTFMEMTREEKY'',
      mit_root = replicate 16 0, mit_tamper = False\<rparr>"

section \<open>Recomputing the root along a path\<close>

text \<open>The result is the root with the siblings used and the nodes computed on the way.\<close>

definition path_step :: "mit \<Rightarrow> byte_block list option \<Rightarrow> nat \<Rightarrow>
    byte_block \<times> nat \<times> byte_block list \<times> byte_block list \<Rightarrow>
    byte_block \<times> nat \<times> byte_block list \<times> byte_block list" where
  "path_step t use_sibs level st =
     (let (h, idx, sibs, nodes) = st;
          sib = (case use_sibs of Some s \<Rightarrow> s ! level
                 | None \<Rightarrow> if level = 0 then mit_leaf (idx XOR 1) (ext_ctr t ! (idx XOR 1))
                           else ext_node t ! (mit_off (mit_B t) level + (idx XOR 1)));
          h = (if odd idx then cmac2 (k_tree t) sib h else cmac2 (k_tree t) h sib)
      in (h, idx div 2, sibs @ [sib], nodes @ [h]))"

definition mit_path :: "mit \<Rightarrow> nat \<Rightarrow> u32 \<Rightarrow> byte_block list option \<Rightarrow>
    byte_block \<times> byte_block list \<times> byte_block list" where
  "mit_path t blk ctr use_sibs =
     (let (h, idx, sibs, nodes) =
            for_up 0 (mit_D t) (path_step t use_sibs) (mit_leaf blk ctr, blk, [], [])
      in (h, sibs, nodes))"

section \<open>Reads and writes\<close>

definition mit_read :: "mit \<Rightarrow> nat \<Rightarrow> MitStatus \<times> byte_block \<times> mit" where
  "mit_read t blk =
     (let ct = ext_ct t ! blk; mac = ext_mac t ! blk; ctr = ext_ctr t ! blk;
          zero = replicate 16 0;
          (r, sibs, nodes) = mit_path t blk ctr None
      in if \<not> mit_equal r (mit_root t) then (MIT_TAMPER, zero, t\<lparr>mit_tamper := True\<rparr>)
         else if ctr = 0 then (MIT_OK, zero, t)
         else if \<not> mit_equal (mit_dataMac (k_mac t) blk ctr ct) mac
         then (MIT_TAMPER, zero, t\<lparr>mit_tamper := True\<rparr>)
         else let ks = mit_keystream (k_enc t) blk ctr
              in (MIT_OK, map (\<lambda>i. ct ! i XOR ks ! i) [0..<16], t))"

definition mit_write :: "mit \<Rightarrow> nat \<Rightarrow> byte_block \<Rightarrow> MitStatus \<times> mit" where
  "mit_write t blk pt =
     (let old = ext_ctr t ! blk;
          (r, sibs, _) = mit_path t blk old None
      in if \<not> mit_equal r (mit_root t) then (MIT_TAMPER, t\<lparr>mit_tamper := True\<rparr>)
         else if old = 0xFFFFFFFF then (MIT_EXHAUSTED, t)
         else let ctr = old + 1;
                  ks = mit_keystream (k_enc t) blk ctr;
                  ct = map (\<lambda>i. pt ! i XOR ks ! i) [0..<16];
                  mac = mit_dataMac (k_mac t) blk ctr ct;
                  (new_root, _, nodes) = mit_path t blk ctr (Some sibs);
                  (node, _) = for_up 1 (mit_D t)
                    (\<lambda>level (node, idx). let idx = idx div 2 in
                       (node[mit_off (mit_B t) level + idx := nodes ! (level - 1)], idx))
                    (ext_node t, blk)
              in (MIT_OK, t\<lparr>ext_node := node, ext_ct := (ext_ct t)[blk := ct],
                            ext_mac := (ext_mac t)[blk := mac], ext_ctr := (ext_ctr t)[blk := ctr],
                            mit_root := new_root\<rparr>))"

definition mit_rootWords :: "mit \<Rightarrow> block" where
  "mit_rootWords t = cmac_bytes_to_words (mit_root t)"

section \<open>Shape of the tree\<close>

lemma depth_from_power:
  assumes "d \<le> D" shows "depth_from (2 ^ D) d = D"
  using assms
proof (induction "D - d" arbitrary: d)
  case 0
  then show ?case by (simp add: depth_from.simps)
next
  case (Suc n)
  then have "d < D" by linarith
  then have "(2::nat) ^ d < 2 ^ D" by simp
  then show ?case using Suc by (subst depth_from.simps) simp
qed

lemma mit_off_eq: "1 \<le> l \<Longrightarrow> l \<le> D \<Longrightarrow> mit_off (2 ^ D) l = 2 ^ D - 2 ^ (D - l + 1)"
  by (simp add: mit_off_def drop_bit_eq_div Suc_diff_le flip: power_diff)

lemma mit_off_range:
  assumes "1 \<le> l" "l < D" "j < 2 ^ (D - l)"
  shows "mit_off (2 ^ D) l + j < 2 ^ D - 2 ^ (D - l)" "2 ^ D - 2 ^ (D - l + 1) \<le> mit_off (2 ^ D) l + j"
    "mit_off (2 ^ D) l + j < 2 ^ D - 2"
proof -
  have *: "(2::nat) ^ (D - l + 1) \<le> 2 ^ D" using assms by (intro power_increasing) auto
  show "2 ^ D - 2 ^ (D - l + 1) \<le> mit_off (2 ^ D) l + j" using assms by (simp add: mit_off_eq)
  have "mit_off (2 ^ D) l + j < 2 ^ D - 2 * 2 ^ (D - l) + 2 ^ (D - l)"
    using assms by (simp add: mit_off_eq)
  then show r: "mit_off (2 ^ D) l + j < 2 ^ D - 2 ^ (D - l)" using * by simp
  have "(2::nat) ^ 1 \<le> 2 ^ (D - l)" using assms by (intro power_increasing) auto
  then show "mit_off (2 ^ D) l + j < 2 ^ D - 2" using r by simp
qed

lemma mit_off_inject:
  assumes "1 \<le> l" "l < D" "j < 2 ^ (D - l)" "1 \<le> m" "m < D" "k < 2 ^ (D - m)"
  shows "mit_off (2 ^ D) l + j = mit_off (2 ^ D) m + k \<longleftrightarrow> l = m \<and> j = k"
proof -
  have apart: "mit_off (2 ^ D) x + a < mit_off (2 ^ D) y + b"
    if "x < y" "1 \<le> x" "y < D" "a < 2 ^ (D - x)" "b < 2 ^ (D - y)" for x y a b :: nat
  proof -
    have "(2::nat) ^ (D - y + 1) \<le> 2 ^ (D - x)" using that by (intro power_increasing) auto
    then show ?thesis using mit_off_range(1)[of x D a] mit_off_range(2)[of y D b] that by linarith
  qed
  show ?thesis
  proof (cases l m rule: linorder_cases)
    case less then show ?thesis using apart[of l m j k] assms by auto
  next
    case equal then show ?thesis by simp
  next
    case greater then show ?thesis using apart[of m l k j] assms by auto
  qed
qed

section \<open>The reference tree\<close>

fun tree_node :: "('a \<Rightarrow> 'a \<Rightarrow> 'a) \<Rightarrow> (nat \<Rightarrow> 'a) \<Rightarrow> nat \<Rightarrow> nat \<Rightarrow> 'a" where
  "tree_node H lf 0 j = lf j"
| "tree_node H lf (Suc k) j = H (tree_node H lf k (2 * j)) (tree_node H lf k (2 * j + 1))"

lemma tree_node_off_path:
  "j \<noteq> blk div 2 ^ k \<Longrightarrow> tree_node H (lf(blk := x)) k j = tree_node H lf k j"
proof (induction k arbitrary: j)
  case (Suc k)
  have "blk div 2 ^ Suc k = blk div 2 ^ k div 2" by (simp only: power_Suc2 div_mult2_eq)
  then have "2 * j \<noteq> blk div 2 ^ k" "2 * j + 1 \<noteq> blk div 2 ^ k" using Suc.prems by auto
  from this[THEN Suc.IH] show ?case by (simp del: fun_upd_apply)
qed simp

lemma tree_node_cong:
  "(\<And>i. i < n * 2 ^ k \<Longrightarrow> lf i = lf' i) \<Longrightarrow> j < n \<Longrightarrow> tree_node H lf k j = tree_node H lf' k j"
proof (induction k arbitrary: j n)
  case (Suc k)
  have "i < (2 * n) * 2 ^ k \<Longrightarrow> lf i = lf' i" for i using Suc.prems(1)[of i] by (simp add: mult.commute mult.left_commute)
  then show ?case using Suc.prems(2) Suc.IH[of "2 * n"] by simp
qed simp

lemma nat_xor_1: "(n::nat) XOR 1 = (if odd n then n - 1 else n + 1)"
  by (simp add: xor_Suc_0_eq)

section \<open>Paths\<close>

definition path_sib :: "mit \<Rightarrow> byte_block list option \<Rightarrow> nat \<Rightarrow> nat \<Rightarrow> byte_block" where
  "path_sib t use_sibs blk level = (case use_sibs of Some s \<Rightarrow> s ! level
     | None \<Rightarrow> if level = 0 then mit_leaf (blk XOR 1) (ext_ctr t ! (blk XOR 1))
               else ext_node t ! (mit_off (mit_B t) level + ((blk div 2 ^ level) XOR 1)))"

fun path_val :: "mit \<Rightarrow> byte_block list option \<Rightarrow> nat \<Rightarrow> u32 \<Rightarrow> nat \<Rightarrow> byte_block" where
  "path_val t use_sibs blk ctr 0 = mit_leaf blk ctr"
| "path_val t use_sibs blk ctr (Suc l) =
     (if odd (blk div 2 ^ l) then cmac2 (k_tree t) (path_sib t use_sibs blk l) (path_val t use_sibs blk ctr l)
      else cmac2 (k_tree t) (path_val t use_sibs blk ctr l) (path_sib t use_sibs blk l))"

lemma mit_path_loop:
  "for_up 0 n (path_step t u) (mit_leaf blk ctr, blk, [], []) =
     (path_val t u blk ctr n, blk div 2 ^ n, map (path_sib t u blk) [0..<n],
      map (\<lambda>l. path_val t u blk ctr (Suc l)) [0..<n])"
proof (induction n)
  case (Suc n)
  have "blk div 2 ^ Suc n = blk div 2 ^ n div 2" by (simp only: power_Suc2 div_mult2_eq)
  then show ?case using Suc
    by (simp add: for_up_Suc path_step_def Let_def path_sib_def split: option.split)
qed simp

lemma mit_path_eq:
  "mit_path t blk ctr u = (path_val t u blk ctr (mit_D t), map (path_sib t u blk) [0..<mit_D t],
      map (\<lambda>l. path_val t u blk ctr (Suc l)) [0..<mit_D t])"
  by (simp add: mit_path_def mit_path_loop)

text \<open>With the siblings of the reference tree a path recomputes the tree with the leaf replaced.\<close>

lemma path_val_tree:
  assumes "\<And>l. l < n \<Longrightarrow> path_sib t u blk l = tree_node (cmac2 (k_tree t)) lf l ((blk div 2 ^ l) XOR 1)"
  shows "path_val t u blk ctr n =
           tree_node (cmac2 (k_tree t)) (lf(blk := mit_leaf blk ctr)) n (blk div 2 ^ n)"
  using assms
proof (induction n)
  case (Suc n)
  let ?H = "cmac2 (k_tree t)" and ?lf = "lf(blk := mit_leaf blk ctr)" and ?i = "blk div 2 ^ n"
  have d: "blk div 2 ^ Suc n = ?i div 2" by (simp only: power_Suc2 div_mult2_eq)
  have IH: "path_val t u blk ctr n = tree_node ?H ?lf n ?i"
    by (rule Suc.IH) (rule Suc.prems, simp)
  have sib: "path_sib t u blk n = tree_node ?H ?lf n (?i XOR 1)"
    unfolding Suc.prems[OF lessI] by (rule tree_node_off_path[symmetric]) (auto simp: nat_xor_1[unfolded One_nat_def] elim!: oddE)
  have two: "tree_node ?H ?lf (Suc n) (blk div 2 ^ Suc n) =
      ?H (tree_node ?H ?lf n (2 * (?i div 2))) (tree_node ?H ?lf n (2 * (?i div 2) + 1))"
    by (simp only: d tree_node.simps)
  show ?case
  proof (cases "odd ?i")
    case True
    then have e: "2 * (?i div 2) + 1 = ?i" "2 * (?i div 2) = ?i XOR 1"
      by (auto simp: nat_xor_1[unfolded One_nat_def] elim!: oddE)
    show ?thesis unfolding two e(1) unfolding e(2) path_val.simps
      using True by (simp only: IH sib not_False_eq_True if_True)
  next
    case False
    then have e: "2 * (?i div 2) + 1 = ?i XOR 1" "2 * (?i div 2) = ?i"
      by (auto simp: nat_xor_1[unfolded One_nat_def])
    show ?thesis unfolding two e(1) unfolding e(2) path_val.simps
      using False by (simp only: IH sib if_False)
  qed
qed simp

section \<open>Blocks\<close>

lemma mit_equal_iff: "mit_equal a b \<longleftrightarrow> (\<forall>i<16. a ! i = b ! i)"
proof -
  have "for_up 0 n (\<lambda>i d. d OR (a ! i XOR b ! i)) (0::u8) = 0 \<longleftrightarrow> (\<forall>i<n. a ! i = b ! i)" for n
    by (induction n) (auto simp: for_up_Suc or_eq_0_word xor_eq_0_word less_Suc_eq)
  then show ?thesis by (simp add: mit_equal_def)
qed

lemma mit_equal_eq [simp]: "length a = 16 \<Longrightarrow> length b = 16 \<Longrightarrow> mit_equal a b \<longleftrightarrow> a = b"
  by (auto simp: mit_equal_iff nth_equalityI)

lemma length_cmac2 [simp]: "length (cmac2 k a b) = 16"
  by (simp add: cmac2_def)

lemma length_mit_dataMac [simp]: "length (mit_dataMac k b c x) = 16"
  by (simp add: mit_dataMac_def)

lemma length_path_val: "0 < n \<Longrightarrow> length (path_val t u blk ctr n) = 16"
  by (cases n) simp_all

lemma length_tree_root: "0 < n \<Longrightarrow> length (tree_node (cmac2 k) lf n j) = 16"
  by (cases n) simp_all

lemma mit_leaf_inject: "mit_leaf i x = mit_leaf i y \<longleftrightarrow> x = y"
  by (simp add: mit_leaf_def cmac_store_be32_def)

section \<open>Consistency of the storage with the root\<close>

definition mit_shape :: "mit \<Rightarrow> bool" where
  "mit_shape t \<longleftrightarrow> mit_B t = 2 ^ mit_D t \<and> 0 < mit_D t \<and> length (ext_ct t) = mit_B t
     \<and> length (ext_mac t) = mit_B t \<and> length (ext_ctr t) = mit_B t
     \<and> length (ext_node t) = mit_B t - 2 \<and> (\<forall>m\<in>set (ext_mac t). length m = 16)
     \<and> length (mit_root t) = 16"

definition mit_leaves :: "mit \<Rightarrow> nat \<Rightarrow> byte_block" where
  "mit_leaves t i = mit_leaf i (ext_ctr t ! i)"

definition nodes_ok :: "mit \<Rightarrow> (nat \<Rightarrow> byte_block) \<Rightarrow> byte_block list \<Rightarrow> nat \<Rightarrow> bool" where
  "nodes_ok t lf node n \<longleftrightarrow> (\<forall>l j. 1 \<le> l \<and> l < n \<and> j < 2 ^ (mit_D t - l) \<longrightarrow>
     node ! (mit_off (mit_B t) l + j) = tree_node (cmac2 (k_tree t)) lf l j)"

definition mit_consistent :: "mit \<Rightarrow> bool" where
  "mit_consistent t \<longleftrightarrow> mit_shape t
     \<and> mit_root t = tree_node (cmac2 (k_tree t)) (mit_leaves t) (mit_D t) 0
     \<and> nodes_ok t (mit_leaves t) (ext_node t) (mit_D t)
     \<and> (\<forall>b < mit_B t. ext_ctr t ! b \<noteq> 0 \<longrightarrow>
          ext_mac t ! b = mit_dataMac (k_mac t) b (ext_ctr t ! b) (ext_ct t ! b))"

lemma xor_1_less: "(j::nat) < 2 ^ n \<Longrightarrow> 0 < n \<Longrightarrow> j XOR 1 < 2 ^ n"
  by (cases n) (auto simp: nat_xor_1[unfolded One_nat_def] elim!: evenE)

lemma div_power_less: "blk < 2 ^ D \<Longrightarrow> l \<le> D \<Longrightarrow> blk div 2 ^ l < (2::nat) ^ (D - l)"
  by (simp add: less_mult_imp_div_less flip: power_add)

lemma consistent_sibling:
  assumes "mit_consistent t" "blk < mit_B t" "l < mit_D t"
  shows "path_sib t None blk l = tree_node (cmac2 (k_tree t)) (mit_leaves t) l ((blk div 2 ^ l) XOR 1)"
proof -
  have "(blk div 2 ^ l) XOR 1 < 2 ^ (mit_D t - l)"
    using assms by (intro xor_1_less div_power_less) (auto simp: mit_consistent_def mit_shape_def)
  then show ?thesis using assms
    by (cases l) (auto simp: path_sib_def mit_leaves_def mit_consistent_def nodes_ok_def)
qed

lemma consistent_path_val:
  assumes "mit_consistent t" "blk < mit_B t" "l \<le> mit_D t"
  shows "path_val t None blk ctr l =
    tree_node (cmac2 (k_tree t)) ((mit_leaves t)(blk := mit_leaf blk ctr)) l (blk div 2 ^ l)"
  by (rule path_val_tree) (use assms consistent_sibling in auto)

lemma leaves_same [simp]: "(mit_leaves t)(blk := mit_leaf blk (ext_ctr t ! blk)) = mit_leaves t"
  by (auto simp: mit_leaves_def)

lemma consistent_root:
  assumes "mit_consistent t" "blk < mit_B t"
  shows "path_val t None blk (ext_ctr t ! blk) (mit_D t) = mit_root t"
proof -
  have "blk div 2 ^ mit_D t = 0" using assms by (simp add: mit_consistent_def mit_shape_def)
  then show ?thesis using consistent_path_val[OF assms order_refl] assms(1)
    by (simp add: mit_consistent_def del: fun_upd_apply)
qed

section \<open>Construction gives a consistent tree\<close>

lemma for_up_store:
  assumes "\<And>j. j < n \<Longrightarrow> base + j < length xs"
  shows "for_up 0 n (\<lambda>j xs. xs[base + j := f j]) xs ! i =
      (if base \<le> i \<and> i < base + n then f (i - base) else xs ! i) \<and>
    length (for_up 0 n (\<lambda>j xs. xs[base + j := f j]) xs) = length xs"
  using assms
proof (induction n)
  case (Suc n)
  then show ?case by (auto simp: for_up_Suc nth_list_update)
qed auto

lemma build_loop:
  assumes B: "mit_B t = 2 ^ mit_D t" and len: "length (ext_node t) = mit_B t - 2" and n: "n \<le> mit_D t"
  shows "case for_up 1 (n + 1) (build_level (k_tree t) (mit_B t) (mit_D t))
                (map lf [0..<mit_B t], ext_node t) of (prev, node) \<Rightarrow>
     prev = map (tree_node (cmac2 (k_tree t)) lf n) [0..<2 ^ (mit_D t - n)] \<and>
     length node = mit_B t - 2 \<and> nodes_ok t lf node (min (n + 1) (mit_D t))"
  using n
proof (induction n)
  case 0
  then show ?case using B len by (simp add: nodes_ok_def)
next
  case (Suc n)
  let ?D = "mit_D t" and ?H = "cmac2 (k_tree t)"
  obtain prev node where st: "for_up 1 (n + 1) (build_level (k_tree t) (mit_B t) ?D)
      (map lf [0..<mit_B t], ext_node t) = (prev, node)" by fastforce
  have IH: "prev = map (tree_node ?H lf n) [0..<2 ^ (?D - n)]" "length node = mit_B t - 2"
      "nodes_ok t lf node (min (n + 1) ?D)"
    using Suc st by auto
  have half: "(2::nat) ^ (?D - n) = 2 * 2 ^ (?D - Suc n)"
    using Suc.prems by (simp flip: power_Suc add: Suc_diff_le)
  let ?cur = "map (tree_node ?H lf (Suc n)) [0..<2 ^ (?D - Suc n)]"
  have cur: "map (\<lambda>j. ?H (prev ! (2 * j)) (prev ! (2 * j + 1))) [0..<length prev div 2] = ?cur"
    by (simp add: IH half)
  let ?node = "if Suc n < ?D then for_up 0 (length ?cur) (\<lambda>j node. node[mit_off (mit_B t) (Suc n) + j := ?cur ! j]) node else node"
  have step: "for_up 1 (Suc n + 1) (build_level (k_tree t) (mit_B t) ?D)
      (map lf [0..<mit_B t], ext_node t) = (?cur, ?node)"
    using st cur by (simp add: for_up_Suc build_level_def Let_def)
  show ?case
  proof (cases "Suc n < ?D")
    case False
    then show ?thesis unfolding step using IH Suc.prems by (auto simp: min_def)
  next
    case True
    have bnd: "mit_off (mit_B t) (Suc n) + j < length node" if "j < 2 ^ (?D - Suc n)" for j
      using mit_off_range(3)[of "Suc n" ?D j] that True IH(2) B by simp
    have st': "?node ! i = (if mit_off (mit_B t) (Suc n) \<le> i \<and> i < mit_off (mit_B t) (Suc n) + 2 ^ (?D - Suc n)
          then ?cur ! (i - mit_off (mit_B t) (Suc n)) else node ! i)" "length ?node = length node" for i
      using for_up_store[of "2 ^ (?D - Suc n)" "mit_off (mit_B t) (Suc n)" node "\<lambda>j. ?cur ! j" i] bnd True
      by simp_all
    have "?node ! (mit_off (mit_B t) l + j) = tree_node ?H lf l j"
      if l: "1 \<le> l" "l < Suc n + 1" "j < 2 ^ (?D - l)" for l j
    proof (cases "l = Suc n")
      case True
      then show ?thesis using l by (simp add: st')
    next
      case False
      have "mit_off (mit_B t) l + j \<noteq> mit_off (mit_B t) (Suc n) + k" if "k < 2 ^ (?D - Suc n)" for k
        using mit_off_inject[of l ?D j "Suc n" k] that l False True B by auto
      then have "\<not> (mit_off (mit_B t) (Suc n) \<le> mit_off (mit_B t) l + j \<and>
          mit_off (mit_B t) l + j < mit_off (mit_B t) (Suc n) + 2 ^ (?D - Suc n))"
        by (metis add_less_cancel_left le_Suc_ex)
      then have "?node ! (mit_off (mit_B t) l + j) = node ! (mit_off (mit_B t) l + j)"
        unfolding st' by (rule if_not_P)
      then show ?thesis using IH(3) l False True by (simp add: nodes_ok_def)
    qed
    then have "nodes_ok t lf ?node (min (Suc n + 1) ?D)" by (auto simp: nodes_ok_def)
    then show ?thesis unfolding step using st'(2) IH(2) by simp
  qed
qed

lemma mit_build_consistent:
  assumes "mit_shape t" "\<forall>b < mit_B t. ext_ctr t ! b = 0"
  shows "mit_consistent (mit_build t)"
proof -
  have sh: "mit_B t = 2 ^ mit_D t" "length (ext_node t) = mit_B t - 2" "0 < mit_D t"
    using assms(1) by (auto simp: mit_shape_def)
  let ?lf = "\<lambda>i. mit_leaf i (ext_ctr t ! i)"
  obtain top node where st: "for_up 1 (mit_D t + 1) (build_level (k_tree t) (mit_B t) (mit_D t))
      (map ?lf [0..<mit_B t], ext_node t) = (top, node)" by fastforce
  have r: "top = [tree_node (cmac2 (k_tree t)) ?lf (mit_D t) 0]" "length node = mit_B t - 2"
      "nodes_ok t ?lf node (mit_D t)"
    using build_loop[OF sh(1,2) order_refl, of ?lf] st by auto
  have eq: "mit_build t = t\<lparr>ext_node := node, mit_root := top ! 0\<rparr>"
    using st by (simp add: mit_build_def Let_def)
  have lf: "mit_leaves (mit_build t) = ?lf" by (simp add: eq mit_leaves_def fun_eq_iff)
  show ?thesis using assms r length_tree_root[OF sh(3)] unfolding mit_consistent_def lf
    by (simp add: eq mit_shape_def nodes_ok_def)
qed

lemma MemoryIntegrityTree_consistent:
  assumes "0 < D" shows "mit_consistent (MemoryIntegrityTree k (2 ^ D))"
  unfolding MemoryIntegrityTree_def
  by (rule mit_build_consistent)
     (use assms depth_from_power[of 0 D] in \<open>auto simp: mit_shape_def\<close>)

section \<open>Honest reads and writes\<close>

lemma length_mit_keystream [simp]: "length (mit_keystream k b c) = 16"
  by (simp add: mit_keystream_def)

lemma mit_read_consistent:
  assumes "mit_consistent t" "blk < mit_B t"
  shows "mit_read t blk = (MIT_OK, (if ext_ctr t ! blk = 0 then replicate 16 0
     else map (\<lambda>i. ext_ct t ! blk ! i XOR mit_keystream (k_enc t) blk (ext_ctr t ! blk) ! i) [0..<16]), t)"
proof -
  have "ext_ctr t ! blk \<noteq> 0 \<Longrightarrow>
      ext_mac t ! blk = mit_dataMac (k_mac t) blk (ext_ctr t ! blk) (ext_ct t ! blk)"
    using assms by (auto simp: mit_consistent_def)
  moreover have "length (mit_root t) = 16" using assms by (auto simp: mit_consistent_def mit_shape_def)
  ultimately show ?thesis
    by (simp add: mit_read_def Let_def mit_path_eq consistent_root[OF assms] split_def)
qed

lemma write_loop:
  assumes B: "B = 2 ^ D" and blk: "blk < B" and len: "length xs = B - 2" and n: "1 \<le> n" "n \<le> D"
  shows "\<exists>ys. for_up 1 n (\<lambda>level (node, idx). let idx = idx div 2 in
                       (node[mit_off B level + idx := f (level - 1)], idx)) (xs, blk)
              = (ys, blk div 2 ^ (n - 1)) \<and> length ys = length xs \<and>
     (\<forall>l j. 1 \<le> l \<and> l < D \<and> j < 2 ^ (D - l) \<longrightarrow> ys ! (mit_off B l + j) =
         (if l < n \<and> j = blk div 2 ^ l then f (l - 1) else xs ! (mit_off B l + j)))"
  using n
proof (induction n rule: nat_induct_at_least)
  case base
  then show ?case by simp
next
  case (Suc n)
  let ?body = "\<lambda>level (node, idx). let idx = idx div 2 in
                       (node[mit_off B level + idx := f (level - 1)], idx)"
  obtain ys where ys: "for_up 1 n ?body (xs, blk) = (ys, blk div 2 ^ (n - 1))" "length ys = length xs"
    "\<And>l j. 1 \<le> l \<Longrightarrow> l < D \<Longrightarrow> j < 2 ^ (D - l) \<Longrightarrow> ys ! (mit_off B l + j) =
         (if l < n \<and> j = blk div 2 ^ l then f (l - 1) else xs ! (mit_off B l + j))"
    using Suc by auto
  have "2 ^ n = 2 ^ (n - 1) * (2::nat)" using Suc.hyps by (metis Suc_diff_1 less_le_trans less_one power_Suc2)
  then have d: "blk div 2 ^ (n - 1) div 2 = blk div 2 ^ n" by (simp add: div_mult2_eq)
  have bound: "blk div 2 ^ n < 2 ^ (D - n)" using div_power_less[of blk D n] blk B Suc.prems by simp
  let ?zs = "ys[mit_off B n + blk div 2 ^ n := f (n - 1)]"
  have "for_up 1 (Suc n) ?body (xs, blk) = (?zs, blk div 2 ^ n)"
    using Suc.hyps ys(1) d by (simp add: for_up_Suc Let_def)
  moreover have "?zs ! (mit_off B l + j) =
      (if l < Suc n \<and> j = blk div 2 ^ l then f (l - 1) else xs ! (mit_off B l + j))"
    if l: "1 \<le> l" "l < D" "j < 2 ^ (D - l)" for l j
  proof -
    have "mit_off B l + j = mit_off B n + blk div 2 ^ n \<longleftrightarrow> l = n \<and> j = blk div 2 ^ n"
      using mit_off_inject[of l D j n "blk div 2 ^ n"] l Suc bound B by simp
    moreover have "mit_off B l + j < length ys" using mit_off_range(3)[OF l] B ys(2) len by simp
    ultimately show ?thesis using ys(3)[OF l] by (auto simp: nth_list_update less_Suc_eq)
  qed
  ultimately show ?case using ys(2) by simp
qed

definition mit_written :: "mit \<Rightarrow> nat \<Rightarrow> byte_block \<Rightarrow> mit \<Rightarrow> bool" where
  "mit_written t blk pt t' \<longleftrightarrow> mit_consistent t' \<and> mit_B t' = mit_B t \<and> mit_D t' = mit_D t
     \<and> k_enc t' = k_enc t \<and> k_mac t' = k_mac t \<and> k_tree t' = k_tree t
     \<and> ext_ctr t' = (ext_ctr t)[blk := ext_ctr t ! blk + 1]
     \<and> ext_ct t' = (ext_ct t)[blk := map (\<lambda>i. pt ! i XOR
          mit_keystream (k_enc t) blk (ext_ctr t ! blk + 1) ! i) [0..<16]]
     \<and> mit_tamper t' = mit_tamper t"

lemma mit_write_consistent:
  assumes c: "mit_consistent t" and blk: "blk < mit_B t" and ctr: "ext_ctr t ! blk \<noteq> 0xFFFFFFFF"
  shows "\<exists>t'. mit_write t blk pt = (MIT_OK, t') \<and> mit_written t blk pt t'"
proof -
  let ?D = "mit_D t" and ?B = "mit_B t" and ?H = "cmac2 (k_tree t)"
  let ?ctr = "ext_ctr t ! blk + 1"
  let ?lf = "(mit_leaves t)(blk := mit_leaf blk ?ctr)"
  let ?sibs = "map (path_sib t None blk) [0..<?D]"
  let ?ct = "map (\<lambda>i. pt ! i XOR mit_keystream (k_enc t) blk ?ctr ! i) [0..<16]"
  have sh: "?B = 2 ^ ?D" "0 < ?D" "length (ext_node t) = ?B - 2" "length (mit_root t) = 16"
    using c by (auto simp: mit_consistent_def mit_shape_def)
  have val: "path_val t (Some ?sibs) blk ?ctr l = tree_node ?H ?lf l (blk div 2 ^ l)" if "l \<le> ?D" for l
    by (rule path_val_tree) (use that consistent_sibling[OF c blk] in \<open>simp add: path_sib_def[of _ "Some _"]\<close>)
  define nodes where "nodes = map (\<lambda>l. path_val t (Some ?sibs) blk ?ctr (Suc l)) [0..<?D]"
  obtain node where loop: "for_up 1 ?D (\<lambda>level (node, idx). let idx = idx div 2 in
          (node[mit_off ?B level + idx := nodes ! (level - 1)], idx)) (ext_node t, blk)
        = (node, blk div 2 ^ (?D - 1))" "length node = ?B - 2"
    and node: "\<And>l j. 1 \<le> l \<Longrightarrow> l < ?D \<Longrightarrow> j < 2 ^ (?D - l) \<Longrightarrow> node ! (mit_off ?B l + j) =
         (if j = blk div 2 ^ l then nodes ! (l - 1) else ext_node t ! (mit_off ?B l + j))"
    using write_loop[OF sh(1) blk sh(3), of ?D "\<lambda>i. nodes ! i"] sh(2,3) by auto
  let ?t = "t\<lparr>ext_node := node, ext_ct := (ext_ct t)[blk := ?ct],
      ext_mac := (ext_mac t)[blk := mit_dataMac (k_mac t) blk ?ctr ?ct],
      ext_ctr := (ext_ctr t)[blk := ?ctr], mit_root := path_val t (Some ?sibs) blk ?ctr ?D\<rparr>"
  have step: "mit_write t blk pt = (MIT_OK, ?t)"
    using ctr sh(4) loop(1)
    by (simp add: mit_write_def Let_def mit_path_eq consistent_root[OF c blk] split_def nodes_def)
  have "length (ext_ctr t) = ?B" using c by (auto simp: mit_consistent_def mit_shape_def)
  then have leaves: "mit_leaves ?t = ?lf" using blk by (auto simp: mit_leaves_def fun_eq_iff nth_list_update)
  have "node ! (mit_off ?B l + j) = tree_node ?H ?lf l j"
    if l: "1 \<le> l" "l < ?D" "j < 2 ^ (?D - l)" for l j
  proof (cases "j = blk div 2 ^ l")
    case True
    have "nodes ! (l - 1) = path_val t (Some ?sibs) blk ?ctr l"
      using l(1,2) by (cases l) (simp_all add: nodes_def del: path_val.simps)
    then show ?thesis using l val[of l] True by (simp add: node del: fun_upd_apply)
  next
    case False
    have "ext_node t ! (mit_off ?B l + j) = tree_node ?H (mit_leaves t) l j"
      using c l by (simp add: mit_consistent_def nodes_ok_def)
    then show ?thesis using l False by (simp add: node tree_node_off_path del: fun_upd_apply)
  qed
  then have nodes: "nodes_ok ?t ?lf node ?D" by (simp add: nodes_ok_def del: fun_upd_apply)
  have root: "path_val t (Some ?sibs) blk ?ctr ?D = tree_node ?H ?lf ?D 0"
    using val[of ?D] blk sh(1) by (simp del: fun_upd_apply)
  have shape: "mit_shape ?t"
    using c loop(2) length_path_val[OF sh(2)]
    by (auto simp: mit_consistent_def mit_shape_def dest!: subsetD[OF set_update_subset_insert])
  have macs: "\<forall>b < ?B. ext_ctr ?t ! b \<noteq> 0 \<longrightarrow>
      ext_mac ?t ! b = mit_dataMac (k_mac ?t) b (ext_ctr ?t ! b) (ext_ct ?t ! b)"
    using c blk by (auto simp: mit_consistent_def mit_shape_def nth_list_update)
  have "mit_consistent ?t"
    unfolding mit_consistent_def leaves using shape nodes root macs by simp
  then show ?thesis using step by (simp add: mit_written_def)
qed

section \<open>What a change of the storage does to the root\<close>

text \<open>
  What the tree needs of its node hash: with one argument fixed, different other arguments have
  different hashes. AES-CMAC of two blocks has this property without any assumption on AES beyond
  being a permutation for each key.
\<close>

locale pair_hash =
  fixes H :: "'a \<Rightarrow> 'a \<Rightarrow> 'a" and wf :: "'a \<Rightarrow> bool"
  assumes closed: "wf (H a b)"
    and left_inj: "wf a \<Longrightarrow> wf a' \<Longrightarrow> wf b \<Longrightarrow> H a b = H a' b \<Longrightarrow> a = a'"
    and right_inj: "wf a \<Longrightarrow> wf b \<Longrightarrow> wf b' \<Longrightarrow> H a b = H a b' \<Longrightarrow> b = b'"
begin

lemma tree_node_wf: "(\<And>i. wf (lf i)) \<Longrightarrow> wf (tree_node H lf k j)"
  by (cases k) (simp_all add: closed)

lemma one_sided: "wf a \<Longrightarrow> wf a' \<Longrightarrow> wf b \<Longrightarrow> wf b' \<Longrightarrow> H a b = H a' b' \<Longrightarrow> a = a' \<longleftrightarrow> b = b'"
  using left_inj right_inj by blast

lemma leaf_change:
  assumes "\<And>i. wf (lf i)" "wf x" "wf y"
    and "tree_node H (lf(i := x)) k (i div 2 ^ k) = tree_node H (lf(i := y)) k (i div 2 ^ k)"
  shows "x = y"
  using assms(4)
proof (induction k)
  case (Suc k)
  let ?X = "tree_node H (lf(i := x)) k" and ?Y = "tree_node H (lf(i := y)) k" and ?i = "i div 2 ^ k"
  have d: "i div 2 ^ Suc k = ?i div 2" by (simp only: power_Suc2 div_mult2_eq)
  have eq: "H (?X (2 * (?i div 2))) (?X (2 * (?i div 2) + 1)) =
      H (?Y (2 * (?i div 2))) (?Y (2 * (?i div 2) + 1))"
    using Suc.prems by (simp only: d tree_node.simps)
  have wf: "wf (?X j)" "wf (?Y j)" for j by (rule tree_node_wf, simp add: assms)+
  have same: "?X j = ?Y j" if "j \<noteq> ?i" for j
    by (rule trans[OF tree_node_off_path[OF that] tree_node_off_path[OF that, symmetric]])
  have "?X ?i = ?Y ?i"
  proof (cases "even ?i")
    case True
    then have "2 * (?i div 2) = ?i" "2 * (?i div 2) + 1 \<noteq> ?i" by auto
    then show ?thesis using eq same[of "2 * (?i div 2) + 1"] left_inj wf by metis
  next
    case False
    then have odd: "2 * (?i div 2) + 1 = ?i" by (rule odd_two_times_div_two_succ)
    then have "2 * (?i div 2) \<noteq> ?i" by linarith
    then show ?thesis using odd eq same[of "2 * (?i div 2)"] right_inj wf by metis
  qed
  then show ?case by (rule Suc.IH)
qed simp

end

lemma cmac_aes_block_inject:
  assumes "length a = 16" "length b = 16"
  shows "cmac_aes_block a k = cmac_aes_block b k \<longleftrightarrow> a = b"
  by (metis assms aes.enc_inject cmac_aes_block_def cmac_bytes_words cmac_words_bytes)

lemma cmac_xor16_inject:
  assumes "length a = 16" "length b = 16"
  shows "cmac_xor16 a c = cmac_xor16 b c \<longleftrightarrow> a = b" "cmac_xor16 c a = cmac_xor16 c b \<longleftrightarrow> a = b"
proof -
  have "x XOR z = y XOR z \<longleftrightarrow> x = y" "z XOR x = z XOR y \<longleftrightarrow> x = y" for x y z :: u8
    by (metis xor_cancel_right, metis xor_cancel_left)
  then show "cmac_xor16 a c = cmac_xor16 b c \<longleftrightarrow> a = b" "cmac_xor16 c a = cmac_xor16 c b \<longleftrightarrow> a = b"
    using assms by (auto simp: cmac_xor16_def list_eq_iff_nth_eq)
qed

lemma cmac2_eq:
  assumes "length a = 16" "length b = 16"
  shows "cmac2 k a b = cmac_aes_block (cmac_xor16
     (cmac_aes_block (cmac_xor16 (replicate 16 0) a) k)
     (cmac_xor16 b (cmac_subkey (cmac_aes_block (replicate 16 0) k)))) k"
proof -
  have b: "map (\<lambda>i. (a @ b) ! (16 + i) XOR K ! i) [0..<16] = cmac_xor16 b K"
    and a: "map (\<lambda>i. (a @ b) ! i) [0..<16] = a" for K
    using assms by (simp_all add: cmac_xor16_def nth_append list_eq_iff_nth_eq)
  show ?thesis using assms
    by (simp add: cmac2_def aes_cmac_128_def cmac_last_block_def Let_def for_up_first a b cmac_words_bytes)
qed

interpretation cmac_pair: pair_hash "cmac2 k" "\<lambda>b. length b = 16" for k
proof
  fix a a' b b' :: byte_block
  show "length (cmac2 k a b) = 16" by simp
  show "a = a'" if "length a = 16" "length a' = 16" "length b = 16" "cmac2 k a b = cmac2 k a' b"
    using that(4) by (simp add: cmac2_eq that(1-3) cmac_aes_block_inject cmac_xor16_inject)
  show "b = b'" if "length a = 16" "length b = 16" "length b' = 16" "cmac2 k a b = cmac2 k a b'"
    using that(4) by (simp add: cmac2_eq that(1-3) cmac_aes_block_inject cmac_xor16_inject)
qed

section \<open>Reachable trees\<close>

inductive mit_reachable :: "mit \<Rightarrow> bool" where
  init_tree: "0 < D \<Longrightarrow> mit_reachable (MemoryIntegrityTree root_key (2 ^ D))"
| write_block: "mit_reachable t \<Longrightarrow> blk < mit_B t \<Longrightarrow> mit_reachable (snd (mit_write t blk pt))"
| read_block: "mit_reachable t \<Longrightarrow> blk < mit_B t \<Longrightarrow> mit_reachable (snd (snd (mit_read t blk)))"

lemma mit_write_exhausted:
  assumes "mit_consistent t" "blk < mit_B t" "ext_ctr t ! blk = 0xFFFFFFFF"
  shows "mit_write t blk pt = (MIT_EXHAUSTED, t)"
proof -
  have "length (mit_root t) = 16" using assms by (auto simp: mit_consistent_def mit_shape_def)
  then show ?thesis using assms(3) consistent_root[OF assms(1,2)]
    by (simp add: mit_write_def Let_def mit_path_eq split_def)
qed

lemma mit_reachable_consistent: "mit_reachable t \<Longrightarrow> mit_consistent t"
proof (induction rule: mit_reachable.induct)
  case (init_tree D root_key)
  then show ?case by (rule MemoryIntegrityTree_consistent)
next
  case (write_block t blk pt)
  show ?case
  proof (cases "ext_ctr t ! blk = 0xFFFFFFFF")
    case True
    then show ?thesis using write_block by (simp add: mit_write_exhausted)
  next
    case False
    then show ?thesis using mit_write_consistent[OF write_block.IH write_block.hyps(2) False, of pt]
      by (auto simp: mit_written_def)
  qed
next
  case (read_block t blk)
  then show ?case by (simp add: mit_read_consistent)
qed

lemma xor_stream: "length pt = 16 \<Longrightarrow>
    map (\<lambda>i. map (\<lambda>i. pt ! i XOR ks ! i) [0..<16] ! i XOR (ks ! i :: u8)) [0..<16] = pt"
  by (simp add: list_eq_iff_nth_eq)

section \<open>Detection of changed storage\<close>

lemma path_val_ctr_change:
  assumes c: "mit_consistent t" and blk: "blk < mit_B t" and "ctr \<noteq> ext_ctr t ! blk"
    and same: "\<And>l. l < mit_D t \<Longrightarrow> path_sib u None blk l = path_sib t None blk l" "k_tree u = k_tree t"
  shows "path_val u None blk ctr (mit_D t) \<noteq> mit_root t"
proof
  assume eq: "path_val u None blk ctr (mit_D t) = mit_root t"
  let ?H = "cmac2 (k_tree t)" and ?D = "mit_D t" and ?lf = "mit_leaves t"
  have sib: "path_sib u None blk l = tree_node (cmac2 (k_tree u)) ?lf l ((blk div 2 ^ l) XOR 1)"
    if "l < ?D" for l
    using that by (simp add: same consistent_sibling[OF c blk])
  have u: "path_val u None blk ctr ?D = tree_node ?H (?lf(blk := mit_leaf blk ctr)) ?D (blk div 2 ^ ?D)"
    using path_val_tree[of ?D u None blk ?lf ctr, OF sib] same(2) by (simp del: fun_upd_apply)
  have t: "mit_root t = tree_node ?H (?lf(blk := mit_leaf blk (ext_ctr t ! blk))) ?D (blk div 2 ^ ?D)"
    using consistent_root[OF c blk] consistent_path_val[OF c blk order_refl] by (simp del: fun_upd_apply)
  have "mit_leaf blk ctr = mit_leaf blk (ext_ctr t ! blk)"
  proof (rule cmac_pair.leaf_change)
    show "tree_node ?H (?lf(blk := mit_leaf blk ctr)) ?D (blk div 2 ^ ?D) =
        tree_node ?H (?lf(blk := mit_leaf blk (ext_ctr t ! blk))) ?D (blk div 2 ^ ?D)"
      using eq u t by simp
  qed (simp_all add: mit_leaves_def mit_leaf_def cmac_store_be32_def ascii_def)
  then show False using assms(3) by (simp add: mit_leaf_inject)
qed

lemma mit_tail_inject:
  assumes "b < 2 ^ 32" "b' < 2 ^ 32"
  shows "cmac_store_be32 (of_nat b) @ cmac_store_be32 c @ r = cmac_store_be32 (of_nat b') @ cmac_store_be32 c' @ r
     \<longleftrightarrow> b = b' \<and> c = c'"
proof -
  have "(of_nat b :: u32) = of_nat b' \<longleftrightarrow> b = b'"
    using assms by (simp add: word_of_nat_eq_iff take_bit_nat_eq_self)
  then show ?thesis by (auto simp: cmac_store_be32_def)
qed

lemma mit_dataMac_ct:
  "length ct = 16 \<Longrightarrow> length ct' = 16 \<Longrightarrow> mit_dataMac k b c ct = mit_dataMac k b c ct' \<longleftrightarrow> ct = ct'"
  unfolding mit_dataMac_def
  by (auto dest!: cmac_pair.left_inj[rotated 3] simp: cmac_store_be32_def ascii_def)

lemma mit_dataMac_tail:
  assumes "length ct = 16" "b < 2 ^ 32" "b' < 2 ^ 32"
  shows "mit_dataMac k b c ct = mit_dataMac k b' c' ct \<longleftrightarrow> b = b' \<and> c = c'"
  using cmac_pair.right_inj[of ct "cmac_store_be32 (of_nat b) @ cmac_store_be32 c @ ascii ''DMACVTF3''"
     "cmac_store_be32 (of_nat b') @ cmac_store_be32 c' @ ascii ''DMACVTF3''" k]
    mit_tail_inject[OF assms(2,3)] assms(1)
  by (auto simp: mit_dataMac_def cmac_store_be32_def ascii_def)

section \<open>Properties\<close>

text \<open>
  C22: For a tree built by the constructor over a power-of-two number of blocks and any history of
  reads and writes, a write of sixteen bytes succeeds unless the counter of the block is
  exhausted (then nothing changes); after it a read of the block returns exactly these bytes, the
  counter has grown by one, and every other block reads as before.
\<close>

theorem mit_write_then_read:
  assumes "mit_reachable t" "blk < mit_B t" "length pt = 16"
  shows "if ext_ctr t ! blk = 0xFFFFFFFF then mit_write t blk pt = (MIT_EXHAUSTED, t)
    else \<exists>t'. mit_write t blk pt = (MIT_OK, t') \<and> mit_read t' blk = (MIT_OK, pt, t')
         \<and> ext_ctr t' ! blk = ext_ctr t ! blk + 1
         \<and> (\<forall>b < mit_B t. b \<noteq> blk \<longrightarrow> mit_read t' b = (MIT_OK, fst (snd (mit_read t b)), t'))"
proof -
  have c: "mit_consistent t" by (rule mit_reachable_consistent[OF assms(1)])
  show ?thesis
  proof (cases "ext_ctr t ! blk = 0xFFFFFFFF")
    case True
    then show ?thesis using mit_write_exhausted[OF c assms(2)] by simp
  next
    case False
    have len: "length (ext_ctr t) = mit_B t" "length (ext_ct t) = mit_B t"
      using c by (auto simp: mit_consistent_def mit_shape_def)
    have "ext_ctr t ! blk + 1 \<noteq> 0"
      using False by (auto simp flip: eq_neg_iff_add_eq_0)
    then obtain t' where t': "mit_write t blk pt = (MIT_OK, t')" "mit_written t blk pt t'" "ext_ctr t ! blk + 1 \<noteq> 0"
      using mit_write_consistent[OF c assms(2) False, of pt] by blast
    then have "mit_read t' blk = (MIT_OK, pt, t')" "ext_ctr t' ! blk = ext_ctr t ! blk + 1"
      using assms(2,3) len xor_stream[of pt]
      by (simp_all add: mit_written_def mit_read_consistent)
    moreover have "mit_read t' b = (MIT_OK, fst (snd (mit_read t b)), t')" if "b < mit_B t" "b \<noteq> blk" for b
      using t'(2) that c by (simp add: mit_written_def mit_read_consistent)
    ultimately show ?thesis using False t'(1) by simp
  qed
qed

theorem mit_write_then_read_witness:
  "\<exists>t'. mit_write (MemoryIntegrityTree (Quad 1 2 3 4) 16) 5 (replicate 16 7) = (MIT_OK, t')
     \<and> mit_read t' 5 = (MIT_OK, replicate 16 7, t')"
proof -
  let ?t = "MemoryIntegrityTree (Quad 1 2 3 4) 16"
  have "mit_reachable ?t" using mit_reachable.init_tree[of 4 "Quad 1 2 3 4"] by simp
  moreover have "5 < mit_B ?t" "ext_ctr ?t ! 5 = 0"
    by (simp_all add: MemoryIntegrityTree_def mit_build_def Let_def split_def)
  ultimately show ?thesis using mit_write_then_read[of ?t 5 "replicate 16 7"] by auto
qed

text \<open>
  A block whose counter was changed, with whatever ciphertext and tag, has another root: both a read
  and a write of it report tampering.
\<close>

lemma mit_counter_tamper:
  assumes "mit_reachable t" "blk < mit_B t" "ctr \<noteq> ext_ctr t ! blk"
    and u: "u = t\<lparr>ext_ct := (ext_ct t)[blk := ct], ext_mac := (ext_mac t)[blk := mac], ext_ctr := (ext_ctr t)[blk := ctr]\<rparr>"
  shows "mit_read u blk = (MIT_TAMPER, replicate 16 0, u\<lparr>mit_tamper := True\<rparr>)"
    and "mit_write u blk pt = (MIT_TAMPER, u\<lparr>mit_tamper := True\<rparr>)"
proof -
  have c: "mit_consistent t" by (rule mit_reachable_consistent[OF assms(1)])
  have sh: "length (ext_ctr t) = mit_B t" "0 < mit_D t" "length (mit_root t) = 16"
    using c by (auto simp: mit_consistent_def mit_shape_def)
  have k: "ext_ctr u ! blk = ctr" "mit_D u = mit_D t" "mit_root u = mit_root t" using assms(2) sh by (simp_all add: u)
  have "path_val u None blk ctr (mit_D t) \<noteq> mit_root t"
  proof (rule path_val_ctr_change[OF c assms(2,3)])
    show "path_sib u None blk l = path_sib t None blk l" for l
      by (auto simp: u path_sib_def nat_xor_1[unfolded One_nat_def] elim!: oddE)
  qed (simp add: u)
  moreover have "length (path_val u None blk ctr (mit_D t)) = 16" by (rule length_path_val[OF sh(2)])
  ultimately show "mit_read u blk = (MIT_TAMPER, replicate 16 0, u\<lparr>mit_tamper := True\<rparr>)"
    "mit_write u blk pt = (MIT_TAMPER, u\<lparr>mit_tamper := True\<rparr>)"
    using sh k by (simp_all add: Let_def mit_read_def mit_write_def mit_path_eq split_def)
qed

lemma mit_write_counter:
  assumes "mit_reachable t" "blk < mit_B t" "mit_write t blk pt = (MIT_OK, t')"
  shows "mit_reachable t'" "mit_B t' = mit_B t" "ext_ctr t' ! blk \<noteq> ext_ctr t ! blk"
proof -
  show "mit_reachable t'" using mit_reachable.write_block[OF assms(1,2), of pt] assms(3) by simp
  have "length (ext_ctr t) = mit_B t"
    using mit_reachable_consistent[OF assms(1)] by (auto simp: mit_consistent_def mit_shape_def)
  then show "mit_B t' = mit_B t" "ext_ctr t' ! blk \<noteq> ext_ctr t ! blk"
    using assms(2,3) by (auto simp: mit_write_def Let_def split_def split: if_splits)
qed

text \<open>
  C23: Tampering with the storage of an honest tree, without any assumption on AES. Changing the
  counter of a block, together with any change of its ciphertext and tag, makes a read and a write of
  it report tampering; so does rolling all three back to what they were before a write (the joint
  replay). Of a block that has been written, changed ciphertext under the stored tag, and ciphertext
  with a genuine tag of another block or counter, make a read report it. The output is then all zero
  and the tamper flag is set. A block never written (counter 0) reads as zero whatever its
  ciphertext and tag hold, and is not reported.
\<close>

theorem mit_tamper_detected:
  assumes "mit_reachable t" "blk < mit_B t" "mit_B t \<le> 2 ^ 32"
  shows "(ctr \<noteq> ext_ctr t ! blk \<longrightarrow>
         (let u = t\<lparr>ext_ct := (ext_ct t)[blk := ct], ext_mac := (ext_mac t)[blk := mac],
                    ext_ctr := (ext_ctr t)[blk := ctr]\<rparr> in
            mit_read u blk = (MIT_TAMPER, replicate 16 0, u\<lparr>mit_tamper := True\<rparr>) \<and>
            mit_write u blk pt = (MIT_TAMPER, u\<lparr>mit_tamper := True\<rparr>))) \<and>
     (mit_write t blk pt = (MIT_OK, t') \<longrightarrow>
         (let u = t'\<lparr>ext_ct := (ext_ct t')[blk := ext_ct t ! blk], ext_mac := (ext_mac t')[blk := ext_mac t ! blk],
                     ext_ctr := (ext_ctr t')[blk := ext_ctr t ! blk]\<rparr> in
            mit_read u blk = (MIT_TAMPER, replicate 16 0, u\<lparr>mit_tamper := True\<rparr>))) \<and>
     (ext_ctr t ! blk \<noteq> 0 \<and> length ct = 16 \<and> length (ext_ct t ! blk) = 16 \<and> ct \<noteq> ext_ct t ! blk \<longrightarrow>
         (let u = t\<lparr>ext_ct := (ext_ct t)[blk := ct]\<rparr> in
            mit_read u blk = (MIT_TAMPER, replicate 16 0, u\<lparr>mit_tamper := True\<rparr>))) \<and>
     (ext_ctr t ! blk \<noteq> 0 \<and> length ct = 16 \<and> b < 2 ^ 32 \<and> (b \<noteq> blk \<or> ctr \<noteq> ext_ctr t ! blk) \<longrightarrow>
         (let u = t\<lparr>ext_ct := (ext_ct t)[blk := ct],
                    ext_mac := (ext_mac t)[blk := mit_dataMac (k_mac t) b ctr ct]\<rparr> in
            mit_read u blk = (MIT_TAMPER, replicate 16 0, u\<lparr>mit_tamper := True\<rparr>))) \<and>
     (ext_ctr t ! blk = 0 \<longrightarrow>
         (let u = t\<lparr>ext_ct := (ext_ct t)[blk := ct], ext_mac := (ext_mac t)[blk := mac]\<rparr> in
            mit_read u blk = (MIT_OK, replicate 16 0, u)))"
    (is "?ctr \<and> ?replay \<and> ?ct \<and> ?mac \<and> ?zero")
proof -
  have c: "mit_consistent t" by (rule mit_reachable_consistent[OF assms(1)])
  have sh: "length (ext_ctr t) = mit_B t" "length (ext_ct t) = mit_B t" "length (ext_mac t) = mit_B t"
    "0 < mit_D t" "length (mit_root t) = 16"
    using c by (auto simp: mit_consistent_def mit_shape_def)
  have tag: "ext_ctr t ! blk \<noteq> 0 \<Longrightarrow>
      ext_mac t ! blk = mit_dataMac (k_mac t) blk (ext_ctr t ! blk) (ext_ct t ! blk)"
    using c assms(2) by (simp add: mit_consistent_def)
  note root = consistent_root[OF c assms(2)]
  have same: "path_val (t\<lparr>ext_ct := x, ext_mac := y\<rparr>) None blk cc n = path_val t None blk cc n"
    "path_val (t\<lparr>ext_ct := x\<rparr>) None blk cc n = path_val t None blk cc n" for x y cc n
    by (induction n) (simp_all add: path_sib_def)
  have ?ctr using mit_counter_tamper[OF assms(1,2) _ refl] by (simp add: Let_def)
  moreover have ?replay
  proof
    assume "mit_write t blk pt = (MIT_OK, t')"
    note w = mit_write_counter[OF assms(1,2) this]
    from mit_counter_tamper(1)[OF w(1) _ w(3)[symmetric] refl] assms(2) w(2)
    show "let u = t'\<lparr>ext_ct := (ext_ct t')[blk := ext_ct t ! blk], ext_mac := (ext_mac t')[blk := ext_mac t ! blk],
                     ext_ctr := (ext_ctr t')[blk := ext_ctr t ! blk]\<rparr> in
            mit_read u blk = (MIT_TAMPER, replicate 16 0, u\<lparr>mit_tamper := True\<rparr>)" by (simp add: Let_def)
  qed
  moreover have ?ct
    using assms(2) sh tag root by (auto simp: Let_def mit_read_def mit_path_eq split_def same mit_dataMac_ct)
  moreover have ?mac
    using assms(2,3) sh root mit_dataMac_tail[of ct blk b "k_mac t" "ext_ctr t ! blk" ctr]
    by (auto simp: Let_def mit_read_def mit_path_eq split_def same)
  moreover have ?zero
    using assms(2) sh root by (auto simp: Let_def mit_read_def mit_path_eq split_def same)
  ultimately show ?thesis by blast
qed

text \<open>On a fresh tree: a changed counter, and a block rolled back after a write.\<close>

theorem mit_tamper_detected_witness:
  "let t = MemoryIntegrityTree (Quad 1 2 3 4) 16; u = t\<lparr>ext_ctr := (replicate 16 0)[3 := 9]\<rparr> in
     fst (mit_read u 3) = MIT_TAMPER \<and>
     (\<exists>t'. mit_write t 3 (replicate 16 7) = (MIT_OK, t') \<and>
        fst (mit_read (t'\<lparr>ext_ct := (ext_ct t')[3 := ext_ct t ! 3], ext_mac := (ext_mac t')[3 := ext_mac t ! 3],
                          ext_ctr := (ext_ctr t')[3 := ext_ctr t ! 3]\<rparr>) 3) = MIT_TAMPER)"
proof -
  let ?t = "MemoryIntegrityTree (Quad 1 2 3 4) 16"
  have r: "mit_reachable ?t" using mit_reachable.init_tree[of 4 "Quad 1 2 3 4"] by simp
  have f: "mit_B ?t = 16" "ext_ctr ?t = replicate 16 0"
    by (simp_all add: MemoryIntegrityTree_def mit_build_def Let_def split_def)
  have len: "length (mit_root ?t) = 16"
    using mit_reachable_consistent[OF r] unfolding mit_consistent_def mit_shape_def by blast
  have "fst (mit_write ?t 3 (replicate 16 7)) = MIT_OK"
    using consistent_root[OF mit_reachable_consistent[OF r], of 3] f len
    by (simp add: mit_write_def Let_def mit_path_eq split_def)
  then obtain t' where w: "mit_write ?t 3 (replicate 16 7) = (MIT_OK, t')" by (metis prod.collapse)
  have b: "3 < mit_B ?t" "mit_B ?t \<le> 2 ^ 32" by (simp_all add: f)
  note d = mit_tamper_detected[OF r b, where ctr = 9 and ct = "ext_ct ?t ! 3" and mac = "ext_mac ?t ! 3"
      and pt = "replicate 16 7" and t' = t']
  have "fst (mit_read (?t\<lparr>ext_ctr := (replicate 16 0)[3 := 9]\<rparr>) 3) = MIT_TAMPER"
    using conjunct1[OF d] f by (simp add: Let_def)
  then show ?thesis using w d by (simp add: Let_def)
qed

end
