(* ===== verification/Trust_Fabric.thy ===== *)
theory Trust_Fabric
  imports Stacked_Memory Integrity_Tree
begin

text \<open>
  The Vertical Trust Fabric of \<open>src/vertical_trust_fabric.h\<close>: authenticated request and response
  packets between requesters and the tiers of the stacked memory, role policy, replay rejection
  by sequence numbers, epochs, sentinels, thermal and fault trips with zeroization. The record
  \<open>vtf\<close> holds the members of the class; \<open>vtf_mem\<close> is the memory behind \<open>memory_\<close>, which the
  constructor sets from a reference. An operation that the source makes return a value and
  change members returns the value paired with the new state. \<open>COUNT\<close> stands for every
  requester code outside the enumeration.
\<close>

section \<open>Data\<close>

datatype VtfRequester = CPU_FETCH | CPU_DATA | SECURITY | DMA | DEBUG | COUNT
datatype VtfOperation = VTF_READ | VTF_WRITE
datatype VtfTierRole = ROLE_INSTRUCTION | ROLE_DATA | ROLE_KEY_METADATA | ROLE_SENTINEL
datatype VtfDenyReason = DENY_NONE | DENY_LOCKDOWN | DENY_INVALID_FIELD | DENY_POLICY | DENY_BAD_TAG
  | DENY_REPLAY | DENY_EPOCH | DENY_THERMAL | DENY_PHYSICAL_FAULT | DENY_SENTINEL

record VtfRequest =
  rq_requester :: VtfRequester
  rq_operation :: VtfOperation
  rq_layer :: u8
  rq_reserved :: u16
  rq_addr :: u32
  rq_data :: u32
  rq_sequence :: u32
  rq_epoch :: u32
  rq_route_nonce :: u32
  rq_tag :: block

record VtfResponse =
  rs_requester :: VtfRequester
  rs_operation :: VtfOperation
  rs_layer :: u8
  rs_status :: u8
  rs_addr :: u32
  rs_data :: u32
  rs_sequence :: u32
  rs_epoch :: u32
  rs_route_nonce :: u32
  rs_tag :: block

record VtfCounters =
  cnt_accepted :: u32
  cnt_policy_denied :: u32
  cnt_bad_tag :: u32
  cnt_replay :: u32
  cnt_epoch_mismatch :: u32
  cnt_thermal_trips :: u32
  cnt_physical_faults :: u32
  cnt_sentinel_trips :: u32
  cnt_lockdown_denied :: u32

definition zero_counters :: VtfCounters where
  "zero_counters = \<lparr>cnt_accepted = 0, cnt_policy_denied = 0, cnt_bad_tag = 0, cnt_replay = 0,
     cnt_epoch_mismatch = 0, cnt_thermal_trips = 0, cnt_physical_faults = 0,
     cnt_sentinel_trips = 0, cnt_lockdown_denied = 0\<rparr>"

abbreviation (input) REQUESTER_COUNT :: nat where "REQUESTER_COUNT \<equiv> 5"
abbreviation (input) SENTINEL_COUNT :: nat where "SENTINEL_COUNT \<equiv> 8"

record vtf =
  vtf_mem :: smem
  vtf_roles :: "nat \<Rightarrow> VtfTierRole"
  root_key :: block
  req_key :: block
  rsp_key :: block
  epoch_keys_enabled :: bool
  base_rsp_key :: block
  epoch_req_key :: "nat \<Rightarrow> block"
  tx_seq :: "nat \<Rightarrow> u32"
  rx_seq :: "nat \<Rightarrow> u32"
  vtf_epoch :: u32
  vtf_lockdown :: bool
  debug_unlocked :: bool
  zeroize_on_severe :: bool
  last_reason :: VtfDenyReason
  vtf_counters :: VtfCounters
  temperature_mC :: "nat \<Rightarrow> u32"
  max_temperature_mC :: u32
  sentinel_addr :: "nat \<Rightarrow> nat"
  sentinel_value :: "nat \<Rightarrow> u32"
  sentinels_installed :: bool

fun requesterIndex :: "VtfRequester \<Rightarrow> nat" where
  "requesterIndex CPU_FETCH = 0" | "requesterIndex CPU_DATA = 1" | "requesterIndex SECURITY = 2"
| "requesterIndex DMA = 3" | "requesterIndex DEBUG = 4" | "requesterIndex COUNT = 5"

fun operation_code :: "VtfOperation \<Rightarrow> u8" where
  "operation_code VTF_READ = 0" | "operation_code VTF_WRITE = 1"

section \<open>Keys\<close>

definition deriveEpochKeys :: "vtf \<Rightarrow> vtf" where
  "deriveEpochKeys v =
     v\<lparr>epoch_req_key := (\<lambda>r. if r < REQUESTER_COUNT
          then aes_encrypt_block (Quad 0x56544645 (vtf_epoch v) (of_nat r) 0x4B444631) (req_key v)
          else epoch_req_key v r),
       rsp_key := aes_encrypt_block (Quad 0x56544645 (vtf_epoch v) 0x52535030 0x4B444631) (base_rsp_key v)\<rparr>"

definition deriveDomainKeys :: "vtf \<Rightarrow> vtf" where
  "deriveDomainKeys v =
     (let req = aes_encrypt_block (Quad 0x56544652 0x45515545 0x53544B31 0x00000001) (root_key v);
          rsp = aes_encrypt_block (Quad 0x56544652 0x4553504F 0x4E53454B 0x00000001) (root_key v);
          v = v\<lparr>req_key := req, rsp_key := rsp, base_rsp_key := rsp\<rparr>
      in if epoch_keys_enabled v then deriveEpochKeys v else v)"

definition requestKey :: "vtf \<Rightarrow> VtfRequester \<Rightarrow> block" where
  "requestKey v r =
     (let idx = requesterIndex r in
      if epoch_keys_enabled v \<and> idx < REQUESTER_COUNT then epoch_req_key v idx else req_key v)"

section \<open>Packets\<close>

definition makeRouteNonce :: "vtf \<Rightarrow> VtfRequester \<Rightarrow> u32 \<Rightarrow> u8 \<Rightarrow> u32" where
  "makeRouteNonce v r seq layer =
     (let x = 0xC3D5A17E XOR of_nat (requesterIndex r) * 0x9E3779B9;
          x = x XOR seq * 0x85EBCA6B;
          x = x XOR ucast layer * 0xC2B2AE35;
          x = x XOR vtf_epoch v * 0x27D4EB2D;
          x = x XOR drop_bit 16 x;
          x = x * 0x7FEB352D;
          x = x XOR drop_bit 15 x;
          x = x * 0x846CA68B
      in x XOR drop_bit 16 x)"

definition serializeRequest :: "VtfRequest \<Rightarrow> u8 list" where
  "serializeRequest req =
     [0xC3, 0xD1, of_nat (requesterIndex (rq_requester req)), operation_code (rq_operation req),
      rq_layer req, 0, 0, 0] @ store_be32 (rq_addr req) @ store_be32 (rq_data req)
     @ store_be32 (rq_sequence req) @ store_be32 (rq_epoch req) @ store_be32 (rq_route_nonce req)
     @ store_be32 0x56544631"

definition serializeResponse :: "VtfResponse \<Rightarrow> u8 list" where
  "serializeResponse rsp =
     [0xC3, 0xD2, of_nat (requesterIndex (rs_requester rsp)), operation_code (rs_operation rsp),
      rs_layer rsp, rs_status rsp, 0, 0] @ store_be32 (rs_addr rsp) @ store_be32 (rs_data rsp)
     @ store_be32 (rs_sequence rsp) @ store_be32 (rs_epoch rsp) @ store_be32 (rs_route_nonce rsp)
     @ store_be32 0x56544632"

definition signRequest :: "vtf \<Rightarrow> VtfRequest \<Rightarrow> VtfRequest" where
  "signRequest v req =
     req\<lparr>rq_tag := aes_cmac_128 (requestKey v (rq_requester req)) (serializeRequest req)\<rparr>"

definition signResponse :: "vtf \<Rightarrow> VtfResponse \<Rightarrow> VtfResponse" where
  "signResponse v rsp = rsp\<lparr>rs_tag := aes_cmac_128 (rsp_key v) (serializeResponse rsp)\<rparr>"

definition requestTagValid :: "vtf \<Rightarrow> VtfRequest \<Rightarrow> bool" where
  "requestTagValid v req = cmac_tag_equal (rq_tag (signRequest v req)) (rq_tag req)"

definition requesterValid :: "VtfRequester \<Rightarrow> bool" where
  "requesterValid r \<longleftrightarrow> requesterIndex r < REQUESTER_COUNT"

section \<open>Policy and validation\<close>

definition policyAllows :: "vtf \<Rightarrow> VtfRequest \<Rightarrow> bool" where
  "policyAllows v req =
     (if unat (rq_layer req) \<ge> MAX_LAYERS then False
      else let role = vtf_roles v (unat (rq_layer req)) in
        case rq_requester req of
          CPU_FETCH \<Rightarrow> rq_operation req = VTF_READ \<and> role = ROLE_INSTRUCTION
        | CPU_DATA \<Rightarrow> role = ROLE_DATA
        | SECURITY \<Rightarrow> True
        | DMA \<Rightarrow> role = ROLE_DATA
        | DEBUG \<Rightarrow> if \<not> debug_unlocked v then False
                   else role = ROLE_INSTRUCTION \<or> role = ROLE_DATA
        | COUNT \<Rightarrow> False)"

definition zeroizeCriticalTier :: "vtf \<Rightarrow> vtf" where
  "zeroizeCriticalTier v =
     (if \<not> zeroize_on_severe v then v
      else v\<lparr>vtf_mem := for_up 0 (min (getNumLayers (vtf_mem v)) MAX_LAYERS)
              (\<lambda>l m. if vtf_roles v l = ROLE_KEY_METADATA
                     then setLayerAccess (clearLayer m l) l False else m) (vtf_mem v)\<rparr>)"

definition trip :: "vtf \<Rightarrow> VtfDenyReason \<Rightarrow> bool \<Rightarrow> vtf" where
  "trip v reason severe =
     (let v = v\<lparr>last_reason := reason\<rparr> in
      if severe then zeroizeCriticalTier (v\<lparr>vtf_lockdown := True\<rparr>) else v)"

definition validateRequest :: "vtf \<Rightarrow> VtfRequest \<Rightarrow> bool \<times> vtf" where
  "validateRequest v req =
     (let c = vtf_counters v; idx = requesterIndex (rq_requester req) in
      if vtf_lockdown v then
        (False, v\<lparr>vtf_counters := c\<lparr>cnt_lockdown_denied := cnt_lockdown_denied c + 1\<rparr>,
                  last_reason := DENY_LOCKDOWN\<rparr>)
      else if \<not> requesterValid (rq_requester req) \<or> unat (rq_layer req) \<ge> MAX_LAYERS
              \<or> unat (rq_layer req) \<ge> getNumLayers (vtf_mem v) \<or> unat (rq_addr req) \<ge> getNumWords (vtf_mem v)
      then (False, trip (v\<lparr>vtf_counters := c\<lparr>cnt_policy_denied := cnt_policy_denied c + 1\<rparr>\<rparr>)
                     DENY_INVALID_FIELD True)
      else if rq_epoch req \<noteq> vtf_epoch v
      then (False, trip (v\<lparr>vtf_counters := c\<lparr>cnt_epoch_mismatch := cnt_epoch_mismatch c + 1\<rparr>\<rparr>) DENY_EPOCH True)
      else if \<not> requestTagValid v req
      then (False, trip (v\<lparr>vtf_counters := c\<lparr>cnt_bad_tag := cnt_bad_tag c + 1\<rparr>\<rparr>) DENY_BAD_TAG True)
      else if rq_sequence req \<noteq> rx_seq v idx + 1
      then (False, trip (v\<lparr>vtf_counters := c\<lparr>cnt_replay := cnt_replay c + 1\<rparr>\<rparr>) DENY_REPLAY True)
      else let v = v\<lparr>rx_seq := (rx_seq v)(idx := rq_sequence req)\<rparr> in
        if \<not> policyAllows v req
        then (False, v\<lparr>vtf_counters := c\<lparr>cnt_policy_denied := cnt_policy_denied c + 1\<rparr>,
                       last_reason := DENY_POLICY\<rparr>)
        else (True, v\<lparr>vtf_counters := c\<lparr>cnt_accepted := cnt_accepted c + 1\<rparr>, last_reason := DENY_NONE\<rparr>))"

section \<open>Public operations\<close>

definition VerticalTrustFabric :: "smem \<Rightarrow> vtf" where
  "VerticalTrustFabric mem = deriveDomainKeys
     \<lparr>vtf_mem = mem,
      vtf_roles = (\<lambda>l. if l = 0 then ROLE_INSTRUCTION else if l = 1 then ROLE_DATA
                      else if l = 2 then ROLE_KEY_METADATA else ROLE_SENTINEL),
      root_key = Quad 0x2B7E1516 0x28AED2A6 0xABF71588 0x09CF4F3C,
      req_key = Quad 0 0 0 0, rsp_key = Quad 0 0 0 0, epoch_keys_enabled = False,
      base_rsp_key = Quad 0 0 0 0, epoch_req_key = (\<lambda>_. Quad 0 0 0 0),
      tx_seq = (\<lambda>_. 0), rx_seq = (\<lambda>_. 0), vtf_epoch = 1, vtf_lockdown = False,
      debug_unlocked = False, zeroize_on_severe = True, last_reason = DENY_NONE,
      vtf_counters = zero_counters, temperature_mC = (\<lambda>_. 25000), max_temperature_mC = 90000,
      sentinel_addr = (\<lambda>_. 0), sentinel_value = (\<lambda>_. 0), sentinels_installed = False\<rparr>"

definition zero_sequences :: "vtf \<Rightarrow> vtf" where
  "zero_sequences v =
     v\<lparr>tx_seq := (\<lambda>i. if i < REQUESTER_COUNT then 0 else tx_seq v i),
       rx_seq := (\<lambda>i. if i < REQUESTER_COUNT then 0 else rx_seq v i)\<rparr>"

definition resetProtocolStateForSimulation :: "vtf \<Rightarrow> vtf" where
  "resetProtocolStateForSimulation v =
     (let v = zero_sequences (v\<lparr>vtf_lockdown := False, last_reason := DENY_NONE,
                                vtf_counters := zero_counters\<rparr>)
      in v\<lparr>vtf_mem := for_up 0 (getNumLayers (vtf_mem v)) (\<lambda>l m. setLayerAccess m l True) (vtf_mem v)\<rparr>)"

definition setRootKeyForSimulation :: "vtf \<Rightarrow> block \<Rightarrow> vtf" where
  "setRootKeyForSimulation v key =
     resetProtocolStateForSimulation (deriveDomainKeys (v\<lparr>root_key := key\<rparr>))"

definition setTierRole :: "vtf \<Rightarrow> nat \<Rightarrow> VtfTierRole \<Rightarrow> vtf" where
  "setTierRole v layer role =
     (if layer \<ge> MAX_LAYERS then v else v\<lparr>vtf_roles := (vtf_roles v)(layer := role)\<rparr>)"

definition tierRole :: "vtf \<Rightarrow> nat \<Rightarrow> VtfTierRole" where
  "tierRole v layer = (if layer < MAX_LAYERS then vtf_roles v layer else ROLE_SENTINEL)"

definition setDebugUnlocked :: "vtf \<Rightarrow> bool \<Rightarrow> vtf" where
  "setDebugUnlocked v enabled = v\<lparr>debug_unlocked := enabled\<rparr>"

definition setZeroizeOnSevere :: "vtf \<Rightarrow> bool \<Rightarrow> vtf" where
  "setZeroizeOnSevere v enabled = v\<lparr>zeroize_on_severe := enabled\<rparr>"

definition setEpochKeyHierarchy :: "vtf \<Rightarrow> bool \<Rightarrow> vtf" where
  "setEpochKeyHierarchy v enabled = deriveDomainKeys (v\<lparr>epoch_keys_enabled := enabled\<rparr>)"

definition setMaxTemperatureMilliC :: "vtf \<Rightarrow> u32 \<Rightarrow> vtf" where
  "setMaxTemperatureMilliC v x = (if 0 < sint x then v\<lparr>max_temperature_mC := x\<rparr> else v)"

definition advanceEpoch :: "vtf \<Rightarrow> vtf" where
  "advanceEpoch v =
     (let v = v\<lparr>vtf_epoch := vtf_epoch v + 1\<rparr>;
          v = (if epoch_keys_enabled v then deriveEpochKeys v else v)
      in zero_sequences v)"

definition issue :: "vtf \<Rightarrow> VtfRequester \<Rightarrow> VtfOperation \<Rightarrow> u8 \<Rightarrow> u32 \<Rightarrow> u32 \<Rightarrow> VtfRequest \<times> vtf" where
  "issue v r operation layer addr data =
     (let idx = requesterIndex r;
          v' = (if idx < REQUESTER_COUNT then v\<lparr>tx_seq := (tx_seq v)(idx := tx_seq v idx + 1)\<rparr> else v);
          seq = (if idx < REQUESTER_COUNT then tx_seq v' idx else 0)
      in (signRequest v'
            \<lparr>rq_requester = r, rq_operation = operation, rq_layer = layer, rq_reserved = 0, rq_addr = addr,
             rq_data = data, rq_sequence = seq, rq_epoch = vtf_epoch v',
             rq_route_nonce = makeRouteNonce v' r seq layer, rq_tag = Quad 0 0 0 0\<rparr>, v'))"

definition issueRead :: "vtf \<Rightarrow> VtfRequester \<Rightarrow> u8 \<Rightarrow> u32 \<Rightarrow> VtfRequest \<times> vtf" where
  "issueRead v r layer addr = issue v r VTF_READ layer addr 0"

definition issueWrite :: "vtf \<Rightarrow> VtfRequester \<Rightarrow> u8 \<Rightarrow> u32 \<Rightarrow> u32 \<Rightarrow> VtfRequest \<times> vtf" where
  "issueWrite v r layer addr data = issue v r VTF_WRITE layer addr data"

definition execute :: "vtf \<Rightarrow> VtfRequest \<Rightarrow> bool \<times> VtfResponse \<times> vtf" where
  "execute v req =
     (let rsp = \<lparr>rs_requester = rq_requester req, rs_operation = rq_operation req,
                 rs_layer = rq_layer req, rs_status = 1, rs_addr = rq_addr req, rs_data = 0,
                 rs_sequence = rq_sequence req, rs_epoch = rq_epoch req,
                 rs_route_nonce = rq_route_nonce req, rs_tag = Quad 0 0 0 0\<rparr>;
          (accepted, v) = validateRequest v req
      in if \<not> accepted then (False, signResponse v (rsp\<lparr>rs_status := 0\<rparr>), v)
         else case rq_operation req of
           VTF_READ \<Rightarrow>
             (True, signResponse v (rsp\<lparr>rs_data :=
                mem_read (vtf_mem v) (unat (rq_layer req)) (unat (rq_addr req))\<rparr>), v)
         | VTF_WRITE \<Rightarrow>
             (let v = v\<lparr>vtf_mem := mem_write (vtf_mem v) (unat (rq_layer req)) (unat (rq_addr req)) (rq_data req)\<rparr>
              in (True, signResponse v (rsp\<lparr>rs_data := rq_data req\<rparr>), v)))"

definition verifyResponse :: "vtf \<Rightarrow> VtfResponse \<Rightarrow> bool" where
  "verifyResponse v rsp = cmac_tag_equal (rs_tag (signResponse v rsp)) (rs_tag rsp)"

definition verifyResponseForRequest :: "vtf \<Rightarrow> VtfRequest \<Rightarrow> VtfResponse \<Rightarrow> bool" where
  "verifyResponseForRequest v req rsp =
     (if \<not> verifyResponse v rsp then False
      else rs_requester rsp = rq_requester req \<and> rs_operation rsp = rq_operation req
         \<and> rs_layer rsp = rq_layer req \<and> rs_addr rsp = rq_addr req
         \<and> rs_sequence rsp = rq_sequence req \<and> rs_epoch rsp = rq_epoch req
         \<and> rs_route_nonce rsp = rq_route_nonce req)"

text \<open>The first sentinel tier, or \<open>MAX_LAYERS\<close>.\<close>

definition sentinel_layer :: "vtf \<Rightarrow> nat" where
  "sentinel_layer v =
     (case filter (\<lambda>l. vtf_roles v l = ROLE_SENTINEL) [0..<min (getNumLayers (vtf_mem v)) MAX_LAYERS] of
        [] \<Rightarrow> MAX_LAYERS | l # _ \<Rightarrow> l)"

definition sentinel_word :: "vtf \<Rightarrow> nat \<Rightarrow> nat \<Rightarrow> nat \<Rightarrow> u32" where
  "sentinel_word v layer addr i =
     (let tag = aes_cmac_128 (req_key v) (store_be32 (vtf_epoch v) @ store_be32 (of_nat layer)
                  @ store_be32 (of_nat addr) @ store_be32 (of_nat i XOR 0x53454E54))
      in quad_nth tag (i mod 4) XOR quad_nth tag ((i + 1) mod 4))"

definition installSentinels :: "vtf \<Rightarrow> bool \<times> vtf" where
  "installSentinels v =
     (let layer = sentinel_layer v in
      if layer \<ge> getNumLayers (vtf_mem v) then (False, v)
      else if getNumWords (vtf_mem v) < SENTINEL_COUNT then (False, v)
      else let v = for_up 0 SENTINEL_COUNT
            (\<lambda>i v. let addr = getNumWords (vtf_mem v) - 1 - i;
                       value = sentinel_word v layer addr i
                   in v\<lparr>sentinel_addr := (sentinel_addr v)(i := addr),
                        sentinel_value := (sentinel_value v)(i := value),
                        vtf_mem := mem_write (vtf_mem v) layer addr value\<rparr>) v
        in (True, v\<lparr>sentinels_installed := True\<rparr>))"

text \<open>The loop of \<open>verifySentinels\<close> stops at the first mismatch.\<close>

definition verifySentinels :: "vtf \<Rightarrow> bool \<times> vtf" where
  "verifySentinels v =
     (if \<not> sentinels_installed v then (False, v)
      else let layer = sentinel_layer v in
        if layer \<ge> getNumLayers (vtf_mem v) then (False, v)
        else if (\<forall>i\<in>set [0..<SENTINEL_COUNT].
                   rawRead (vtf_mem v) layer (sentinel_addr v i) = sentinel_value v i)
        then (True, v)
        else let c = vtf_counters v
             in (False, trip (v\<lparr>vtf_counters := c\<lparr>cnt_sentinel_trips := cnt_sentinel_trips c + 1\<rparr>\<rparr>)
                          DENY_SENTINEL True))"

definition updateTemperatureMilliC :: "vtf \<Rightarrow> nat \<Rightarrow> u32 \<Rightarrow> vtf" where
  "updateTemperatureMilliC v layer temperature =
     (if layer \<ge> MAX_LAYERS then v
      else let v = v\<lparr>temperature_mC := (temperature_mC v)(layer := temperature)\<rparr>; c = vtf_counters v
           in if sint temperature > sint (max_temperature_mC v)
              then trip (v\<lparr>vtf_counters := c\<lparr>cnt_thermal_trips := cnt_thermal_trips c + 1\<rparr>\<rparr>) DENY_THERMAL True
              else v)"

definition reportPhysicalFault :: "vtf \<Rightarrow> nat \<Rightarrow> nat \<Rightarrow> u32 \<Rightarrow> vtf" where
  "reportPhysicalFault v layer addr fault_mask =
     (if layer \<ge> MAX_LAYERS then v
      else let c = vtf_counters v
           in trip (v\<lparr>vtf_counters := c\<lparr>cnt_physical_faults := cnt_physical_faults c + 1\<rparr>\<rparr>)
                DENY_PHYSICAL_FAULT True)"

section \<open>Packets and tags\<close>

instantiation VtfRequester :: linorder
begin
definition less_eq_VtfRequester :: "VtfRequester \<Rightarrow> VtfRequester \<Rightarrow> bool" where
  "less_eq_VtfRequester a b \<longleftrightarrow> requesterIndex a \<le> requesterIndex b"
definition less_VtfRequester :: "VtfRequester \<Rightarrow> VtfRequester \<Rightarrow> bool" where
  "less_VtfRequester a b \<longleftrightarrow> requesterIndex a < requesterIndex b"
instance
proof
  fix x y z :: VtfRequester
  show "x \<le> y \<Longrightarrow> y \<le> x \<Longrightarrow> x = y"
    by (cases x; cases y) (simp_all add: less_eq_VtfRequester_def)
qed (auto simp: less_eq_VtfRequester_def less_VtfRequester_def)
end

lemma requesterIndex_inject [simp]: "requesterIndex a = requesterIndex b \<longleftrightarrow> a = b"
  by (cases a; cases b) simp_all

lemma requesterValid_iff [simp]: "requesterValid r \<longleftrightarrow> r \<noteq> COUNT"
  by (cases r) (simp_all add: requesterValid_def)

lemma requesterIndex_less: "r \<noteq> COUNT \<Longrightarrow> requesterIndex r < 5"
  by (cases r) simp_all

lemma operation_code_inject [simp]: "operation_code a = operation_code b \<longleftrightarrow> a = b"
  by (cases a; cases b) simp_all

definition request_head :: "VtfRequest \<Rightarrow> u8 list" where
  "request_head req =
     [0xC3, 0xD1, of_nat (requesterIndex (rq_requester req)), operation_code (rq_operation req),
      rq_layer req, 0, 0, 0] @ store_be32 (rq_addr req) @ store_be32 (rq_data req)"

definition request_tail :: "VtfRequest \<Rightarrow> u8 list" where
  "request_tail req = store_be32 (rq_sequence req) @ store_be32 (rq_epoch req)
     @ store_be32 (rq_route_nonce req) @ store_be32 0x56544631"

lemma serializeRequest_halves: "serializeRequest req = request_head req @ request_tail req"
  by (simp add: serializeRequest_def request_head_def request_tail_def)

lemma length_request_halves [simp]: "length (request_head req) = 16" "length (request_tail req) = 16"
  by (simp_all add: request_head_def request_tail_def)

lemma cmac_two_blocks_inject:
  assumes "length a = 16" "length a' = 16" "length b = 16"
  shows "aes_cmac_128 k (a @ b) = aes_cmac_128 k (a' @ b) \<longleftrightarrow> a = a'"
    and "aes_cmac_128 k (b @ a) = aes_cmac_128 k (b @ a') \<longleftrightarrow> a = a'"
  using cmac_pair.left_inj[OF assms, of k] cmac_pair.right_inj[OF assms(3,1,2), of k]
  by (auto simp: cmac2_def)

lemma requestTagValid_iff [simp]:
  "requestTagValid v req \<longleftrightarrow>
     rq_tag req = aes_cmac_128 (requestKey v (rq_requester req)) (serializeRequest req)"
  by (auto simp: requestTagValid_def signRequest_def)

section \<open>Key derivation leaves the protocol state alone\<close>

lemma deriveEpochKeys_simps [simp]:
  "vtf_mem (deriveEpochKeys v) = vtf_mem v" "vtf_roles (deriveEpochKeys v) = vtf_roles v"
  "tx_seq (deriveEpochKeys v) = tx_seq v" "rx_seq (deriveEpochKeys v) = rx_seq v"
  "vtf_epoch (deriveEpochKeys v) = vtf_epoch v" "vtf_lockdown (deriveEpochKeys v) = vtf_lockdown v"
  "epoch_keys_enabled (deriveEpochKeys v) = epoch_keys_enabled v"
  "zeroize_on_severe (deriveEpochKeys v) = zeroize_on_severe v"
  by (simp_all add: deriveEpochKeys_def)

lemma deriveDomainKeys_simps [simp]:
  "vtf_mem (deriveDomainKeys v) = vtf_mem v" "vtf_roles (deriveDomainKeys v) = vtf_roles v"
  "tx_seq (deriveDomainKeys v) = tx_seq v" "rx_seq (deriveDomainKeys v) = rx_seq v"
  "vtf_epoch (deriveDomainKeys v) = vtf_epoch v" "vtf_lockdown (deriveDomainKeys v) = vtf_lockdown v"
  "zeroize_on_severe (deriveDomainKeys v) = zeroize_on_severe v"
  by (simp_all add: deriveDomainKeys_def Let_def)

section \<open>Zeroization\<close>

lemma clear_and_deny:
  assumes "isValidLayer m l"
  shows "memory (setLayerAccess (clearLayer m l) l False) x a =
           (if x = l \<and> a < num_words m then 0 else memory m x a)"
    "layer_access (setLayerAccess (clearLayer m l) l False) = (layer_access m)(l := False)"
    "layer_is_encrypted (setLayerAccess (clearLayer m l) l False) = (layer_is_encrypted m)(l := False)"
    "layer_keys (setLayerAccess (clearLayer m l) l False) = layer_keys m"
    "num_layers (setLayerAccess (clearLayer m l) l False) = num_layers m"
    "num_words (setLayerAccess (clearLayer m l) l False) = num_words m"
  using assms by (simp_all add: setLayerAccess_def clearLayer_def isValidLayer_def)

definition key_tier :: "vtf \<Rightarrow> nat \<Rightarrow> bool" where
  "key_tier v l \<longleftrightarrow> l < num_layers (vtf_mem v) \<and> l < 4 \<and> vtf_roles v l = ROLE_KEY_METADATA"

definition zeroized :: "smem \<Rightarrow> nat \<Rightarrow> bool" where
  "zeroized m l \<longleftrightarrow> (\<forall>a < num_words m. memory m l a = 0) \<and> \<not> layer_access m l \<and> \<not> layer_is_encrypted m l"

lemma zeroize_loop:
  assumes "k \<le> num_layers m" "k \<le> 4"
  shows "let t = for_up 0 k (\<lambda>l m. if roles l = ROLE_KEY_METADATA
                     then setLayerAccess (clearLayer m l) l False else m) m in
    num_layers t = num_layers m \<and> num_words t = num_words m \<and> layer_keys t = layer_keys m \<and>
    (\<forall>x. if x < k \<and> roles x = ROLE_KEY_METADATA then zeroized t x \<and> (\<forall>a \<ge> num_words m. memory t x a = memory m x a)
         else memory t x = memory m x \<and> layer_access t x = layer_access m x
              \<and> layer_is_encrypted t x = layer_is_encrypted m x)"
  using assms
proof (induction k)
  case (Suc k)
  define t where "t = for_up 0 k (\<lambda>l m. if roles l = ROLE_KEY_METADATA
                     then setLayerAccess (clearLayer m l) l False else m) m"
  have IH: "num_layers t = num_layers m" "num_words t = num_words m" "layer_keys t = layer_keys m"
    "\<And>x. if x < k \<and> roles x = ROLE_KEY_METADATA then zeroized t x \<and> (\<forall>a \<ge> num_words m. memory t x a = memory m x a)
         else memory t x = memory m x \<and> layer_access t x = layer_access m x
              \<and> layer_is_encrypted t x = layer_is_encrypted m x"
    using Suc by (simp_all add: Let_def t_def)
  have "isValidLayer t k" using Suc.prems IH(1) by (simp add: isValidLayer_def)
  note c = clear_and_deny[OF this]
  let ?u = "if roles k = ROLE_KEY_METADATA then setLayerAccess (clearLayer t k) k False else t"
  have "if x < Suc k \<and> roles x = ROLE_KEY_METADATA then zeroized ?u x \<and> (\<forall>a \<ge> num_words m. memory ?u x a = memory m x a)
      else memory ?u x = memory m x \<and> layer_access ?u x = layer_access m x
           \<and> layer_is_encrypted ?u x = layer_is_encrypted m x" for x
  proof (cases "x = k")
    case True
    then show ?thesis using IH(4)[of k] by (auto simp: zeroized_def c IH(2))
  next
    case False
    have "memory ?u x = memory t x" using False by (auto simp: c fun_eq_iff)
    then show ?thesis using False IH(4)[of x] by (auto simp: zeroized_def c IH(2) less_Suc_eq split: if_splits)
  qed
  moreover have "num_layers ?u = num_layers m" "num_words ?u = num_words m" "layer_keys ?u = layer_keys m"
    by (simp_all add: c IH(1-3))
  moreover have "for_up 0 (Suc k) (\<lambda>l m. if roles l = ROLE_KEY_METADATA
      then setLayerAccess (clearLayer m l) l False else m) m = ?u"
    by (simp add: for_up_Suc t_def)
  ultimately show ?case by (simp only: Let_def) blast
qed (simp add: Let_def)

lemma zeroizeCriticalTier_mem:
  "num_layers (vtf_mem (zeroizeCriticalTier v)) = num_layers (vtf_mem v)"
  "num_words (vtf_mem (zeroizeCriticalTier v)) = num_words (vtf_mem v)"
  "zeroize_on_severe v \<and> key_tier v l \<Longrightarrow> zeroized (vtf_mem (zeroizeCriticalTier v)) l"
  "\<not> (zeroize_on_severe v \<and> key_tier v l) \<Longrightarrow> memory (vtf_mem (zeroizeCriticalTier v)) l = memory (vtf_mem v) l"
  "memory (vtf_mem (zeroizeCriticalTier v)) l a = memory (vtf_mem v) l a \<or>
     memory (vtf_mem (zeroizeCriticalTier v)) l a = 0"
proof -
  let ?k = "min (num_layers (vtf_mem v)) 4"
  define t where "t = for_up 0 ?k (\<lambda>l m. if vtf_roles v l = ROLE_KEY_METADATA
                     then setLayerAccess (clearLayer m l) l False else m) (vtf_mem v)"
  have t: "num_layers t = num_layers (vtf_mem v)" "num_words t = num_words (vtf_mem v)"
    and z: "\<And>x. if x < ?k \<and> vtf_roles v x = ROLE_KEY_METADATA
        then zeroized t x \<and> (\<forall>a \<ge> num_words (vtf_mem v). memory t x a = memory (vtf_mem v) x a)
        else memory t x = memory (vtf_mem v) x \<and> layer_access t x = layer_access (vtf_mem v) x
             \<and> layer_is_encrypted t x = layer_is_encrypted (vtf_mem v) x"
    using zeroize_loop[of ?k "vtf_mem v" "vtf_roles v"] by (simp_all only: t_def Let_def min.cobounded1 min.cobounded2) blast+
  have eq: "vtf_mem (zeroizeCriticalTier v) = (if zeroize_on_severe v then t else vtf_mem v)"
    by (simp add: zeroizeCriticalTier_def getNumLayers_def t_def)
  have k: "key_tier v l \<longleftrightarrow> l < ?k \<and> vtf_roles v l = ROLE_KEY_METADATA" by (simp add: key_tier_def)
  show "num_layers (vtf_mem (zeroizeCriticalTier v)) = num_layers (vtf_mem v)"
    "num_words (vtf_mem (zeroizeCriticalTier v)) = num_words (vtf_mem v)"
    by (simp_all add: eq t)
  show "zeroized (vtf_mem (zeroizeCriticalTier v)) l" if "zeroize_on_severe v \<and> key_tier v l"
    using that z[of l] by (simp add: eq k)
  show "memory (vtf_mem (zeroizeCriticalTier v)) l = memory (vtf_mem v) l"
    if "\<not> (zeroize_on_severe v \<and> key_tier v l)"
    using that z[of l] by (auto simp: eq k)
  show "memory (vtf_mem (zeroizeCriticalTier v)) l a = memory (vtf_mem v) l a \<or>
     memory (vtf_mem (zeroizeCriticalTier v)) l a = 0"
  proof (cases "a < num_words (vtf_mem v)")
    case True
    then show ?thesis using z[of l] t(2) by (auto simp: eq zeroized_def split: if_splits)
  next
    case False
    then show ?thesis using z[of l] by (auto simp: eq split: if_splits)
  qed
qed

lemma zeroizeCriticalTier_simps [simp]:
  "vtf_roles (zeroizeCriticalTier v) = vtf_roles v" "req_key (zeroizeCriticalTier v) = req_key v"
  "rsp_key (zeroizeCriticalTier v) = rsp_key v"
  "epoch_keys_enabled (zeroizeCriticalTier v) = epoch_keys_enabled v"
  "epoch_req_key (zeroizeCriticalTier v) = epoch_req_key v"
  "tx_seq (zeroizeCriticalTier v) = tx_seq v" "rx_seq (zeroizeCriticalTier v) = rx_seq v"
  "vtf_epoch (zeroizeCriticalTier v) = vtf_epoch v" "vtf_lockdown (zeroizeCriticalTier v) = vtf_lockdown v"
  "last_reason (zeroizeCriticalTier v) = last_reason v" "vtf_counters (zeroizeCriticalTier v) = vtf_counters v"
  "zeroize_on_severe (zeroizeCriticalTier v) = zeroize_on_severe v"
  by (simp_all add: zeroizeCriticalTier_def)

lemma trip_severe_simps [simp]:
  "vtf_roles (trip v r True) = vtf_roles v" "rsp_key (trip v r True) = rsp_key v"
  "tx_seq (trip v r True) = tx_seq v" "rx_seq (trip v r True) = rx_seq v"
  "vtf_epoch (trip v r True) = vtf_epoch v" "vtf_lockdown (trip v r True)"
  "last_reason (trip v r True) = r" "zeroize_on_severe (trip v r True) = zeroize_on_severe v"
  "num_layers (vtf_mem (trip v r True)) = num_layers (vtf_mem v)"
  "num_words (vtf_mem (trip v r True)) = num_words (vtf_mem v)"
  by (simp_all add: trip_def zeroizeCriticalTier_mem)

lemma trip_severe_mem:
  "zeroize_on_severe v \<Longrightarrow> key_tier v l \<Longrightarrow> zeroized (vtf_mem (trip v r True)) l"
  "\<not> (zeroize_on_severe v \<and> key_tier v l) \<Longrightarrow> memory (vtf_mem (trip v r True)) l = memory (vtf_mem v) l"
  "memory (vtf_mem (trip v r True)) l a = memory (vtf_mem v) l a \<or> memory (vtf_mem (trip v r True)) l a = 0"
  using zeroizeCriticalTier_mem(3-5)[of "v\<lparr>last_reason := r, vtf_lockdown := True\<rparr>" l]
  by (simp_all add: trip_def key_tier_def)

lemma zeroized_read: "smem_wf m \<Longrightarrow> isValidLayer m l \<Longrightarrow> zeroized m l \<Longrightarrow> a < num_words m \<Longrightarrow>
    mem_read m l a = 0xFFFFFFFF"
  by (simp add: mem_read_def zeroized_def)

section \<open>Validation\<close>

definition request_acceptable :: "vtf \<Rightarrow> VtfRequest \<Rightarrow> bool" where
  "request_acceptable v req \<longleftrightarrow> \<not> vtf_lockdown v
     \<and> rq_requester req \<noteq> COUNT \<and> unat (rq_layer req) < 4 \<and> unat (rq_layer req) < num_layers (vtf_mem v)
     \<and> unat (rq_addr req) < num_words (vtf_mem v) \<and> rq_epoch req = vtf_epoch v
     \<and> rq_tag req = aes_cmac_128 (requestKey v (rq_requester req)) (serializeRequest req)
     \<and> rq_sequence req = rx_seq v (requesterIndex (rq_requester req)) + 1"

lemma policyAllows_rx [simp]: "policyAllows (v\<lparr>rx_seq := f\<rparr>) req = policyAllows v req"
  by (simp add: policyAllows_def)

lemma validate_accept: "fst (validateRequest v req) \<longleftrightarrow> request_acceptable v req \<and> policyAllows v req"
  by (auto simp: validateRequest_def request_acceptable_def Let_def getNumLayers_def getNumWords_def not_le)

lemma validate_state:
  assumes "request_acceptable v req"
  shows "snd (validateRequest v req) =
     (let c = vtf_counters v; w = v\<lparr>rx_seq := (rx_seq v)(requesterIndex (rq_requester req) := rq_sequence req)\<rparr> in
      if policyAllows v req
      then w\<lparr>vtf_counters := c\<lparr>cnt_accepted := cnt_accepted c + 1\<rparr>, last_reason := DENY_NONE\<rparr>
      else w\<lparr>vtf_counters := c\<lparr>cnt_policy_denied := cnt_policy_denied c + 1\<rparr>, last_reason := DENY_POLICY\<rparr>)"
  using assms
  by (simp add: validateRequest_def request_acceptable_def Let_def getNumLayers_def getNumWords_def)

lemma validate_severe:
  assumes "\<not> request_acceptable v req" "\<not> vtf_lockdown v"
  shows "\<exists>c r. snd (validateRequest v req) = trip (v\<lparr>vtf_counters := c\<rparr>) r True
     \<and> r \<in> {DENY_INVALID_FIELD, DENY_EPOCH, DENY_BAD_TAG, DENY_REPLAY}"
  using assms
  by (auto simp: validateRequest_def request_acceptable_def Let_def getNumLayers_def getNumWords_def not_le)

lemma validate_locked:
  "vtf_lockdown v \<Longrightarrow> \<exists>c. snd (validateRequest v req) = v\<lparr>vtf_counters := c, last_reason := DENY_LOCKDOWN\<rparr>"
  by (auto simp: validateRequest_def Let_def)

text \<open>The three kinds of outcome of a validation.\<close>

lemma validate_cases:
  obtains (locked) c where "vtf_lockdown v" "validateRequest v req =
      (False, v\<lparr>vtf_counters := c, last_reason := DENY_LOCKDOWN\<rparr>)"
  | (severe) c r where "\<not> vtf_lockdown v" "\<not> request_acceptable v req"
      "validateRequest v req = (False, trip (v\<lparr>vtf_counters := c\<rparr>) r True)" "r \<noteq> DENY_NONE"
  | (checked) c r where "request_acceptable v req" "validateRequest v req = (policyAllows v req,
      v\<lparr>rx_seq := (rx_seq v)(requesterIndex (rq_requester req) := rq_sequence req),
        vtf_counters := c, last_reason := r\<rparr>)"
proof (cases "request_acceptable v req")
  case True
  show ?thesis
  proof (rule checked[OF True])
    show "validateRequest v req = (policyAllows v req,
      v\<lparr>rx_seq := (rx_seq v)(requesterIndex (rq_requester req) := rq_sequence req),
        vtf_counters := vtf_counters (snd (validateRequest v req)),
        last_reason := last_reason (snd (validateRequest v req))\<rparr>)"
      using validate_accept[of v req] validate_state[OF True] True
      by (cases "validateRequest v req") (auto simp: Let_def)
  qed
next
  case False
  then have f: "\<not> fst (validateRequest v req)" by (simp add: validate_accept)
  show ?thesis
  proof (cases "vtf_lockdown v")
    case True
    then show ?thesis using validate_locked[OF True, of req] f locked
      by (cases "validateRequest v req") auto
  next
    case unlocked: False
    then show ?thesis using validate_severe[OF False unlocked] f severe[OF unlocked False]
      by (cases "validateRequest v req") auto
  qed
qed

section \<open>Execution\<close>

lemma execute_result:
  "fst (execute v req) = fst (validateRequest v req)"
  by (simp add: execute_def Let_def split_def split: VtfOperation.split)

lemma execute_state:
  "snd (snd (execute v req)) =
     (let w = snd (validateRequest v req) in
      if fst (validateRequest v req) \<and> rq_operation req = VTF_WRITE
      then w\<lparr>vtf_mem := mem_write (vtf_mem w) (unat (rq_layer req)) (unat (rq_addr req)) (rq_data req)\<rparr>
      else w)"
  by (simp add: execute_def Let_def split_def split: VtfOperation.split)

lemma execute_response:
  "fst (snd (execute v req)) = signResponse (snd (validateRequest v req))
     \<lparr>rs_requester = rq_requester req, rs_operation = rq_operation req,
      rs_layer = rq_layer req, rs_status = (if fst (validateRequest v req) then 1 else 0),
      rs_addr = rq_addr req,
      rs_data = (if \<not> fst (validateRequest v req) then 0
                 else if rq_operation req = VTF_WRITE then rq_data req
                 else mem_read (vtf_mem (snd (validateRequest v req))) (unat (rq_layer req)) (unat (rq_addr req))),
      rs_sequence = rq_sequence req, rs_epoch = rq_epoch req,
      rs_route_nonce = rq_route_nonce req, rs_tag = Quad 0 0 0 0\<rparr>"
  by (auto simp: execute_def Let_def split_def signResponse_def split: VtfOperation.split)

lemma validate_rsp_key: "rsp_key (snd (validateRequest v req)) = rsp_key v"
  by (cases rule: validate_cases[of v req]) simp_all

lemma execute_rsp_key: "rsp_key (snd (snd (execute v req))) = rsp_key v"
  by (simp add: execute_state validate_rsp_key Let_def)

section \<open>Histories\<close>

datatype vtf_op = Execute VtfRequest | Issue VtfRequester VtfOperation u8 u32 u32
  | AdvanceEpoch | SetTierRole nat VtfTierRole | SetDebugUnlocked bool | SetZeroizeOnSevere bool
  | SetEpochKeys bool | SetMaxTemperature u32 | InstallSentinels | VerifySentinels
  | UpdateTemperature nat u32 | ReportFault nat nat u32 | ResetProtocol | SetRootKey block

fun exec_vtf :: "vtf_op \<Rightarrow> vtf \<Rightarrow> vtf" where
  "exec_vtf (Execute req) v = snd (snd (execute v req))"
| "exec_vtf (Issue r opn l a d) v = snd (issue v r opn l a d)"
| "exec_vtf AdvanceEpoch v = advanceEpoch v"
| "exec_vtf (SetTierRole l r) v = setTierRole v l r"
| "exec_vtf (SetDebugUnlocked b) v = setDebugUnlocked v b"
| "exec_vtf (SetZeroizeOnSevere b) v = setZeroizeOnSevere v b"
| "exec_vtf (SetEpochKeys b) v = setEpochKeyHierarchy v b"
| "exec_vtf (SetMaxTemperature t) v = setMaxTemperatureMilliC v t"
| "exec_vtf InstallSentinels v = snd (installSentinels v)"
| "exec_vtf VerifySentinels v = snd (verifySentinels v)"
| "exec_vtf (UpdateTemperature l t) v = updateTemperatureMilliC v l t"
| "exec_vtf (ReportFault l a m) v = reportPhysicalFault v l a m"
| "exec_vtf ResetProtocol v = resetProtocolStateForSimulation v"
| "exec_vtf (SetRootKey k) v = setRootKeyForSimulation v k"

definition resets_protocol :: "vtf_op \<Rightarrow> bool" where
  "resets_protocol op \<longleftrightarrow> (case op of ResetProtocol \<Rightarrow> True | SetRootKey _ \<Rightarrow> True | _ \<Rightarrow> False)"

lemma installSentinels_simps [simp]:
  "vtf_lockdown (snd (installSentinels v)) = vtf_lockdown v"
  "rx_seq (snd (installSentinels v)) = rx_seq v" "vtf_epoch (snd (installSentinels v)) = vtf_epoch v"
proof -
  let ?body = "\<lambda>w i v. let addr = getNumWords (vtf_mem v) - 1 - i;
                       value = sentinel_word v (sentinel_layer w) addr i
                   in v\<lparr>sentinel_addr := (sentinel_addr v)(i := addr),
                        sentinel_value := (sentinel_value v)(i := value),
                        vtf_mem := mem_write (vtf_mem v) (sentinel_layer w) addr value\<rparr>"
  have "vtf_lockdown (for_up 0 n (?body w) v) = vtf_lockdown v \<and> rx_seq (for_up 0 n (?body w) v) = rx_seq v
      \<and> vtf_epoch (for_up 0 n (?body w) v) = vtf_epoch v" for n w
    by (induction n) (simp_all add: for_up_Suc Let_def)
  then show "vtf_lockdown (snd (installSentinels v)) = vtf_lockdown v"
    "rx_seq (snd (installSentinels v)) = rx_seq v" "vtf_epoch (snd (installSentinels v)) = vtf_epoch v"
    by (simp_all add: installSentinels_def Let_def)
qed

lemma validate_epoch: "vtf_epoch (snd (validateRequest v req)) = vtf_epoch v"
  by (cases rule: validate_cases[of v req]) simp_all

lemma validate_lockdown: "vtf_lockdown v \<Longrightarrow> vtf_lockdown (snd (validateRequest v req))"
  by (cases rule: validate_cases[of v req]) simp_all

lemma exec_lockdown:
  assumes "vtf_lockdown v" "\<not> resets_protocol op" shows "vtf_lockdown (exec_vtf op v)"
  using assms
  by (cases op) (auto simp: execute_state validate_lockdown issue_def advanceEpoch_def zero_sequences_def
    setTierRole_def setDebugUnlocked_def setZeroizeOnSevere_def setEpochKeyHierarchy_def
    setMaxTemperatureMilliC_def verifySentinels_def updateTemperatureMilliC_def reportPhysicalFault_def
    resets_protocol_def Let_def)

lemma fold_lockdown:
  "vtf_lockdown v \<Longrightarrow> \<forall>op\<in>set ops. \<not> resets_protocol op \<Longrightarrow> vtf_lockdown (fold exec_vtf ops v)"
  by (induction ops arbitrary: v) (simp_all add: exec_lockdown)

text \<open>
  How far the receive counter and the epoch can move in one operation: the epoch by an
  \<open>advanceEpoch\<close>, the counter by one accepted request.
\<close>

lemma exec_progress:
  assumes "\<not> resets_protocol op" "i < 5"
  shows "(vtf_epoch (exec_vtf op v) = vtf_epoch v + 1) \<or>
    vtf_epoch (exec_vtf op v) = vtf_epoch v \<and> rx_seq (exec_vtf op v) i \<in> {rx_seq v i, rx_seq v i + 1}"
proof (cases op)
  case (Execute req)
  then show ?thesis
    by (cases rule: validate_cases[of v req])
       (auto simp: execute_state Let_def request_acceptable_def)
qed (use assms in \<open>auto simp: issue_def advanceEpoch_def zero_sequences_def
    setTierRole_def setDebugUnlocked_def setZeroizeOnSevere_def setEpochKeyHierarchy_def
    setMaxTemperatureMilliC_def verifySentinels_def updateTemperatureMilliC_def reportPhysicalFault_def
    resets_protocol_def Let_def\<close>)

lemma fold_progress:
  assumes "\<forall>op\<in>set ops. \<not> resets_protocol op" "i < 5"
  shows "\<exists>k j. k + j \<le> length ops \<and> vtf_epoch (fold exec_vtf ops v) = vtf_epoch v + of_nat k
     \<and> (k = 0 \<longrightarrow> rx_seq (fold exec_vtf ops v) i = rx_seq v i + of_nat j)"
  using assms(1)
proof (induction ops arbitrary: v)
  case Nil
  then show ?case by auto
next
  case (Cons op ops)
  obtain k j where kj: "k + j \<le> length ops"
    "vtf_epoch (fold exec_vtf ops (exec_vtf op v)) = vtf_epoch (exec_vtf op v) + of_nat k"
    "k = 0 \<Longrightarrow> rx_seq (fold exec_vtf ops (exec_vtf op v)) i = rx_seq (exec_vtf op v) i + of_nat j"
    using Cons.IH[of "exec_vtf op v"] Cons.prems by auto
  have "\<not> resets_protocol op" using Cons.prems by simp
  then consider "vtf_epoch (exec_vtf op v) = vtf_epoch v + 1"
    | "vtf_epoch (exec_vtf op v) = vtf_epoch v" "rx_seq (exec_vtf op v) i = rx_seq v i"
    | "vtf_epoch (exec_vtf op v) = vtf_epoch v" "rx_seq (exec_vtf op v) i = rx_seq v i + 1"
    using exec_progress[OF _ assms(2), of op v] by auto
  then show ?case
  proof cases
    case 1
    then show ?thesis using kj by (intro exI[of _ "Suc k"] exI[of _ j]) simp
  next
    case 2
    then show ?thesis using kj by (intro exI[of _ k] exI[of _ j]) simp
  next
    case 3
    then show ?thesis using kj by (intro exI[of _ k] exI[of _ "Suc j"]) simp
  qed
qed

lemma of_nat_eq_0_small: "n < 2 ^ 32 \<Longrightarrow> (of_nat n :: u32) = 0 \<longleftrightarrow> n = 0"
  by (simp add: word_of_nat_eq_0_iff) (metis dvd_imp_le not_le gr0I dvd_0_right)

section \<open>Issuing\<close>

lemma issue_request:
  assumes "r \<noteq> COUNT"
  shows "snd (issue v r opn l a d) = v\<lparr>tx_seq := (tx_seq v)(requesterIndex r := tx_seq v (requesterIndex r) + 1)\<rparr>"
    "rq_requester (fst (issue v r opn l a d)) = r" "rq_operation (fst (issue v r opn l a d)) = opn"
    "rq_layer (fst (issue v r opn l a d)) = l" "rq_addr (fst (issue v r opn l a d)) = a"
    "rq_data (fst (issue v r opn l a d)) = d"
    "rq_sequence (fst (issue v r opn l a d)) = tx_seq v (requesterIndex r) + 1"
    "rq_epoch (fst (issue v r opn l a d)) = vtf_epoch v"
    "rq_tag (fst (issue v r opn l a d)) =
       aes_cmac_128 (requestKey v r) (serializeRequest (fst (issue v r opn l a d)))"
  using requesterIndex_less[OF assms]
  by (simp_all add: issue_def Let_def signRequest_def serializeRequest_def requestKey_def)

lemma policyAllows_cong:
  "vtf_roles v = vtf_roles w \<Longrightarrow> debug_unlocked v = debug_unlocked w \<Longrightarrow> policyAllows v req = policyAllows w req"
  by (simp add: policyAllows_def)

definition in_sync :: "vtf \<Rightarrow> VtfRequester \<Rightarrow> bool" where
  "in_sync v r \<longleftrightarrow> \<not> vtf_lockdown v \<and> tx_seq v (requesterIndex r) = rx_seq v (requesterIndex r)"

lemma issue_acceptable:
  assumes "r \<noteq> COUNT" "in_sync v r" "unat l < 4" "unat l < num_layers (vtf_mem v)"
    and "unat a < num_words (vtf_mem v)"
  shows "request_acceptable (snd (issue v r opn l a d)) (fst (issue v r opn l a d))"
proof -
  have "requestKey (v\<lparr>tx_seq := f\<rparr>) r = requestKey v r" for f by (simp add: requestKey_def Let_def)
  then show ?thesis using assms by (simp add: request_acceptable_def issue_request in_sync_def)
qed

definition demo_fabric :: vtf where
  "demo_fabric = VerticalTrustFabric (StackedMemory3D 4 64)"

lemma demo_fabric_simps [simp]:
  "num_layers (vtf_mem demo_fabric) = 4" "num_words (vtf_mem demo_fabric) = 64"
  "\<not> vtf_lockdown demo_fabric" "tx_seq demo_fabric = (\<lambda>_. 0)" "rx_seq demo_fabric = (\<lambda>_. 0)"
  "vtf_roles demo_fabric (Suc 0) = ROLE_DATA" "vtf_roles demo_fabric 1 = ROLE_DATA" "vtf_roles demo_fabric 2 = ROLE_KEY_METADATA"
  "vtf_roles demo_fabric 0 = ROLE_INSTRUCTION" "vtf_roles demo_fabric 3 = ROLE_SENTINEL"
  "zeroize_on_severe demo_fabric" "vtf_epoch demo_fabric = 1"
  "layer_access (vtf_mem demo_fabric) = (\<lambda>l. l < 4)" "layer_is_encrypted (vtf_mem demo_fabric) = (\<lambda>_. False)"
  "smem_wf (vtf_mem demo_fabric)"
proof -
  have [simp]: "vtf_epoch (deriveDomainKeys v) = vtf_epoch v" for v by simp
  show "smem_wf (vtf_mem demo_fabric)" by (simp add: demo_fabric_def VerticalTrustFabric_def wf_StackedMemory3D)
qed (simp_all add: demo_fabric_def VerticalTrustFabric_def StackedMemory3D_def initLayerKeys_def Let_def)

lemma demo_accept:
  "fst (execute (snd (issue demo_fabric CPU_DATA VTF_WRITE 1 5 42)) (fst (issue demo_fabric CPU_DATA VTF_WRITE 1 5 42)))"
proof -
  have "request_acceptable (snd (issue demo_fabric CPU_DATA VTF_WRITE 1 5 42)) (fst (issue demo_fabric CPU_DATA VTF_WRITE 1 5 42))"
    by (rule issue_acceptable) (simp_all add: in_sync_def)
  then show ?thesis by (simp add: execute_result validate_accept) (simp add: policyAllows_def issue_request)
qed

section \<open>Properties\<close>

text \<open>
  C24: \<open>execute\<close> grants a request exactly when the fabric is not locked down, the requester,
  layer and address are in range, the epoch is the current one, the tag is the AES-CMAC of the
  serialized request under the requester's key, the sequence number is the next one expected, and the
  policy allows it. A granted write changes the memory by exactly the write of the addressed word
  and a granted read returns the word.
\<close>

theorem vtf_execute_granted:
  "(fst (execute v req) \<longleftrightarrow> \<not> vtf_lockdown v \<and> rq_requester req \<noteq> COUNT
     \<and> unat (rq_layer req) < 4 \<and> unat (rq_layer req) < num_layers (vtf_mem v)
     \<and> unat (rq_addr req) < num_words (vtf_mem v) \<and> rq_epoch req = vtf_epoch v
     \<and> rq_tag req = aes_cmac_128 (requestKey v (rq_requester req)) (serializeRequest req)
     \<and> rq_sequence req = rx_seq v (requesterIndex (rq_requester req)) + 1 \<and> policyAllows v req) \<and>
   (fst (execute v req) \<longrightarrow>
     (if rq_operation req = VTF_WRITE
      then vtf_mem (snd (snd (execute v req))) = mem_write (vtf_mem v) (unat (rq_layer req)) (unat (rq_addr req)) (rq_data req)
      else vtf_mem (snd (snd (execute v req))) = vtf_mem v \<and>
           rs_data (fst (snd (execute v req))) = mem_read (vtf_mem v) (unat (rq_layer req)) (unat (rq_addr req))))"
proof (rule conjI)
  have "vtf_mem (snd (validateRequest v req)) = vtf_mem v" if "fst (validateRequest v req)"
    by (cases rule: validate_cases[of v req]) (use that in simp_all)
  then show "fst (execute v req) \<longrightarrow>
     (if rq_operation req = VTF_WRITE
      then vtf_mem (snd (snd (execute v req))) = mem_write (vtf_mem v) (unat (rq_layer req)) (unat (rq_addr req)) (rq_data req)
      else vtf_mem (snd (snd (execute v req))) = vtf_mem v \<and>
           rs_data (fst (snd (execute v req))) = mem_read (vtf_mem v) (unat (rq_layer req)) (unat (rq_addr req)))"
    by (simp add: execute_result execute_state execute_response signResponse_def Let_def)
qed (auto simp: execute_result validate_accept request_acceptable_def)

theorem vtf_execute_granted_witness:
  "vtf_mem (snd (snd (execute (snd (issue demo_fabric CPU_DATA VTF_WRITE 1 5 42))
     (fst (issue demo_fabric CPU_DATA VTF_WRITE 1 5 42))))) = mem_write (vtf_mem demo_fabric) 1 5 42"
  using vtf_execute_granted[of "snd (issue demo_fabric CPU_DATA VTF_WRITE 1 5 42)"
      "fst (issue demo_fabric CPU_DATA VTF_WRITE 1 5 42)"] demo_accept
  by (simp add: issue_request)

text \<open>
  C25: A request that was granted once is never granted again: not after any sequence of fewer than
  $2^{32} - 1$ further operations (requests, epoch changes, policy and key changes, sentinel and
  fault handling) that contains no protocol reset.
\<close>

theorem vtf_replay_rejected:
  assumes "fst (execute v req)" and "\<forall>op\<in>set ops. \<not> resets_protocol op" and "length ops + 1 < 2 ^ 32"
  shows "\<not> fst (execute (fold exec_vtf ops (snd (snd (execute v req)))) req)"
proof
  let ?v = "snd (snd (execute v req))" and ?i = "requesterIndex (rq_requester req)"
  let ?w = "fold exec_vtf ops ?v"
  assume again: "fst (execute ?w req)"
  have acc: "request_acceptable v req" "policyAllows v req"
    using assms(1) by (simp_all add: execute_result validate_accept)
  have v: "vtf_epoch ?v = vtf_epoch v" "rx_seq ?v ?i = rq_sequence req"
    using acc by (simp_all add: execute_state validate_accept validate_state Let_def)
  have i: "?i < 5" using acc(1) by (simp add: request_acceptable_def requesterIndex_less)
  obtain k j where kj: "k + j \<le> length ops" "vtf_epoch ?w = vtf_epoch ?v + of_nat k"
    "k = 0 \<Longrightarrow> rx_seq ?w ?i = rx_seq ?v ?i + of_nat j"
    using fold_progress[OF assms(2) i, of ?v] by blast
  have r: "request_acceptable ?w req" using again by (simp add: execute_result validate_accept)
  have "(of_nat k :: u32) = 0" using r acc(1) kj(2) v(1) by (simp add: request_acceptable_def)
  then have "k = 0" using of_nat_eq_0_small[of k] kj(1) assms(3) by simp
  then have "rq_sequence req = rq_sequence req + of_nat (Suc j)"
    using r kj(3) v(2) by (simp add: request_acceptable_def ac_simps)
  then have "(of_nat (Suc j) :: u32) = 0" by (metis add_cancel_right_right)
  then show False using of_nat_eq_0_small[of "Suc j"] kj(1) assms(3) by simp
qed

theorem vtf_replay_rejected_witness:
  "\<not> fst (execute (fold exec_vtf [AdvanceEpoch, SetEpochKeys True, VerifySentinels]
       (snd (snd (execute (snd (issue demo_fabric CPU_DATA VTF_WRITE 1 5 42))
                    (fst (issue demo_fabric CPU_DATA VTF_WRITE 1 5 42))))))
     (fst (issue demo_fabric CPU_DATA VTF_WRITE 1 5 42)))"
  by (rule vtf_replay_rejected[OF demo_accept]) (simp_all add: resets_protocol_def)

text \<open>
  C26: Lockdown is permanent until a protocol reset, whatever else happens, and while it lasts every
  request is denied with status 0 and data 0 and leaves the memory untouched.
\<close>

theorem vtf_lockdown_permanent:
  assumes "vtf_lockdown v" and "\<forall>op\<in>set ops. \<not> resets_protocol op"
  shows "let w = fold exec_vtf ops v; (ok, rsp, w') = execute w req in
     vtf_lockdown w \<and> \<not> ok \<and> rs_status rsp = 0 \<and> rs_data rsp = 0 \<and> vtf_mem w' = vtf_mem w"
proof -
  let ?w = "fold exec_vtf ops v"
  have l: "vtf_lockdown ?w" by (rule fold_lockdown[OF assms])
  have "\<not> fst (validateRequest ?w req)" using l by (simp add: validate_accept request_acceptable_def)
  then show ?thesis using l validate_locked[OF l, of req] execute_result[of ?w req]
      execute_response[of ?w req] execute_state[of ?w req]
    by (auto simp: Let_def split_def signResponse_def)
qed

theorem vtf_lockdown_permanent_witness:
  "vtf_lockdown (fold exec_vtf [AdvanceEpoch, InstallSentinels, SetTierRole 2 ROLE_DATA]
     (reportPhysicalFault demo_fabric 0 0 1))"
proof -
  have "vtf_lockdown (reportPhysicalFault demo_fabric 0 0 1)" by (simp add: reportPhysicalFault_def Let_def)
  then show ?thesis
    using vtf_lockdown_permanent[of "reportPhysicalFault demo_fabric 0 0 1"
        "[AdvanceEpoch, InstallSentinels, SetTierRole 2 ROLE_DATA]"]
    by (simp add: resets_protocol_def Let_def split_def)
qed

text \<open>The reason of a severe denial is the first check that fails, in the order of the code.\<close>

lemma validate_severe_reason:
  assumes "\<not> request_acceptable v req" "\<not> vtf_lockdown v"
  shows "\<exists>c. snd (validateRequest v req) = trip (v\<lparr>vtf_counters := c\<rparr>)
    (if rq_requester req = COUNT \<or> 4 \<le> unat (rq_layer req) \<or> num_layers (vtf_mem v) \<le> unat (rq_layer req)
        \<or> num_words (vtf_mem v) \<le> unat (rq_addr req) then DENY_INVALID_FIELD
     else if rq_epoch req \<noteq> vtf_epoch v then DENY_EPOCH
     else if rq_tag req \<noteq> aes_cmac_128 (requestKey v (rq_requester req)) (serializeRequest req) then DENY_BAD_TAG
     else DENY_REPLAY) True"
  using assms
  by (auto simp: validateRequest_def request_acceptable_def Let_def getNumLayers_def getNumWords_def not_le)

text \<open>
  C27: The fabric fails closed, and it authenticates before it consults the policy. A denied request
  on a fabric that was not locked down is refused softly exactly if its fields are in range, its
  epoch is current, its tag is the CMAC of its fields under the key of its requester and its sequence
  number is the next one: then the policy refuses it, the memory is unchanged, the fabric stays open
  and the sequence number is used up. Every other denial is severe: it locks the fabric down, with
  zeroization on it leaves every key tier cleared and inaccessible, and the reason is the first check
  that fails.
\<close>

theorem vtf_fails_closed:
  assumes "\<not> vtf_lockdown v" "\<not> fst (execute v req)"
  shows "let w = snd (snd (execute v req)); idx = requesterIndex (rq_requester req);
       malformed = (rq_requester req = COUNT \<or> 4 \<le> unat (rq_layer req)
         \<or> num_layers (vtf_mem v) \<le> unat (rq_layer req) \<or> num_words (vtf_mem v) \<le> unat (rq_addr req));
       stale = (rq_epoch req \<noteq> vtf_epoch v);
       forged = (rq_tag req \<noteq> aes_cmac_128 (requestKey v (rq_requester req)) (serializeRequest req));
       replayed = (rq_sequence req \<noteq> rx_seq v idx + 1)
     in if malformed \<or> stale \<or> forged \<or> replayed
        then vtf_lockdown w \<and> (zeroize_on_severe v \<longrightarrow> (\<forall>l. key_tier v l \<longrightarrow> zeroized (vtf_mem w) l)) \<and>
          last_reason w = (if malformed then DENY_INVALID_FIELD else if stale then DENY_EPOCH
             else if forged then DENY_BAD_TAG else DENY_REPLAY)
        else \<not> policyAllows v req \<and> \<not> vtf_lockdown w \<and> vtf_mem w = vtf_mem v \<and> last_reason w = DENY_POLICY \<and>
          rx_seq w = (rx_seq v)(idx := rq_sequence req)"
proof -
  have st: "snd (snd (execute v req)) = snd (validateRequest v req)" and f: "\<not> fst (validateRequest v req)"
    using assms(2) by (simp_all add: execute_result execute_state Let_def)
  show ?thesis
  proof (cases "request_acceptable v req")
    case True
    moreover from this have "\<not> policyAllows v req" using f by (simp add: validate_accept)
    ultimately show ?thesis using assms(1)
      by (simp add: st validate_state[OF True] Let_def) (simp add: request_acceptable_def)
  next
    case False
    then obtain c where c: "snd (validateRequest v req) = trip (v\<lparr>vtf_counters := c\<rparr>)
        (if rq_requester req = COUNT \<or> 4 \<le> unat (rq_layer req) \<or> num_layers (vtf_mem v) \<le> unat (rq_layer req)
            \<or> num_words (vtf_mem v) \<le> unat (rq_addr req) then DENY_INVALID_FIELD
         else if rq_epoch req \<noteq> vtf_epoch v then DENY_EPOCH
         else if rq_tag req \<noteq> aes_cmac_128 (requestKey v (rq_requester req)) (serializeRequest req) then DENY_BAD_TAG
         else DENY_REPLAY) True" (is "_ = trip ?v ?r True")
      using validate_severe_reason[OF False assms(1)] by blast
    have "vtf_lockdown (trip ?v ?r True)" "last_reason (trip ?v ?r True) = ?r"
      "zeroize_on_severe v \<longrightarrow> (\<forall>l. key_tier v l \<longrightarrow> zeroized (vtf_mem (trip ?v ?r True)) l)"
      using trip_severe_mem(1)[of ?v _ ?r] by (simp_all add: key_tier_def)
    moreover have "rq_requester req = COUNT \<or> 4 \<le> unat (rq_layer req) \<or> num_layers (vtf_mem v) \<le> unat (rq_layer req)
            \<or> num_words (vtf_mem v) \<le> unat (rq_addr req) \<or> rq_epoch req \<noteq> vtf_epoch v
            \<or> rq_tag req \<noteq> aes_cmac_128 (requestKey v (rq_requester req)) (serializeRequest req)
            \<or> rq_sequence req \<noteq> rx_seq v (requesterIndex (rq_requester req)) + 1"
      using False assms(1) by (auto simp: request_acceptable_def not_le)
    ultimately show ?thesis unfolding Let_def st c by (simp only: disj_assoc simp_thms if_True)
  qed
qed

theorem vtf_fails_closed_witness:
  "zeroized (vtf_mem (snd (snd (execute demo_fabric ((fst (issue demo_fabric CPU_DATA VTF_WRITE 1 5 42))\<lparr>rq_epoch := 9\<rparr>))))) 2"
proof -
  let ?req = "(fst (issue demo_fabric CPU_DATA VTF_WRITE 1 5 42))\<lparr>rq_epoch := 9\<rparr>"
  have "\<not> fst (execute demo_fabric ?req)"
    by (simp add: execute_result validate_accept request_acceptable_def)
  moreover have "key_tier demo_fabric 2" by (simp add: key_tier_def)
  ultimately show ?thesis using vtf_fails_closed[of demo_fabric ?req] by (auto simp: Let_def split: if_splits)
qed

lemma mem_write_other:
  "x \<noteq> l \<Longrightarrow> memory (mem_write s l a v) x = memory s x"
  by (simp add: mem_write_def Let_def)

text \<open>
  C28: The key tier is isolated. A request of any requester but \<open>SECURITY\<close> to a tier whose role is
  key metadata is denied and its response carries no data; and no request of such a requester, to
  whatever tier, changes a word of a key tier except by clearing it.
\<close>

theorem vtf_key_tier_isolated:
  assumes "rq_requester req \<noteq> SECURITY" and "vtf_roles v l = ROLE_KEY_METADATA"
  shows "(unat (rq_layer req) = l \<longrightarrow> \<not> fst (execute v req) \<and> rs_data (fst (snd (execute v req))) = 0) \<and>
     memory (vtf_mem (snd (snd (execute v req)))) l a \<in> {memory (vtf_mem v) l a, 0}"
proof -
  have no: "\<not> policyAllows v req" if "unat (rq_layer req) = l"
    using assms that by (auto simp: policyAllows_def Let_def split: VtfRequester.splits)
  have "memory (vtf_mem (snd (snd (execute v req)))) l a \<in> {memory (vtf_mem v) l a, 0}"
  proof (cases rule: validate_cases[of v req])
    case (severe c r)
    then show ?thesis using trip_severe_mem(3)[of "v\<lparr>vtf_counters := c\<rparr>" r l a]
      by (simp add: execute_state Let_def)
  next
    case (checked c r)
    then show ?thesis using no
      by (cases "unat (rq_layer req) = l") (auto simp: execute_state Let_def mem_write_other)
  qed (simp add: execute_state Let_def)
  then show ?thesis using no
    by (auto simp: execute_result validate_accept execute_response signResponse_def)
qed

theorem vtf_key_tier_isolated_witness:
  "\<not> fst (execute demo_fabric (fst (issue demo_fabric DMA VTF_READ 2 5 0)))"
  using vtf_key_tier_isolated[of "fst (issue demo_fabric DMA VTF_READ 2 5 0)" demo_fabric 2 0]
  by (simp add: issue_request)

lemma execute_acceptable:
  assumes "request_acceptable v req"
  shows "tx_seq (snd (snd (execute v req))) = tx_seq v"
    "rx_seq (snd (snd (execute v req))) = (rx_seq v)(requesterIndex (rq_requester req) := rq_sequence req)"
    "vtf_lockdown (snd (snd (execute v req))) = vtf_lockdown v"
    "vtf_mem (snd (snd (execute v req))) = (if policyAllows v req \<and> rq_operation req = VTF_WRITE
       then mem_write (vtf_mem v) (unat (rq_layer req)) (unat (rq_addr req)) (rq_data req) else vtf_mem v)"
  using assms by (simp_all add: execute_state validate_accept validate_state Let_def)

text \<open>
  C29: A requester in sync with the fabric that issues a well-addressed request gets it granted
  exactly if the policy allows it, stays in sync either way, and can verify the response against the
  request; after a granted write to an accessible layer a reader sees the value, on a plain and on
  an encrypted layer.
\<close>

theorem vtf_issue_execute:
  assumes "r \<noteq> COUNT" "in_sync v r" "unat l < 4" "unat l < num_layers (vtf_mem v)"
    and "unat a < num_words (vtf_mem v)"
  shows "let (req, v1) = issue v r opn l a d; (ok, rsp, v2) = execute v1 req in
     ok = policyAllows v req \<and> in_sync v2 r \<and> verifyResponseForRequest v2 req rsp \<and>
     (ok \<and> opn = VTF_WRITE \<and> smem_wf (vtf_mem v) \<and> layer_access (vtf_mem v) (unat l) \<longrightarrow>
        mem_read (vtf_mem v2) (unat l) (unat a) = d)"
proof -
  let ?req = "fst (issue v r opn l a d)" and ?v1 = "snd (issue v r opn l a d)"
  let ?v2 = "snd (snd (execute ?v1 ?req))"
  note i = issue_request[OF assms(1)]
  have acc: "request_acceptable ?v1 ?req" by (rule issue_acceptable[OF assms])
  have pol: "policyAllows ?v1 ?req = policyAllows v ?req" by (rule policyAllows_cong) (simp_all add: i)
  have ok: "fst (execute ?v1 ?req) = policyAllows v ?req"
    using acc pol by (simp add: execute_result validate_accept)
  have sync: "in_sync ?v2 r"
    using assms(2) unfolding in_sync_def execute_acceptable[OF acc] by (simp add: i)
  have rsp: "verifyResponseForRequest ?v2 ?req (fst (snd (execute ?v1 ?req)))"
    by (simp add: verifyResponseForRequest_def verifyResponse_def execute_response signResponse_def
        serializeResponse_def execute_rsp_key validate_rsp_key)
  have mem: "mem_read (vtf_mem ?v2) (unat l) (unat a) = d"
    if "policyAllows v ?req" "opn = VTF_WRITE" "smem_wf (vtf_mem v)" "layer_access (vtf_mem v) (unat l)"
  proof -
    have "accessible (vtf_mem v) (unat l)" using that assms(3,4) by (simp add: accessible_def isValidLayer_def)
    moreover have "vtf_mem ?v2 = mem_write (vtf_mem v) (unat l) (unat a) d"
      using that pol unfolding execute_acceptable[OF acc] by (simp add: i)
    ultimately show ?thesis using that assms(5) by (simp add: mem_read_write)
  qed
  show ?thesis unfolding Let_def split_def using ok sync rsp mem by blast
qed

theorem vtf_issue_execute_witness:
  "let (req, v1) = issue demo_fabric CPU_DATA VTF_WRITE 1 5 42; (ok, rsp, v2) = execute v1 req in
     ok \<and> mem_read (vtf_mem v2) 1 5 = 42"
  using vtf_issue_execute[of CPU_DATA demo_fabric 1 5 VTF_WRITE 42]
  by (simp add: in_sync_def Let_def split_def) (simp add: policyAllows_def issue_request)

text \<open>
  C30: The tag binds the fields it covers, without any assumption on AES. If a request carries a
  valid tag, then changing its operation, layer, address or data, or else changing its sequence
  number, epoch or route nonce, and keeping the tag and requester makes it be denied, and on an open
  fabric locks the fabric down.
\<close>

theorem vtf_tag_binds_fields:
  assumes "requestTagValid v req" "rq_tag req' = rq_tag req" "rq_requester req' = rq_requester req"
    and "(rq_operation req', rq_layer req', rq_addr req', rq_data req') \<noteq>
            (rq_operation req, rq_layer req, rq_addr req, rq_data req) \<and>
           (rq_sequence req', rq_epoch req', rq_route_nonce req') =
            (rq_sequence req, rq_epoch req, rq_route_nonce req) \<or>
         (rq_operation req', rq_layer req', rq_addr req', rq_data req') =
            (rq_operation req, rq_layer req, rq_addr req, rq_data req) \<and>
           (rq_sequence req', rq_epoch req', rq_route_nonce req') \<noteq>
            (rq_sequence req, rq_epoch req, rq_route_nonce req)"
  shows "\<not> requestTagValid v req' \<and> \<not> fst (execute v req') \<and> vtf_lockdown (snd (snd (execute v req')))"
proof -
  let ?k = "requestKey v (rq_requester req)"
  have head: "request_head req' = request_head req \<longleftrightarrow>
      (rq_operation req', rq_layer req', rq_addr req', rq_data req') =
      (rq_operation req, rq_layer req, rq_addr req, rq_data req)"
    using assms(3) by (auto simp: request_head_def store_be32_append_inject)
  have tail: "request_tail req' = request_tail req \<longleftrightarrow>
      (rq_sequence req', rq_epoch req', rq_route_nonce req') =
      (rq_sequence req, rq_epoch req, rq_route_nonce req)"
    by (auto simp: request_tail_def store_be32_append_inject)
  have "request_head req' \<noteq> request_head req \<and> request_tail req' = request_tail req \<or>
      request_head req' = request_head req \<and> request_tail req' \<noteq> request_tail req"
    unfolding head tail by (rule assms(4))
  then have "aes_cmac_128 ?k (serializeRequest req') \<noteq> aes_cmac_128 ?k (serializeRequest req)"
    using cmac_two_blocks_inject(1)[of "request_head req'" "request_head req" "request_tail req" ?k]
      cmac_two_blocks_inject(2)[of "request_tail req'" "request_tail req" "request_head req" ?k]
    by (auto simp: serializeRequest_halves)
  then have bad: "\<not> requestTagValid v req'" using assms(1,2,3) by auto
  then have na: "\<not> request_acceptable v req'" by (simp add: request_acceptable_def)
  have "vtf_lockdown (snd (validateRequest v req'))"
    by (cases rule: validate_cases[of v req']) (use na in simp_all)
  then show ?thesis using bad na
    by (simp add: execute_result execute_state validate_accept Let_def)
qed

theorem vtf_tag_binds_fields_witness:
  "vtf_lockdown (snd (snd (execute demo_fabric ((fst (issue demo_fabric CPU_DATA VTF_WRITE 1 5 42))\<lparr>rq_data := 43\<rparr>))))"
  using vtf_tag_binds_fields[of demo_fabric "fst (issue demo_fabric CPU_DATA VTF_WRITE 1 5 42)"
      "(fst (issue demo_fabric CPU_DATA VTF_WRITE 1 5 42))\<lparr>rq_data := 43\<rparr>"]
  by (simp add: issue_request)

section \<open>Sentinels\<close>

lemma sentinel_layer_cong:
  "vtf_roles v = vtf_roles w \<Longrightarrow> num_layers (vtf_mem v) = num_layers (vtf_mem w) \<Longrightarrow>
     sentinel_layer v = sentinel_layer w"
  by (simp add: sentinel_layer_def getNumLayers_def)

lemma install_loop:
  fixes v :: vtf and L :: nat
  defines "body \<equiv> \<lambda>i v. let addr = getNumWords (vtf_mem v) - 1 - i;
                       value = sentinel_word v L addr i
                   in v\<lparr>sentinel_addr := (sentinel_addr v)(i := addr),
                        sentinel_value := (sentinel_value v)(i := value),
                        vtf_mem := mem_write (vtf_mem v) L addr value\<rparr>"
  assumes wf: "smem_wf (vtf_mem v)" "accessible (vtf_mem v) L" "\<not> layer_is_encrypted (vtf_mem v) L"
    and k: "k \<le> num_words (vtf_mem v)"
  shows "let w = for_up 0 k body v in
     num_words (vtf_mem w) = num_words (vtf_mem v) \<and> num_layers (vtf_mem w) = num_layers (vtf_mem v) \<and>
     vtf_roles w = vtf_roles v \<and> accessible (vtf_mem w) L \<and> \<not> layer_is_encrypted (vtf_mem w) L \<and>
     (\<forall>i<k. sentinel_addr w i = num_words (vtf_mem v) - 1 - i \<and>
            memory (vtf_mem w) L (num_words (vtf_mem v) - 1 - i) = sentinel_value w i)"
  using k
proof (induction k)
  case 0
  then show ?case using wf by (simp add: Let_def)
next
  case (Suc k)
  let ?w = "for_up 0 k body v" and ?n = "num_words (vtf_mem v)"
  have IH: "num_words (vtf_mem ?w) = ?n" "num_layers (vtf_mem ?w) = num_layers (vtf_mem v)"
    "vtf_roles ?w = vtf_roles v" "accessible (vtf_mem ?w) L" "\<not> layer_is_encrypted (vtf_mem ?w) L"
    "\<And>i. i < k \<Longrightarrow> sentinel_addr ?w i = ?n - 1 - i \<and>
        memory (vtf_mem ?w) L (?n - 1 - i) = sentinel_value ?w i"
    using Suc by (simp_all add: Let_def)
  let ?a = "?n - 1 - k" and ?x = "sentinel_word ?w L (?n - 1 - k) k"
  have step: "for_up 0 (Suc k) body v = ?w\<lparr>sentinel_addr := (sentinel_addr ?w)(k := ?a),
      sentinel_value := (sentinel_value ?w)(k := ?x), vtf_mem := mem_write (vtf_mem ?w) L ?a ?x\<rparr>"
  proof -
    have "body k u = u\<lparr>sentinel_addr := (sentinel_addr u)(k := ?a),
        sentinel_value := (sentinel_value u)(k := sentinel_word u L ?a k),
        vtf_mem := mem_write (vtf_mem u) L ?a (sentinel_word u L ?a k)\<rparr>" if "num_words (vtf_mem u) = ?n" for u
      using that by (simp add: body_def Let_def getNumWords_def)
    from this[OF IH(1)] show ?thesis by (simp only: for_up_Suc le0)
  qed
  have "memory (mem_write (vtf_mem ?w) L ?a ?x) L b = (if b = ?a then ?x else memory (vtf_mem ?w) L b)" for b
  proof -
    have "?a < ?n" using Suc.prems by linarith
    then show ?thesis using IH(1,4,5) by (simp add: mem_write_def accessible_def)
  qed
  moreover have "accessible (mem_write (vtf_mem ?w) L ?a ?x) L"
    "\<not> layer_is_encrypted (mem_write (vtf_mem ?w) L ?a ?x) L"
    using IH(4,5) by (simp_all add: accessible_def)
  ultimately show ?case using IH Suc.prems by (auto simp: step Let_def less_Suc_eq)
qed

text \<open>
  On a plain, accessible sentinel tier of at least eight words the sentinels install and then
  verify, which changes nothing. If any sentinel word is changed afterwards, the next
  verification fails and locks the fabric down.
\<close>

theorem vtf_sentinels:
  assumes "smem_wf (vtf_mem v)" "8 \<le> num_words (vtf_mem v)"
    and "accessible (vtf_mem v) (sentinel_layer v)" "\<not> layer_is_encrypted (vtf_mem v) (sentinel_layer v)"
  shows "fst (installSentinels v) \<and> (let w = snd (installSentinels v) in
     verifySentinels w = (True, w) \<and>
     (\<forall>m i. i < 8 \<and> num_layers m = num_layers (vtf_mem w) \<and>
        rawRead m (sentinel_layer v) (sentinel_addr w i) \<noteq> rawRead (vtf_mem w) (sentinel_layer v) (sentinel_addr w i) \<longrightarrow>
        (let r = verifySentinels (w\<lparr>vtf_mem := m\<rparr>) in \<not> fst r \<and> vtf_lockdown (snd r))))"
proof -
  let ?L = "sentinel_layer v"
  have L: "?L < num_layers (vtf_mem v)" using assms(3) by (simp add: accessible_def isValidLayer_def)
  define body where "body = (\<lambda>i v. let addr = getNumWords (vtf_mem v) - 1 - i;
                       value = sentinel_word v ?L addr i
                   in v\<lparr>sentinel_addr := (sentinel_addr v)(i := addr),
                        sentinel_value := (sentinel_value v)(i := value),
                        vtf_mem := mem_write (vtf_mem v) ?L addr value\<rparr>)"
  define w where "w = for_up 0 8 body v"
  have w: "num_words (vtf_mem w) = num_words (vtf_mem v)" "num_layers (vtf_mem w) = num_layers (vtf_mem v)"
     "vtf_roles w = vtf_roles v"  "accessible (vtf_mem w) ?L"
     and val: "\<And>i. i < 8 \<Longrightarrow> sentinel_addr w i = num_words (vtf_mem v) - 1 - i \<and>
            memory (vtf_mem w) ?L (num_words (vtf_mem v) - 1 - i) = sentinel_value w i"
    using install_loop[OF assms(1,3,4,2)] unfolding w_def body_def Let_def by auto
  have inst: "installSentinels v = (True, w\<lparr>sentinels_installed := True\<rparr>)"
    using L assms(2) by (simp add: installSentinels_def getNumLayers_def getNumWords_def Let_def w_def body_def)
  let ?w = "w\<lparr>sentinels_installed := True\<rparr>"
  have SL: "sentinel_layer (?w\<lparr>vtf_mem := m\<rparr>) = ?L" if "num_layers m = num_layers (vtf_mem w)" for m
    by (rule sentinel_layer_cong) (use that w in simp_all)
  have SL': "sentinel_layer ?w = ?L" by (rule sentinel_layer_cong) (use w in simp_all)
  have raw: "rawRead (vtf_mem w) ?L (sentinel_addr w i) = sentinel_value w i" if "i < 8" for i
  proof -
    have "isValidLayer (vtf_mem w) ?L" using w(4) by (simp add: accessible_def)
    moreover have "num_words (vtf_mem v) - 1 - i < num_words (vtf_mem w)" using w(1) assms(2) by linarith
    ultimately show ?thesis using val[OF that] by (simp add: rawRead_def)
  qed
  have "verifySentinels ?w = (True, ?w)"
    using L raw w(2) by (simp add: verifySentinels_def SL' getNumLayers_def Let_def)
  moreover have "\<not> fst (verifySentinels (?w\<lparr>vtf_mem := m\<rparr>)) \<and> vtf_lockdown (snd (verifySentinels (?w\<lparr>vtf_mem := m\<rparr>)))"
    if "i < 8" "num_layers m = num_layers (vtf_mem w)"
      "rawRead m ?L (sentinel_addr w i) \<noteq> rawRead (vtf_mem w) ?L (sentinel_addr w i)" for m i
  proof -
    have "\<not> (\<forall>i\<in>set [0..<8]. rawRead m ?L (sentinel_addr w i) = sentinel_value w i)"
      using that(1,3) raw[OF that(1)] by (metis atLeastLessThan_iff set_upt zero_le)
    then show ?thesis using L w(2) that(2) SL[OF that(2)]
      by (simp add: verifySentinels_def getNumLayers_def Let_def)
  qed
  ultimately show ?thesis unfolding inst Let_def fst_conv snd_conv by auto
qed

theorem vtf_sentinels_witness:
  "verifySentinels (snd (installSentinels demo_fabric)) = (True, snd (installSentinels demo_fabric))"
proof -
  have "sentinel_layer demo_fabric = 3"
    by (simp add: sentinel_layer_def getNumLayers_def upt_rec numeral_eq_Suc)
       (simp flip: numeral_eq_Suc add: numeral_2_eq_2[symmetric] numeral_3_eq_3[symmetric])
  then show ?thesis
    using vtf_sentinels[of demo_fabric] by (simp add: accessible_def isValidLayer_def Let_def)
qed

end
