(* ===== verification/Mips_ISA.thy ===== *)
theory Mips_ISA
  imports Machine_Words
begin

text \<open>
  The instruction set of the processor in \<open>src/3d.cpp\<close>: field extraction, the classification of
  instructions (which write a register, which read which registers), and the block addresses of
  jump and branch targets. All of them are functions of the 32-bit instruction word.
\<close>

section \<open>Fields\<close>

abbreviation (input) MIPS_OP_SPECIAL :: u32 where "MIPS_OP_SPECIAL \<equiv> 0x00"
abbreviation (input) MIPS_OP_J :: u32 where "MIPS_OP_J \<equiv> 0x02"
abbreviation (input) MIPS_OP_BEQ :: u32 where "MIPS_OP_BEQ \<equiv> 0x04"
abbreviation (input) MIPS_OP_BNE :: u32 where "MIPS_OP_BNE \<equiv> 0x05"
abbreviation (input) MIPS_OP_ADDI :: u32 where "MIPS_OP_ADDI \<equiv> 0x08"
abbreviation (input) MIPS_OP_ORI :: u32 where "MIPS_OP_ORI \<equiv> 0x0D"
abbreviation (input) MIPS_OP_LUI :: u32 where "MIPS_OP_LUI \<equiv> 0x0F"
abbreviation (input) MIPS_OP_LW :: u32 where "MIPS_OP_LW \<equiv> 0x23"
abbreviation (input) MIPS_OP_SW :: u32 where "MIPS_OP_SW \<equiv> 0x2B"

abbreviation (input) MIPS_FUNCT_SLL :: u32 where "MIPS_FUNCT_SLL \<equiv> 0x00"
abbreviation (input) MIPS_FUNCT_SRL :: u32 where "MIPS_FUNCT_SRL \<equiv> 0x02"
abbreviation (input) MIPS_FUNCT_MULT :: u32 where "MIPS_FUNCT_MULT \<equiv> 0x18"
abbreviation (input) MIPS_FUNCT_ADD :: u32 where "MIPS_FUNCT_ADD \<equiv> 0x20"
abbreviation (input) MIPS_FUNCT_SUB :: u32 where "MIPS_FUNCT_SUB \<equiv> 0x22"
abbreviation (input) MIPS_FUNCT_AND :: u32 where "MIPS_FUNCT_AND \<equiv> 0x24"
abbreviation (input) MIPS_FUNCT_OR :: u32 where "MIPS_FUNCT_OR \<equiv> 0x25"
abbreviation (input) MIPS_FUNCT_XOR :: u32 where "MIPS_FUNCT_XOR \<equiv> 0x26"
abbreviation (input) MIPS_FUNCT_AESENC :: u32 where "MIPS_FUNCT_AESENC \<equiv> 0x3A"
abbreviation (input) MIPS_FUNCT_AESDEC :: u32 where "MIPS_FUNCT_AESDEC \<equiv> 0x3B"

definition mips_opcode :: "u32 \<Rightarrow> u32" where "mips_opcode instr = drop_bit 26 instr AND 0x3F"
definition mips_rs :: "u32 \<Rightarrow> u32" where "mips_rs instr = drop_bit 21 instr AND 0x1F"
definition mips_rt :: "u32 \<Rightarrow> u32" where "mips_rt instr = drop_bit 16 instr AND 0x1F"
definition mips_rd :: "u32 \<Rightarrow> u32" where "mips_rd instr = drop_bit 11 instr AND 0x1F"
definition mips_shamt :: "u32 \<Rightarrow> u32" where "mips_shamt instr = drop_bit 6 instr AND 0x1F"
definition mips_funct :: "u32 \<Rightarrow> u32" where "mips_funct instr = instr AND 0x3F"
definition mips_imm :: "u32 \<Rightarrow> u32" where "mips_imm instr = instr AND 0xFFFF"
definition mips_simm :: "u32 \<Rightarrow> u32" where
  "mips_simm instr = signed_take_bit 15 (instr AND 0xFFFF)"
definition mips_target :: "u32 \<Rightarrow> u32" where "mips_target instr = instr AND 0x03FFFFFF"

section \<open>Classification\<close>

definition isMipsRWriteFunct :: "u32 \<Rightarrow> bool" where
  "isMipsRWriteFunct funct \<longleftrightarrow>
     funct = MIPS_FUNCT_ADD \<or> funct = MIPS_FUNCT_SUB \<or> funct = MIPS_FUNCT_AND \<or> funct = MIPS_FUNCT_OR
     \<or> funct = MIPS_FUNCT_XOR \<or> funct = MIPS_FUNCT_SLL \<or> funct = MIPS_FUNCT_SRL
     \<or> funct = MIPS_FUNCT_MULT \<or> funct = MIPS_FUNCT_AESENC \<or> funct = MIPS_FUNCT_AESDEC"

definition isWriteInstruction :: "u32 \<Rightarrow> bool" where
  "isWriteInstruction instr =
     (let op = mips_opcode instr in
      if op = MIPS_OP_SPECIAL then isMipsRWriteFunct (mips_funct instr)
      else op = MIPS_OP_LW \<or> op = MIPS_OP_ADDI \<or> op = MIPS_OP_ORI \<or> op = MIPS_OP_LUI)"

definition getDestReg :: "u32 \<Rightarrow> u32" where
  "getDestReg instr =
     (let op = mips_opcode instr in
      if op = MIPS_OP_SPECIAL then (if isMipsRWriteFunct (mips_funct instr) then mips_rd instr else 0)
      else if op = MIPS_OP_LW \<or> op = MIPS_OP_ADDI \<or> op = MIPS_OP_ORI \<or> op = MIPS_OP_LUI then mips_rt instr
      else 0)"

definition isLoadInstruction :: "u32 \<Rightarrow> bool" where
  "isLoadInstruction instr \<longleftrightarrow> mips_opcode instr = MIPS_OP_LW"

definition isControlInstruction :: "u32 \<Rightarrow> bool" where
  "isControlInstruction instr =
     (let op = mips_opcode instr in op = MIPS_OP_BEQ \<or> op = MIPS_OP_BNE \<or> op = MIPS_OP_J)"

abbreviation (input) kMarsTextBaseWord :: u32 where "kMarsTextBaseWord \<equiv> 0x00100000"
abbreviation (input) kMarsDataBaseByte :: u32 where "kMarsDataBaseByte \<equiv> 0x10010000"

definition computeJumpTargetBlock :: "u32 \<Rightarrow> u32" where
  "computeJumpTargetBlock instr =
     (let target_word = mips_target instr;
          target_word = (if target_word \<ge> kMarsTextBaseWord then 32 + (target_word - kMarsTextBaseWord)
                         else target_word)
      in target_word div 4)"

text \<open>The signed sum is taken modulo \<open>2 ^ 32\<close>; word addresses are far from overflowing it.\<close>

definition computeBranchTargetBlock :: "u32 \<Rightarrow> u32 \<Rightarrow> u32" where
  "computeBranchTargetBlock word_addr simm =
     (let next_word = word_addr + 1 + simm;
          next_word = (if next_word <s 0 then 0 else next_word)
      in next_word div 4)"

definition branchPredictTaken :: "u32 \<Rightarrow> bool" where
  "branchPredictTaken instr \<longleftrightarrow> mips_opcode instr = MIPS_OP_J"

text \<open>The result is \<open>(rs, rt)\<close>.\<close>

definition getSourceRegs :: "u32 \<Rightarrow> u32 \<times> u32" where
  "getSourceRegs instr =
     (let op = mips_opcode instr in
      if op = MIPS_OP_SPECIAL then
        (let funct = mips_funct instr in
         if funct = MIPS_FUNCT_ADD \<or> funct = MIPS_FUNCT_SUB \<or> funct = MIPS_FUNCT_AND \<or> funct = MIPS_FUNCT_OR
            \<or> funct = MIPS_FUNCT_XOR \<or> funct = MIPS_FUNCT_MULT \<or> funct = MIPS_FUNCT_AESENC
         then (mips_rs instr, mips_rt instr)
         else if funct = MIPS_FUNCT_AESDEC then (0, 0)
         else if funct = MIPS_FUNCT_SLL \<or> funct = MIPS_FUNCT_SRL then (0, mips_rt instr)
         else (0, 0))
      else if op = MIPS_OP_LW \<or> op = MIPS_OP_ADDI \<or> op = MIPS_OP_ORI then (mips_rs instr, 0)
      else if op = MIPS_OP_SW \<or> op = MIPS_OP_BEQ \<or> op = MIPS_OP_BNE then (mips_rs instr, mips_rt instr)
      else (0, 0))"

end
