(* ===== verification/Mips_Semantics.thy ===== *)
theory Mips_Semantics
  imports Mips_ISA AES
begin

text \<open>
  A sequential reference semantics of the instruction set: instructions as a datatype, decoded from
  the words by \<open>decode_instr\<close>, and one step \<open>isa_step\<close> of a machine with a program counter,
  registers, the coprocessor register and plain data words, without pipeline, caches or encryption.
  It is the abstract specification that the pipeline of \<open>src/3d.cpp\<close> refines. Three things of the
  architecture are visible in it: a jump or a taken branch goes to the first instruction of a
  block of four, a taken branch into the block where execution would continue anyway has no effect,
  and an access outside the data region sets the lockdown flag.
\<close>

section \<open>Instructions\<close>

datatype alu_op = Add | Sub | And | Or | Xor | Mult

datatype mips =
  Alu alu_op u32 u32 u32
| Sll u32 u32 nat
| Srl u32 u32 nat
| AesEnc u32 u32 u32
| AesDec u32
| Lw u32 u32 u32
| Sw u32 u32 u32
| Addi u32 u32 u32
| Ori u32 u32 u32
| Lui u32 u32
| Beq u32 u32 u32
| Bne u32 u32 u32
| Jump u32
| Other

definition decode_special :: "u32 \<Rightarrow> mips" where
  "decode_special w =
     (let f = mips_funct w; rd = mips_rd w; rs = mips_rs w; rt = mips_rt w; sh = unat (mips_shamt w) in
      if f = MIPS_FUNCT_ADD then Alu Add rd rs rt
      else if f = MIPS_FUNCT_SUB then Alu Sub rd rs rt
      else if f = MIPS_FUNCT_AND then Alu And rd rs rt
      else if f = MIPS_FUNCT_OR then Alu Or rd rs rt
      else if f = MIPS_FUNCT_XOR then Alu Xor rd rs rt
      else if f = MIPS_FUNCT_MULT then Alu Mult rd rs rt
      else if f = MIPS_FUNCT_SLL then Sll rd rt sh
      else if f = MIPS_FUNCT_SRL then Srl rd rt sh
      else if f = MIPS_FUNCT_AESENC then AesEnc rd rs rt
      else if f = MIPS_FUNCT_AESDEC then AesDec rd
      else Other)"

definition decode_instr :: "u32 \<Rightarrow> mips" where
  "decode_instr w =
     (let op = mips_opcode w; rs = mips_rs w; rt = mips_rt w in
      if op = MIPS_OP_SPECIAL then decode_special w
      else if op = MIPS_OP_LW then Lw rt rs (mips_simm w)
      else if op = MIPS_OP_SW then Sw rt rs (mips_simm w)
      else if op = MIPS_OP_ADDI then Addi rt rs (mips_simm w)
      else if op = MIPS_OP_ORI then Ori rt rs (mips_imm w)
      else if op = MIPS_OP_LUI then Lui rt (mips_imm w)
      else if op = MIPS_OP_BEQ then Beq rs rt (mips_simm w)
      else if op = MIPS_OP_BNE then Bne rs rt (mips_simm w)
      else if op = MIPS_OP_J then Jump (computeJumpTargetBlock w)
      else Other)"

section \<open>The machine\<close>

text \<open>What does not change while a program runs: the text, the regions and the application key.\<close>

record machine =
  text_first :: u32
  text_last :: u32
  text_block :: "u32 \<Rightarrow> block"
  data_first :: u32
  data_last :: u32
  app_key :: block

record isa =
  pc :: "u32 \<times> nat"
  regs :: "nat \<Rightarrow> u32"
  copro :: block
  words :: "u32 \<Rightarrow> u32"
  locked :: bool

definition set_reg :: "u32 \<Rightarrow> u32 \<Rightarrow> isa \<Rightarrow> isa" where
  "set_reg r v st = (if r = 0 then st else st\<lparr>regs := (regs st)(unat r := v)\<rparr>)"

definition get_reg :: "isa \<Rightarrow> u32 \<Rightarrow> u32" where
  "get_reg st r = regs st (unat r)"

text \<open>The instruction behind the current one, and the target of jumps and taken branches.\<close>

definition advance :: "u32 \<times> nat \<Rightarrow> u32 \<times> nat" where
  "advance p = (if snd p = 3 then (fst p + 1, 0) else (fst p, snd p + 1))"

definition enter :: "machine \<Rightarrow> u32 \<Rightarrow> u32 \<times> nat" where
  "enter M b = (max (text_first M) b, 0)"

definition branch_to :: "machine \<Rightarrow> u32 \<times> nat \<Rightarrow> u32 \<Rightarrow> u32 \<times> nat" where
  "branch_to M p offset =
     (let target = computeBranchTargetBlock (fst p * 4 + of_nat (snd p)) offset
      in if target = fst (advance p) then advance p else enter M target)"

text \<open>A byte address of the MIPS data segment, of a word, or a small number taken as word address.\<close>

definition data_address :: "machine \<Rightarrow> u32 \<Rightarrow> u32 option" where
  "data_address M a =
     (if a < 1024 then Some a
      else if a AND 3 \<noteq> 0 then None
      else if a \<ge> kMarsDataBaseByte \<and> data_first M + drop_bit 2 (a - kMarsDataBaseByte) < 1024
      then Some (data_first M + drop_bit 2 (a - kMarsDataBaseByte))
      else if drop_bit 2 a < 1024 then Some (drop_bit 2 a) else None)"

definition in_data :: "machine \<Rightarrow> u32 \<Rightarrow> bool" where
  "in_data M a \<longleftrightarrow> data_first M \<le> a \<and> a < data_last M"

definition load :: "machine \<Rightarrow> u32 \<Rightarrow> u32 \<Rightarrow> isa \<Rightarrow> isa" where
  "load M r a st =
     (case data_address M a of
        None \<Rightarrow> set_reg r 0 st
      | Some w \<Rightarrow> if in_data M w then set_reg r (words st w) st else set_reg r 0 (st\<lparr>locked := True\<rparr>))"

definition store :: "machine \<Rightarrow> u32 \<Rightarrow> u32 \<Rightarrow> isa \<Rightarrow> isa" where
  "store M a v st =
     (case data_address M a of
        None \<Rightarrow> st
      | Some w \<Rightarrow> if in_data M w then st\<lparr>words := (words st)(w := v)\<rparr> else st\<lparr>locked := True\<rparr>)"

fun alu_fun :: "alu_op \<Rightarrow> u32 \<Rightarrow> u32 \<Rightarrow> u32" where
  "alu_fun Add a b = a + b"
| "alu_fun Sub a b = a - b"
| "alu_fun And a b = a AND b"
| "alu_fun Or a b = a OR b"
| "alu_fun Xor a b = a XOR b"
| "alu_fun Mult a b = a * b"

definition next_pc :: "machine \<Rightarrow> mips \<Rightarrow> isa \<Rightarrow> u32 \<times> nat" where
  "next_pc M i st =
     (case i of
        Beq rs rt off \<Rightarrow> if get_reg st rs = get_reg st rt then branch_to M (pc st) off else advance (pc st)
      | Bne rs rt off \<Rightarrow> if get_reg st rs \<noteq> get_reg st rt then branch_to M (pc st) off else advance (pc st)
      | Jump b \<Rightarrow> enter M b
      | _ \<Rightarrow> advance (pc st))"

definition effect :: "machine \<Rightarrow> mips \<Rightarrow> isa \<Rightarrow> isa" where
  "effect M i st =
     (case i of
        Alu f rd rs rt \<Rightarrow> set_reg rd (alu_fun f (get_reg st rs) (get_reg st rt)) st
      | Sll rd rt n \<Rightarrow> set_reg rd (push_bit n (get_reg st rt)) st
      | Srl rd rt n \<Rightarrow> set_reg rd (drop_bit n (get_reg st rt)) st
      | AesEnc rd rs rt \<Rightarrow>
          let a = get_reg st rs; b = get_reg st rt; out = aes_encrypt_block (Quad a b a b) (app_key M)
          in set_reg rd (q0 out) (st\<lparr>copro := out\<rparr>)
      | AesDec rd \<Rightarrow> set_reg rd (q0 (aes_decrypt_block (copro st) (app_key M))) st
      | Lw rt rs off \<Rightarrow> load M rt (get_reg st rs + off) st
      | Sw rt rs off \<Rightarrow> store M (get_reg st rs + off) (get_reg st rt) st
      | Addi rt rs imm \<Rightarrow> set_reg rt (get_reg st rs + imm) st
      | Ori rt rs imm \<Rightarrow> set_reg rt (get_reg st rs OR imm) st
      | Lui rt imm \<Rightarrow> set_reg rt (push_bit 16 imm) st
      | _ \<Rightarrow> st)"

definition fetched :: "machine \<Rightarrow> u32 \<times> nat \<Rightarrow> u32" where
  "fetched M p = quad_nth (text_block M (fst p)) (snd p)"

definition at_end :: "machine \<Rightarrow> isa \<Rightarrow> bool" where
  "at_end M st \<longleftrightarrow> text_last M \<le> fst (pc st)"

definition isa_step :: "machine \<Rightarrow> isa \<Rightarrow> isa" where
  "isa_step M st =
     (if at_end M st then st
      else let i = decode_instr (fetched M (pc st)) in (effect M i st)\<lparr>pc := next_pc M i st\<rparr>)"

definition isa_run :: "machine \<Rightarrow> nat \<Rightarrow> isa \<Rightarrow> isa" where
  "isa_run M n st = (isa_step M ^^ n) st"

end
