(* ===== verification/Fips_180_4.thy ===== *)
theory Fips_180_4
  imports Machine_Words
begin

text \<open>
  SHA-256 as FIPS 180-4 states it, the reference of the hash of \<open>src/3d.cpp\<close>. Nothing of the model of
  the C++ is used here: the constants are the bits of the roots of the first primes, the functions
  are those of section 4.1.2, the schedule and the variables of a round are recursive functions of
  the round number, and bytes are read and written by their value. The roots are taken in the
  integers; the theory \<open>Fips_Roots\<close> shows that they are the roots of the reals.
\<close>

section \<open>Functions (4.1.2)\<close>

definition fips_Ch :: "u32 \<Rightarrow> u32 \<Rightarrow> u32 \<Rightarrow> u32" where
  "fips_Ch x y z = (x AND y) XOR (NOT x AND z)"

definition fips_Maj :: "u32 \<Rightarrow> u32 \<Rightarrow> u32 \<Rightarrow> u32" where
  "fips_Maj x y z = (x AND y) XOR (x AND z) XOR (y AND z)"

definition fips_Sigma0 :: "u32 \<Rightarrow> u32" where
  "fips_Sigma0 x = word_rotr 2 x XOR word_rotr 13 x XOR word_rotr 22 x"

definition fips_Sigma1 :: "u32 \<Rightarrow> u32" where
  "fips_Sigma1 x = word_rotr 6 x XOR word_rotr 11 x XOR word_rotr 25 x"

definition fips_sigma0 :: "u32 \<Rightarrow> u32" where
  "fips_sigma0 x = word_rotr 7 x XOR word_rotr 18 x XOR x div 2 ^ 3"

definition fips_sigma1 :: "u32 \<Rightarrow> u32" where
  "fips_sigma1 x = word_rotr 17 x XOR word_rotr 19 x XOR x div 2 ^ 10"

section \<open>Constants (4.2.2, 5.3.3)\<close>

text \<open>
  The first thirty-two bits of the fractional parts of the cube roots of the first sixty-four
  primes, and of the square roots of the first eight: the greatest integer below \<open>2\<^sup>3\<^sup>2\<close> times the
  root, modulo \<open>2\<^sup>3\<^sup>2\<close>.
\<close>

definition fips_prime :: "nat \<Rightarrow> bool" where
  "fips_prime p \<longleftrightarrow> 1 < p \<and> (\<forall>d\<in>{2..<p}. \<not> d dvd p)"

definition fips_primes :: "nat list" where
  "fips_primes = filter fips_prime [2..<312]"

definition fips_frac :: "nat \<Rightarrow> nat \<Rightarrow> u32" where
  "fips_frac k p = of_nat (GREATEST n. n ^ k \<le> p * (2 ^ 32) ^ k)"

definition fips_K :: "nat \<Rightarrow> u32" where
  "fips_K t = fips_frac 3 (fips_primes ! t)"

definition fips_H0 :: "u32 list" where
  "fips_H0 = map (\<lambda>i. fips_frac 2 (fips_primes ! i)) [0..<8]"

section \<open>Bytes and padding (3.1, 5.1.1, 5.2.1)\<close>

definition fips_bytes :: "nat \<Rightarrow> nat \<Rightarrow> u8 list" where
  "fips_bytes n x = map (\<lambda>i. of_nat (x div 256 ^ i)) (rev [0..<n])"

definition fips_value :: "u8 list \<Rightarrow> nat" where
  "fips_value bs = foldl (\<lambda>v b. 256 * v + unat b) 0 bs"

text \<open>A one bit, zeros up to 56 modulo 64 bytes, the length in bits.\<close>

definition fips_pad :: "u8 list \<Rightarrow> u8 list" where
  "fips_pad m = m @ [0x80] @ replicate ((119 - length m mod 64) mod 64) 0 @ fips_bytes 8 (8 * length m)"

function chunks64 :: "'a list \<Rightarrow> 'a list list" where
  "chunks64 xs = (if length xs < 64 then [] else take 64 xs # chunks64 (drop 64 xs))"
  by auto
termination by (relation "measure length") auto

declare chunks64.simps [simp del]

section \<open>Computation (6.2.2)\<close>

fun fips_W :: "(nat \<Rightarrow> u32) \<Rightarrow> nat \<Rightarrow> u32" where
  "fips_W M t = (if t < 16 then M t
     else fips_sigma1 (fips_W M (t - 2)) + fips_W M (t - 7) + fips_sigma0 (fips_W M (t - 15)) + fips_W M (t - 16))"

declare fips_W.simps [simp del]

type_synonym sha_vars = "u32 \<times> u32 \<times> u32 \<times> u32 \<times> u32 \<times> u32 \<times> u32 \<times> u32"

fun fips_vars :: "(nat \<Rightarrow> u32) \<Rightarrow> sha_vars \<Rightarrow> nat \<Rightarrow> sha_vars" where
  "fips_vars M start 0 = start"
| "fips_vars M start (Suc t) =
     (let (a, b, c, d, e, f, g, h) = fips_vars M start t;
          T1 = h + fips_Sigma1 e + fips_Ch e f g + fips_K t + fips_W M t;
          T2 = fips_Sigma0 a + fips_Maj a b c
      in (T1 + T2, a, b, c, d + T1, e, f, g))"

definition fips_block :: "u8 list \<Rightarrow> u32 list \<Rightarrow> u32 list" where
  "fips_block blk H =
     (let M = (\<lambda>t. of_nat (fips_value (take 4 (drop (4 * t) blk))));
          (a, b, c, d, e, f, g, h) = fips_vars M (H ! 0, H ! 1, H ! 2, H ! 3, H ! 4, H ! 5, H ! 6, H ! 7) 64
      in [a + H ! 0, b + H ! 1, c + H ! 2, d + H ! 3, e + H ! 4, f + H ! 5, g + H ! 6, h + H ! 7])"

definition sha256_reference :: "u8 list \<Rightarrow> u8 list" where
  "sha256_reference m =
     concat (map (\<lambda>x. fips_bytes 4 (unat x)) (fold fips_block (chunks64 (fips_pad m)) fips_H0))"

section \<open>Values of the constants\<close>

lemma greatest_root:
  fixes n m k :: nat
  assumes "0 < k" "n ^ k \<le> m" "m < (n + 1) ^ k"
  shows "(GREATEST n. n ^ k \<le> m) = n"
proof (rule Greatest_equality[where P = "\<lambda>n. n ^ k \<le> m", OF assms(2)])
  fix x assume "x ^ k \<le> m"
  then have "x ^ k < (n + 1) ^ k" using assms(3) by simp
  then have "x < n + 1" by (rule power_less_imp_less_base) simp
  then show "x \<le> n" by simp
qed

lemma fips_frac_unique:
  assumes "0 < k" "n ^ k \<le> p * (2 ^ 32) ^ k" "p * (2 ^ 32) ^ k < (n + 1) ^ k"
  shows "fips_frac k p = of_nat n"
  unfolding fips_frac_def greatest_root[OF assms] ..

text \<open>Below \<open>18\<^sup>2\<close> a number is prime if no smaller number up to 17 divides it.\<close>

lemma fips_prime_small:
  assumes "p < 324"
  shows "fips_prime p \<longleftrightarrow> 1 < p \<and> (\<forall>d\<in>{2, 3, 5, 7, 11, 13, 17}. d < p \<longrightarrow> p mod d \<noteq> 0)"
proof -
  have "\<exists>d\<in>{2..<18}. d < p \<and> d dvd p" if "2 \<le> a" "a < p" "a dvd p" for a
  proof -
    obtain b where b: "p = a * b" using \<open>a dvd p\<close> by blast
    have "b \<noteq> 0" "b \<noteq> 1" using b that by auto
    then have "2 \<le> b" by simp
    moreover from this have "b < p" using that b by simp
    moreover have "a < 18 \<or> b < 18"
    proof (rule ccontr)
      assume "\<not> (a < 18 \<or> b < 18)"
      then have "18 * 18 \<le> a * b" by (intro mult_le_mono) auto
      then show False using assms b by simp
    qed
    ultimately show ?thesis using that b by (auto intro: bexI[of _ a] bexI[of _ b])
  qed
  moreover have "\<exists>q\<in>{2, 3, 5, 7, 11, 13, 17}. q dvd d" if "d \<in> {2..<18}" for d :: nat
  proof -
    have "d = 2 \<or> d = 3 \<or> d = 4 \<or> d = 5 \<or> d = 6 \<or> d = 7 \<or> d = 8 \<or> d = 9 \<or> d = 10 \<or> d = 11 \<or> d = 12 \<or> d = 13 \<or> d = 14 \<or> d = 15 \<or> d = 16 \<or> d = 17"
      using that by (simp only: atLeastLessThan_iff) arith
    then show ?thesis by (elim disjE) simp_all
  qed
  moreover have "q < p" if "q dvd d" "d \<in> {2..<18}" "d < p" for q d :: nat
    using dvd_imp_le[OF that(1)] that(2,3) by simp
  ultimately have "\<exists>q\<in>{2, 3, 5, 7, 11, 13, 17}. q < p \<and> q dvd p" if "2 \<le> a" "a < p" "a dvd p" for a
    using that by (meson dvd_trans)
  note small = this
  have "(\<forall>d\<in>{2..<p}. \<not> d dvd p) \<longleftrightarrow> (\<forall>d\<in>{2, 3, 5, 7, 11, 13, 17}. d < p \<longrightarrow> \<not> d dvd p)" (is "?L \<longleftrightarrow> ?R")
  proof
    show ?R if ?L using that by simp
    show ?L if ?R using small that by (meson atLeastLessThan_iff)
  qed
  then show ?thesis unfolding fips_prime_def dvd_eq_mod_eq_0 by (rule arg_cong)
qed

lemma fips_primes_list: "fips_primes = [2, 3, 5, 7, 11, 13, 17, 19, 23, 29, 31, 37, 41, 43, 47, 53, 59, 61, 67, 71, 73, 79, 83, 89,
    97, 101, 103, 107, 109, 113, 127, 131, 137, 139, 149, 151, 157, 163, 167, 173, 179, 181, 191, 193, 197, 199,
    211, 223, 227, 229, 233, 239, 241, 251, 257, 263, 269, 271, 277, 281, 283, 293, 307, 311]"
proof -
  have "fips_primes = filter (\<lambda>p. 1 < p \<and> (\<forall>d\<in>{2, 3, 5, 7, 11, 13, 17}. d < p \<longrightarrow> p mod d \<noteq> 0)) [2..<312]"
    unfolding fips_primes_def
    by (rule filter_cong[OF refl], rule fips_prime_small) (simp only: set_upt atLeastLessThan_iff, linarith)
  then show ?thesis by (simp add: upt_rec_numeral)
qed

lemma fips_frac_list:
  assumes "0 < k" "list_all2 (\<lambda>p n. n ^ k \<le> p * (2 ^ 32) ^ k \<and> p * (2 ^ 32) ^ k < (n + 1) ^ k) ps ns"
  shows "map (fips_frac k) ps = map of_nat ns"
  using assms(2) by (induction rule: list_all2_induct) (auto intro: fips_frac_unique[OF assms(1)])

text \<open>The integer part of each root is the digit before the last eight.\<close>

lemma fips_cube_roots:
  "map (fips_frac 3) fips_primes = map of_nat
    [0x1428A2F98, 0x171374491, 0x1B5C0FBCF, 0x1E9B5DBA5, 0x23956C25B, 0x259F111F1, 0x2923F82A4,
     0x2AB1C5ED5, 0x2D807AA98, 0x312835B01, 0x3243185BE, 0x3550C7DC3, 0x372BE5D74, 0x380DEB1FE,
     0x39BDC06A7, 0x3C19BF174, 0x3E49B69C1, 0x3EFBE4786, 0x40FC19DC6, 0x4240CA1CC, 0x42DE92C6F,
     0x44A7484AA, 0x45CB0A9DC, 0x476F988DA, 0x4983E5152, 0x4A831C66D, 0x4B00327C8, 0x4BF597FC7,
     0x4C6E00BF3, 0x4D5A79147, 0x506CA6351, 0x514292967, 0x527B70A85, 0x52E1B2138, 0x54D2C6DFC,
     0x553380D13, 0x5650A7354, 0x5766A0ABB, 0x581C2C92E, 0x592722C85, 0x5A2BFE8A1, 0x5A81A664B,
     0x5C24B8B70, 0x5C76C51A3, 0x5D192E819, 0x5D6990624, 0x5F40E3585, 0x6106AA070, 0x619A4C116,
     0x61E376C08, 0x62748774C, 0x634B0BCB5, 0x6391C0CB3, 0x64ED8AA4A, 0x65B9CCA4F, 0x6682E6FF3,
     0x6748F82EE, 0x678A5636F, 0x684C87814, 0x68CC70208, 0x690BEFFFA, 0x6A4506CEB, 0x6BEF9A3F7,
     0x6C67178F2]"
  unfolding fips_primes_list by (rule fips_frac_list) simp_all

lemma fips_square_roots:
  "map (fips_frac 2) (take 8 fips_primes) = map of_nat
    [0x16A09E667, 0x1BB67AE85, 0x23C6EF372, 0x2A54FF53A, 0x3510E527F, 0x39B05688C, 0x41F83D9AB,
     0x45BE0CD19]"
  unfolding fips_primes_list by (rule fips_frac_list) simp_all

lemma length_fips_primes: "length fips_primes = 64"
  by (simp add: fips_primes_list)

lemma fips_K_values:
  "map fips_K [0..<64] =
    [0x428A2F98, 0x71374491, 0xB5C0FBCF, 0xE9B5DBA5, 0x3956C25B, 0x59F111F1, 0x923F82A4,
     0xAB1C5ED5, 0xD807AA98, 0x12835B01, 0x243185BE, 0x550C7DC3, 0x72BE5D74, 0x80DEB1FE,
     0x9BDC06A7, 0xC19BF174, 0xE49B69C1, 0xEFBE4786, 0x0FC19DC6, 0x240CA1CC, 0x2DE92C6F,
     0x4A7484AA, 0x5CB0A9DC, 0x76F988DA, 0x983E5152, 0xA831C66D, 0xB00327C8, 0xBF597FC7,
     0xC6E00BF3, 0xD5A79147, 0x06CA6351, 0x14292967, 0x27B70A85, 0x2E1B2138, 0x4D2C6DFC,
     0x53380D13, 0x650A7354, 0x766A0ABB, 0x81C2C92E, 0x92722C85, 0xA2BFE8A1, 0xA81A664B,
     0xC24B8B70, 0xC76C51A3, 0xD192E819, 0xD6990624, 0xF40E3585, 0x106AA070, 0x19A4C116,
     0x1E376C08, 0x2748774C, 0x34B0BCB5, 0x391C0CB3, 0x4ED8AA4A, 0x5B9CCA4F, 0x682E6FF3,
     0x748F82EE, 0x78A5636F, 0x84C87814, 0x8CC70208, 0x90BEFFFA, 0xA4506CEB, 0xBEF9A3F7,
     0xC67178F2]"
proof -
  have "map fips_K [0..<64] = map (fips_frac 3) fips_primes"
    by (rule nth_equalityI) (simp_all add: fips_K_def length_fips_primes)
  then show ?thesis unfolding fips_cube_roots by simp
qed

lemma fips_H0_values: "fips_H0 = [0x6A09E667, 0xBB67AE85, 0x3C6EF372, 0xA54FF53A, 0x510E527F, 0x9B05688C, 0x1F83D9AB, 0x5BE0CD19]"
proof -
  have eq: "fips_H0 = map (fips_frac 2) (take 8 fips_primes)"
    by (rule nth_equalityI) (simp_all add: fips_H0_def length_fips_primes)
  show ?thesis unfolding eq fips_square_roots by simp
qed

end
