(* ===== verification/Sha256.thy ===== *)
theory Sha256
  imports Fips_180_4
begin

text \<open>
  SHA-256, HMAC and HKDF of \<open>src/3d.cpp\<close>. The context record holds the members of
  \<open>Sha256Ctx\<close>: the chaining state, the block buffer with its fill, the bytes of the blocks already
  compressed (64-bit). The buffer of a fresh context is indeterminate in C++; \<open>sha256_init\<close> leaves
  it as it is. The lemmas relate the compression function, its constants and the streaming code to the
  SHA-256 of FIPS 180-4 (theory \<open>Fips_180_4\<close>), and HMAC and HKDF to RFC 2104 and RFC 5869.
\<close>

section \<open>Compression\<close>

definition kSha256 :: "u32 list" where
  "kSha256 =
    [0x428A2F98, 0x71374491, 0xB5C0FBCF, 0xE9B5DBA5, 0x3956C25B, 0x59F111F1,
     0x923F82A4, 0xAB1C5ED5, 0xD807AA98, 0x12835B01, 0x243185BE, 0x550C7DC3,
     0x72BE5D74, 0x80DEB1FE, 0x9BDC06A7, 0xC19BF174, 0xE49B69C1, 0xEFBE4786,
     0x0FC19DC6, 0x240CA1CC, 0x2DE92C6F, 0x4A7484AA, 0x5CB0A9DC, 0x76F988DA,
     0x983E5152, 0xA831C66D, 0xB00327C8, 0xBF597FC7, 0xC6E00BF3, 0xD5A79147,
     0x06CA6351, 0x14292967, 0x27B70A85, 0x2E1B2138, 0x4D2C6DFC, 0x53380D13,
     0x650A7354, 0x766A0ABB, 0x81C2C92E, 0x92722C85, 0xA2BFE8A1, 0xA81A664B,
     0xC24B8B70, 0xC76C51A3, 0xD192E819, 0xD6990624, 0xF40E3585, 0x106AA070,
     0x19A4C116, 0x1E376C08, 0x2748774C, 0x34B0BCB5, 0x391C0CB3, 0x4ED8AA4A,
     0x5B9CCA4F, 0x682E6FF3, 0x748F82EE, 0x78A5636F, 0x84C87814, 0x8CC70208,
     0x90BEFFFA, 0xA4506CEB, 0xBEF9A3F7, 0xC67178F2]"

definition sha_schedule_step :: "nat \<Rightarrow> u32 list \<Rightarrow> u32 list" where
  "sha_schedule_step i w =
     (let x = w ! (i - 15); y = w ! (i - 2);
          s0 = secure_rotr32 x 7 XOR secure_rotr32 x 18 XOR drop_bit 3 x;
          s1 = secure_rotr32 y 17 XOR secure_rotr32 y 19 XOR drop_bit 10 y
      in w @ [w ! (i - 16) + s0 + w ! (i - 7) + s1])"

definition sha_schedule :: "u8 list \<Rightarrow> u32 list" where
  "sha_schedule data =
     for_up 16 64 sha_schedule_step (map (\<lambda>i. load_be32 (drop (i * 4) data)) [0..<16])"

fun sha_round :: "u32 \<Rightarrow> u32 \<Rightarrow> sha_vars \<Rightarrow> sha_vars" where
  "sha_round k wi (a, b, c, d, e, f, g, h) =
     (let S1 = secure_rotr32 e 6 XOR secure_rotr32 e 11 XOR secure_rotr32 e 25;
          ch = (e AND f) XOR (NOT e AND g);
          temp1 = h + S1 + ch + k + wi;
          S0 = secure_rotr32 a 2 XOR secure_rotr32 a 13 XOR secure_rotr32 a 22;
          maj = (a AND b) XOR (a AND c) XOR (b AND c);
          temp2 = S0 + maj
      in (temp1 + temp2, a, b, c, d + temp1, e, f, g))"

definition sha_compress :: "u8 list \<Rightarrow> u32 list \<Rightarrow> u32 list" where
  "sha_compress data state =
     (let w = sha_schedule data;
          (a, b, c, d, e, f, g, h) =
            for_up 0 64 (\<lambda>i. sha_round (kSha256 ! i) (w ! i))
              (state ! 0, state ! 1, state ! 2, state ! 3, state ! 4, state ! 5, state ! 6, state ! 7)
      in [state ! 0 + a, state ! 1 + b, state ! 2 + c, state ! 3 + d,
          state ! 4 + e, state ! 5 + f, state ! 6 + g, state ! 7 + h])"

section \<open>Streaming\<close>

record Sha256Ctx =
  sha_state :: "u32 list"
  sha_block :: "u8 list"
  sha_block_len :: nat
  sha_total_len :: u64

definition sha256_transform :: "Sha256Ctx \<Rightarrow> u8 list \<Rightarrow> Sha256Ctx" where
  "sha256_transform ctx data = ctx\<lparr>sha_state := sha_compress data (sha_state ctx)\<rparr>"

definition sha256_H0 :: "u32 list" where
  "sha256_H0 = [0x6a09e667, 0xbb67ae85, 0x3c6ef372, 0xa54ff53a, 0x510e527f, 0x9b05688c, 0x1f83d9ab, 0x5be0cd19]"

definition sha256_init :: "Sha256Ctx \<Rightarrow> Sha256Ctx" where
  "sha256_init ctx = ctx\<lparr>sha_state := sha256_H0, sha_block_len := 0, sha_total_len := 0\<rparr>"

definition sha256_push :: "Sha256Ctx \<Rightarrow> u8 \<Rightarrow> Sha256Ctx" where
  "sha256_push ctx b =
     ctx\<lparr>sha_block := (sha_block ctx)[sha_block_len ctx := b], sha_block_len := sha_block_len ctx + 1\<rparr>"

definition sha256_update_byte :: "u8 \<Rightarrow> Sha256Ctx \<Rightarrow> Sha256Ctx" where
  "sha256_update_byte b ctx =
     (let ctx = sha256_push ctx b in
      if sha_block_len ctx = 64
      then (sha256_transform ctx (sha_block ctx))
             \<lparr>sha_total_len := sha_total_len ctx + 64, sha_block_len := 0\<rparr>
      else ctx)"

definition sha256_update :: "Sha256Ctx \<Rightarrow> u8 list \<Rightarrow> Sha256Ctx" where
  "sha256_update ctx data = fold sha256_update_byte data ctx"

definition sha256_update_word :: "Sha256Ctx \<Rightarrow> u32 \<Rightarrow> Sha256Ctx" where
  "sha256_update_word ctx w = sha256_update ctx (store_be32 w)"

text \<open>\<open>while (ctx.block_len < n) ctx.block[ctx.block_len++] = 0u;\<close>\<close>

definition sha256_fill :: "nat \<Rightarrow> Sha256Ctx \<Rightarrow> Sha256Ctx" where
  "sha256_fill n ctx = for_up (sha_block_len ctx) n (\<lambda>_ ctx. sha256_push ctx 0) ctx"

definition sha256_final :: "Sha256Ctx \<Rightarrow> u8 list" where
  "sha256_final ctx =
     (let total_bits = (sha_total_len ctx + of_nat (sha_block_len ctx)) * 8;
          ctx = sha256_push ctx 0x80;
          ctx = (if sha_block_len ctx > 56
                 then (let ctx = sha256_fill 64 ctx
                       in (sha256_transform ctx (sha_block ctx))\<lparr>sha_block_len := 0\<rparr>)
                 else ctx);
          ctx = sha256_fill 56 ctx;
          ctx = fold (\<lambda>i ctx. sha256_push ctx (ucast (drop_bit (i * 8) total_bits AND 0xFF)))
                  [7, 6, 5, 4, 3, 2, 1, 0] ctx;
          ctx = sha256_transform ctx (sha_block ctx)
      in concat (map store_be32 (sha_state ctx)))"

text \<open>A local context; its buffer holds whatever was there.\<close>

definition fresh_ctx :: Sha256Ctx where
  "fresh_ctx = \<lparr>sha_state = replicate 8 0, sha_block = replicate 64 0, sha_block_len = 0, sha_total_len = 0\<rparr>"

definition sha256_of :: "u8 list list \<Rightarrow> u8 list" where
  "sha256_of parts = sha256_final (fold (\<lambda>p ctx. sha256_update ctx p) parts (sha256_init fresh_ctx))"

section \<open>HMAC and HKDF\<close>

definition hmac_key_block :: "u8 list \<Rightarrow> u8 list" where
  "hmac_key_block key =
     (let k = (if length key > 64 then sha256_of [key] else key)
      in map (\<lambda>i. if i < length k then k ! i else 0) [0..<64])"

definition hmac_sha256 :: "u8 list \<Rightarrow> u8 list \<Rightarrow> u8 list" where
  "hmac_sha256 key data =
     (let key_block = hmac_key_block key;
          ipad = map (\<lambda>b. b XOR 0x36) key_block;
          opad = map (\<lambda>b. b XOR 0x5C) key_block;
          inner_hash = sha256_of [ipad, data]
      in sha256_of [opad, inner_hash])"

text \<open>
  The loop of \<open>hkdf_sha256\<close>: \<open>t\<close> is the previous block (empty before the first), \<open>okm\<close> the bytes
  generated. \<open>None\<close> is the case that the message does not fit in the 64 bytes of \<open>msg\<close>, where
  the C++ writes past the array.
\<close>

function hkdf_expand :: "u8 list \<Rightarrow> u8 list \<Rightarrow> nat \<Rightarrow> u8 list \<Rightarrow> u8 \<Rightarrow> u8 list \<Rightarrow> u8 list option" where
  "hkdf_expand prk info okm_len t counter okm =
     (if length okm < okm_len then
        (if length t + length info + 1 > 64 then None
         else let msg = t @ info @ [counter];
                  t' = hmac_sha256 prk msg;
                  to_copy = (if okm_len - length okm > 32 then 32 else okm_len - length okm)
              in hkdf_expand prk info okm_len t' (counter + 1) (okm @ map (\<lambda>i. t' ! i) [0..<to_copy]))
      else Some okm)"
  by pat_completeness auto
termination
  by (relation "measure (\<lambda>(prk, info, okm_len, t, counter, okm). okm_len - length okm)") auto

declare hkdf_expand.simps [simp del]

definition hkdf_sha256 :: "u8 list \<Rightarrow> u8 list \<Rightarrow> u8 list \<Rightarrow> nat \<Rightarrow> u8 list option" where
  "hkdf_sha256 ikm salt info okm_len = hkdf_expand (hmac_sha256 salt ikm) info okm_len [] 1 []"

section \<open>The padded message\<close>

lemma chunks64_append: "64 dvd length a \<Longrightarrow> chunks64 (a @ b) = chunks64 a @ chunks64 b"
proof (induction a rule: chunks64.induct)
  case (1 a)
  show ?case
  proof (cases "length a < 64")
    case True
    then have "a = []" using 1(2) by (auto dest: dvd_imp_le)
    then show ?thesis by (simp add: chunks64.simps[of "[]"])
  next
    case False
    have "64 dvd length (drop 64 a)" using 1(2) False by (simp add: dvd_diff_nat)
    then show ?thesis using False 1(1) by (subst (1 2) chunks64.simps) simp
  qed
qed

lemma chunks64_short [simp]: "length xs < 64 \<Longrightarrow> chunks64 xs = []"
  by (simp add: chunks64.simps)

lemma chunks64_one [simp]: "length xs = 64 \<Longrightarrow> chunks64 xs = [xs]"
  by (simp add: chunks64.simps)

definition be64 :: "u64 \<Rightarrow> u8 list" where
  "be64 x = map (\<lambda>i. ucast (drop_bit (i * 8) x AND 0xFF)) [7, 6, 5, 4, 3, 2, 1, 0]"

text \<open>The padded message, with the length as the code writes it.\<close>

definition sha_pad :: "u8 list \<Rightarrow> u8 list" where
  "sha_pad m = m @ [0x80] @ replicate ((119 - length m mod 64) mod 64) 0 @ be64 (of_nat (length m) * 8)"

lemma length_be64 [simp]: "length (be64 x) = 8"
  by (simp add: be64_def)

lemma pad_count: "r \<le> 55 \<Longrightarrow> (119 - r) mod 64 = 55 - (r :: nat)"
proof -
  assume "r \<le> 55"
  then have "119 - r = (55 - r) + 64" by simp
  then show ?thesis by (simp only: mod_add_self2) simp
qed

lemma pad_count_late: "56 \<le> r \<Longrightarrow> r < 64 \<Longrightarrow> (119 - r) mod 64 = (63 - r) + (56 :: nat)"
  by simp

lemma sha_pad_multiple: "64 dvd length (sha_pad m)"
proof -
  have "length (sha_pad m) = length m + 9 + (119 - length m mod 64) mod 64"
    by (simp add: sha_pad_def)
  moreover have "(n + 9 + (119 - n mod 64) mod 64) mod 64 = 0" for n :: nat
  proof -
    obtain q r where n: "n = 64 * q + r" "r < 64" by (metis mult_div_mod_eq mod_less_divisor zero_less_numeral)
    show ?thesis
    proof (cases "r \<le> 55")
      case True
      have "(119 - n mod 64) mod 64 = 55 - r" using n True by (simp add: pad_count)
      moreover have "64 * q + r + 9 + (55 - r) = 64 * (q + 1)" using True by simp
      ultimately show ?thesis by (simp only: n(1) mod_mult_self1_is_0)
    next
      case False
      have "(119 - n mod 64) mod 64 = 119 - r" using n False by simp
      moreover have "64 * q + r + 9 + (119 - r) = 64 * (q + 2)" using n(2) by simp
      ultimately show ?thesis by (simp only: n(1) mod_mult_self1_is_0)
    qed
  qed
  ultimately show ?thesis by (simp only: dvd_eq_mod_eq_0)
qed

section \<open>The code against FIPS 180-4\<close>

lemma secure_rotr32_fips: "0 < n \<Longrightarrow> n < 32 \<Longrightarrow> secure_rotr32 x n = word_rotr n x"
proof (rule bit_word_eqI)
  fix i assume n: "0 < n" "n < 32" and "i < LENGTH(32)"
  then have i: "i < 32" by simp
  have "(i + n) mod 32 = (if i + n < 32 then i + n else i - (32 - n))"
    using i n by (auto simp: mod_if)
  then show "bit (secure_rotr32 x n) i = bit (word_rotr n x) i"
    using i n by (auto simp: secure_rotr32_def bit_simps bit_word_rotr_iff add.commute dest: bit_imp_le_length)
qed

lemma byte_shift_in: "(a :: u32) * 256 + ucast (w :: u8) = push_bit 8 a OR ucast w"
proof -
  have "push_bit 8 a + ucast w = push_bit 8 a OR ucast w"
    by (rule disjunctive_add) (auto simp: bit_simps dest: bit_imp_le_length)
  then show ?thesis by (simp add: push_bit_eq_mult)
qed

lemma fips_value_word: "length b = 4 \<Longrightarrow> of_nat (fips_value b) = load_be32 b"
proof -
  assume "length b = 4"
  then obtain x y z w where b: "b = [x, y, z, w]" by (auto simp: numeral_eq_Suc length_Suc_conv)
  have "of_nat (fips_value b) = ((ucast x * 256 + ucast y) * 256 + ucast z) * 256 + (ucast w :: u32)"
    by (simp add: b fips_value_def mult.commute)
  also have "\<dots> = load_be32 b" unfolding byte_shift_in by (simp add: b load_be32_def push_bit_or numeral_eq_Suc ac_simps)
  finally show ?thesis .
qed

lemma fips_byte_word:
  "8 * i + 8 \<le> LENGTH('a::len) \<Longrightarrow>
     (of_nat (n div 256 ^ i) :: u8) = ucast (drop_bit (8 * i) (of_nat n :: 'a word) AND 0xFF)"
proof (rule bit_word_eqI)
  fix j assume "8 * i + 8 \<le> LENGTH('a)" "j < LENGTH(8)"
  moreover have "n div 256 ^ i = drop_bit (8 * i) n" by (simp add: drop_bit_eq_div power_mult)
  moreover have "bit (0xFF :: 'a word) j" if "j < 8" "8 \<le> LENGTH('a)" for j
    using that mask_eq_exp_minus_1[of 8, where 'a = "'a word"] bit_mask_iff[of 8 j, where 'a = "'a word"] by simp
  ultimately show "bit (of_nat (n div 256 ^ i) :: u8) j = bit (ucast (drop_bit (8 * i) (of_nat n :: 'a word) AND 0xFF) :: u8) j"
    by (simp add: bit_simps)
qed

lemma fips_bytes_word:
  "8 * n \<le> LENGTH('a::len) \<Longrightarrow>
     fips_bytes n x = map (\<lambda>i. ucast (drop_bit (8 * i) (of_nat x :: 'a word) AND 0xFF)) (rev [0..<n])"
  unfolding fips_bytes_def by (rule map_cong[OF refl], rule fips_byte_word) auto

lemma fips_bytes_4: "fips_bytes 4 (unat x) = store_be32 x"
  using fips_bytes_word[where 'a = 32, of 4 "unat x"] by (simp add: store_be32_def upt_conv_Cons)

lemma fips_bytes_8: "fips_bytes 8 (8 * n) = be64 (of_nat n * 8)"
  using fips_bytes_word[where 'a = 64, of 8 "8 * n"] by (simp add: be64_def upt_conv_Cons mult.commute)

lemma fips_pad_code: "fips_pad m = sha_pad m"
  by (simp add: fips_pad_def sha_pad_def fips_bytes_8)

lemma fips_constants: "fips_H0 = sha256_H0" "t < 64 \<Longrightarrow> fips_K t = kSha256 ! t"
proof -
  show "fips_H0 = sha256_H0" by (simp add: fips_H0_values sha256_H0_def)
  assume "t < 64"
  then have "fips_K t = map fips_K [0..<64] ! t" by simp
  then show "fips_K t = kSha256 ! t" by (simp only: fips_K_values kSha256_def)
qed

lemma sha_schedule_fips:
  "sha_schedule data = map (fips_W (\<lambda>t. load_be32 (drop (t * 4) data))) [0..<64]"
proof -
  let ?W = "fips_W (\<lambda>t. load_be32 (drop (t * 4) data))"
  have "for_up 16 (16 + n) sha_schedule_step (map (\<lambda>t. load_be32 (drop (t * 4) data)) [0..<16]) = map ?W [0..<16 + n]" for n
  proof (induction n)
    case 0
    then show ?case by (simp add: fips_W.simps)
  next
    case (Suc n)
    have "?W (16 + n) = ?W n + fips_sigma0 (?W (n + 1)) + ?W (9 + n) + fips_sigma1 (?W (14 + n))"
      by (subst fips_W.simps) (simp add: ac_simps)
    then have "sha_schedule_step (16 + n) (map ?W [0..<16 + n]) = map ?W [0..<16 + n] @ [?W (16 + n)]"
      by (simp add: sha_schedule_step_def Let_def secure_rotr32_fips fips_sigma0_def fips_sigma1_def
          nth_append drop_bit_eq_div)
    then show ?case
      unfolding add_Suc_right for_up_Suc[OF le_add1] Suc.IH by (simp only: upt_Suc le0 if_True map_append list.map)
  qed
  from this[of 48] show ?thesis by (simp add: sha_schedule_def)
qed

lemma prod_cases8 [case_names tuple]:
  obtains a b c d e f g h where "y = (a, b, c, d, e, f, g, h)"
  by (cases y) auto

lemma sha_round_fips:
  "t < 64 \<Longrightarrow> sha_round (kSha256 ! t) (fips_W M t) (fips_vars M start t) = fips_vars M start (Suc t)"
  by (cases "fips_vars M start t" rule: prod_cases8)
    (simp add: Let_def secure_rotr32_fips fips_Sigma0_def fips_Sigma1_def fips_Ch_def fips_Maj_def fips_constants(2))

lemma sha_compress_fips:
  assumes "length data = 64"
  shows "sha_compress data H = fips_block data H"
proof -
  have M: "of_nat (fips_value (take 4 (drop (4 * t) data))) = load_be32 (drop (t * 4) data)" if "t < 16" for t
    using that assms by (subst fips_value_word) (simp_all add: load_be32_def mult.commute)
  let ?M = "\<lambda>t. load_be32 (drop (t * 4) data)" and ?N = "\<lambda>t. of_nat (fips_value (take 4 (drop (4 * t) data)))"
  have W: "fips_W ?N t = fips_W ?M t" for t
    by (induction t rule: less_induct) (subst (1 2) fips_W.simps, simp add: M)
  have "for_up 0 n (\<lambda>i. sha_round (kSha256 ! i) (sha_schedule data ! i)) start = fips_vars ?N start n" if "n \<le> 64" for n start
    using that by (induction n) (simp_all add: for_up_Suc sha_schedule_fips sha_round_fips del: fips_vars.simps(2) flip: W)
  then show ?thesis by (simp add: sha_compress_def fips_block_def Let_def add.commute split: prod.split)
qed

lemma chunks64_length: "b \<in> set (chunks64 xs) \<Longrightarrow> length b = 64"
proof (induction xs rule: chunks64.induct)
  case (1 xs)
  then show ?case by (cases "length xs < 64") (auto simp: chunks64.simps[of xs])
qed

lemma sha256_reference_code:
  "sha256_reference m = concat (map store_be32 (fold sha_compress (chunks64 (sha_pad m)) sha256_H0))"
proof -
  have "fold fips_block (chunks64 (sha_pad m)) H = fold sha_compress (chunks64 (sha_pad m)) H" for H
    by (rule fold_cong[OF refl refl], rule ext, rule sha_compress_fips[symmetric], rule chunks64_length)
  then show ?thesis by (simp add: sha256_reference_def fips_pad_code fips_bytes_4 fips_constants(1))
qed

section \<open>The context after absorbing a message\<close>

definition ctx_abs :: "Sha256Ctx \<Rightarrow> u8 list \<Rightarrow> bool" where
  "ctx_abs ctx m \<longleftrightarrow> length (sha_block ctx) = 64 \<and> sha_block_len ctx = length m mod 64
     \<and> take (length m mod 64) (sha_block ctx) = drop (length m div 64 * 64) m
     \<and> sha_total_len ctx = of_nat (length m div 64 * 64)
     \<and> sha_state ctx = fold sha_compress (chunks64 (take (length m div 64 * 64) m)) sha256_H0"

lemma ctx_abs_init: "length (sha_block ctx) = 64 \<Longrightarrow> ctx_abs (sha256_init ctx) []"
  by (simp add: ctx_abs_def sha256_init_def)

lemma div_mod_Suc_64:
  fixes n :: nat
  shows "n mod 64 = 63 \<Longrightarrow> Suc n div 64 = Suc (n div 64) \<and> Suc n mod 64 = 0"
    and "n mod 64 \<noteq> 63 \<Longrightarrow> Suc n div 64 = n div 64 \<and> Suc n mod 64 = Suc (n mod 64)"
  by (simp_all add: mod_Suc div_Suc)

lemma push_take:
  "length xs = 64 \<Longrightarrow> n < 64 \<Longrightarrow> take (Suc n) (xs[n := b]) = take n xs @ [b]"
  by (simp add: take_Suc_conv_app_nth)

lemma ctx_abs_byte:
  assumes "ctx_abs ctx m" shows "ctx_abs (sha256_update_byte b ctx) (m @ [b])"
proof -
  let ?n = "length m" and ?full = "length m div 64 * 64"
  have c: "length (sha_block ctx) = 64" "sha_block_len ctx = ?n mod 64"
    "take (?n mod 64) (sha_block ctx) = drop ?full m" "sha_total_len ctx = of_nat ?full"
    "sha_state ctx = fold sha_compress (chunks64 (take ?full m)) sha256_H0"
    using assms by (auto simp: ctx_abs_def)
  let ?blk = "(sha_block ctx)[?n mod 64 := b]"
  have blk: "take (Suc (?n mod 64)) ?blk = drop ?full (m @ [b])"
    using push_take[OF c(1), of "?n mod 64" b] c(3) by simp
  show ?thesis
  proof (cases "?n mod 64 = 63")
    case True
    note d = div_mod_Suc_64(1)[OF True]
    have full: "?blk = drop ?full (m @ [b])" using blk True c(1) by simp
    have "chunks64 (m @ [b]) = chunks64 (take ?full m @ drop ?full (m @ [b]))"
      by (simp flip: append_assoc)
    also have "\<dots> = chunks64 (take ?full m) @ [?blk]"
      using c(1) full[symmetric] by (subst chunks64_append) simp_all
    finally have ch: "chunks64 (m @ [b]) = chunks64 (take ?full m) @ [?blk]" .
    have "Suc ?n = Suc (?n div 64) * 64" using d by (metis add.right_neutral mult_div_mod_eq mult.commute)
    then have all: "take (Suc (?n div 64) * 64) (m @ [b]) = m @ [b]" "drop (Suc (?n div 64) * 64) (m @ [b]) = []"
      by simp_all
    show ?thesis
      using True c d ch all
      by (simp add: ctx_abs_def sha256_update_byte_def sha256_push_def sha256_transform_def Let_def algebra_simps)
  next
    case False
    note d = div_mod_Suc_64(2)[OF False]
    have "Suc (?n mod 64) \<noteq> 64" using False by simp
    then show ?thesis using c d blk
      by (simp add: ctx_abs_def sha256_update_byte_def sha256_push_def Let_def)
  qed
qed

lemma ctx_abs_update: "ctx_abs ctx m \<Longrightarrow> ctx_abs (sha256_update ctx d) (m @ d)"
proof (induction d arbitrary: ctx m)
  case (Cons b d)
  then show ?case using Cons.IH[OF ctx_abs_byte[OF Cons.prems, of b]] by (simp add: sha256_update_def)
qed (simp add: sha256_update_def)

section \<open>Finishing\<close>

text \<open>A buffer with fill level \<open>n\<close> and contents \<open>p\<close> up to there.\<close>

definition filled :: "Sha256Ctx \<Rightarrow> u8 list \<Rightarrow> u32 list \<Rightarrow> bool" where
  "filled ctx p st \<longleftrightarrow> length (sha_block ctx) = 64 \<and> sha_block_len ctx = length p
     \<and> take (length p) (sha_block ctx) = p \<and> sha_state ctx = st"

lemma filled_push: "filled ctx p st \<Longrightarrow> length p < 64 \<Longrightarrow> filled (sha256_push ctx b) (p @ [b]) st"
  by (simp add: filled_def sha256_push_def push_take)

lemma filled_fill:
  assumes "filled ctx p st" "length p \<le> n" "n \<le> 64"
  shows "filled (sha256_fill n ctx) (p @ replicate (n - length p) 0) st"
proof -
  have "k \<le> 64 - length p \<Longrightarrow>
      filled (for_up (length p) (length p + k) (\<lambda>_ ctx. sha256_push ctx 0) ctx) (p @ replicate k 0) st" for k
  proof (induction k)
    case 0
    then show ?case using assms(1) by simp
  next
    case (Suc k)
    have "p @ replicate (Suc k) (0::u8) = (p @ replicate k 0) @ [0]" by (simp add: replicate_append_same)
    then show ?case using Suc filled_push[of _ "p @ replicate k 0" st 0] assms by (simp add: for_up_Suc)
  qed
  from this[of "n - length p"] show ?thesis using assms by (simp add: sha256_fill_def filled_def)
qed

lemma filled_pushes:
  "filled ctx p st \<Longrightarrow> length p + length xs \<le> 64 \<Longrightarrow>
     filled (fold (\<lambda>x ctx. sha256_push ctx (f x)) xs ctx) (p @ map f xs) st"
proof (induction xs arbitrary: ctx p)
  case (Cons x xs)
  then show ?case using Cons.IH[OF filled_push[OF Cons.prems(1), of "f x"]] by simp
qed simp

lemma filled_whole: "filled ctx p st \<Longrightarrow> length p = 64 \<Longrightarrow> sha_block ctx = p"
  by (metis filled_def order_refl take_all)

lemma sha256_final_abs:
  assumes "ctx_abs ctx m" shows "sha256_final ctx = sha256_reference m"
proof -
  let ?n = "length m" and ?r = "length m mod 64" and ?full = "length m div 64 * 64"
  let ?p = "drop ?full m" and ?st = "sha_state ctx"
  have lp: "length ?p = ?r" by (simp add: minus_div_mult_eq_mod)
  have c: "length (sha_block ctx) = 64" "sha_block_len ctx = ?r"
    "?st = fold sha_compress (chunks64 (take ?full m)) sha256_H0" "take ?r (sha_block ctx) = ?p"
    using assms by (auto simp: ctx_abs_def)
  have "sha_total_len ctx + of_nat (sha_block_len ctx) = of_nat (?full + ?r)"
    using assms by (simp only: ctx_abs_def of_nat_add)
  then have bits: "(sha_total_len ctx + of_nat (sha_block_len ctx)) * 8 = of_nat ?n * 8" by simp
  have f0: "filled ctx ?p ?st" using c lp by (simp add: filled_def)
  let ?L = "be64 (of_nat ?n * 8)"
  let ?pad = "?p @ [0x80] @ replicate ((119 - ?r) mod 64) 0 @ ?L"
  define c1 where "c1 = sha256_push ctx 0x80"
  have f1: "filled c1 (?p @ [0x80]) ?st" unfolding c1_def by (rule filled_push[OF f0]) (simp add: lp)
  have pad: "sha_pad m = take ?full m @ ?pad"
    using append_take_drop_id[of ?full m] by (simp add: sha_pad_def del: append_take_drop_id)
  have ref: "sha256_reference m = concat (map store_be32 (fold sha_compress (chunks64 ?pad) ?st))"
    unfolding sha256_reference_code pad by (subst chunks64_append) (simp_all add: c(3))
  define finish where "finish = (\<lambda>c. let c = sha256_fill 56 c;
        c = fold (\<lambda>i ctx. sha256_push ctx (ucast (drop_bit (i * 8) (of_nat ?n * 8 :: u64) AND 0xFF))) [7, 6, 5, 4, 3, 2, 1, 0] c;
        c = sha256_transform c (sha_block c) in concat (map store_be32 (sha_state c)))"
  have fin: "finish c' = concat (map store_be32 (sha_compress (q @ replicate (56 - length q) 0 @ ?L) st))"
    if "filled c' q st" "length q \<le> 56" for c' q st
  proof -
    define c2 where "c2 = fold (\<lambda>i ctx. sha256_push ctx (ucast (drop_bit (i * 8) (of_nat ?n * 8 :: u64) AND 0xFF)))
       [7, 6, 5, 4, 3, 2, 1, 0] (sha256_fill 56 c')"
    have "filled (sha256_fill 56 c') (q @ replicate (56 - length q) 0) st"
      by (rule filled_fill) (use that in simp_all)
    then have "filled c2 ((q @ replicate (56 - length q) 0) @ ?L) st"
      unfolding c2_def be64_def by (rule filled_pushes) (use that in simp)
    then have f: "filled c2 ((q @ replicate (56 - length q) 0) @ ?L) st" .
    have "length ((q @ replicate (56 - length q) 0) @ ?L) = 64" using that(2) by simp
    then have "sha_block c2 = (q @ replicate (56 - length q) 0) @ ?L" "sha_state c2 = st"
      using f by (rule filled_whole[rotated], simp add: filled_def)
    then show ?thesis unfolding finish_def Let_def c2_def[symmetric] by (simp add: sha256_transform_def)
  qed
  have len1: "sha_block_len c1 = ?r + 1" using f1 lp by (simp add: filled_def)
  show ?thesis
  proof (cases "?r + 1 > 56")
    case False
    then have "?r \<le> 55" by simp
    then have "(119 - ?r) mod 64 = 55 - ?r" by (rule pad_count)
    then have one: "chunks64 ?pad = [(?p @ [0x80]) @ replicate (56 - length (?p @ [0x80])) 0 @ ?L]"
      using lp \<open>?r \<le> 55\<close> by (subst chunks64_one) simp_all
    have "sha256_final ctx = finish c1"
      using False len1 bits by (simp add: sha256_final_def finish_def Let_def c1_def)
    also have "\<dots> = sha256_reference m"
    proof -
      have "length (?p @ [0x80]) \<le> 56" using \<open>?r \<le> 55\<close> lp by simp
      from fin[OF f1 this] show ?thesis unfolding ref one by simp
    qed
    finally show ?thesis .
  next
    case True
    then have r: "56 \<le> ?r" "?r < 64" by simp_all
    have z: "(119 - ?r) mod 64 = (63 - ?r) + 56" using r by (rule pad_count_late)
    let ?b1 = "?p @ [0x80] @ replicate (63 - ?r) 0"
    define c2 where "c2 = sha256_fill 64 c1"
    have f2: "filled c2 ?b1 ?st"
    proof -
      have lq: "length (?p @ [0x80]) = ?r + 1" by (simp only: length_append lp) simp
      show ?thesis using filled_fill[OF f1, of 64, unfolded lq] r(2) by (simp add: c2_def)
    qed
    have l1: "length ?b1 = 64" using lp r by simp
    define c3 where "c3 = (sha256_transform c2 (sha_block c2))\<lparr>sha_block_len := 0\<rparr>"
    have f3: "filled c3 [] (sha_compress ?b1 ?st)"
      using f2 filled_whole[OF f2 l1] by (simp add: c3_def filled_def sha256_transform_def)
    have pd: "?pad = ?b1 @ replicate 56 0 @ ?L" unfolding z replicate_add by simp
    have two: "chunks64 ?pad = [?b1, replicate 56 0 @ ?L]"
      unfolding pd by (subst chunks64_append) (simp_all add: l1)
    have "sha256_final ctx = finish c3"
      using True len1 bits by (simp add: sha256_final_def finish_def Let_def c1_def c2_def c3_def)
    also have "\<dots> = sha256_reference m"
      using fin[OF f3] unfolding ref two by simp
    finally show ?thesis .
  qed
qed

section \<open>Streaming hashes\<close>

text \<open>What HMAC and the measurements need of a hash that is fed in pieces.\<close>

locale streaming_hash =
  fixes start :: 'c and absorb :: "'c \<Rightarrow> 'b list \<Rightarrow> 'c" and finish :: "'c \<Rightarrow> 'd"
    and digest :: "'b list \<Rightarrow> 'd"
  assumes absorb_append: "absorb (absorb c x) y = absorb c (x @ y)"
    and absorb_nil: "absorb c [] = c"
    and finish_digest: "finish (absorb start m) = digest m"
begin

lemma absorb_parts: "fold (\<lambda>p c. absorb c p) ps (absorb c x) = absorb c (x @ concat ps)"
  by (induction ps arbitrary: x) (simp_all add: absorb_append)

lemma digest_parts: "finish (fold (\<lambda>p c. absorb c p) ps start) = digest (concat ps)"
  using absorb_parts[of ps start "[]"] by (simp add: absorb_nil finish_digest)

end

interpretation sha256: streaming_hash "sha256_init fresh_ctx" sha256_update sha256_final sha256_reference
proof
  show "sha256_update (sha256_update c x) y = sha256_update c (x @ y)" for c x y
    by (simp add: sha256_update_def)
  show "sha256_update c [] = c" for c by (simp add: sha256_update_def)
  show "sha256_final (sha256_update (sha256_init fresh_ctx) m) = sha256_reference m" for m
    using ctx_abs_update[OF ctx_abs_init, of fresh_ctx m] by (simp add: sha256_final_abs fresh_ctx_def)
qed

lemma sha256_of_reference: "sha256_of parts = sha256_reference (concat parts)"
  by (simp add: sha256_of_def sha256.digest_parts)

lemma length_sha_compress [simp]: "length (sha_compress d s) = 8"
  by (simp add: sha_compress_def Let_def split: prod.split)

lemma length_concat_be32: "length (concat (map store_be32 ws)) = 4 * length ws"
  by (induction ws) simp_all

lemma length_sha_state: "length (fold sha_compress ds sha256_H0) = 8"
  by (induction ds rule: rev_induct) (simp_all add: sha256_H0_def)

lemma length_sha256_reference [simp]: "length (sha256_reference m) = 32"
  by (simp add: sha256_reference_code length_concat_be32 length_sha_state)

lemma length_sha256_of [simp]: "length (sha256_of ps) = 32"
  by (simp add: sha256_of_reference)

lemma length_hmac_sha256 [simp]: "length (hmac_sha256 k d) = 32"
  by (simp add: hmac_sha256_def Let_def)

section \<open>HMAC and HKDF against their definitions\<close>

text \<open>RFC 2104 over the reference hash, for keys of any length.\<close>

definition hmac_reference :: "u8 list \<Rightarrow> u8 list \<Rightarrow> u8 list" where
  "hmac_reference key data =
     (let k = (if length key > 64 then sha256_reference key else key);
          k = k @ replicate (64 - length k) 0
      in sha256_reference (map (\<lambda>b. b XOR 0x5C) k @ sha256_reference (map (\<lambda>b. b XOR 0x36) k @ data)))"

text \<open>RFC 5869: \<open>T(0)\<close> is empty, \<open>T(n+1) = HMAC(PRK, T(n) | info | n+1)\<close>.\<close>

fun hkdf_T :: "u8 list \<Rightarrow> u8 list \<Rightarrow> nat \<Rightarrow> u8 list" where
  "hkdf_T prk info 0 = []"
| "hkdf_T prk info (Suc n) = hmac_reference prk (hkdf_T prk info n @ info @ [of_nat (Suc n)])"

definition hkdf_reference :: "u8 list \<Rightarrow> u8 list \<Rightarrow> u8 list \<Rightarrow> nat \<Rightarrow> u8 list" where
  "hkdf_reference ikm salt info n =
     take n (concat (map (hkdf_T (hmac_reference salt ikm) info) [1..<(n + 31) div 32 + 1]))"

lemma hmac_key_block_pad:
  "hmac_key_block key = (let k = (if length key > 64 then sha256_reference key else key)
     in k @ replicate (64 - length k) 0)"
proof -
  have "map (\<lambda>i. if i < length k then k ! i else 0) [0..<64] = k @ replicate (64 - length k) (0::u8)"
    if "length k \<le> 64" for k
    using that by (intro nth_equalityI) (auto simp: nth_append)
  then show ?thesis by (simp add: hmac_key_block_def sha256_of_reference Let_def)
qed

lemma hmac_sha256_reference: "hmac_sha256 key data = hmac_reference key data"
  by (simp add: hmac_sha256_def hmac_reference_def hmac_key_block_pad sha256_of_reference Let_def)

lemma length_hkdf_T: "0 < n \<Longrightarrow> length (hkdf_T prk info n) = 32"
  by (cases n) (simp_all flip: hmac_sha256_reference)

lemma length_hkdf_T_all: "length (hkdf_T prk info n) = (if n = 0 then 0 else 32)"
  by (simp add: length_hkdf_T)

lemma length_hkdf_blocks: "length (concat (map (hkdf_T prk info) [1..<Suc n])) = 32 * n"
  by (induction n) (simp_all add: length_hkdf_T del: hkdf_T.simps)

lemma hkdf_blocks_Suc:
  "concat (map (hkdf_T prk info) [1..<Suc (Suc n)]) =
     concat (map (hkdf_T prk info) [1..<Suc n]) @ hkdf_T prk info (Suc n)"
  by simp

lemma take_hkdf_blocks:
  assumes "L \<le> 32 * n"
  shows "take L (concat (map (hkdf_T prk info) [1..<Suc (n + d)])) =
    take L (concat (map (hkdf_T prk info) [1..<Suc n]))"
proof (induction d)
  case (Suc d)
  have "L \<le> length (concat (map (hkdf_T prk info) [1..<Suc (n + d)]))"
    unfolding length_hkdf_blocks using assms by simp
  then have "take L (concat (map (hkdf_T prk info) [1..<Suc (Suc (n + d))])) =
      take L (concat (map (hkdf_T prk info) [1..<Suc (n + d)]))"
    unfolding hkdf_blocks_Suc by simp
  then show ?case using Suc by simp
qed simp

definition hkdf_fits :: "nat \<Rightarrow> nat \<Rightarrow> nat \<Rightarrow> bool" where
  "hkdf_fits info_len L n \<longleftrightarrow> (\<forall>k \<ge> n. 32 * k < L \<longrightarrow> (if k = 0 then 0 else 32) + info_len + 1 \<le> 64)"

lemma hkdf_expand_reference:
  assumes "okm = take L (concat (map (hkdf_T prk info) [1..<Suc n]))"
  shows "hkdf_expand prk info L (hkdf_T prk info n) (of_nat (Suc n)) okm =
    (if hkdf_fits (length info) L n
     then Some (take L (concat (map (hkdf_T prk info) [1..<(L + 31) div 32 + 1]))) else None)"
  using assms
proof (induction "L - 32 * n" arbitrary: n okm rule: less_induct)
  case less
  let ?T = "hkdf_T prk info" and ?B = "\<lambda>n. concat (map (hkdf_T prk info) [1..<Suc n])"
  have len: "length okm = min L (32 * n)"
    unfolding less.prems length_take length_hkdf_blocks by simp
  show ?case
  proof (cases "32 * n < L")
    case False
    then have fits: "hkdf_fits (length info) L n" by (auto simp: hkdf_fits_def)
    have N: "L \<le> 32 * ((L + 31) div 32)" "(L + 31) div 32 \<le> n" using False by auto
    then obtain d where "n = (L + 31) div 32 + d" using le_Suc_ex by blast
    then have "okm = take L (?B ((L + 31) div 32))"
      unfolding less.prems using take_hkdf_blocks[OF N(1)] by simp
    then show ?thesis using fits False len by (subst hkdf_expand.simps) simp
  next
    case True
    have lt: "length okm < L" "length okm = 32 * n" using True len by simp_all
    show ?thesis
    proof (cases "length (?T n) + length info + 1 > 64")
      case big: True
      then have "\<not> hkdf_fits (length info) L n"
        using True by (auto simp: hkdf_fits_def length_hkdf_T_all split: if_splits)
      then show ?thesis using big lt by (subst hkdf_expand.simps) simp
    next
      case small: False
      then have fits: "hkdf_fits (length info) L n = hkdf_fits (length info) L (Suc n)"
      proof -
        have "(\<forall>k\<ge>n. P k) \<longleftrightarrow> P n \<and> (\<forall>k\<ge>Suc n. P k)" for P
        proof (safe intro!: Suc_leD)
          fix k assume "P n" "\<forall>k\<ge>Suc n. P k" "n \<le> k"
          then show "P k" by (cases "k = n") auto
        qed (auto intro: Suc_leD)
        then show ?thesis unfolding hkdf_fits_def using small by (simp add: length_hkdf_T_all)
      qed
      have t: "hmac_sha256 prk (?T n @ info @ [of_nat (Suc n)]) = ?T (Suc n)"
        by (simp add: hmac_sha256_reference)
      let ?c = "if L - length okm > 32 then 32 else L - length okm"
      have c: "?c \<le> 32" by simp
      have "map (\<lambda>i. ?T (Suc n) ! i) [0..<?c] = take ?c (?T (Suc n))"
        using length_hkdf_T[of "Suc n" prk info] c by (intro nth_equalityI) auto
      moreover have "take ?c (?T (Suc n)) = take (L - 32 * n) (?T (Suc n))"
        using length_hkdf_T[of "Suc n" prk info] lt(2) by simp
      moreover have "take L (?B (Suc n)) = okm @ take (L - 32 * n) (?T (Suc n))"
        unfolding hkdf_blocks_Suc take_append length_hkdf_blocks less.prems ..
      ultimately have okm: "okm @ map (\<lambda>i. ?T (Suc n) ! i) [0..<?c] = take L (?B (Suc n))" by simp
      have "hkdf_expand prk info L (?T n) (of_nat (Suc n)) okm =
          hkdf_expand prk info L (?T (Suc n)) (of_nat (Suc (Suc n))) (take L (?B (Suc n)))"
        using lt small t okm by (subst hkdf_expand.simps) (simp add: Let_def add.commute del: hkdf_T.simps)
      then show ?thesis unfolding fits using less.hyps[OF _ refl, of "Suc n"] True by simp
    qed
  qed
qed

section \<open>Properties\<close>

text \<open>
  C31: Feeding a message to the streaming SHA-256 in any pieces, whatever the block buffer of the fresh
  context holds, and finishing gives the SHA-256 of FIPS 180-4 of the whole message. The reference is
  the standard's own text: the constants are the first bits of the fractional parts of the square and
  cube roots of the first primes, the schedule, the rotations, \<open>Ch\<close> and \<open>Maj\<close> those of its sections 4
  and 6; it shares no definition with the model of the code.
\<close>

theorem sha256_streaming_reference:
  assumes "length (sha_block ctx) = 64"
  shows "sha256_final (fold (\<lambda>p c. sha256_update c p) parts (sha256_init ctx)) = sha256_reference (concat parts)"
proof -
  have "ctx_abs c m \<Longrightarrow> ctx_abs (fold (\<lambda>p c. sha256_update c p) parts c) (m @ concat parts)" for c m
  proof (induction parts arbitrary: c m)
    case (Cons p parts)
    then show ?case using Cons.IH[OF ctx_abs_update[OF Cons.prems, of p]] by simp
  qed simp
  from this[OF ctx_abs_init[OF assms]] show ?thesis by (simp add: sha256_final_abs)
qed

theorem sha256_streaming_reference_witness:
  "sha256_final (fold (\<lambda>p c. sha256_update c p) [[1, 2], [], replicate 70 3]
     (sha256_init (fresh_ctx\<lparr>sha_block := replicate 64 0xAA\<rparr>))) = sha256_reference ([1, 2] @ replicate 70 3)"
  using sha256_streaming_reference[of "fresh_ctx\<lparr>sha_block := replicate 64 0xAA\<rparr>" "[[1, 2], [], replicate 70 3]"]
  by simp

text \<open>
  C32: \<open>hmac_sha256\<close> is the HMAC of RFC 2104 for keys and data of any length, and \<open>hkdf_sha256\<close>
  yields the output keying material of RFC 5869 exactly when its message buffer of 64 bytes suffices:
  with an info of at most 63 bytes for one output block and at most 31 bytes for more; otherwise it
  writes past the buffer.
\<close>

theorem hmac_hkdf_reference:
  "hmac_sha256 key data = hmac_reference key data \<and>
   hkdf_sha256 ikm salt info L =
     (if L = 0 \<or> length info \<le> 63 \<and> (L \<le> 32 \<or> length info \<le> 31)
      then Some (hkdf_reference ikm salt info L) else None)"
proof -
  have fits: "hkdf_fits i L 0 \<longleftrightarrow> L = 0 \<or> i \<le> 63 \<and> (L \<le> 32 \<or> i \<le> 31)" for i
  proof
    assume f: "hkdf_fits i L 0"
    show "L = 0 \<or> i \<le> 63 \<and> (L \<le> 32 \<or> i \<le> 31)"
    proof (rule disjCI)
      assume L: "\<not> (i \<le> 63 \<and> (L \<le> 32 \<or> i \<le> 31))"
      show "L = 0" using f[unfolded hkdf_fits_def, rule_format, of 0] f[unfolded hkdf_fits_def, rule_format, of 1] L
        by auto
    qed
  qed (auto simp: hkdf_fits_def)
  show ?thesis
    using hkdf_expand_reference[of "[]" L "hmac_sha256 salt ikm" info 0]
    by (simp add: hkdf_sha256_def hkdf_reference_def fits hmac_sha256_reference)
qed

end
