(* ===== verification/Block_Map.thy ===== *)
theory Block_Map
  imports Machine_Words
begin

text \<open>
  The epoch-dependent placement of the encrypted text blocks (\<open>secure_gcd32\<close>,
  \<open>secure_build_map_params\<close>, \<open>secure_map_block_with_params\<close> of \<open>src/3d.cpp\<close>): logical block
  \<open>start + i\<close> is stored at \<open>start + (mul * i + add) mod count\<close>. All quantities are 32-bit words, the
  product is formed in 64 bits. The lemmas show that the search for the multiplier ends with one that is
  coprime to the block count, so that the placement is a permutation.
\<close>

record SecureMapParams =
  map_start_block :: u32
  map_block_count :: u32
  map_mul :: u32
  map_add :: u32

function gcd_loop :: "u32 \<Rightarrow> u32 \<Rightarrow> u32" where
  "gcd_loop a b = (if b \<noteq> 0 then gcd_loop b (a mod b) else a)"
  by auto
termination
  by (relation "measure (\<lambda>(a, b). unat b)") (auto simp: unat_mod word_neq_0_conv word_less_nat_alt)

declare gcd_loop.simps [simp del]

definition secure_gcd32 :: "u32 \<Rightarrow> u32 \<Rightarrow> u32" where
  "secure_gcd32 a b = (let a = gcd_loop a b in if a \<noteq> 0 then a else 1)"

lemma unat_succ: "(x::u32) < y \<Longrightarrow> unat (x + 1) = unat x + 1"
  using unsigned_less[of y, where 'a = nat] by (simp add: word_less_nat_alt unat_word_ariths)

text \<open>The \<open>while\<close> loop of \<open>secure_build_map_params\<close>; it gives up after \<open>block_count + 8\<close> rounds.\<close>

function candidate_loop :: "u32 \<Rightarrow> u32 \<Rightarrow> u32 \<Rightarrow> u32" where
  "candidate_loop block_count candidate guard =
     (if secure_gcd32 candidate block_count \<noteq> 1 \<and> guard < block_count + 8
      then let candidate = candidate + 2;
               candidate = (if candidate \<ge> block_count then (candidate mod block_count) OR 1 else candidate)
           in candidate_loop block_count candidate (guard + 1)
      else candidate)"
  by auto
termination
proof (relation "measure (\<lambda>(block_count, candidate, guard). unat (block_count + 8) - unat guard)", goal_cases)
  case (2 block_count candidate guard)
  then have lt: "guard < block_count + 8" by simp
  then have "unat (guard + 1) = unat guard + 1" by (rule unat_succ)
  then show ?case using lt by (simp add: word_less_nat_alt)
qed simp

declare candidate_loop.simps [simp del]

definition secure_build_map_params :: "u32 \<Rightarrow> u32 \<Rightarrow> u32 \<Rightarrow> SecureMapParams" where
  "secure_build_map_params text_start text_end epoch =
     (let start_block = text_start div 4;
          end_block = text_end div 4;
          block_count = (if end_block > start_block then end_block - start_block else 0);
          p = \<lparr>map_start_block = start_block, map_block_count = block_count, map_mul = 1, map_add = 0\<rparr>
      in if block_count \<le> 1 then p
         else let seed = epoch XOR (text_start * 0x9E3779B9) XOR rotl32 text_end 7 XOR 0xC001D00D;
                  seed = secure_prng_step seed;
                  candidate = (seed mod block_count) OR 1;
                  candidate = (if candidate \<ge> block_count then (candidate mod block_count) OR 1 else candidate);
                  candidate = (if candidate = 0 then 1 else candidate);
                  candidate = candidate_loop block_count candidate 0;
                  candidate = (if secure_gcd32 candidate block_count \<noteq> 1 then 1 else candidate)
              in p\<lparr>map_mul := candidate,
                   map_add := secure_prng_step (seed XOR 0xA511E9B3) mod block_count\<rparr>)"

definition secure_map_block_with_params :: "u32 \<Rightarrow> SecureMapParams \<Rightarrow> u32" where
  "secure_map_block_with_params logical_block_addr p =
     (if map_block_count p \<le> 1 then logical_block_addr
      else let start = map_start_block p; stop = map_start_block p + map_block_count p in
        if logical_block_addr < start \<or> logical_block_addr \<ge> stop then logical_block_addr
        else let idx = logical_block_addr - start;
                 mapped = ucast ((ucast (map_mul p) * ucast idx + ucast (map_add p) :: u64)
                                   mod ucast (map_block_count p))
             in start + mapped)"

section \<open>The greatest common divisor\<close>

lemma unat_gcd_loop: "unat (gcd_loop a b) = gcd (unat a) (unat b)"
proof (induction a b rule: gcd_loop.induct)
  case (1 a b)
  show ?case
  proof (cases "b = 0")
    case True
    then show ?thesis by (simp add: gcd_loop.simps)
  next
    case False
    then show ?thesis using 1 by (subst gcd_loop.simps) (simp add: unat_mod gcd_red_nat[symmetric])
  qed
qed

lemma unat_secure_gcd32:
  "unat (secure_gcd32 a b) = (if a = 0 \<and> b = 0 then 1 else gcd (unat a) (unat b))"
proof (cases "gcd_loop a b = 0")
  case True
  then have "gcd (unat a) (unat b) = 0" using unat_gcd_loop[of a b] by simp
  then have "a = 0 \<and> b = 0" by (simp add: unat_eq_zero)
  then show ?thesis using True by (simp add: secure_gcd32_def)
next
  case False
  moreover have "gcd_loop 0 0 = 0" by (subst gcd_loop.simps) simp
  ultimately have "\<not> (a = 0 \<and> b = 0)" by auto
  moreover have "secure_gcd32 a b = gcd_loop a b" using False by (simp add: secure_gcd32_def Let_def)
  ultimately show ?thesis by (simp only: unat_gcd_loop if_False)
qed

lemma secure_gcd32_coprime: "secure_gcd32 a b = 1 \<Longrightarrow> b \<noteq> 0 \<Longrightarrow> coprime (unat a) (unat b)"
  unfolding coprime_iff_gcd_eq_1 by (metis unat_secure_gcd32 unat_1)

section \<open>The placement is a permutation\<close>

definition well_placed :: "SecureMapParams \<Rightarrow> bool" where
  "well_placed p \<longleftrightarrow> unat (map_start_block p) + unat (map_block_count p) < 2 ^ 32
     \<and> (map_block_count p > 1 \<longrightarrow> coprime (unat (map_mul p)) (unat (map_block_count p)))"

definition placed :: "SecureMapParams \<Rightarrow> u32 \<Rightarrow> bool" where
  "placed p b \<longleftrightarrow> map_start_block p \<le> b \<and> unat b < unat (map_start_block p) + unat (map_block_count p)"

lemma build_count:
  "unat (map_start_block (secure_build_map_params ts te ep)) = unat ts div 4"
  "unat (map_block_count (secure_build_map_params ts te ep)) = unat te div 4 - unat ts div 4"
proof -
  have c: "unat (if te div 4 > ts div 4 then te div 4 - ts div 4 else 0) = unat te div 4 - unat ts div 4"
    by (auto simp: unat_sub unat_div word_less_nat_alt word_le_nat_alt)
  show "unat (map_start_block (secure_build_map_params ts te ep)) = unat ts div 4"
    by (simp add: secure_build_map_params_def Let_def unat_div)
  show "unat (map_block_count (secure_build_map_params ts te ep)) = unat te div 4 - unat ts div 4"
    using c by (simp add: secure_build_map_params_def Let_def)
qed

lemma build_well_placed: "well_placed (secure_build_map_params ts te ep)"
proof -
  let ?p = "secure_build_map_params ts te ep"
  have "unat ts < 2 ^ 32" "unat te < 2 ^ 32"
    using unsigned_less[of ts, where 'a = nat] unsigned_less[of te, where 'a = nat] by simp_all
  then have "unat ts div 4 + (unat te div 4 - unat ts div 4) < 2 ^ 32" by linarith
  moreover have "coprime (unat (map_mul ?p)) (unat (map_block_count ?p))" if "map_block_count ?p > 1"
  proof -
    have big: "\<not> (if te div 4 > ts div 4 then te div 4 - ts div 4 else 0) \<le> (1::u32)"
      using that by (simp add: secure_build_map_params_def Let_def not_le split: if_splits)
    then have "map_block_count ?p \<noteq> 0"
      using that by auto
    moreover have "map_mul ?p = 1 \<or> secure_gcd32 (map_mul ?p) (map_block_count ?p) = 1"
      using big by (simp add: secure_build_map_params_def Let_def)
    ultimately show ?thesis using secure_gcd32_coprime by auto
  qed
  ultimately show ?thesis by (simp add: well_placed_def build_count)
qed

lemma map_block_outside: "\<not> placed p b \<Longrightarrow> well_placed p \<Longrightarrow> secure_map_block_with_params b p = b"
  by (auto simp: secure_map_block_with_params_def placed_def well_placed_def Let_def word_less_nat_alt
      word_le_nat_alt unat_word_ariths)

lemma map_block_inside:
  assumes "well_placed p" "placed p b" "map_block_count p > 1"
  shows "unat (secure_map_block_with_params b p) = unat (map_start_block p) +
    (unat (map_mul p) * (unat b - unat (map_start_block p)) + unat (map_add p)) mod unat (map_block_count p)"
proof -
  let ?s = "map_start_block p" and ?n = "map_block_count p"
  have n: "0 < unat ?n" "unat ?n < 2 ^ 32"
    using assms(3) unsigned_less[of ?n, where 'a = nat] by (simp_all add: word_less_nat_alt)
  have idx: "unat (b - ?s) = unat b - unat ?s"
    using assms(2) by (simp add: placed_def unat_sub)
  let ?m = "unat (map_mul p)" and ?i = "unat b - unat ?s" and ?a = "unat (map_add p)"
  have bounds: "?m < 2 ^ 32" "?i < 2 ^ 32" "?a < 2 ^ 32"
    using unsigned_less[of "map_mul p", where 'a = nat] unsigned_less[of b, where 'a = nat]
      unsigned_less[of "map_add p", where 'a = nat] by simp_all
  have "?m * ?i \<le> (2 ^ 32 - 1) * (2 ^ 32 - 1)" by (rule mult_le_mono) (use bounds in simp_all)
  then have fit: "?m * ?i + ?a < 2 ^ 64" using bounds(3) by simp
  have up: "unat (ucast x :: u64) = unat x" for x :: u32
    using unsigned_less[of x, where 'a = nat]
    by (simp add: unsigned_ucast_eq take_bit_nat_eq_self)
  have prod: "unat (ucast (map_mul p) * ucast (b - ?s) + ucast (map_add p) :: u64) = ?m * ?i + ?a"
    using fit by (simp add: unat_word_ariths up idx)
  define q where "q = (?m * ?i + ?a) mod unat ?n"
  have q: "q < unat ?n" using n by (simp add: q_def)
  have "unat (ucast ((ucast (map_mul p) * ucast (b - ?s) + ucast (map_add p) :: u64) mod ucast ?n) :: u32) = q"
  proof -
    have "unat ((ucast (map_mul p) * ucast (b - ?s) + ucast (map_add p) :: u64) mod ucast ?n) = q"
      unfolding unat_mod prod up q_def ..
    then show ?thesis using q n(2) by (simp add: unsigned_ucast_eq take_bit_nat_eq_self)
  qed
  then show ?thesis
    using assms q n
    by (simp add: secure_map_block_with_params_def placed_def well_placed_def Let_def q_def[symmetric]
        word_less_nat_alt word_le_nat_alt unat_word_ariths not_less not_le)
qed

lemma map_block_placed:
  assumes "well_placed p" "placed p b"
  shows "placed p (secure_map_block_with_params b p)"
proof (cases "map_block_count p > 1")
  case True
  have "0 < unat (map_block_count p)" using True by (simp add: word_less_nat_alt)
  then show ?thesis using map_block_inside[OF assms True]
    by (simp add: placed_def word_le_nat_alt)
next
  case False
  then show ?thesis using assms by (simp add: secure_map_block_with_params_def not_less)
qed

lemma affine_inject:
  assumes "coprime m (n::nat)" "(m * i + a) mod n = (m * j + a) mod n" "i < n" "j < n"
  shows "i = j"
proof -
  have "x = y" if eq: "(m * x + a) mod n = (m * y + a) mod n" and "x < n" "y < n" "x \<le> y" for x y
  proof -
    have "m * x + a \<le> m * y + a" using that by simp
    then have "n dvd (m * y + a) - (m * x + a)" using mod_eq_dvd_iff_nat[of "m * x + a" "m * y + a" n] eq by simp
    then have "n dvd m * (y - x)" by (simp add: diff_mult_distrib2)
    then have "n dvd y - x" using assms(1) by (simp add: coprime_dvd_mult_right_iff coprime_commute)
    then show ?thesis using that by (auto dest!: dvd_imp_le)
  qed
  from this[of i j] this[of j i] show ?thesis using assms(2-4) by (cases "i \<le> j") auto
qed

lemma map_block_inject:
  assumes wp: "well_placed p" and eq: "secure_map_block_with_params b p = secure_map_block_with_params c p"
  shows "b = c"
proof (cases "map_block_count p > 1")
  case False
  then show ?thesis using eq by (simp add: secure_map_block_with_params_def not_less)
next
  case True
  show ?thesis
  proof (cases "placed p b \<and> placed p c")
    case both: True
    let ?s = "unat (map_start_block p)"
    have "unat b - ?s = unat c - ?s"
    proof (rule affine_inject)
      show "coprime (unat (map_mul p)) (unat (map_block_count p))" using wp True by (simp add: well_placed_def)
      show "(unat (map_mul p) * (unat b - ?s) + unat (map_add p)) mod unat (map_block_count p) =
          (unat (map_mul p) * (unat c - ?s) + unat (map_add p)) mod unat (map_block_count p)"
        using eq map_block_inside[OF wp _ True] both by (metis add_left_cancel)
    qed (use both in \<open>auto simp: placed_def word_le_nat_alt\<close>)
    then have "unat b = unat c" using both unfolding placed_def word_le_nat_alt by arith
    then show ?thesis by (simp add: word_unat_eq_iff)
  next
    case False
    then show ?thesis using eq map_block_outside[OF _ wp] map_block_placed[OF wp] by metis
  qed
qed

section \<open>Properties\<close>

text \<open>
  C33: Euclid's loop computes the greatest common divisor of any two words, with 1 for two zeros.
\<close>

theorem secure_gcd32_correct:
  "unat (secure_gcd32 a b) = (if a = 0 \<and> b = 0 then 1 else gcd (unat a) (unat b))"
  by (rule unat_secure_gcd32)

text \<open>
  C34: For every text range and epoch the placement of the text blocks is a permutation: it is a
  bijection of all block addresses, maps each block of the text range into the range, and leaves
  all other addresses alone. So no two blocks of an image are stored at one place, and none leaves
  the text region.
\<close>

theorem block_map_permutation:
  fixes text_start text_end epoch :: u32
  defines "p \<equiv> secure_build_map_params text_start text_end epoch"
  shows "bij (\<lambda>b. secure_map_block_with_params b p) \<and>
    (\<forall>b. if unat text_start div 4 \<le> unat b \<and> unat b < unat text_end div 4
         then unat text_start div 4 \<le> unat (secure_map_block_with_params b p) \<and>
              unat (secure_map_block_with_params b p) < unat text_end div 4
         else secure_map_block_with_params b p = b)"
proof -
  have wp: "well_placed p" unfolding p_def by (rule build_well_placed)
  have pl: "placed p b \<longleftrightarrow> unat text_start div 4 \<le> unat b \<and> unat b < unat text_end div 4" for b
    by (auto simp: placed_def p_def word_le_nat_alt build_count)
  have "inj (\<lambda>b. secure_map_block_with_params b p)"
    by (rule injI) (rule map_block_inject[OF wp])
  then have "bij (\<lambda>b. secure_map_block_with_params b p)"
    by (simp add: bij_def finite_UNIV_inj_surj)
  moreover have "if placed p b then placed p (secure_map_block_with_params b p)
      else secure_map_block_with_params b p = b" for b
    using map_block_placed[OF wp] map_block_outside[OF _ wp] by simp
  ultimately show ?thesis unfolding pl by blast
qed

end
