(* ===== verification/Sealed_Image.thy ===== *)
theory Sealed_Image
  imports Stacked_Memory Sha256 Block_Map
begin

text \<open>
  The sealed image of \<open>src/3d.cpp\<close>: the 32-word header of \<open>src/header.h\<close>, the application key wrapped
  under a session key derived from the device root, the nonce and the measurement of the text, its
  hidden copy at 128 bit positions, the key and image tags; creation, validation, extraction,
  resealing. The record \<open>sec\<close> extends the memory by the static variables of the file that these
  functions use. A function that reads memory through \<open>protectedRead\<close> returns its result with
  the state, since such a read can write the log. Output parameters and return codes are
  results; \<open>None\<close> is the C++ \<open>false\<close>. The wiping of local buffers has no observable effect.
\<close>

section \<open>State\<close>

record sec = smem +
  secure_text_start_addr :: u32
  secure_text_plain_words :: u32
  secure_text_enc_end :: u32
  secure_data_start_addr :: u32
  secure_data_plain_words :: u32
  secure_data_enc_end :: u32
  secure_data_flags :: u32
  secure_epoch :: u32
  secure_policy :: u32
  secure_runtime_region_valid :: bool
  secure_runtime_text_start_addr :: u32
  secure_runtime_text_plain_words :: u32
  secure_runtime_text_enc_end :: u32
  secure_runtime_data_start_addr :: u32
  secure_runtime_data_plain_words :: u32
  secure_runtime_data_enc_end :: u32
  secure_runtime_data_flags :: u32
  secure_runtime_epoch :: u32
  secure_runtime_map :: SecureMapParams
  secure_runtime_map_valid :: bool
  secret_map :: "nat \<Rightarrow> int"

record SecureHeaderState =
  h_policy :: u32
  h_text_start :: u32
  h_text_words :: u32
  h_text_end :: u32
  h_data_start :: u32
  h_data_words :: u32
  h_data_end :: u32
  h_data_flags :: u32
  h_epoch :: u32
  h_nonce :: block
  h_wrapped :: block
  h_key_tag :: block
  h_img_tag :: block
  h_measurements :: block

abbreviation (input) kTextStartAddr :: u32 where "kTextStartAddr \<equiv> 32"
abbreviation (input) SEC_HDR_WORDS :: nat where "SEC_HDR_WORDS \<equiv> 32"
definition SEC_HDR_MAGIC :: u32 where "SEC_HDR_MAGIC = 0x33444352"
definition SEC_HDR_VERSION :: u32 where "SEC_HDR_VERSION = 0x00020000"
definition SEC_HDR_FLAGS :: u32 where "SEC_HDR_FLAGS = 0x1 OR 0x2 OR 0x4 OR 0x8"
abbreviation (input) SEC_POLICY_RESEAL_READY :: u32 where "SEC_POLICY_RESEAL_READY \<equiv> 4"
abbreviation (input) SEC_DATA_FLAG_ENCRYPTED :: u32 where "SEC_DATA_FLAG_ENCRYPTED \<equiv> 1"

text \<open>Word offsets of the header.\<close>

abbreviation (input) W_MAGIC :: nat where "W_MAGIC \<equiv> 0"
abbreviation (input) W_VERSION :: nat where "W_VERSION \<equiv> 1"
abbreviation (input) W_FLAGS :: nat where "W_FLAGS \<equiv> 2"
abbreviation (input) W_POLICY :: nat where "W_POLICY \<equiv> 3"
abbreviation (input) W_TEXT_START :: nat where "W_TEXT_START \<equiv> 4"
abbreviation (input) W_TEXT_WORDS :: nat where "W_TEXT_WORDS \<equiv> 5"
abbreviation (input) W_TEXT_END :: nat where "W_TEXT_END \<equiv> 6"
abbreviation (input) W_EPOCH :: nat where "W_EPOCH \<equiv> 7"
abbreviation (input) W_NONCE0 :: nat where "W_NONCE0 \<equiv> 8"
abbreviation (input) W_WRAP0 :: nat where "W_WRAP0 \<equiv> 12"
abbreviation (input) W_KEYTAG0 :: nat where "W_KEYTAG0 \<equiv> 16"
abbreviation (input) W_IMGTAG0 :: nat where "W_IMGTAG0 \<equiv> 20"
abbreviation (input) W_MEAS0 :: nat where "W_MEAS0 \<equiv> 24"
abbreviation (input) W_DATA_START :: nat where "W_DATA_START \<equiv> 28"
abbreviation (input) W_DATA_WORDS :: nat where "W_DATA_WORDS \<equiv> 29"
abbreviation (input) W_DATA_END :: nat where "W_DATA_END \<equiv> 30"
abbreviation (input) W_DATA_FLAGS :: nat where "W_DATA_FLAGS \<equiv> 31"

section \<open>Words and bytes\<close>

definition secure_words_to_bytes :: "u32 list \<Rightarrow> u8 list" where
  "secure_words_to_bytes ws = concat (map store_be32 ws)"

definition secure_bytes_to_words :: "u8 list \<Rightarrow> block" where
  "secure_bytes_to_words bs = quad_gen (\<lambda>i. load_be32 (drop (i * 4) bs))"

definition secure_equal_words :: "block \<Rightarrow> block \<Rightarrow> bool" where
  "secure_equal_words a b = (for_up 0 4 (\<lambda>i diff. diff OR (quad_nth a i XOR quad_nth b i)) 0 = 0)"

section \<open>Mapping of text blocks and runtime region\<close>

definition secure_map_text_block :: "'a sec_scheme \<Rightarrow> u32 \<Rightarrow> u32" where
  "secure_map_text_block s b =
     (if secure_runtime_map_valid s then secure_map_block_with_params b (secure_runtime_map s)
      else secure_map_block_with_params b
             (secure_build_map_params (secure_text_start_addr s) (secure_text_enc_end s) (secure_epoch s)))"

definition secure_map_text_block_runtime :: "'a sec_scheme \<Rightarrow> u32 \<Rightarrow> u32" where
  "secure_map_text_block_runtime s b =
     (if \<not> secure_runtime_map_valid s then b else secure_map_block_with_params b (secure_runtime_map s))"

definition secure_apply_runtime_region :: "'a sec_scheme \<Rightarrow> SecureHeaderState \<Rightarrow> 'a sec_scheme" where
  "secure_apply_runtime_region s hdr =
     s\<lparr>secure_runtime_text_start_addr := h_text_start hdr,
       secure_runtime_text_plain_words := h_text_words hdr,
       secure_runtime_text_enc_end := h_text_end hdr,
       secure_runtime_data_start_addr := h_data_start hdr,
       secure_runtime_data_plain_words := h_data_words hdr,
       secure_runtime_data_enc_end := h_data_end hdr,
       secure_runtime_data_flags := h_data_flags hdr,
       secure_runtime_epoch := h_epoch hdr,
       secure_runtime_region_valid := True,
       secure_runtime_map := secure_build_map_params (h_text_start hdr) (h_text_end hdr) (h_epoch hdr),
       secure_runtime_map_valid := True\<rparr>"

section \<open>Nonce, root and hiding positions\<close>

definition secure_derive_nonce :: "block \<Rightarrow> SecureHeaderState \<Rightarrow> block" where
  "secure_derive_nonce app_key hdr =
     (let seed = 0x6A09E667 XOR quad_nth app_key 0 XOR rotl32 (quad_nth app_key 1) 5
                   XOR rotl32 (quad_nth app_key 2) 11 XOR rotl32 (quad_nth app_key 3) 17;
          seed = seed XOR h_text_start hdr * 0x9E3779B9;
          seed = seed XOR h_text_words hdr * 0x85EBCA6B;
          seed = seed XOR h_text_end hdr * 0xC2B2AE35;
          seed = seed XOR h_data_start hdr * 0x165667B1;
          seed = seed XOR h_data_words hdr * 0xD3A2646C;
          seed = seed XOR h_data_end hdr * 0xB5297A4D;
          seed = seed XOR h_data_flags hdr * 0x91E10DA5;
          seed = seed XOR h_epoch hdr * 0x27D4EB2D;
          n0 = secure_prng_step (seed + 0x9E3779B9 + 0 * 0x7F4A7C15);
          n1 = secure_prng_step (n0 + 0x9E3779B9 + 1 * 0x7F4A7C15);
          n2 = secure_prng_step (n1 + 0x9E3779B9 + 2 * 0x7F4A7C15);
          n3 = secure_prng_step (n2 + 0x9E3779B9 + 3 * 0x7F4A7C15)
      in Quad n0 n1 n2 n3)"

definition secure_derive_root_from_nonce :: "'a sec_scheme \<Rightarrow> block \<Rightarrow> block" where
  "secure_derive_root_from_nonce s nonce =
     quad_gen (\<lambda>i. deriveHardwareWord s (quad_nth nonce i) (0x31 + of_nat i))"

text \<open>
  The search for one position: at most \<open>n\<close> further of the 2048 attempts, each stepping the seed.
  The result is the position and the seed.
\<close>

fun place_position :: "u32 \<Rightarrow> u32 \<Rightarrow> u32 \<Rightarrow> u32 \<Rightarrow> u32 list \<Rightarrow> nat \<Rightarrow> nat \<Rightarrow> u32 \<Rightarrow> (u32 \<times> u32) option" where
  "place_position low span text_start text_end positions i 0 seed = None"
| "place_position low span text_start text_end positions i (Suc n) seed =
     (let attempt = 2048 - Suc n;
          seed = secure_prng_step (seed + 0xA511E9B3 + of_nat i * 0x3C6EF372 + of_nat attempt);
          wd = low + (seed mod span)
      in if wd < 32 then place_position low span text_start text_end positions i n seed
         else if wd \<ge> text_start \<and> wd < text_end
         then place_position low span text_start text_end positions i n seed
         else let pos = wd * 32 + (drop_bit 27 seed AND 31)
           in if pos \<in> set positions then place_position low span text_start text_end positions i n seed
              else Some (pos, seed))"

fun place_positions :: "u32 \<Rightarrow> u32 \<Rightarrow> u32 \<Rightarrow> u32 \<Rightarrow> nat \<Rightarrow> nat \<Rightarrow> u32 list \<Rightarrow> u32 \<Rightarrow> u32 list option" where
  "place_positions low span text_start text_end i 0 positions seed = Some positions"
| "place_positions low span text_start text_end i (Suc n) positions seed =
     (case place_position low span text_start text_end positions i 2048 seed of
        None \<Rightarrow> None
      | Some (pos, seed) \<Rightarrow> place_positions low span text_start text_end (i + 1) n (positions @ [pos]) seed)"

definition secure_generate_positions :: "block \<Rightarrow> u32 \<Rightarrow> u32 \<Rightarrow> u32 \<Rightarrow> u32 list option" where
  "secure_generate_positions nonce text_start text_end nwords =
     (if nwords \<le> 32 then None
      else let low = (if nwords > 640 then 512 else nwords div 2);
               low = (if low < 32 then 32 else low)
        in if low \<ge> nwords then None
           else let high = nwords - 1;
                    span = high - low + 1;
                    seed = quad_nth nonce 0 XOR rotl32 (quad_nth nonce 1) 3 XOR rotl32 (quad_nth nonce 2) 9
                             XOR rotl32 (quad_nth nonce 3) 15;
                    seed = seed XOR text_start * 0x9E3779B9;
                    seed = seed XOR text_end * 0x85EBCA6B
             in place_positions low span text_start text_end 0 128 [] seed)"

section \<open>Hiding and extracting the wrapped key\<close>

definition secure_extract_hidden_wrapped :: "'a sec_scheme \<Rightarrow> nat \<Rightarrow> u32 list \<Rightarrow> block \<times> 'a sec_scheme" where
  "secure_extract_hidden_wrapped s layer positions =
     for_up 0 128
       (\<lambda>i (wrapped, s).
          let bit_pos = unat (positions ! i);
              word_index = bit_pos div 32;
              bit_in_word = bit_pos mod 32;
              (word_val, s) = protectedRead s layer word_index;
              bit_val = drop_bit bit_in_word word_val AND 1;
              key_word = i div 32;
              key_bit = i mod 32
          in (quad_upd wrapped key_word (quad_nth wrapped key_word OR push_bit key_bit bit_val), s))
       (Quad 0 0 0 0, s)"

definition secure_hide_wrapped :: "'a sec_scheme \<Rightarrow> nat \<Rightarrow> u32 list \<Rightarrow> block \<Rightarrow> 'a sec_scheme" where
  "secure_hide_wrapped s layer positions wrapped =
     for_up 0 128
       (\<lambda>i s.
          let bit_pos = unat (positions ! i);
              word_index = bit_pos div 32;
              bit_in_word = bit_pos mod 32;
              key_word = i div 32;
              key_bit = i mod 32;
              bit_val = drop_bit key_bit (quad_nth wrapped key_word) AND 1;
              (tmp, s) = protectedRead s layer word_index;
              s = protectedWrite s layer word_index (set_bit_to tmp bit_in_word bit_val)
          in s\<lparr>secret_map := (secret_map s)(i := int bit_pos)\<rparr>)
       s"

section \<open>The header\<close>

definition read_quad :: "'a sec_scheme \<Rightarrow> nat \<Rightarrow> nat \<Rightarrow> block \<times> 'a sec_scheme" where
  "read_quad s layer base =
     (let (a, s) = protectedRead s layer base;
          (b, s) = protectedRead s layer (base + 1);
          (c, s) = protectedRead s layer (base + 2);
          (d, s) = protectedRead s layer (base + 3)
      in (Quad a b c d, s))"

definition header_ranges_ok :: "u32 \<Rightarrow> SecureHeaderState \<Rightarrow> bool" where
  "header_ranges_ok words hdr \<longleftrightarrow>
     \<not> (h_text_start hdr < kTextStartAddr \<or> h_text_start hdr > words
        \<or> (h_text_end hdr < h_text_start hdr \<or> h_text_end hdr > words)
        \<or> h_text_words hdr > h_text_end hdr - h_text_start hdr
        \<or> h_text_start hdr mod 4 \<noteq> 0 \<or> h_text_end hdr mod 4 \<noteq> 0
        \<or> h_data_start hdr < h_text_end hdr \<or> h_data_start hdr > words
        \<or> (h_data_end hdr < h_data_start hdr \<or> h_data_end hdr > words)
        \<or> h_data_words hdr > h_data_end hdr - h_data_start hdr
        \<or> h_data_start hdr mod 4 \<noteq> 0 \<or> h_data_end hdr mod 4 \<noteq> 0
        \<or> h_epoch hdr = 0)"

definition read_header_fields :: "'a sec_scheme \<Rightarrow> nat \<Rightarrow> SecureHeaderState \<times> 'a sec_scheme" where
  "read_header_fields s layer =
     (let (policy, s) = protectedRead s layer W_POLICY;
          (text_start, s) = protectedRead s layer W_TEXT_START;
          (text_words, s) = protectedRead s layer W_TEXT_WORDS;
          (text_end, s) = protectedRead s layer W_TEXT_END;
          (data_start, s) = protectedRead s layer W_DATA_START;
          (data_words, s) = protectedRead s layer W_DATA_WORDS;
          (data_end, s) = protectedRead s layer W_DATA_END;
          (data_flags, s) = protectedRead s layer W_DATA_FLAGS;
          (epoch, s) = protectedRead s layer W_EPOCH;
          (nonce, s) = read_quad s layer W_NONCE0;
          (wrapped, s) = read_quad s layer W_WRAP0;
          (key_tag, s) = read_quad s layer W_KEYTAG0;
          (img_tag, s) = read_quad s layer W_IMGTAG0;
          (measurements, s) = read_quad s layer W_MEAS0
      in (\<lparr>h_policy = policy, h_text_start = text_start, h_text_words = text_words,
           h_text_end = text_end, h_data_start = data_start, h_data_words = data_words,
           h_data_end = data_end, h_data_flags = data_flags, h_epoch = epoch, h_nonce = nonce,
           h_wrapped = wrapped, h_key_tag = key_tag, h_img_tag = img_tag,
           h_measurements = measurements\<rparr>, s))"

definition secure_decode_header ::
  "'a sec_scheme \<Rightarrow> nat \<Rightarrow> SecureHeaderState option \<times> 'a sec_scheme" where
  "secure_decode_header s layer =
     (let words = (of_nat (getNumWords s) :: u32) in
      if words \<le> 32 then (None, s)
      else
        let (magic, s) = protectedRead s layer W_MAGIC;
            (version, s) = protectedRead s layer W_VERSION;
            (flags, s) = protectedRead s layer W_FLAGS
        in if magic \<noteq> SEC_HDR_MAGIC \<or> version \<noteq> SEC_HDR_VERSION \<or> (flags AND SEC_HDR_FLAGS) \<noteq> SEC_HDR_FLAGS
           then (None, s)
           else let (hdr, s) = read_header_fields s layer
                in if header_ranges_ok words hdr then (Some hdr, s) else (None, s))"

section \<open>Measurement, keys and tags\<close>

text \<open>The bytes of a string literal.\<close>

definition literal_bytes :: "string \<Rightarrow> u8 list" where
  "literal_bytes str = map (\<lambda>c. of_nat (of_char c)) str"

definition phys_text_addr :: "SecureMapParams \<Rightarrow> u32 \<Rightarrow> u32" where
  "phys_text_addr m addr = secure_map_block_with_params (addr div 4) m * 4 + (addr mod 4)"

text \<open>The raw words of the text region in logical order, and of the data region.\<close>

definition text_raw_words :: "'a sec_scheme \<Rightarrow> nat \<Rightarrow> SecureHeaderState \<Rightarrow> u32 list" where
  "text_raw_words s layer hdr =
     (let m = secure_build_map_params (h_text_start hdr) (h_text_end hdr) (h_epoch hdr)
      in map (\<lambda>addr. rawRead s layer (unat (phys_text_addr m (of_nat addr))))
           [unat (h_text_start hdr)..<unat (h_text_end hdr)])"

definition data_raw_words :: "'a sec_scheme \<Rightarrow> nat \<Rightarrow> SecureHeaderState \<Rightarrow> u32 list" where
  "data_raw_words s layer hdr = map (rawRead s layer) [unat (h_data_start hdr)..<unat (h_data_end hdr)]"

definition header_words :: "SecureHeaderState \<Rightarrow> u32 list" where
  "header_words hdr =
     [SEC_HDR_MAGIC, SEC_HDR_VERSION, SEC_HDR_FLAGS, h_policy hdr, h_text_start hdr, h_text_words hdr,
      h_text_end hdr, h_data_start hdr, h_data_words hdr, h_data_end hdr, h_data_flags hdr, h_epoch hdr]
     @ quad_list (h_nonce hdr)"

definition secure_collect_measurements :: "'a sec_scheme \<Rightarrow> nat \<Rightarrow> SecureHeaderState \<Rightarrow> block" where
  "secure_collect_measurements s layer hdr =
     secure_bytes_to_words (sha256_of
       (literal_bytes ''MEAS-V2'' # map store_be32 (header_words hdr @ text_raw_words s layer hdr)))"

definition session_info :: "SecureHeaderState \<Rightarrow> u8 list" where
  "session_info hdr = literal_bytes ''3DCPU-KDF-V2'' @ secure_words_to_bytes
     [h_text_start hdr, h_text_words hdr, h_text_end hdr, h_data_start hdr, h_data_words hdr,
      h_data_end hdr, h_data_flags hdr, h_epoch hdr, h_policy hdr]"

text \<open>The result is \<open>(session_key, measurements)\<close>.\<close>

definition secure_derive_session_key :: "'a sec_scheme \<Rightarrow> nat \<Rightarrow> SecureHeaderState \<Rightarrow> block \<times> block" where
  "secure_derive_session_key s layer hdr =
     (let measurements = secure_collect_measurements s layer hdr;
          root = secure_derive_root_from_nonce s (h_nonce hdr);
          root_bytes = secure_words_to_bytes (quad_list root);
          salt = secure_words_to_bytes (quad_list (h_nonce hdr)) @ secure_words_to_bytes (quad_list measurements);
          okm = the (hkdf_sha256 root_bytes salt (session_info hdr) 16)
      in (secure_bytes_to_words okm, measurements))"

definition secure_compute_key_tag :: "SecureHeaderState \<Rightarrow> block \<Rightarrow> block \<Rightarrow> block \<Rightarrow> block" where
  "secure_compute_key_tag hdr wrapped_hidden session_key measurements =
     secure_bytes_to_words (hmac_sha256 (secure_words_to_bytes (quad_list session_key))
       (secure_words_to_bytes ([0x4B455954] @ header_words hdr @ quad_list wrapped_hidden
          @ quad_list measurements)))"

definition img_tag_words :: "'a sec_scheme \<Rightarrow> nat \<Rightarrow> SecureHeaderState \<Rightarrow> block \<Rightarrow> u32 list" where
  "img_tag_words s layer hdr measurements =
     [0x494D4754] @ header_words hdr @ quad_list measurements @ text_raw_words s layer hdr
       @ data_raw_words s layer hdr"

definition secure_compute_img_tag :: "'a sec_scheme \<Rightarrow> nat \<Rightarrow> SecureHeaderState \<Rightarrow> block \<Rightarrow> block \<Rightarrow> block" where
  "secure_compute_img_tag s layer hdr session_key measurements =
     secure_bytes_to_words (hmac_sha256 (secure_words_to_bytes (quad_list session_key))
       (secure_words_to_bytes (img_tag_words s layer hdr measurements)))"

section \<open>Validation and extraction\<close>

definition words32 :: "'a sec_scheme \<Rightarrow> u32" where
  "words32 s = of_nat (getNumWords s)"

definition lock_sec :: "'a sec_scheme \<Rightarrow> string \<Rightarrow> int \<Rightarrow> int \<times> 'a sec_scheme" where
  "lock_sec s reason code = (code, lockSecurity s reason)"

definition secure_validate_image :: "'a sec_scheme \<Rightarrow> nat \<Rightarrow> int \<times> 'a sec_scheme" where
  "secure_validate_image s layer =
     (if layer \<ge> getNumLayers s then lock_sec s ''BAD VALIDATE LAYER'' (-100)
      else case secure_decode_header s layer of
        (None, s) \<Rightarrow> lock_sec s ''BAD HEADER'' (-1)
      | (Some hdr, s) \<Rightarrow>
        (case secure_generate_positions (h_nonce hdr) (h_text_start hdr) (h_text_end hdr) (words32 s) of
           None \<Rightarrow> lock_sec s ''BAD MAP'' (-2)
         | Some positions \<Rightarrow>
           let (wrapped_hidden, s) = secure_extract_hidden_wrapped s layer positions in
           if \<not> secure_equal_words wrapped_hidden (h_wrapped hdr) then lock_sec s ''WRAP MISMATCH'' (-3)
           else
             let (session_key, measured_now) = secure_derive_session_key s layer hdr in
             if \<not> secure_equal_words measured_now (h_measurements hdr) then lock_sec s ''MEAS'' (-4)
             else
               let expected_key_tag = secure_compute_key_tag hdr wrapped_hidden session_key measured_now in
               if \<not> secure_equal_words expected_key_tag (h_key_tag hdr) then lock_sec s ''KEY TAG'' (-5)
               else
                 let expected_img_tag = secure_compute_img_tag s layer hdr session_key measured_now in
                 if \<not> secure_equal_words expected_img_tag (h_img_tag hdr) then lock_sec s ''IMG TAG'' (-6)
                 else (0, secure_apply_runtime_region s hdr)))"

text \<open>The result is \<open>(code, key, state)\<close>.\<close>

definition extract_key_from_large_block :: "'a sec_scheme \<Rightarrow> nat \<Rightarrow> int \<times> block \<times> 'a sec_scheme" where
  "extract_key_from_large_block s layer =
     (if layer \<ge> getNumLayers s then (-100, Quad 0 0 0 0, lockSecurity s ''BAD EXTRACT LAYER'')
      else let (rc, s) = secure_validate_image s layer in
        if rc \<noteq> 0 then (rc, Quad 0 0 0 0, s)
        else case secure_decode_header s layer of
          (None, s) \<Rightarrow> (-10, Quad 0 0 0 0, lockSecurity s ''BAD HEADER'')
        | (Some hdr, s) \<Rightarrow>
            let (session_key, measured_now) = secure_derive_session_key s layer hdr
            in (0, aes_decrypt_block (h_wrapped hdr) session_key, s))"

text \<open>
  The plain value of a data word, for callers without the key: \<open>(code, value, state)\<close>. The
  output pointer is not null (the C++ returns -1 for a null pointer).
\<close>

definition secure_read_data_word_plain :: "'a sec_scheme \<Rightarrow> u32 \<Rightarrow> int \<times> u32 option \<times> 'a sec_scheme" where
  "secure_read_data_word_plain s word_addr =
     (let words = words32 s in
      if word_addr \<ge> words then (-2, None, s)
      else case secure_decode_header s 0 of
        (None, s) \<Rightarrow> (-3, None, s)
      | (Some hdr, s) \<Rightarrow>
        (case secure_generate_positions (h_nonce hdr) (h_text_start hdr) (h_text_end hdr) words of
           None \<Rightarrow> (-4, None, s)
         | Some positions \<Rightarrow>
           let (wrapped_hidden, s) = secure_extract_hidden_wrapped s 0 positions in
           if \<not> secure_equal_words wrapped_hidden (h_wrapped hdr) then (-5, None, s)
           else
             let (session_key, measured_now) = secure_derive_session_key s 0 hdr in
             if \<not> secure_equal_words measured_now (h_measurements hdr) then (-6, None, s)
             else
               let expected_key_tag = secure_compute_key_tag hdr wrapped_hidden session_key measured_now in
               if \<not> secure_equal_words expected_key_tag (h_key_tag hdr) then (-7, None, s)
               else
                 let app_key = aes_decrypt_block (h_wrapped hdr) session_key in
                 if h_data_flags hdr AND SEC_DATA_FLAG_ENCRYPTED = 0 \<or> word_addr < h_data_start hdr
                    \<or> word_addr \<ge> h_data_end hdr
                 then let (v, s) = protectedRead s 0 (unat word_addr) in (0, Some v, s)
                 else
                   let base = (word_addr div 4) * 4 in
                   if base + 4 > words then (-8, None, s)
                   else
                     let cipher = quad_gen (\<lambda>i. rawRead s 0 (unat (base + of_nat i)));
                         plain = aes_decrypt_block cipher app_key
                     in (0, Some (quad_nth plain (unat (word_addr mod 4))), s)))"

section \<open>Creation\<close>

text \<open>
  The corrections of the configured regions, each a pair of consecutive statements of the code:
  \<open>clamp_lo\<close> and \<open>clamp_hi\<close> bring a boundary between \<open>lo\<close> and the number of words, \<open>clamp_len\<close>
  bounds a length, \<open>align_lo\<close> and \<open>align_hi\<close> round the data region to whole blocks.
\<close>

definition clamp_lo :: "u32 \<Rightarrow> u32 \<Rightarrow> u32 \<Rightarrow> u32" where
  "clamp_lo lo words x = (let x = (if x < lo then lo else x) in if x > words then lo else x)"

definition clamp_hi :: "u32 \<Rightarrow> u32 \<Rightarrow> u32 \<Rightarrow> u32" where
  "clamp_hi lo words x = (let x = (if x < lo then lo else x) in if x > words then words else x)"

definition clamp_len :: "u32 \<Rightarrow> u32 \<Rightarrow> u32" where
  "clamp_len lim x = (if x > lim then lim else x)"

definition align_lo :: "u32 \<Rightarrow> u32 \<Rightarrow> u32" where
  "align_lo lo x = (if x mod 4 \<noteq> 0 then let x = x - x mod 4 in if x < lo then lo else x else x)"

definition align_hi :: "u32 \<Rightarrow> u32 \<Rightarrow> u32" where
  "align_hi words x =
     (if x mod 4 \<noteq> 0 then let x = x + (4 - x mod 4) in if x > words then words else x else x)"

definition clamp_header :: "u32 \<Rightarrow> SecureHeaderState \<Rightarrow> SecureHeaderState" where
  "clamp_header words hdr =
     (let ts = clamp_lo kTextStartAddr words (h_text_start hdr);
          te = clamp_hi ts words (h_text_end hdr);
          tw = clamp_len (te - ts) (h_text_words hdr);
          ds = clamp_lo te words (h_data_start hdr);
          de = clamp_hi ds words (h_data_end hdr);
          dw = clamp_len (de - ds) (h_data_words hdr);
          ds = align_lo te ds;
          de = align_hi words de
      in hdr\<lparr>h_text_start := ts, h_text_words := tw, h_text_end := te,
             h_data_start := ds, h_data_words := dw, h_data_end := de\<rparr>)"

definition write_words :: "nat \<Rightarrow> (nat \<times> u32) list \<Rightarrow> 'a sec_scheme \<Rightarrow> 'a sec_scheme" where
  "write_words layer kvs s = fold (\<lambda>(a, v) s. protectedWrite s layer a v) kvs s"

definition quad_at :: "nat \<Rightarrow> block \<Rightarrow> (nat \<times> u32) list" where
  "quad_at base q = map (\<lambda>i. (base + i, quad_nth q i)) [0..<4]"

definition scrub_header :: "'a sec_scheme \<Rightarrow> nat \<Rightarrow> u32 \<Rightarrow> 'a sec_scheme" where
  "scrub_header s layer seed =
     snd (for_up 0 SEC_HDR_WORDS
       (\<lambda>i (seed, s). let seed = secure_prng_step (seed + of_nat i * 0x9E3779B9)
                       in (seed, protectedWrite s layer i seed)) (seed, s))"

text \<open>The header before the measurement: the clamped configuration and the nonce.\<close>

definition initial_header :: "'a sec_scheme \<Rightarrow> block \<Rightarrow> SecureHeaderState" where
  "initial_header s key =
     (let hdr = \<lparr>h_policy = secure_policy s, h_text_start = secure_text_start_addr s,
                 h_text_words = secure_text_plain_words s, h_text_end = secure_text_enc_end s,
                 h_data_start = secure_data_start_addr s, h_data_words = secure_data_plain_words s,
                 h_data_end = secure_data_enc_end s, h_data_flags = secure_data_flags s,
                 h_epoch = (if secure_epoch s = 0 then 1 else secure_epoch s),
                 h_nonce = Quad 0 0 0 0, h_wrapped = Quad 0 0 0 0, h_key_tag = Quad 0 0 0 0,
                 h_img_tag = Quad 0 0 0 0, h_measurements = Quad 0 0 0 0\<rparr>;
          hdr = clamp_header (words32 s) hdr
      in hdr\<lparr>h_nonce := secure_derive_nonce key hdr\<rparr>)"

definition create_large_block_with_key :: "'a sec_scheme \<Rightarrow> nat \<Rightarrow> block \<Rightarrow> int \<times> 'a sec_scheme" where
  "create_large_block_with_key s layer key =
     (if layer \<ge> getNumLayers s then lock_sec s ''BAD CREATE LAYER'' (-100)
      else let words = words32 s;
               hdr = initial_header s key;
               seed = quad_nth (h_nonce hdr) 0 XOR rotl32 (quad_nth (h_nonce hdr) 1) 7 XOR 0xD00DFEED;
               s = scrub_header s layer seed;
               (session_key, measurements) = secure_derive_session_key s layer hdr;
               hdr = hdr\<lparr>h_measurements := measurements\<rparr>;
               hdr = hdr\<lparr>h_wrapped := aes_encrypt_block key session_key\<rparr>;
               s = write_words layer
                 ([(W_MAGIC, SEC_HDR_MAGIC), (W_VERSION, SEC_HDR_VERSION), (W_FLAGS, SEC_HDR_FLAGS),
                   (W_POLICY, h_policy hdr), (W_TEXT_START, h_text_start hdr),
                   (W_TEXT_WORDS, h_text_words hdr), (W_TEXT_END, h_text_end hdr),
                   (W_DATA_START, h_data_start hdr), (W_DATA_WORDS, h_data_words hdr),
                   (W_DATA_END, h_data_end hdr), (W_DATA_FLAGS, h_data_flags hdr), (W_EPOCH, h_epoch hdr)]
                  @ quad_at W_NONCE0 (h_nonce hdr) @ quad_at W_WRAP0 (h_wrapped hdr)
                  @ quad_at W_MEAS0 (h_measurements hdr)) s
        in case secure_generate_positions (h_nonce hdr) (h_text_start hdr) (h_text_end hdr) words of
             None \<Rightarrow> lock_sec s ''NO HIDE MAP'' (-20)
           | Some positions \<Rightarrow>
             let s = secure_hide_wrapped s layer positions (h_wrapped hdr);
                 (wrapped_hidden, s) = secure_extract_hidden_wrapped s layer positions;
                 hdr = hdr\<lparr>h_key_tag := secure_compute_key_tag hdr wrapped_hidden session_key (h_measurements hdr)\<rparr>;
                 hdr = hdr\<lparr>h_img_tag := secure_compute_img_tag s layer hdr session_key (h_measurements hdr)\<rparr>;
                 s = write_words layer (quad_at W_KEYTAG0 (h_key_tag hdr) @ quad_at W_IMGTAG0 (h_img_tag hdr)) s
             in (0, secure_apply_runtime_region s hdr))"

section \<open>Resealing\<close>

definition secure_reseal_current_image :: "'a sec_scheme \<Rightarrow> nat \<Rightarrow> int \<times> 'a sec_scheme" where
  "secure_reseal_current_image s layer =
     (case secure_decode_header s 0 of
        (None, s) \<Rightarrow> lock_sec s ''RESEAL HEADER'' (-1)
      | (Some hdr, s) \<Rightarrow>
        if h_policy hdr AND SEC_POLICY_RESEAL_READY = 0 then (0, s)
        else (case secure_generate_positions (h_nonce hdr) (h_text_start hdr) (h_text_end hdr) (words32 s) of
          None \<Rightarrow> lock_sec s ''RESEAL MAP'' (-2)
        | Some positions \<Rightarrow>
          let (wrapped_hidden, s) = secure_extract_hidden_wrapped s 0 positions in
          if \<not> secure_equal_words wrapped_hidden (h_wrapped hdr) then lock_sec s ''RESEAL WRAP'' (-3)
          else
            let (session_key, measured_now) = secure_derive_session_key s 0 hdr in
            if \<not> secure_equal_words measured_now (h_measurements hdr) then lock_sec s ''RESEAL MEAS'' (-4)
            else
              let expected_key_tag = secure_compute_key_tag hdr wrapped_hidden session_key measured_now in
              if \<not> secure_equal_words expected_key_tag (h_key_tag hdr) then lock_sec s ''RESEAL KEYTAG'' (-5)
              else
                let new_img_tag = secure_compute_img_tag s 0 hdr session_key measured_now;
                    hdr = hdr\<lparr>h_img_tag := new_img_tag\<rparr>;
                    s = write_words 0 (quad_at W_IMGTAG0 new_img_tag) s
                in (0, secure_apply_runtime_region s hdr)))"

section \<open>Configuration\<close>

definition secure_set_image_region :: "'a sec_scheme \<Rightarrow> u32 \<Rightarrow> u32 \<Rightarrow> u32 \<Rightarrow> 'a sec_scheme" where
  "secure_set_image_region s text_start_addr text_plain_words text_enc_end =
     (let words = words32 s;
          ts = clamp_lo kTextStartAddr words text_start_addr;
          te = clamp_hi ts words text_enc_end;
          tw = clamp_len (te - ts) text_plain_words;
          ds = clamp_lo te words (secure_data_start_addr s);
          de = clamp_hi ds words (secure_data_enc_end s);
          dw = clamp_len (de - ds) (secure_data_plain_words s)
      in s\<lparr>secure_text_start_addr := ts, secure_text_plain_words := tw, secure_text_enc_end := te,
           secure_data_start_addr := ds, secure_data_plain_words := dw, secure_data_enc_end := de,
           secure_runtime_region_valid := False, secure_runtime_map_valid := False\<rparr>)"

definition secure_set_data_region :: "'a sec_scheme \<Rightarrow> u32 \<Rightarrow> u32 \<Rightarrow> u32 \<Rightarrow> u32 \<Rightarrow> 'a sec_scheme" where
  "secure_set_data_region s data_start_addr data_plain_words data_enc_end data_flags =
     (let words = words32 s; te = secure_text_enc_end s;
          ds = clamp_lo te words data_start_addr;
          de = clamp_hi ds words data_enc_end;
          dw = clamp_len (de - ds) data_plain_words;
          ds = align_lo te ds;
          de = align_hi words de
      in s\<lparr>secure_data_start_addr := ds, secure_data_plain_words := dw, secure_data_enc_end := de,
           secure_data_flags := data_flags, secure_runtime_region_valid := False\<rparr>)"

definition secure_set_mapping_epoch :: "'a sec_scheme \<Rightarrow> u32 \<Rightarrow> 'a sec_scheme" where
  "secure_set_mapping_epoch s epoch =
     s\<lparr>secure_epoch := (if epoch = 0 then 1 else epoch),
       secure_runtime_region_valid := False, secure_runtime_map_valid := False\<rparr>"

definition secure_get_image_region :: "'a sec_scheme \<Rightarrow> u32 \<times> u32 \<times> u32 \<times> u32" where
  "secure_get_image_region s =
     (if secure_runtime_region_valid s
      then (secure_runtime_text_start_addr s, secure_runtime_text_plain_words s,
            secure_runtime_text_enc_end s, secure_runtime_epoch s)
      else (secure_text_start_addr s, secure_text_plain_words s, secure_text_enc_end s, secure_epoch s))"

definition secure_get_data_region :: "'a sec_scheme \<Rightarrow> u32 \<times> u32 \<times> u32 \<times> u32" where
  "secure_get_data_region s =
     (if secure_runtime_region_valid s
      then (secure_runtime_data_start_addr s, secure_runtime_data_plain_words s,
            secure_runtime_data_enc_end s, secure_runtime_data_flags s)
      else (secure_data_start_addr s, secure_data_plain_words s, secure_data_enc_end s, secure_data_flags s))"

text \<open>The initial contents of \<open>secret_map\<close>.\<close>

definition secret_map_init :: "int list" where
  "secret_map_init =
    [849, 171, 458, 347, 306, 11, 1023, 282, 948, 361, 329, 145, 456, 499, 334, 535,
     633, 416, 924, 50, 670, 73, 20, 906, 680, 673, 108, 491, 900, 552, 419, 121,
     182, 421, 824, 479, 796, 628, 135, 124, 604, 147, 157, 693, 515, 821, 90, 784,
     138, 269, 66, 732, 823, 1011, 53, 118, 711, 684, 117, 753, 195, 496, 97, 898,
     651, 418, 695, 713, 122, 591, 556, 669, 265, 346, 634, 630, 1003, 790, 144, 384,
     657, 636, 1002, 493, 55, 873, 475, 861, 573, 537, 782, 601, 471, 595, 1000, 915,
     596, 3, 714, 632, 311, 649, 660, 150, 706, 372, 724, 923, 485, 609, 363, 336,
     41, 85, 451, 249, 587, 956, 79, 480, 743, 198, 500, 447, 996, 908, 351, 380]"

definition sec_boot :: "smem \<Rightarrow> sec" where
  "sec_boot m = smem.extend m
     \<lparr>secure_text_start_addr = 32, secure_text_plain_words = 0, secure_text_enc_end = 32,
      secure_data_start_addr = 32, secure_data_plain_words = 0, secure_data_enc_end = 32,
      secure_data_flags = 0, secure_epoch = 1, secure_policy = 1 OR 2 OR 4,
      secure_runtime_region_valid = False, secure_runtime_text_start_addr = 32,
      secure_runtime_text_plain_words = 0, secure_runtime_text_enc_end = 32,
      secure_runtime_data_start_addr = 32, secure_runtime_data_plain_words = 0,
      secure_runtime_data_enc_end = 32, secure_runtime_data_flags = 0, secure_runtime_epoch = 1,
      secure_runtime_map = \<lparr>map_start_block = 8, map_block_count = 0, map_mul = 1, map_add = 0\<rparr>,
      secure_runtime_map_valid = False, secret_map = (\<lambda>i. if i < 128 then secret_map_init ! i else 0)\<rparr>"

end
