(* ===== verification/Pipeline.thy ===== *)
theory Pipeline
  imports Mips_ISA Sealed_Image
begin

text \<open>
  The processor of \<open>src/3d.cpp\<close>: instruction and data cache, the six pipeline registers and the
  stage functions, data address translation, the access checks on the data region, one clock cycle
  (\<open>cycle_step\<close>, the body of the main loop) and the top function. The record \<open>cpu\<close> extends the
  state of the sealed image by the remaining static variables. The vertical-transaction trace, the
  printing under \<open>TRACE_PIPELINE\<close> and the HLS pragmas have no effect on the state; the build options
  have their default values.
\<close>

section \<open>State\<close>

record FetchReg =
  fe_valid :: bool
  fe_block_addr :: u32
  fe_block_data :: block

record DecryptReg =
  dr_valid :: bool
  dr_block_addr :: u32
  decr_block :: block
  instr_index :: nat

record DecodeReg =
  de_valid :: bool
  de_instr :: u32
  word_addr :: u32
  rs_val :: u32
  rt_val :: u32
  rs_idx :: u32
  rt_idx :: u32
  a_sel :: nat
  b_sel :: nat
  de_predicted_taken :: bool
  de_predicted_block_addr :: u32
  de_fallthrough_block_addr :: u32
  de_is_control :: bool

record ExecReg =
  ex_valid :: bool
  ex_alu_result :: u32
  ex_instr :: u32
  rt_forward_val :: u32
  taken_branch :: bool
  new_block_addr :: u32
  ex_predicted_taken :: bool
  ex_predicted_block_addr :: u32
  ex_fallthrough_block_addr :: u32
  ex_is_control :: bool
  control_mispredict :: bool
  recovery_block_addr :: u32

record MemReg =
  me_valid :: bool
  me_alu_result :: u32
  me_instr :: u32
  mem_read_val :: u32

record WbReg =
  wb_valid :: bool
  final_val :: u32
  wb_instr :: u32

record cpu = sec +
  reg_file :: "nat \<Rightarrow> u32"
  instr_layer :: nat
  data_layer :: nat
  key_check_failed :: bool
  key_valid :: bool
  runtime_app_key :: block
  copro_reg :: block
  fetch_reg :: FetchReg
  decr_reg :: DecryptReg
  decode_reg :: DecodeReg
  exec_reg :: ExecReg
  mem_reg :: MemReg
  wb_reg :: WbReg
  retired_instructions :: u32
  pipeline_stall_count :: u32
  branch_prediction_count :: u32
  branch_mispredict_count :: u32
  perf_cycle_count :: u32
  perf_icache_hits :: u32
  perf_icache_misses :: u32
  perf_dcache_hits :: u32
  perf_dcache_misses :: u32
  perf_forward_mem :: u32
  perf_forward_wb :: u32
  perf_load_use_stalls :: u32
  perf_store_data_forwards :: u32
  perf_aes_instructions :: u32

text \<open>The static initialization of the file.\<close>

definition cpu_boot :: "sec \<Rightarrow> cpu" where
  "cpu_boot m = sec.extend m
     \<lparr>reg_file = (\<lambda>_. 0), instr_layer = 0, data_layer = 0, key_check_failed = False, key_valid = False,
      runtime_app_key = Quad 0 0 0 0, copro_reg = Quad 0 0 0 0,
      fetch_reg = \<lparr>fe_valid = False, fe_block_addr = 0, fe_block_data = Quad 0 0 0 0\<rparr>,
      decr_reg = \<lparr>dr_valid = False, dr_block_addr = 0, decr_block = Quad 0 0 0 0, instr_index = 0\<rparr>,
      decode_reg = \<lparr>de_valid = False, de_instr = 0, word_addr = 0, rs_val = 0, rt_val = 0, rs_idx = 0, rt_idx = 0,
        a_sel = 0, b_sel = 0, de_predicted_taken = False, de_predicted_block_addr = 0,
        de_fallthrough_block_addr = 0, de_is_control = False\<rparr>,
      exec_reg = \<lparr>ex_valid = False, ex_alu_result = 0, ex_instr = 0, rt_forward_val = 0, taken_branch = False,
        new_block_addr = 0, ex_predicted_taken = False, ex_predicted_block_addr = 0,
        ex_fallthrough_block_addr = 0, ex_is_control = False, control_mispredict = False, recovery_block_addr = 0\<rparr>,
      mem_reg = \<lparr>me_valid = False, me_alu_result = 0, me_instr = 0, mem_read_val = 0\<rparr>,
      wb_reg = \<lparr>wb_valid = False, final_val = 0, wb_instr = 0\<rparr>,
      retired_instructions = 0, pipeline_stall_count = 0, branch_prediction_count = 0,
      branch_mispredict_count = 0, perf_cycle_count = 0, perf_icache_hits = 0, perf_icache_misses = 0,
      perf_dcache_hits = 0, perf_dcache_misses = 0, perf_forward_mem = 0, perf_forward_wb = 0,
      perf_load_use_stalls = 0, perf_store_data_forwards = 0, perf_aes_instructions = 0\<rparr>"

definition CPU_set_layers :: "'a cpu_scheme \<Rightarrow> nat \<Rightarrow> nat \<Rightarrow> 'a cpu_scheme" where
  "CPU_set_layers s il dl =
     invalidateCaches
       (if il < getNumLayers s \<and> dl < getNumLayers s then s\<lparr>instr_layer := il, data_layer := dl\<rparr>
        else lockSecurity (s\<lparr>instr_layer := 0, data_layer := 0\<rparr>) ''BAD LAYER SELECT'')"

section \<open>Caches\<close>

definition icache_fetch_block_from_mem :: "'a cpu_scheme \<Rightarrow> u32 \<Rightarrow> block" where
  "icache_fetch_block_from_mem s block_addr =
     (let max_blocks = words32 s div 4;
          phys_block_addr = secure_map_text_block_runtime s block_addr
      in if phys_block_addr \<ge> max_blocks then Quad 0 0 0 0
         else quad_gen (\<lambda>i. rawRead s (instr_layer s) (unat (phys_block_addr * 4 + of_nat i))))"

definition icache_read_block :: "'a cpu_scheme \<Rightarrow> u32 \<Rightarrow> block \<times> 'a cpu_scheme" where
  "icache_read_block s block_addr =
     (let index = unat (block_addr mod 4); tag = block_addr div 4;
          s = (if \<not> iCache_valid s index \<or> iCache_tag s index \<noteq> tag
               then s\<lparr>perf_icache_misses := perf_icache_misses s + 1,
                      iCache_data := (iCache_data s)(index := icache_fetch_block_from_mem s block_addr),
                      iCache_tag := (iCache_tag s)(index := tag),
                      iCache_valid := (iCache_valid s)(index := True)\<rparr>
               else s\<lparr>perf_icache_hits := perf_icache_hits s + 1\<rparr>)
      in (iCache_data s index, s))"

definition dcache_read :: "'a cpu_scheme \<Rightarrow> u32 \<Rightarrow> u32 \<times> 'a cpu_scheme" where
  "dcache_read s addr =
     (let index = unat (addr mod 4); tag = addr div 4;
          s = (if \<not> dcache_valid s index \<or> dcache_tag s index \<noteq> tag
               then let s = s\<lparr>perf_dcache_misses := perf_dcache_misses s + 1\<rparr>;
                        (v, s) = protectedRead s (data_layer s) (unat addr)
                    in s\<lparr>dcache_data := (dcache_data s)(index := v),
                         dcache_tag := (dcache_tag s)(index := tag),
                         dcache_valid := (dcache_valid s)(index := True)\<rparr>
               else s\<lparr>perf_dcache_hits := perf_dcache_hits s + 1\<rparr>)
      in (dcache_data s index, s))"

definition dcache_write :: "'a cpu_scheme \<Rightarrow> u32 \<Rightarrow> u32 \<Rightarrow> 'a cpu_scheme" where
  "dcache_write s addr value =
     (let index = unat (addr mod 4); tag = addr div 4;
          s = s\<lparr>dcache_data := (dcache_data s)(index := value),
                dcache_tag := (dcache_tag s)(index := tag),
                dcache_valid := (dcache_valid s)(index := True)\<rparr>
      in protectedWrite s (data_layer s) (unat addr) value)"

definition invalidateFrontendOnTextWrite :: "'a cpu_scheme \<Rightarrow> 'a cpu_scheme" where
  "invalidateFrontendOnTextWrite s =
     s\<lparr>fetch_reg := (fetch_reg s)\<lparr>fe_valid := False\<rparr>,
       decr_reg := (decr_reg s)\<lparr>dr_valid := False\<rparr>,
       decode_reg := (decode_reg s)\<lparr>de_valid := False\<rparr>\<rparr>"

section \<open>Hazards\<close>

text \<open>The result is \<open>(must_stall, a_sel, b_sel)\<close>.\<close>

definition checkDataHazard :: "'a cpu_scheme \<Rightarrow> u32 \<Rightarrow> u32 \<Rightarrow> u32 \<Rightarrow> bool \<times> nat \<times> nat" where
  "checkDataHazard s decode_instr exec_instr mem_instr =
     (let (d_rs, d_rt) = getSourceRegs decode_instr;
          (must_stall, a, b) =
            (if ex_valid (exec_reg s) \<and> isWriteInstruction exec_instr then
               let exd = getDestReg exec_instr in
               if exd \<noteq> 0 \<and> (d_rs = exd \<or> d_rt = exd) then
                 (if isLoadInstruction exec_instr then (True, 0, 0)
                  else (False, if d_rs = exd then 1 else 0, if d_rt = exd then 1 else 0))
               else (False, 0, 0)
             else (False, 0, 0 :: nat));
          (a, b) =
            (if me_valid (mem_reg s) \<and> isWriteInstruction mem_instr then
               let md = getDestReg mem_instr in
               (if md \<noteq> 0 \<and> a = 0 \<and> d_rs = md then 2 else a, if md \<noteq> 0 \<and> b = 0 \<and> d_rt = md then 2 else b)
             else (a, b))
      in (must_stall, a, b))"

section \<open>Fetch and decrypt\<close>

definition text_start_block :: "'a sec_scheme \<Rightarrow> u32" where
  "text_start_block s =
     (if secure_runtime_region_valid s then secure_runtime_text_start_addr s div 4 else 8)"

definition text_end_block :: "'a sec_scheme \<Rightarrow> u32" where
  "text_end_block s =
     (if secure_runtime_region_valid s then (secure_runtime_text_enc_end s + 4 - 1) div 4 else 1024 div 4)"

definition fetch_block :: "'a cpu_scheme \<Rightarrow> 'a cpu_scheme" where
  "fetch_block s =
     (let s = (if fe_block_addr (fetch_reg s) < text_start_block s
               then s\<lparr>fetch_reg := (fetch_reg s)\<lparr>fe_block_addr := text_start_block s\<rparr>\<rparr> else s)
      in if fe_block_addr (fetch_reg s) \<ge> text_end_block s then s
         else let (b, s) = icache_read_block s (fe_block_addr (fetch_reg s))
              in s\<lparr>fetch_reg := (fetch_reg s)\<lparr>fe_block_data := b, fe_valid := True\<rparr>\<rparr>)"

definition stage_fetch :: "'a cpu_scheme \<Rightarrow> 'a cpu_scheme" where
  "stage_fetch s =
     (if fe_valid (fetch_reg s) then s
      else if key_valid s then fetch_block s
      else let (rc, extracted_key, s) = extract_key_from_large_block s (instr_layer s)
        in if rc \<noteq> 0 \<or> isSecurityLocked s
           then s\<lparr>key_check_failed := True, runtime_app_key := Quad 0 0 0 0\<rparr>
           else fetch_block (s\<lparr>runtime_app_key := extracted_key, key_check_failed := False, key_valid := True\<rparr>))"

definition stage_decrypt :: "'a cpu_scheme \<Rightarrow> 'a cpu_scheme" where
  "stage_decrypt s =
     (if fe_valid (fetch_reg s) \<and> \<not> dr_valid (decr_reg s) then
        let f = fetch_reg s;
            out = (if fe_block_addr f \<ge> text_start_block s
                   then aes_decrypt_block (fe_block_data f) (runtime_app_key s) else fe_block_data f)
        in s\<lparr>decr_reg := \<lparr>dr_valid = True, dr_block_addr = fe_block_addr f, decr_block = out, instr_index = 0\<rparr>,
             fetch_reg := f\<lparr>fe_valid := False, fe_block_addr := fe_block_addr f + 1\<rparr>\<rparr>
      else s)"

section \<open>Decode\<close>

definition stage_decode :: "'a cpu_scheme \<Rightarrow> bool \<Rightarrow> 'a cpu_scheme" where
  "stage_decode s stall =
     (if \<not> stall \<and> dr_valid (decr_reg s) \<and> \<not> de_valid (decode_reg s) then
        let d = decr_reg s;
            curr_idx = instr_index d;
            instr = quad_nth (decr_block d) curr_idx;
            waddr = dr_block_addr d * 4 + of_nat curr_idx;
            (rs, rt) = getSourceRegs instr;
            (_, a, b) = checkDataHazard s instr (ex_instr (exec_reg s)) (me_instr (mem_reg s));
            opcode = mips_opcode instr;
            simm = mips_simm instr;
            is_ctrl = isControlInstruction instr;
            pred_taken = branchPredictTaken instr;
            pred_block =
              (if opcode = MIPS_OP_J then computeJumpTargetBlock instr
               else if opcode = MIPS_OP_BEQ \<or> opcode = MIPS_OP_BNE
               then (if pred_taken then computeBranchTargetBlock waddr simm else (waddr + 1) div 4)
               else (waddr + 1) div 4);
            s = s\<lparr>decode_reg :=
                    \<lparr>de_valid = True, de_instr = instr, word_addr = waddr,
                     rs_val = reg_file s (unat rs), rt_val = reg_file s (unat rt), rs_idx = rs, rt_idx = rt,
                     a_sel = a, b_sel = b, de_predicted_taken = pred_taken,
                     de_predicted_block_addr = pred_block, de_fallthrough_block_addr = (waddr + 1) div 4,
                     de_is_control = is_ctrl\<rparr>,
                  branch_prediction_count :=
                    (if is_ctrl then branch_prediction_count s + 1 else branch_prediction_count s),
                  decr_reg := d\<lparr>instr_index := curr_idx + 1, dr_valid := \<not> curr_idx + 1 \<ge> 4\<rparr>\<rparr>
        in if pred_taken
           then s\<lparr>fetch_reg := (fetch_reg s)\<lparr>fe_valid := False, fe_block_addr := pred_block\<rparr>,
                  decr_reg := (decr_reg s)\<lparr>dr_valid := False\<rparr>\<rparr>
           else s
      else s)"

section \<open>Execute\<close>

text \<open>
  The operand values after forwarding: the producer in \<open>mem_reg\<close> first, then the one in \<open>wb_reg\<close>.
  The result is \<open>(rs_val, rt_val, rt_forwarded, state)\<close>; the state counts the forwards.
\<close>

definition forward_operands :: "'a cpu_scheme \<Rightarrow> u32 \<times> u32 \<times> bool \<times> 'a cpu_scheme" where
  "forward_operands s =
     (let d = decode_reg s; m = mem_reg s; w = wb_reg s;
          md = getDestReg (me_instr m);
          m_on = (me_valid m \<and> isWriteInstruction (me_instr m) \<and> md \<noteq> 0);
          rs_forwarded = (m_on \<and> rs_idx d = md);
          rt_forwarded = (m_on \<and> rt_idx d = md);
          rs = (if rs_forwarded then mem_read_val m else rs_val d);
          rt = (if rt_forwarded then mem_read_val m else rt_val d);
          s = s\<lparr>perf_forward_mem := perf_forward_mem s + of_bool rs_forwarded + of_bool rt_forwarded\<rparr>;
          wd = getDestReg (wb_instr w);
          w_on = (wb_valid w \<and> isWriteInstruction (wb_instr w) \<and> wd \<noteq> 0);
          rs_wb = (w_on \<and> \<not> rs_forwarded \<and> rs_idx d = wd);
          rt_wb = (w_on \<and> \<not> rt_forwarded \<and> rt_idx d = wd);
          rs = (if rs_wb then final_val w else rs);
          rt = (if rt_wb then final_val w else rt);
          s = s\<lparr>perf_forward_wb := perf_forward_wb s + of_bool rs_wb + of_bool rt_wb\<rparr>
      in (rs, rt, rt_forwarded, s))"

text \<open>The arithmetic of one instruction: \<open>(alu_res, copro_reg)\<close>.\<close>

definition alu :: "u32 \<Rightarrow> u32 \<Rightarrow> u32 \<Rightarrow> block \<Rightarrow> block \<Rightarrow> u32 \<times> block" where
  "alu instr rs rt key copro =
     (let opcode = mips_opcode instr; funct = mips_funct instr; shamt = unat (mips_shamt instr AND 0x1F) in
      if opcode = MIPS_OP_SPECIAL then
        (if funct = MIPS_FUNCT_ADD then (rs + rt, copro)
         else if funct = MIPS_FUNCT_SUB then (rs - rt, copro)
         else if funct = MIPS_FUNCT_AND then (rs AND rt, copro)
         else if funct = MIPS_FUNCT_OR then (rs OR rt, copro)
         else if funct = MIPS_FUNCT_XOR then (rs XOR rt, copro)
         else if funct = MIPS_FUNCT_SLL then (push_bit shamt rt, copro)
         else if funct = MIPS_FUNCT_SRL then (drop_bit shamt rt, copro)
         else if funct = MIPS_FUNCT_MULT then (rs * rt, copro)
         else if funct = MIPS_FUNCT_AESENC then
           (let out = aes_encrypt_block (Quad rs rt rs rt) key in (q0 out, out))
         else if funct = MIPS_FUNCT_AESDEC then (q0 (aes_decrypt_block copro key), copro)
         else (0, copro))
      else if opcode = MIPS_OP_LW \<or> opcode = MIPS_OP_SW \<or> opcode = MIPS_OP_ADDI
      then (rs + mips_simm instr, copro)
      else if opcode = MIPS_OP_ORI then (rs OR mips_imm instr, copro)
      else if opcode = MIPS_OP_LUI then (push_bit 16 (mips_imm instr), copro)
      else (0, copro))"

text \<open>Whether the instruction branches, and to which block.\<close>

definition branch_outcome :: "u32 \<Rightarrow> u32 \<Rightarrow> u32 \<Rightarrow> u32 \<Rightarrow> bool \<times> u32" where
  "branch_outcome instr waddr rs rt =
     (let opcode = mips_opcode instr in
      if opcode = MIPS_OP_BEQ then
        (if rs = rt then (True, computeBranchTargetBlock waddr (mips_simm instr)) else (False, 0))
      else if opcode = MIPS_OP_BNE then
        (if rs \<noteq> rt then (True, computeBranchTargetBlock waddr (mips_simm instr)) else (False, 0))
      else if opcode = MIPS_OP_J then (True, computeJumpTargetBlock instr)
      else (False, 0))"

definition is_aes_instruction :: "u32 \<Rightarrow> bool" where
  "is_aes_instruction instr \<longleftrightarrow> mips_opcode instr = MIPS_OP_SPECIAL \<and>
     (mips_funct instr = MIPS_FUNCT_AESENC \<or> mips_funct instr = MIPS_FUNCT_AESDEC)"

definition stage_execute :: "'a cpu_scheme \<Rightarrow> 'a cpu_scheme" where
  "stage_execute s =
     (if de_valid (decode_reg s) \<and> \<not> ex_valid (exec_reg s) then
        let d = decode_reg s;
            instr = de_instr d;
            (rs, rt, rt_forwarded, s) = forward_operands s;
            s = s\<lparr>perf_store_data_forwards :=
                    (if mips_opcode instr = MIPS_OP_SW \<and> rt_forwarded then perf_store_data_forwards s + 1
                     else perf_store_data_forwards s),
                  perf_aes_instructions :=
                    (if is_aes_instruction instr then perf_aes_instructions s + 1 else perf_aes_instructions s)\<rparr>;
            (alu_res, copro) = alu instr rs rt (runtime_app_key s) (copro_reg s);
            (br, nb) = branch_outcome instr (word_addr d) rs rt;
            actual_block = (if br then nb else de_fallthrough_block_addr d);
            predicted_block = (if de_predicted_taken d then de_predicted_block_addr d
                               else de_fallthrough_block_addr d);
            mispredict = (de_is_control d \<and> actual_block \<noteq> predicted_block)
        in s\<lparr>copro_reg := copro,
             branch_mispredict_count :=
               (if mispredict then branch_mispredict_count s + 1 else branch_mispredict_count s),
             exec_reg :=
               \<lparr>ex_valid = True, ex_alu_result = alu_res, ex_instr = instr, rt_forward_val = rt,
                taken_branch = br, new_block_addr = nb, ex_predicted_taken = de_predicted_taken d,
                ex_predicted_block_addr = de_predicted_block_addr d,
                ex_fallthrough_block_addr = de_fallthrough_block_addr d,
                ex_is_control = de_is_control d, control_mispredict = mispredict,
                recovery_block_addr = actual_block\<rparr>,
             decode_reg := d\<lparr>de_valid := False\<rparr>\<rparr>
      else s)"

section \<open>Data addresses\<close>

definition active_data_start :: "'a sec_scheme \<Rightarrow> u32" where
  "active_data_start s =
     (if secure_runtime_region_valid s then secure_runtime_data_start_addr s else secure_data_start_addr s)"

definition active_data_end :: "'a sec_scheme \<Rightarrow> u32" where
  "active_data_end s =
     (if secure_runtime_region_valid s then secure_runtime_data_enc_end s else secure_data_enc_end s)"

definition translateDataAddress :: "'a sec_scheme \<Rightarrow> u32 \<Rightarrow> u32 option" where
  "translateDataAddress s eff_addr =
     (if eff_addr < 1024 then Some eff_addr
      else if eff_addr AND 3 \<noteq> 0 then None
      else let mapped = active_data_start s + drop_bit 2 (eff_addr - kMarsDataBaseByte);
               as_word = drop_bit 2 eff_addr
        in if eff_addr \<ge> kMarsDataBaseByte \<and> mapped < 1024 then Some mapped
           else if as_word < 1024 then Some as_word else None)"

definition secure_is_encrypted_data_word :: "'a sec_scheme \<Rightarrow> u32 \<Rightarrow> bool" where
  "secure_is_encrypted_data_word s a =
     (let start = active_data_start s; stop = active_data_end s;
          flags = (if secure_runtime_region_valid s then secure_runtime_data_flags s else secure_data_flags s)
      in if flags AND SEC_DATA_FLAG_ENCRYPTED = 0 then False
         else if start \<ge> stop then False else start \<le> a \<and> a < stop)"

definition secure_is_data_word :: "'a sec_scheme \<Rightarrow> u32 \<Rightarrow> bool" where
  "secure_is_data_word s a =
     (let start = active_data_start s; stop = active_data_end s
      in if start \<ge> stop then False else start \<le> a \<and> a < stop)"

definition secure_is_text_word :: "'a sec_scheme \<Rightarrow> u32 \<Rightarrow> bool" where
  "secure_is_text_word s a =
     (let start = (if secure_runtime_region_valid s then secure_runtime_text_start_addr s else secure_text_start_addr s);
          stop = (if secure_runtime_region_valid s then secure_runtime_text_enc_end s else secure_text_enc_end s)
      in if start \<ge> stop then False else start \<le> a \<and> a < stop)"

definition secure_read_encrypted_data_word :: "'a cpu_scheme \<Rightarrow> u32 \<Rightarrow> u32" where
  "secure_read_encrypted_data_word s a =
     (let base = (a div 4) * 4 in
      if base + 4 > words32 s then 0
      else let cipher = quad_gen (\<lambda>i. rawRead s (data_layer s) (unat (base + of_nat i)));
               plain = aes_decrypt_block cipher (runtime_app_key s)
           in quad_nth plain (unat (a mod 4)))"

definition secure_write_encrypted_data_word :: "'a cpu_scheme \<Rightarrow> u32 \<Rightarrow> u32 \<Rightarrow> 'a cpu_scheme" where
  "secure_write_encrypted_data_word s a value =
     (let base = (a div 4) * 4 in
      if base + 4 > words32 s then s
      else let cipher = quad_gen (\<lambda>i. rawRead s (data_layer s) (unat (base + of_nat i)));
               plain = aes_decrypt_block cipher (runtime_app_key s);
               plain = quad_upd plain (unat (a mod 4)) value;
               recipher = aes_encrypt_block plain (runtime_app_key s)
           in for_up 0 4
                (\<lambda>i s. let addr = base + of_nat i;
                           s = protectedWrite s (data_layer s) (unat addr) (quad_nth recipher i);
                           index = unat (addr mod 4); tag = addr div 4
                       in if dcache_valid s index \<and> dcache_tag s index = tag
                          then s\<lparr>dcache_valid := (dcache_valid s)(index := False)\<rparr> else s) s)"

section \<open>Memory and write back\<close>

text \<open>The value loaded and the state; \<open>0\<close> for an address that cannot be translated.\<close>

definition load_word :: "'a cpu_scheme \<Rightarrow> u32 \<Rightarrow> u32 \<times> 'a cpu_scheme" where
  "load_word s addr =
     (case translateDataAddress s addr of
        None \<Rightarrow> (0, s)
      | Some a \<Rightarrow>
          if \<not> secure_is_data_word s a then (0, lockSecurity s ''DATA READ'')
          else if secure_is_encrypted_data_word s a then (secure_read_encrypted_data_word s a, s)
          else dcache_read s a)"

definition store_word :: "'a cpu_scheme \<Rightarrow> u32 \<Rightarrow> u32 \<Rightarrow> 'a cpu_scheme" where
  "store_word s addr value =
     (case translateDataAddress s addr of
        None \<Rightarrow> s
      | Some a \<Rightarrow>
          if a < of_nat SEC_HDR_WORDS \<or> secure_is_text_word s a \<or> \<not> secure_is_data_word s a
          then lockSecurity s ''DATA WRITE''
          else if secure_is_encrypted_data_word s a then secure_write_encrypted_data_word s a value
          else invalidateFrontendOnTextWrite (dcache_write s a value))"

definition stage_memory :: "'a cpu_scheme \<Rightarrow> 'a cpu_scheme" where
  "stage_memory s =
     (if ex_valid (exec_reg s) \<and> \<not> me_valid (mem_reg s) then
        let e = exec_reg s;
            opcode = mips_opcode (ex_instr e);
            (val, s) = (if opcode = MIPS_OP_LW then load_word s (ex_alu_result e)
                        else if opcode = MIPS_OP_SW then (0, store_word s (ex_alu_result e) (rt_forward_val e))
                        else (0, s))
        in s\<lparr>mem_reg := \<lparr>me_valid = True, me_alu_result = ex_alu_result e, me_instr = ex_instr e,
                        mem_read_val = (if opcode = MIPS_OP_LW then val else ex_alu_result e)\<rparr>,
             exec_reg := e\<lparr>ex_valid := False\<rparr>\<rparr>
      else s)"

definition write_reg :: "'a cpu_scheme \<Rightarrow> u32 \<Rightarrow> u32 \<Rightarrow> 'a cpu_scheme" where
  "write_reg s r v = (if r \<noteq> 0 then s\<lparr>reg_file := (reg_file s)(unat r := v)\<rparr> else s)"

definition stage_writeback :: "'a cpu_scheme \<Rightarrow> 'a cpu_scheme" where
  "stage_writeback s =
     (if me_valid (mem_reg s) \<and> \<not> wb_valid (wb_reg s) then
        let m = mem_reg s;
            opcode = mips_opcode (me_instr m);
            (fv, s) =
              (if opcode = MIPS_OP_LW then
                 (mem_read_val m, (write_reg s (mips_rt (me_instr m)) (mem_read_val m))
                    \<lparr>retired_instructions := retired_instructions s + 1\<rparr>)
               else if opcode = MIPS_OP_ADDI \<or> opcode = MIPS_OP_ORI \<or> opcode = MIPS_OP_LUI then
                 (me_alu_result m, (write_reg s (mips_rt (me_instr m)) (me_alu_result m))
                    \<lparr>retired_instructions := retired_instructions s + 1\<rparr>)
               else if opcode = MIPS_OP_SPECIAL \<and> isMipsRWriteFunct (mips_funct (me_instr m)) then
                 (me_alu_result m, (write_reg s (mips_rd (me_instr m)) (me_alu_result m))
                    \<lparr>retired_instructions := retired_instructions s + 1\<rparr>)
               else (0, s))
        in s\<lparr>wb_reg := \<lparr>wb_valid = True, final_val = fv, wb_instr = me_instr m\<rparr>,
             mem_reg := m\<lparr>me_valid := False\<rparr>\<rparr>
      else s)"

definition Crypto3DStackCPU_get_perf_counter :: "'a cpu_scheme \<Rightarrow> u32 \<Rightarrow> u32" where
  "Crypto3DStackCPU_get_perf_counter s counter_id =
     (if counter_id = 0 then perf_cycle_count s
      else if counter_id = 1 then retired_instructions s
      else if counter_id = 2 then pipeline_stall_count s
      else if counter_id = 3 then perf_load_use_stalls s
      else if counter_id = 4 then branch_prediction_count s
      else if counter_id = 5 then branch_mispredict_count s
      else if counter_id = 6 then perf_icache_hits s
      else if counter_id = 7 then perf_icache_misses s
      else if counter_id = 8 then perf_dcache_hits s
      else if counter_id = 9 then perf_dcache_misses s
      else if counter_id = 10 then perf_forward_mem s
      else if counter_id = 11 then perf_forward_wb s
      else if counter_id = 12 then perf_store_data_forwards s
      else if counter_id = 13 then perf_aes_instructions s
      else 0)"

section \<open>One cycle and the top function\<close>

text \<open>A pending misprediction flushes the front end and redirects the fetch.\<close>

definition recover :: "'a cpu_scheme \<Rightarrow> 'a cpu_scheme" where
  "recover s =
     (if control_mispredict (exec_reg s)
      then s\<lparr>decr_reg := (decr_reg s)\<lparr>dr_valid := False\<rparr>,
             decode_reg := (decode_reg s)\<lparr>de_valid := False\<rparr>,
             fetch_reg := (fetch_reg s)\<lparr>fe_valid := False, fe_block_addr := recovery_block_addr (exec_reg s)\<rparr>\<rparr>
      else s)"

text \<open>The front end at the end of a cycle: decode or stall when a block is decrypted, else decrypt.\<close>

definition advance_decode :: "'a cpu_scheme \<Rightarrow> 'a cpu_scheme" where
  "advance_decode s =
     (if dr_valid (decr_reg s) then
        let next_instr = quad_nth (decr_block (decr_reg s)) (instr_index (decr_reg s));
            (must_stall, _, _) = checkDataHazard s next_instr (ex_instr (exec_reg s)) (me_instr (mem_reg s))
        in if \<not> must_stall then stage_decode s False
           else s\<lparr>pipeline_stall_count := pipeline_stall_count s + 1,
                  perf_load_use_stalls := perf_load_use_stalls s + 1\<rparr>
      else stage_decrypt s)"

definition cycle_step :: "'a cpu_scheme \<Rightarrow> 'a cpu_scheme" where
  "cycle_step s =
     (let s = s\<lparr>perf_cycle_count := perf_cycle_count s + 1\<rparr>;
          s = (if wb_valid (wb_reg s) then s\<lparr>wb_reg := (wb_reg s)\<lparr>wb_valid := False\<rparr>\<rparr> else s);
          s = (if me_valid (mem_reg s) then stage_writeback s else s);
          s = (if ex_valid (exec_reg s) then stage_memory (recover s) else s);
          s = (if de_valid (decode_reg s) then stage_execute s else s);
          s = advance_decode s
      in if \<not> fe_valid (fetch_reg s) then stage_fetch s else s)"

fun run_cycles :: "nat \<Rightarrow> 'a cpu_scheme \<Rightarrow> 'a cpu_scheme" where
  "run_cycles 0 s = s"
| "run_cycles (Suc n) s =
     (if key_check_failed s \<or> isSecurityLocked s then s else run_cycles n (cycle_step s))"

definition io_word_count :: "u32 \<Rightarrow> nat" where
  "io_word_count word_count = (if word_count = 0 \<or> word_count > 1024 then 1024 else unat word_count)"

text \<open>Copying the host image into layer 0, with zeros behind it.\<close>

definition load_image :: "'a cpu_scheme \<Rightarrow> (nat \<Rightarrow> u32) \<Rightarrow> nat \<Rightarrow> 'a cpu_scheme" where
  "load_image s host io_words =
     (let put = (\<lambda>i v s. if i < SEC_HDR_WORDS then protectedWrite s 0 i v else mem_write s 0 i v);
          s = for_up 0 io_words (\<lambda>i s. put i (host i) s) s
      in for_up io_words 1024 (\<lambda>i s. put i 0 s) s)"

definition reset_processor :: "'a cpu_scheme \<Rightarrow> 'a cpu_scheme" where
  "reset_processor s =
     (let s = s\<lparr>retired_instructions := 0, pipeline_stall_count := 0, branch_prediction_count := 0,
                branch_mispredict_count := 0, perf_cycle_count := 0, perf_icache_hits := 0,
                perf_icache_misses := 0, perf_dcache_hits := 0, perf_dcache_misses := 0,
                perf_forward_mem := 0, perf_forward_wb := 0, perf_load_use_stalls := 0,
                perf_store_data_forwards := 0, perf_aes_instructions := 0\<rparr>;
          s = s\<lparr>reg_file := (\<lambda>r. if r < 32 then 0 else reg_file s r),
                iCache_valid := (\<lambda>i. if i < 4 then False else iCache_valid s i),
                iCache_tag := (\<lambda>i. if i < 4 then 0 else iCache_tag s i),
                dcache_valid := (\<lambda>i. if i < 4 then False else dcache_valid s i),
                dcache_tag := (\<lambda>i. if i < 4 then 0 else dcache_tag s i)\<rparr>;
          s = enableProcessingLayer s 0
      in s\<lparr>instr_layer := 0, data_layer := 0,
           fetch_reg := (fetch_reg s)\<lparr>fe_valid := False, fe_block_addr := 8\<rparr>,
           decr_reg := (decr_reg s)\<lparr>dr_valid := False\<rparr>,
           decode_reg := (decode_reg s)\<lparr>de_valid := False\<rparr>,
           exec_reg := (exec_reg s)\<lparr>ex_valid := False\<rparr>,
           mem_reg := (mem_reg s)\<lparr>me_valid := False\<rparr>,
           wb_reg := (wb_reg s)\<lparr>wb_valid := False\<rparr>,
           key_valid := False, key_check_failed := False, runtime_app_key := Quad 0 0 0 0,
           copro_reg := Quad 0 0 0 0,
           secure_runtime_map_valid := False, secure_runtime_region_valid := False\<rparr>)"

definition reseal_output :: "'a cpu_scheme \<Rightarrow> 'a cpu_scheme" where
  "reseal_output s =
     (if key_valid s \<and> \<not> key_check_failed s \<and> \<not> isSecurityLocked s
      then let (rc, s) = secure_reseal_current_image s 0
           in if rc \<noteq> 0 then s\<lparr>key_check_failed := True\<rparr> else s
      else s)"

text \<open>Copying layer 0 back to the host: \<open>(host, state)\<close>.\<close>

definition store_image :: "'a cpu_scheme \<Rightarrow> (nat \<Rightarrow> u32) \<Rightarrow> nat \<Rightarrow> (nat \<Rightarrow> u32) \<times> 'a cpu_scheme" where
  "store_image s host io_words =
     for_up 0 io_words
       (\<lambda>i (host, s).
          let (value, s) = (if i < SEC_HDR_WORDS then protectedRead s 0 i else (mem_read s 0 i, s))
          in (host(i := value), s)) (host, s)"

definition status_of :: "'a cpu_scheme \<Rightarrow> u32" where
  "status_of s =
     (let status = (if isSecurityLocked s then 1 else 0 :: u32);
          status = (if key_check_failed s then status OR 2 else status)
      in status OR push_bit 16 (retired_instructions s AND 0xFFFF))"

text \<open>
  The top function. \<open>None\<close> is the null pointer for the image, which is then neither loaded nor
  stored; the result is \<open>(host, status, state)\<close>, the status being written when the host asks for it.
\<close>

definition Crypto3DStackCPU_top ::
  "'a cpu_scheme \<Rightarrow> (nat \<Rightarrow> u32) option \<Rightarrow> u32 \<Rightarrow> (nat \<Rightarrow> u32) option \<times> u32 \<times> 'a cpu_scheme" where
  "Crypto3DStackCPU_top s host word_count =
     (let io_words = io_word_count word_count;
          s = (if isSecurityLocked s then clearSecurityLockdown s else s);
          s = (case host of None \<Rightarrow> s | Some img \<Rightarrow> load_image s img io_words);
          s = reset_processor s;
          s = run_cycles 2000 s;
          s = reseal_output s;
          (host, s) = (case host of None \<Rightarrow> (None, s)
                       | Some img \<Rightarrow> let (img, s) = store_image s img io_words in (Some img, s));
          status = status_of s
      in (host, status,
          s\<lparr>runtime_app_key := Quad 0 0 0 0, copro_reg := Quad 0 0 0 0, key_valid := False\<rparr>))"

end
