(* ===== verification/Image_Integrity.thy ===== *)
theory Image_Integrity
  imports Sealed_Image
begin

text \<open>
  Correctness of the sealed image of \<open>Sealed_Image\<close>: the hiding positions are distinct and outside
  header and text; reading changes at most the log (\<open>quiet\<close>); what a group of writes may change
  (\<open>wrote\<close>); hiding and extraction are the scatter and gather of \<open>Bit_Scatter\<close> on the store
  \<open>layer_store\<close>; validation accepts exactly the states with \<open>image_sealed\<close>, creation establishes
  it, resealing re-establishes it after stores to the data region.
\<close>

section \<open>Positions of the hidden bits\<close>

lemma place_position_range:
  assumes "place_position low span ts te ps i n seed = Some (pos, seed')"
  shows "pos \<notin> set ps \<and> (\<exists>x b. pos = (low + x mod span) * 32 + (drop_bit 27 b AND 31) \<and>
     32 \<le> low + x mod span \<and> \<not> (ts \<le> low + x mod span \<and> low + x mod span < te))"
  using assms
proof (induction n arbitrary: seed)
  case (Suc n)
  then show ?case
    by (auto simp: Let_def not_less not_le split: if_splits)
qed simp

definition position_ok :: "nat \<Rightarrow> u32 \<Rightarrow> u32 \<Rightarrow> nat \<Rightarrow> bool" where
  "position_ok n ts te p \<longleftrightarrow> 32 \<le> p div 32 \<and> p div 32 < n \<and> \<not> (unat ts \<le> p div 32 \<and> p div 32 < unat te)"

lemma unat_position:
  fixes wd :: u32
  assumes "unat wd < 2 ^ 27"
  shows "unat (wd * 32 + (drop_bit 27 b AND 31)) = 32 * unat wd + unat (drop_bit 27 b AND 31 :: u32)"
    "unat (drop_bit 27 b AND 31 :: u32) < 32"
proof -
  have "drop_bit 27 b AND 31 \<le> (31::u32)" by (rule word_and_le1)
  then show b: "unat (drop_bit 27 b AND 31 :: u32) < 32" by (simp add: word_le_nat_alt)
  show "unat (wd * 32 + (drop_bit 27 b AND 31)) = 32 * unat wd + unat (drop_bit 27 b AND 31 :: u32)"
    using assms b by (simp add: unat_word_ariths)
qed

lemma place_position_ok:
  assumes "place_position low span ts te ps i n seed = Some (pos, seed')"
    and "span \<noteq> 0" "unat low + unat span \<le> k" "k \<le> 2 ^ 27"
  shows "pos \<notin> set ps \<and> position_ok k ts te (unat pos)"
proof -
  obtain x b where p: "pos = (low + x mod span) * 32 + (drop_bit 27 b AND 31)" "pos \<notin> set ps"
    "32 \<le> low + x mod span" "\<not> (ts \<le> low + x mod span \<and> low + x mod span < te)"
    using place_position_range[OF assms(1)] by blast
  have "0 < unat span" using assms(2) by (simp add: unat_gt_0)
  then have "unat x mod unat span < unat span" by simp
  then have wd: "unat (low + x mod span) < k"
    using assms(3,4) by (simp add: unat_word_ariths unat_mod)
  then have "unat pos div 32 = unat (low + x mod span)"
    using unat_position[of "low + x mod span" b] assms(4) p(1) by simp
  then show ?thesis using p wd by (simp add: position_ok_def word_le_nat_alt word_less_nat_alt)
qed

lemma place_positions_ok:
  assumes "place_positions low span ts te i n ps seed = Some qs"
    and "span \<noteq> 0" "unat low + unat span \<le> k" "k \<le> 2 ^ 27"
    and "distinct ps" "\<forall>p\<in>set ps. position_ok k ts te (unat p)"
  shows "length qs = length ps + n \<and> distinct qs \<and> (\<forall>p\<in>set qs. position_ok k ts te (unat p))"
  using assms(1,5,6)
proof (induction n arbitrary: i ps seed)
  case (Suc n)
  from Suc.prems(1) obtain pos seed' where
    one: "place_position low span ts te ps i 2048 seed = Some (pos, seed')"
    and rest: "place_positions low span ts te (i + 1) n (ps @ [pos]) seed' = Some qs"
    by (auto split: option.splits)
  have "pos \<notin> set ps \<and> position_ok k ts te (unat pos)" by (rule place_position_ok[OF one assms(2-4)])
  then show ?case using Suc.IH[OF rest] Suc.prems(2,3) by auto
qed simp

lemma generate_positions_ok:
  assumes "secure_generate_positions nonce ts te n = Some ps" "n \<le> 2 ^ 27"
  shows "length ps = 128 \<and> distinct ps \<and> (\<forall>p\<in>set ps. position_ok (unat n) ts te (unat p))"
proof -
  obtain low seed where run: "place_positions low (n - 1 - low + 1) ts te 0 128 [] seed = Some ps"
    and low: "low < n"
    using assms(1) unfolding secure_generate_positions_def Let_def
    by (auto simp: not_le split: if_splits)
  have n: "unat n \<le> 2 ^ 27" using assms(2) by (simp add: word_le_nat_alt)
  have "n - 1 - low + 1 = n - low" by simp
  moreover have "unat low + unat (n - low) \<le> unat n"
    using low by (simp add: unat_sub word_less_nat_alt word_le_nat_alt)
  moreover have "n - low \<noteq> 0" using low by auto
  ultimately show ?thesis using place_positions_ok[OF run, of "unat n"] n by simp
qed

section \<open>Reading changes the log at most\<close>

definition quiet :: "'a smem_scheme \<Rightarrow> 'a smem_scheme \<Rightarrow> bool" where
  "quiet s t \<longleftrightarrow> (\<exists>f. t = s\<lparr>layer_log := f\<rparr>) \<and> (smem_wf s \<longrightarrow> smem_wf t)"

lemma quiet_refl [simp]: "quiet s s"
  by (auto simp: quiet_def intro: exI[of _ "layer_log s"])

lemma quiet_trans [trans]: "quiet s t \<Longrightarrow> quiet t u \<Longrightarrow> quiet s u"
  by (auto simp: quiet_def)

definition rd :: "nat \<Rightarrow> nat \<Rightarrow> 'a smem_scheme \<Rightarrow> 'a smem_scheme" where
  "rd l a s = snd (protectedRead s l a)"

lemma protectedRead_pair: "protectedRead s l a = (mem_read s l a, rd l a s)"
  by (simp add: rd_def prod_eq_iff protectedRead_value)

lemma quiet_rd: "quiet s (rd l a s)"
proof (cases "isValidLayer s l")
  case True
  then have "rd l a s = note_access s ''READ'' l a" by (simp add: rd_def protectedRead_def Let_def)
  then show ?thesis using note_access_log[of s "''READ''" l a] wf_note_access[of s "''READ''" l a]
    by (auto simp: quiet_def)
qed (simp add: rd_def protectedRead_def)

lemma quiet_reads:
  assumes "quiet s t"
  shows "mem_read t = mem_read s" "rawRead t = rawRead s" "memory t = memory s"
    "num_words t = num_words s" "num_layers t = num_layers s" "hardware_root t = hardware_root s"
    "layer_access t = layer_access s" "layer_keys t = layer_keys s"
    "layer_is_encrypted t = layer_is_encrypted s" "isValidLayer t = isValidLayer s"
    "security_lockdown t = security_lockdown s" "tamper_events t = tamper_events s"
    "accessible t = accessible s" "smem.more t = smem.more s"
proof -
  obtain f where "t = s\<lparr>layer_log := f\<rparr>" using assms by (auto simp: quiet_def)
  note t = this
  show valid: "isValidLayer t = isValidLayer s" by (intro ext) (simp add: t isValidLayer_def)
  show "accessible t = accessible s" by (intro ext) (simp add: t accessible_def isValidLayer_def)
  show "mem_read t = mem_read s" "rawRead t = rawRead s"
    by (intro ext, simp add: valid mem_read_def rawRead_def t Let_def)+
qed (use assms in \<open>auto simp: quiet_def\<close>)

lemma quiet_image [simp]:
  assumes "quiet s t"
  shows "words32 t = words32 s" "text_raw_words t = text_raw_words s" "data_raw_words t = data_raw_words s"
    "secure_collect_measurements t = secure_collect_measurements s"
    "secure_derive_session_key t = secure_derive_session_key s"
    "secure_compute_img_tag t = secure_compute_img_tag s" "img_tag_words t = img_tag_words s"
    "secure_derive_root_from_nonce t = secure_derive_root_from_nonce s"
proof -
  note q = quiet_reads[OF assms]
  show "words32 t = words32 s" by (simp add: words32_def getNumWords_def q)
  show raw: "text_raw_words t = text_raw_words s" "data_raw_words t = data_raw_words s"
    by (simp_all add: text_raw_words_def data_raw_words_def fun_eq_iff q)
  show meas: "secure_collect_measurements t = secure_collect_measurements s"
    by (simp add: secure_collect_measurements_def fun_eq_iff raw)
  show root: "secure_derive_root_from_nonce t = secure_derive_root_from_nonce s"
    by (simp add: secure_derive_root_from_nonce_def deriveHardwareWord_def fun_eq_iff q)
  show "secure_derive_session_key t = secure_derive_session_key s"
    by (simp add: secure_derive_session_key_def fun_eq_iff meas root)
  show img: "img_tag_words t = img_tag_words s" by (simp add: img_tag_words_def fun_eq_iff raw)
  show "secure_compute_img_tag t = secure_compute_img_tag s"
    by (simp add: secure_compute_img_tag_def fun_eq_iff img)
qed

lemma mem_read_rd [simp]: "mem_read (rd l a s) = mem_read s"
  by (rule quiet_reads[OF quiet_rd])

lemma read_quad_pair:
  "fst (read_quad s l b) = quad_gen (\<lambda>i. mem_read s l (b + i))" "quiet s (snd (read_quad s l b))"
proof -
  show "fst (read_quad s l b) = quad_gen (\<lambda>i. mem_read s l (b + i))"
    by (simp add: read_quad_def protectedRead_pair Let_def quad_gen_def)
  show "quiet s (snd (read_quad s l b))"
    by (simp add: read_quad_def protectedRead_pair Let_def) (meson quiet_rd quiet_trans)
qed

section \<open>The header as a value\<close>

definition header_of :: "(nat \<Rightarrow> u32) \<Rightarrow> SecureHeaderState" where
  "header_of r =
     \<lparr>h_policy = r W_POLICY, h_text_start = r W_TEXT_START, h_text_words = r W_TEXT_WORDS,
      h_text_end = r W_TEXT_END, h_data_start = r W_DATA_START, h_data_words = r W_DATA_WORDS,
      h_data_end = r W_DATA_END, h_data_flags = r W_DATA_FLAGS, h_epoch = r W_EPOCH,
      h_nonce = quad_gen (\<lambda>i. r (W_NONCE0 + i)), h_wrapped = quad_gen (\<lambda>i. r (W_WRAP0 + i)),
      h_key_tag = quad_gen (\<lambda>i. r (W_KEYTAG0 + i)), h_img_tag = quad_gen (\<lambda>i. r (W_IMGTAG0 + i)),
      h_measurements = quad_gen (\<lambda>i. r (W_MEAS0 + i))\<rparr>"

definition header_magic_ok :: "(nat \<Rightarrow> u32) \<Rightarrow> bool" where
  "header_magic_ok r \<longleftrightarrow> r W_MAGIC = SEC_HDR_MAGIC \<and> r W_VERSION = SEC_HDR_VERSION \<and>
     r W_FLAGS AND SEC_HDR_FLAGS = SEC_HDR_FLAGS"

definition decoded :: "'a sec_scheme \<Rightarrow> nat \<Rightarrow> SecureHeaderState option" where
  "decoded s l =
     (let hdr = header_of (mem_read s l) in
      if 32 < words32 s \<and> header_magic_ok (mem_read s l) \<and> header_ranges_ok (words32 s) hdr then Some hdr
      else None)"

lemma mem_read_read_quad [simp]: "mem_read (snd (read_quad s l b)) = mem_read s"
  by (rule quiet_reads[OF read_quad_pair(2)])

lemma read_header_fields_pair:
  "fst (read_header_fields s l) = header_of (mem_read s l)" "quiet s (snd (read_header_fields s l))"
proof -
  show "fst (read_header_fields s l) = header_of (mem_read s l)"
    by (simp add: read_header_fields_def Let_def protectedRead_pair case_prod_unfold
        read_quad_pair(1) header_of_def)
  have 1: "quiet s t \<Longrightarrow> quiet s (rd l a t)" for t a
    by (rule quiet_trans[OF _ quiet_rd])
  have 2: "quiet s t \<Longrightarrow> quiet s (snd (read_quad t l b))" for t b
    by (rule quiet_trans[OF _ read_quad_pair(2)])
  show "quiet s (snd (read_header_fields s l))"
    by (simp only: read_header_fields_def Let_def protectedRead_pair case_prod_unfold fst_conv snd_conv)
       (intro 1 2 quiet_refl)
qed

lemma decode_header_pair:
  "fst (secure_decode_header s l) = decoded s l" "quiet s (snd (secure_decode_header s l))"
proof -
  let ?s = "rd l W_FLAGS (rd l W_VERSION (rd l W_MAGIC s))"
  have q: "quiet s ?s" by (intro quiet_trans[OF _ quiet_rd] quiet_refl)
  have dec: "secure_decode_header s l =
      (if words32 s \<le> 32 then (None, s)
       else if \<not> header_magic_ok (mem_read s l) then (None, ?s)
       else (if header_ranges_ok (words32 s) (header_of (mem_read s l))
             then Some (header_of (mem_read s l)) else None, snd (read_header_fields ?s l)))"
    by (simp add: secure_decode_header_def Let_def protectedRead_pair case_prod_unfold
        read_header_fields_pair(1) header_magic_ok_def words32_def)
  show "fst (secure_decode_header s l) = decoded s l"
    unfolding dec decoded_def Let_def by (simp only: not_le[symmetric] if_distrib[of fst] fst_conv split: if_split) blast
  show "quiet s (snd (secure_decode_header s l))"
    using q quiet_trans[OF q read_header_fields_pair(2)] by (simp add: dec)
qed

section \<open>Extraction as a gather, hiding as a scatter\<close>

definition hidden_wrapped :: "'a smem_scheme \<Rightarrow> nat \<Rightarrow> u32 list \<Rightarrow> block" where
  "hidden_wrapped s l ps = quad_of_list (gather (mem_read s l) (map unat ps) 4)"

lemma quad_upd_list:
  "length xs = 4 \<Longrightarrow> i < 4 \<Longrightarrow> quad_upd (quad_of_list xs) i x = quad_of_list (xs[i := x])"
  "length xs = 4 \<Longrightarrow> i < 4 \<Longrightarrow> quad_nth (quad_of_list xs) i = xs ! i"
proof -
  assume "length xs = 4" "i < 4"
  moreover from this obtain a b c d where "xs = [a, b, c, d]"
    by (auto simp: numeral_eq_Suc length_Suc_conv)
  ultimately show "quad_upd (quad_of_list xs) i x = quad_of_list (xs[i := x])"
    "quad_nth (quad_of_list xs) i = xs ! i"
    by (auto simp: quad_of_list_def quad_gen_def dest!: less_4_cases)
qed

lemma extract_hidden_pair:
  assumes "length ps = 128"
  shows "fst (secure_extract_hidden_wrapped s l ps) = hidden_wrapped s l ps"
    "quiet s (snd (secure_extract_hidden_wrapped s l ps))"
proof -
  let ?step = "\<lambda>i (wrapped, s).
          let bit_pos = unat (ps ! i);
              word_index = bit_pos div 32;
              bit_in_word = bit_pos mod 32;
              (word_val, s) = protectedRead s l word_index;
              bit_val = drop_bit bit_in_word word_val AND 1;
              key_word = i div 32;
              key_bit = i mod 32
          in (quad_upd wrapped key_word (quad_nth wrapped key_word OR push_bit key_bit bit_val), s)"
  let ?g = "\<lambda>i key. key[i div 32 := key ! (i div 32) OR
        push_bit (i mod 32) (drop_bit (map unat ps ! i mod 32) (mem_read s l (map unat ps ! i div 32)) AND 1)]"
  have inv: "k \<le> 128 \<Longrightarrow> length (for_up 0 k ?g (replicate 4 0)) = 4 \<and>
      fst (for_up 0 k ?step (Quad 0 0 0 0, s)) = quad_of_list (for_up 0 k ?g (replicate 4 0)) \<and>
      quiet s (snd (for_up 0 k ?step (Quad 0 0 0 0, s)))" for k
  proof (induction k)
    case 0
    have "quad_of_list (replicate 4 0) = Quad 0 0 0 (0 :: u32)" by (simp add: quad_of_list_def quad_gen_def)
    then show ?case by simp
  next
    case (Suc k)
    obtain w t where wt: "for_up 0 k ?step (Quad 0 0 0 0, s) = (w, t)" by fastforce
    then have IH: "length (for_up 0 k ?g (replicate 4 0)) = 4"
      "w = quad_of_list (for_up 0 k ?g (replicate 4 0))" "quiet s t"
      using Suc by auto
    have k: "k div 32 < 4" "k < length ps" using Suc.prems assms by auto
    let ?p = "unat (ps ! k)"
    let ?v = "quad_nth w (k div 32) OR push_bit (k mod 32) (drop_bit (?p mod 32) (mem_read t l (?p div 32)) AND 1)"
    have "for_up 0 (Suc k) ?step (Quad 0 0 0 0, s) = ?step k (w, t)" by (subst for_up_Suc) (simp_all only: wt)
    also have "\<dots> = (quad_upd w (k div 32) ?v, rd l (?p div 32) t)"
      by (simp only: Let_def protectedRead_pair prod.case)
    finally have step: "for_up 0 (Suc k) ?step (Quad 0 0 0 0, s) = (quad_upd w (k div 32) ?v, rd l (?p div 32) t)" .
    have g: "for_up 0 (Suc k) ?g (replicate 4 0) = ?g k (for_up 0 k ?g (replicate 4 0))"
      by (rule for_up_Suc) simp
    show ?case unfolding step g fst_conv snd_conv quiet_reads(1)[OF IH(3)] nth_map[OF k(2)] IH(2)
        quad_upd_list(1)[OF IH(1) k(1)] quad_upd_list(2)[OF IH(1) k(1)] length_list_update
      by (intro conjI IH(1) refl quiet_trans[OF IH(3) quiet_rd])
  qed
  show "fst (secure_extract_hidden_wrapped s l ps) = hidden_wrapped s l ps"
    "quiet s (snd (secure_extract_hidden_wrapped s l ps))"
    using inv[of 128] assms
    by (simp_all add: secure_extract_hidden_wrapped_def hidden_wrapped_def gather_def)
qed

section \<open>What a sequence of writes may change\<close>

definition wrote :: "nat \<Rightarrow> nat set \<Rightarrow> 'a smem_scheme \<Rightarrow> 'a smem_scheme \<Rightarrow> bool" where
  "wrote l W s t \<longleftrightarrow> (smem_wf s \<longrightarrow> smem_wf t) \<and> accessible t l = accessible s l
     \<and> num_words t = num_words s \<and> num_layers t = num_layers s \<and> hardware_root t = hardware_root s
     \<and> security_lockdown t = security_lockdown s \<and> layer_is_encrypted t l = layer_is_encrypted s l
     \<and> (smem_wf s \<and> accessible s l \<longrightarrow> (\<forall>b. b \<notin> W \<longrightarrow> mem_read t l b = mem_read s l b))
     \<and> (\<forall>b. (\<forall>w\<in>W. w div 4 \<noteq> b div 4) \<longrightarrow> memory t l b = memory s l b)"

lemma wrote_refl [simp]: "wrote l W s s"
  by (simp add: wrote_def)

lemma wrote_trans: "wrote l W s t \<Longrightarrow> wrote l V t u \<Longrightarrow> wrote l (W \<union> V) s u"
  unfolding wrote_def by (intro conjI; simp)

lemma wrote_mono: "wrote l W s t \<Longrightarrow> W \<subseteq> V \<Longrightarrow> wrote l V s t"
  unfolding wrote_def by (intro conjI) blast+

lemma wrote_quiet:
  assumes "quiet s t" shows "wrote l {} s t"
proof -
  note q = quiet_reads[OF assms]
  show ?thesis using assms by (simp add: wrote_def q) (simp add: quiet_def)
qed

lemma wrote_mem_write: "wrote l {a} s (mem_write s l a v)"
proof -
  have "b div 4 \<noteq> a div 4 \<Longrightarrow> memory (mem_write s l a v) l b = memory s l b" for b
    by (auto simp: mem_write_def Let_def put_block_apply)
  moreover have "mem_read (mem_write s l a v) l b = mem_read s l b"
    if "b \<noteq> a" "smem_wf s" "accessible s l" for b
  proof (cases "a < num_words s")
    case False
    then show ?thesis by (simp add: mem_write_def)
  qed (use that in \<open>simp add: mem_read_write\<close>)
  moreover have "hardware_root (mem_write s l a v) = hardware_root s"
    "layer_is_encrypted (mem_write s l a v) = layer_is_encrypted s"
    by (simp_all add: mem_write_def Let_def)
  ultimately show ?thesis by (auto simp: wrote_def wf_mem_write accessible_def)
qed

lemma quiet_note: "quiet s (note_access s t l a)"
  using note_access_log[of s t l a] wf_note_access[of s t l a] by (auto simp: quiet_def)

lemma wrote_protectedWrite: "wrote l {a} s (protectedWrite s l a v)"
proof (cases "isValidLayer s l")
  case True
  then have "protectedWrite s l a v = mem_write (note_access s ''WRITE'' l a) l a v"
    by (simp add: protectedWrite_def)
  then show ?thesis
    using wrote_trans[OF wrote_quiet[OF quiet_note[of s "''WRITE''" l a]] wrote_mem_write] by simp
qed (simp add: protectedWrite_def)

lemma wrote_rmw_write: "wrote l {a} s (rmw_write l s a v)"
  using wrote_trans[OF wrote_quiet[OF quiet_rd[of s l a]] wrote_protectedWrite[of l a "rd l a s" v]]
  by (simp add: rmw_write_def rd_def)

lemma wrote_steps:
  "wrote l W s t \<Longrightarrow> a \<in> W \<Longrightarrow> wrote l W s (protectedWrite t l a v)"
  "wrote l W s t \<Longrightarrow> a \<in> W \<Longrightarrow> wrote l W s (rmw_write l t a v)"
  "wrote l W s t \<Longrightarrow> quiet t u \<Longrightarrow> wrote l W s u"
  using wrote_trans[of l W s t, OF _ wrote_protectedWrite[of l a t v]]
    wrote_trans[of l W s t, OF _ wrote_rmw_write[of l a t v]] wrote_trans[of l W s t, OF _ wrote_quiet[of t u l]]
  by (simp_all add: insert_absorb)

lemma wrote_write_words: "wrote l (fst ` set kvs) s (write_words l kvs s)"
proof (induction kvs arbitrary: s)
  case (Cons p kvs)
  then show ?case
    using wrote_trans[OF wrote_protectedWrite[of l "fst p" s "snd p"] Cons[of "protectedWrite s l (fst p) (snd p)"]]
    by (simp add: write_words_def case_prod_unfold)
qed (simp add: write_words_def)

lemma write_words_read:
  assumes "smem_wf s" "accessible s l" "\<forall>k\<in>fst ` set kvs. k < num_words s"
  shows "mem_read (write_words l kvs s) l b =
    (case map_of (rev kvs) b of Some v \<Rightarrow> v | None \<Rightarrow> mem_read s l b)"
  using assms
proof (induction kvs arbitrary: s)
  case (Cons p kvs)
  let ?t = "protectedWrite s l (fst p) (snd p)"
  have w: "wrote l {fst p} s ?t" by (rule wrote_protectedWrite)
  have "smem_wf ?t" "accessible ?t l" "num_words ?t = num_words s" using w Cons.prems by (auto simp: wrote_def)
  then show ?case using Cons.IH[of ?t] Cons.prems
    by (auto simp: write_words_def case_prod_unfold protectedWrite_read map_add_def split: option.splits)
qed (simp add: write_words_def)

lemma wrote_scrub: "wrote l {..<32} s (scrub_header s l seed)" for s :: "'a sec_scheme"
proof -
  let ?body = "\<lambda>i (seed, s). let seed = secure_prng_step (seed + of_nat i * 0x9E3779B9)
                       in (seed, protectedWrite s l i seed)"
  have "wrote l {..<32} s (snd (for_up 0 32 ?body (seed, s)))"
  proof (rule for_up_invariant[where P = "\<lambda>p. wrote l {..<32} s (snd p)"])
    fix i :: nat and p :: "u32 \<times> 'a sec_scheme"
    assume "i < 32" "wrote l {..<32} s (snd p)"
    then show "wrote l {..<32} s (snd (?body i p))"
      by (simp add: Let_def case_prod_unfold wrote_steps(1))
  qed simp
  then show ?thesis by (simp add: scrub_header_def)
qed

section \<open>Hiding as a scatter\<close>

lemma secret_map_commutes [simp]:
  "add_log (s\<lparr>secret_map := g\<rparr>) l t = (add_log s l t)\<lparr>secret_map := g\<rparr>"
  "note_access (s\<lparr>secret_map := g\<rparr>) t l a = (note_access s t l a)\<lparr>secret_map := g\<rparr>"
  "isValidLayer (s\<lparr>secret_map := g\<rparr>) = isValidLayer s"
  "mem_read (s\<lparr>secret_map := g\<rparr>) = mem_read s"
  "rawRead (s\<lparr>secret_map := g\<rparr>) = rawRead s"
  "accessible (s\<lparr>secret_map := g\<rparr>) = accessible s"
proof -
  show log: "add_log (s\<lparr>secret_map := g\<rparr>) l t = (add_log s l t)\<lparr>secret_map := g\<rparr>" for s :: "'a sec_scheme" and l t
    by (simp add: add_log_def)
  show valid: "isValidLayer (s\<lparr>secret_map := g\<rparr>) = isValidLayer s"
    by (intro ext) (simp add: isValidLayer_def)
  show "accessible (s\<lparr>secret_map := g\<rparr>) = accessible s"
    by (intro ext) (simp add: accessible_def valid)
  show "mem_read (s\<lparr>secret_map := g\<rparr>) = mem_read s" "rawRead (s\<lparr>secret_map := g\<rparr>) = rawRead s"
    by (intro ext, simp add: mem_read_def rawRead_def valid Let_def)+
  show "note_access (s\<lparr>secret_map := g\<rparr>) t l a = (note_access s t l a)\<lparr>secret_map := g\<rparr>"
    by (simp add: note_access_def logReverseEngAttempt_def scrambleProcessingLayer_def log Let_def
        isValidLayer_def split: option.split)
qed

lemma memory_secret_map: "s\<lparr>secret_map := g\<rparr>\<lparr>memory := m\<rparr> = s\<lparr>memory := m\<rparr>\<lparr>secret_map := g\<rparr>"
  by simp

lemma secret_map_write [simp]:
  "mem_write (s\<lparr>secret_map := g\<rparr>) l a v = (mem_write s l a v)\<lparr>secret_map := g\<rparr>"
  by (simp add: mem_write_def Let_def memory_secret_map)

lemma secret_map_protected [simp]:
  "rd l a (s\<lparr>secret_map := g\<rparr>) = (rd l a s)\<lparr>secret_map := g\<rparr>"
  "protectedWrite (s\<lparr>secret_map := g\<rparr>) l a v = (protectedWrite s l a v)\<lparr>secret_map := g\<rparr>"
  by (simp_all add: rd_def protectedRead_def protectedWrite_def Let_def)


lemma hide_scatter:
  assumes "length ps = 128"
  shows "\<exists>g. secure_hide_wrapped s l ps w =
    (scatter (\<lambda>s. mem_read s l) (rmw_write l) (quad_list w) (map unat ps) s)\<lparr>secret_map := g\<rparr>"
proof -
  let ?hide = "\<lambda>i s.
          let bit_pos = unat (ps ! i);
              word_index = bit_pos div 32;
              bit_in_word = bit_pos mod 32;
              key_word = i div 32;
              key_bit = i mod 32;
              bit_val = drop_bit key_bit (quad_nth w key_word) AND 1;
              (tmp, s) = protectedRead s l word_index;
              s = protectedWrite s l word_index (set_bit_to tmp bit_in_word bit_val)
          in s\<lparr>secret_map := (secret_map s)(i := int bit_pos)\<rparr>"
  let ?sc = "\<lambda>i s. rmw_write l s (map unat ps ! i div 32)
        (set_bit_to (mem_read s l (map unat ps ! i div 32)) (map unat ps ! i mod 32)
          (drop_bit (i mod 32) (quad_list w ! (i div 32)) AND 1))"
  have inv: "k \<le> 128 \<Longrightarrow> \<exists>g. for_up 0 k ?hide s = (for_up 0 k ?sc s)\<lparr>secret_map := g\<rparr>" for k
  proof (induction k)
    case 0
    show ?case by (simp add: exI[of _ "secret_map s"])
  next
    case (Suc k)
    from Suc.IH[OF Suc_leD[OF Suc.prems]]
    obtain g where g: "for_up 0 k ?hide s = (for_up 0 k ?sc s)\<lparr>secret_map := g\<rparr>" by (rule exE)
    have k: "k < length ps" "k div 32 < 4" using Suc.prems assms by auto
    have 1: "for_up 0 (Suc k) ?hide s = ?hide k ((for_up 0 k ?sc s)\<lparr>secret_map := g\<rparr>)"
      by (subst for_up_Suc) (simp_all only: g)
    have 2: "for_up 0 (Suc k) ?sc s = ?sc k (for_up 0 k ?sc s)"
      by (rule for_up_Suc) simp
    define t where "t = for_up 0 k ?sc s"
    show ?case unfolding 1 2 t_def[symmetric]
      by (simp only: Let_def protectedRead_pair prod.case secret_map_commutes secret_map_protected
          rmw_write_def snd_conv nth_map[OF k(1)] quad_list_nth[OF k(2)])
         (simp add: exI[of _ "g(k := _)"] del: fun_upd_apply)
  qed
  show ?thesis using inv[of 128] assms by (simp add: secure_hide_wrapped_def scatter_def)
qed

section \<open>Comparison of words\<close>

lemma secure_equal_words_iff [simp]: "secure_equal_words a b \<longleftrightarrow> a = b"
proof -
  have "for_up 0 4 (\<lambda>i diff. diff OR (quad_nth a i XOR quad_nth b i)) 0 =
      ((((quad_nth a 0 XOR quad_nth b 0) OR (quad_nth a 1 XOR quad_nth b 1)) OR
         (quad_nth a 2 XOR quad_nth b 2)) OR (quad_nth a 3 XOR quad_nth b 3))"
    by (simp add: for_up_def upt_rec numeral_eq_Suc)
  then show ?thesis
    by (cases a; cases b) (simp add: secure_equal_words_def or_eq_0_word xor_eq_0_word)
qed

section \<open>The text region\<close>

lemma unat_div4: "unat (a div 4 :: u32) = unat a div 4"
  by (simp add: unat_div)

lemma phys_text_addr_block:
  fixes ts te a ep :: u32
  assumes "unat ts mod 4 = 0" "unat te mod 4 = 0" "unat ts \<le> unat a" "unat a < unat te"
  defines "m \<equiv> secure_build_map_params ts te ep"
  shows "unat ts \<le> unat (phys_text_addr m a) \<and> unat (phys_text_addr m a) < unat te"
proof -
  have wp: "well_placed m" unfolding m_def by (rule build_well_placed)
  have pl: "placed m b \<longleftrightarrow> unat ts div 4 \<le> unat b \<and> unat b < unat te div 4" for b
    by (auto simp: placed_def m_def word_le_nat_alt build_count)
  let ?b = "secure_map_block_with_params (a div 4) m"
  have "placed m (a div 4)" unfolding pl unat_div4 using assms(1-4) by auto
  then have b: "unat ts div 4 \<le> unat ?b" "unat ?b < unat te div 4"
    using map_block_placed[OF wp] pl by blast+
  have te: "unat te < 2 ^ 32" using unsigned_less[of te, where 'a = nat] by simp
  have "unat ?b * 4 + unat a mod 4 < unat te" using b(2) assms(2) by auto
  then have "unat (phys_text_addr m a) = unat ?b * 4 + unat a mod 4"
    using te by (simp add: phys_text_addr_def unat_word_ariths unat_mod)
  then show ?thesis using b assms(1,2) by auto
qed

lemma rawRead_wrote:
  assumes "wrote l W s t" "\<forall>w\<in>W. w div 4 \<noteq> a div 4"
  shows "rawRead t l a = rawRead s l a"
  using assms by (auto simp: wrote_def rawRead_def isValidLayer_def)

lemma aligned_blocks:
  assumes "lo mod 4 = 0" "hi mod 4 = (0::nat)" "lo \<le> p" "p < hi" "\<not> (lo \<le> x \<and> x < hi)"
  shows "x div 4 \<noteq> p div 4"
proof
  assume eq: "x div 4 = p div 4"
  obtain a b where "lo = 4 * a" "hi = 4 * b" using assms(1,2) by (auto elim!: dvdE simp: mod_eq_0_iff_dvd)
  then have "4 * a \<le> p" "p < 4 * b" "\<not> (4 * a \<le> x \<and> x < 4 * b)" using assms(3-5) by simp_all
  moreover have "4 * a \<le> y \<longleftrightarrow> a \<le> y div 4" "y < 4 * b \<longleftrightarrow> y div 4 < b" for y
    by (simp_all add: less_eq_div_iff_mult_less_eq div_less_iff_less_mult mult.commute)
  ultimately show False using eq by simp
qed

text \<open>The measured words do not depend on words outside the text region.\<close>

lemma text_raw_words_wrote:
  assumes w: "wrote l W s t" and "unat (h_text_start hdr) mod 4 = 0" "unat (h_text_end hdr) mod 4 = 0"
    and out: "\<forall>w\<in>W. \<not> (unat (h_text_start hdr) \<le> w \<and> w < unat (h_text_end hdr))"
  shows "text_raw_words t l hdr = text_raw_words s l hdr"
proof -
  let ?ts = "h_text_start hdr" and ?te = "h_text_end hdr"
  let ?p = "\<lambda>a. unat (phys_text_addr (secure_build_map_params ?ts ?te (h_epoch hdr)) (of_nat a))"
  have "rawRead t l (?p a) = rawRead s l (?p a)" if a: "unat ?ts \<le> a" "a < unat ?te" for a
  proof (rule rawRead_wrote[OF w], rule ballI)
    fix x assume x: "x \<in> W"
    have "a < 2 ^ 32" using a(2) unsigned_less[of ?te, where 'a = nat] by simp
    then have "unat (of_nat a :: u32) = a" by (simp add: unat_of_nat)
    then have "unat ?ts \<le> ?p a \<and> ?p a < unat ?te"
      using phys_text_addr_block[of ?ts ?te "of_nat a"] assms(2,3) a by simp
    moreover have "\<not> (unat ?ts \<le> x \<and> x < unat ?te)" using out x by blast
    ultimately show "x div 4 \<noteq> ?p a div 4"
      by (intro aligned_blocks[OF assms(2,3)]) simp_all
  qed
  then show ?thesis by (simp add: text_raw_words_def Let_def)
qed

section \<open>What validation accepts\<close>

definition key_sealed :: "'a sec_scheme \<Rightarrow> nat \<Rightarrow> SecureHeaderState \<Rightarrow> u32 list \<Rightarrow> block \<Rightarrow> bool" where
  "key_sealed s l hdr ps sk \<longleftrightarrow> decoded s l = Some hdr
     \<and> secure_generate_positions (h_nonce hdr) (h_text_start hdr) (h_text_end hdr) (words32 s) = Some ps
     \<and> hidden_wrapped s l ps = h_wrapped hdr
     \<and> secure_derive_session_key s l hdr = (sk, h_measurements hdr)
     \<and> secure_compute_key_tag hdr (h_wrapped hdr) sk (h_measurements hdr) = h_key_tag hdr"

definition image_sealed :: "'a sec_scheme \<Rightarrow> nat \<Rightarrow> SecureHeaderState \<Rightarrow> u32 list \<Rightarrow> block \<Rightarrow> bool" where
  "image_sealed s l hdr ps sk \<longleftrightarrow> key_sealed s l hdr ps sk
     \<and> secure_compute_img_tag s l hdr sk (h_measurements hdr) = h_img_tag hdr"

lemma generate_positions_length:
  "secure_generate_positions nonce ts te (words32 s) = Some ps \<Longrightarrow> smem_wf s \<Longrightarrow>
     length ps = 128 \<and> distinct ps \<and> (\<forall>p\<in>set ps. position_ok (num_words s) ts te (unat p))"
proof -
  assume g: "secure_generate_positions nonce ts te (words32 s) = Some ps" and wf: "smem_wf s"
  have "num_words s \<le> 1024" using wf by (simp add: smem_wf_def)
  then have u: "unat (words32 s) = num_words s" by (simp add: words32_def getNumWords_def unat_of_nat)
  then have "words32 s \<le> 2 ^ 27" using \<open>num_words s \<le> 1024\<close> by (simp add: word_le_nat_alt)
  then show ?thesis using generate_positions_ok[OF g] u by simp
qed

lemma place_positions_length:
  "place_positions low span ts te i n ps seed = Some qs \<Longrightarrow> length qs = length ps + n"
  by (induction n arbitrary: i ps seed) (auto split: option.splits)

lemma length_positions:
  "secure_generate_positions nonce ts te n = Some ps \<Longrightarrow> length ps = 128"
  by (auto simp: secure_generate_positions_def Let_def split: if_splits dest!: place_positions_length)

text \<open>The three outcomes of reading the header, with the state they leave.\<close>

lemma decode_cases:
  obtains t where "quiet s t" "secure_decode_header s l = (decoded s l, t)"
  using decode_header_pair[of s l] by (metis prod.collapse)

lemma extract_cases:
  assumes "length ps = 128"
  obtains t where "quiet s t" "secure_extract_hidden_wrapped s l ps = (hidden_wrapped s l ps, t)"
  using extract_hidden_pair[OF assms, of s l] by (metis prod.collapse)

lemma hidden_wrapped_quiet [simp]: "quiet s t \<Longrightarrow> hidden_wrapped t l ps = hidden_wrapped s l ps"
  by (simp add: hidden_wrapped_def quiet_reads(1))

lemma lock_sec_code [simp]: "fst (lock_sec s r c) = c"
  by (simp add: lock_sec_def)

lemma lock_sec_state:
  "security_lockdown (snd (lock_sec s r c))" "memory (snd (lock_sec s r c)) = memory s"
  "tamper_detected (snd (lock_sec s r c))" "tamper_events (snd (lock_sec s r c)) = tamper_events s + 1"
  by (simp_all add: lock_sec_def lockSecurity_def Let_def)

text \<open>Validation accepts exactly the sealed images, and changes nothing but the runtime region.\<close>

lemma validate_accepts:
  assumes "image_sealed s l hdr ps sk" "l < num_layers s"
  shows "\<exists>t. quiet s t \<and> secure_validate_image s l = (0, secure_apply_runtime_region t hdr)"
proof -
  note sealed = assms(1)[unfolded image_sealed_def key_sealed_def]
  obtain t where t: "quiet s t" "secure_decode_header s l = (decoded s l, t)" by (rule decode_cases)
  have "length ps = 128" using sealed length_positions by blast
  then obtain u where u: "quiet t u" "secure_extract_hidden_wrapped t l ps = (hidden_wrapped t l ps, u)"
    by (rule extract_cases)
  have su: "quiet s u" by (rule quiet_trans[OF t(1) u(1)])
  have "secure_validate_image s l = (0, secure_apply_runtime_region u hdr)"
    using sealed assms(2) t u su by (simp add: secure_validate_image_def getNumLayers_def)
  then show ?thesis using su by blast
qed

lemma validate_rejects:
  assumes "\<nexists>hdr ps sk. image_sealed s l hdr ps sk"
  shows "fst (secure_validate_image s l) < 0 \<and>
    (\<exists>t r. quiet s t \<and> snd (secure_validate_image s l) = lockSecurity t r)"
proof (cases "l < num_layers s")
  case False
  then show ?thesis by (auto simp: secure_validate_image_def getNumLayers_def lock_sec_def intro: quiet_refl)
next
  case l: True
  obtain t where t: "quiet s t" "secure_decode_header s l = (decoded s l, t)" by (rule decode_cases)
  show ?thesis
  proof (cases "decoded s l")
    case None
    then show ?thesis using l t by (auto simp: secure_validate_image_def getNumLayers_def lock_sec_def)
  next
    case (Some hdr)
    show ?thesis
    proof (cases "secure_generate_positions (h_nonce hdr) (h_text_start hdr) (h_text_end hdr) (words32 s)")
      case None
      then show ?thesis using Some l t
        by (auto simp: secure_validate_image_def getNumLayers_def lock_sec_def)
    next
      case pos: (Some ps)
      then obtain u where u: "quiet t u" "secure_extract_hidden_wrapped t l ps = (hidden_wrapped t l ps, u)"
        using extract_cases[OF length_positions] by blast
      have su: "quiet s u" by (rule quiet_trans[OF t(1) u(1)])
      obtain sk meas where sk: "secure_derive_session_key s l hdr = (sk, meas)" by fastforce
      have "\<not> image_sealed s l hdr ps sk" using assms by blast
      then show ?thesis using Some pos l t u su sk
        by (auto simp: image_sealed_def key_sealed_def secure_validate_image_def getNumLayers_def lock_sec_def)
    qed
  qed
qed

lemma validate_iff:
  assumes "l < num_layers s"
  shows "fst (secure_validate_image s l) = 0 \<longleftrightarrow> (\<exists>hdr ps sk. image_sealed s l hdr ps sk)"
  using validate_accepts[OF _ assms] validate_rejects[of s l] by fastforce

section \<open>The runtime region is outside the image\<close>

lemma runtime_region_reads [simp]:
  "mem_read (secure_apply_runtime_region s h) = mem_read s"
  "rawRead (secure_apply_runtime_region s h) = rawRead s"
  "num_words (secure_apply_runtime_region s h) = num_words s"
  "num_layers (secure_apply_runtime_region s h) = num_layers s"
  "hardware_root (secure_apply_runtime_region s h) = hardware_root s"
  "security_lockdown (secure_apply_runtime_region s h) = security_lockdown s"
  "memory (secure_apply_runtime_region s h) = memory s"
  "smem_wf (secure_apply_runtime_region s h) = smem_wf s"
  "accessible (secure_apply_runtime_region s h) = accessible s"
  "layer_is_encrypted (secure_apply_runtime_region s h) = layer_is_encrypted s"
proof -
  show "mem_read (secure_apply_runtime_region s h) = mem_read s"
    "rawRead (secure_apply_runtime_region s h) = rawRead s"
    by (intro ext, simp add: mem_read_def rawRead_def isValidLayer_def secure_apply_runtime_region_def Let_def)+
  show "accessible (secure_apply_runtime_region s h) = accessible s"
    by (intro ext) (simp add: accessible_def isValidLayer_def secure_apply_runtime_region_def)
qed (simp_all add: secure_apply_runtime_region_def smem_wf_def)

text \<open>Everything the image functions look at: the words, the geometry and the device root.\<close>

definition same_image :: "'a smem_scheme \<Rightarrow> 'b smem_scheme \<Rightarrow> bool" where
  "same_image s t \<longleftrightarrow> mem_read t = mem_read s \<and> rawRead t = rawRead s \<and> num_words t = num_words s
     \<and> hardware_root t = hardware_root s"

lemma same_image_functions:
  assumes "same_image s t"
  shows "words32 t = words32 s" "decoded t = decoded s" "hidden_wrapped t = hidden_wrapped s"
    "secure_derive_session_key t = secure_derive_session_key s"
    "secure_compute_img_tag t = secure_compute_img_tag s"
    "key_sealed t = key_sealed s" "image_sealed t = image_sealed s"
proof -
  note e = assms[unfolded same_image_def]
  show w: "words32 t = words32 s" by (simp add: words32_def getNumWords_def e)
  show d: "decoded t = decoded s" by (intro ext) (simp add: decoded_def w e)
  show h: "hidden_wrapped t = hidden_wrapped s" by (intro ext) (simp add: hidden_wrapped_def e)
  have raw: "text_raw_words t = text_raw_words s" "data_raw_words t = data_raw_words s"
    by (simp_all add: text_raw_words_def data_raw_words_def fun_eq_iff e)
  show sk: "secure_derive_session_key t = secure_derive_session_key s"
    by (simp add: secure_derive_session_key_def secure_collect_measurements_def
        secure_derive_root_from_nonce_def deriveHardwareWord_def fun_eq_iff raw e)
  show img: "secure_compute_img_tag t = secure_compute_img_tag s"
    by (simp add: secure_compute_img_tag_def img_tag_words_def fun_eq_iff raw)
  show k: "key_sealed t = key_sealed s" by (intro ext) (simp add: key_sealed_def w d h sk)
  show "image_sealed t = image_sealed s" by (intro ext) (simp add: image_sealed_def k img)
qed

lemma same_image_simps [simp]:
  "quiet s t \<Longrightarrow> same_image s t"
  "same_image s (secure_apply_runtime_region t h) = same_image s t"
  by (simp_all add: same_image_def quiet_reads)

text \<open>Extraction from a sealed image.\<close>

lemma extract_sealed_state:
  assumes "image_sealed s l hdr ps sk" "l < num_layers s"
  obtains f where "extract_key_from_large_block s l =
      (0, aes_decrypt_block (h_wrapped hdr) sk, (secure_apply_runtime_region s hdr)\<lparr>layer_log := f\<rparr>)"
    "smem_wf s \<longrightarrow> smem_wf ((secure_apply_runtime_region s hdr)\<lparr>layer_log := f\<rparr>)"
proof -
  obtain t where t: "quiet s t" "secure_validate_image s l = (0, secure_apply_runtime_region t hdr)"
    using validate_accepts[OF assms] by blast
  let ?t = "secure_apply_runtime_region t hdr"
  obtain u where u: "quiet ?t u" "secure_decode_header ?t l = (decoded ?t l, u)" by (rule decode_cases)
  have st: "same_image s ?t" using t(1) by simp
  have "same_image s u" using st quiet_reads[OF u(1)] by (simp add: same_image_def)
  note e = same_image_functions[OF this] same_image_functions[OF st]
  have "extract_key_from_large_block s l = (0, aes_decrypt_block (h_wrapped hdr) sk, u)"
    using assms t(2) u(2) e
    by (simp add: extract_key_from_large_block_def getNumLayers_def image_sealed_def key_sealed_def)
  moreover obtain f g where "t = s\<lparr>layer_log := f\<rparr>" "u = ?t\<lparr>layer_log := g\<rparr>"
    using t(1) u(1) by (auto simp: quiet_def)
  moreover have "smem_wf s \<longrightarrow> smem_wf u" using t(1) u(1) by (simp add: quiet_def)
  ultimately show thesis using that[of g] by (simp add: secure_apply_runtime_region_def)
qed

lemma same_image_log [simp]: "same_image s (t\<lparr>layer_log := f\<rparr>) = same_image s t"
proof -
  have "mem_read (t\<lparr>layer_log := f\<rparr>) = mem_read t" "rawRead (t\<lparr>layer_log := f\<rparr>) = rawRead t"
    by (intro ext; simp add: mem_read_def rawRead_def Let_def)+
  then show ?thesis by (simp add: same_image_def)
qed

lemma extract_sealed:
  assumes "image_sealed s l hdr ps sk" "l < num_layers s"
  shows "\<exists>t. extract_key_from_large_block s l = (0, aes_decrypt_block (h_wrapped hdr) sk, t) \<and> same_image s t
     \<and> security_lockdown t = security_lockdown s"
proof -
  obtain f where "extract_key_from_large_block s l =
      (0, aes_decrypt_block (h_wrapped hdr) sk, (secure_apply_runtime_region s hdr)\<lparr>layer_log := f\<rparr>)"
    by (rule extract_sealed_state[OF assms])
  then show ?thesis by simp
qed

section \<open>Creation seals the image\<close>

text \<open>What depends on the tags of the header: nothing but the comparison with them.\<close>

lemma header_tags_irrelevant [simp]:
  "header_words (hdr\<lparr>h_measurements := m\<rparr>) = header_words hdr"
  "header_words (hdr\<lparr>h_wrapped := w\<rparr>) = header_words hdr"
  "header_words (hdr\<lparr>h_key_tag := k\<rparr>) = header_words hdr"
  "header_words (hdr\<lparr>h_img_tag := k\<rparr>) = header_words hdr"
  by (simp_all add: header_words_def)

lemma raw_words_tags [simp]:
  "text_raw_words s l (hdr\<lparr>h_measurements := m\<rparr>) = text_raw_words s l hdr"
  "text_raw_words s l (hdr\<lparr>h_wrapped := w\<rparr>) = text_raw_words s l hdr"
  "text_raw_words s l (hdr\<lparr>h_key_tag := k\<rparr>) = text_raw_words s l hdr"
  "text_raw_words s l (hdr\<lparr>h_img_tag := k\<rparr>) = text_raw_words s l hdr"
  "data_raw_words s l (hdr\<lparr>h_measurements := m\<rparr>) = data_raw_words s l hdr"
  "data_raw_words s l (hdr\<lparr>h_wrapped := w\<rparr>) = data_raw_words s l hdr"
  "data_raw_words s l (hdr\<lparr>h_key_tag := k\<rparr>) = data_raw_words s l hdr"
  "data_raw_words s l (hdr\<lparr>h_img_tag := k\<rparr>) = data_raw_words s l hdr"
  by (simp_all add: text_raw_words_def data_raw_words_def)

lemma keys_tags [simp]:
  "secure_derive_session_key s l (hdr\<lparr>h_measurements := m\<rparr>) = secure_derive_session_key s l hdr"
  "secure_derive_session_key s l (hdr\<lparr>h_wrapped := w\<rparr>) = secure_derive_session_key s l hdr"
  "secure_derive_session_key s l (hdr\<lparr>h_key_tag := k\<rparr>) = secure_derive_session_key s l hdr"
  "secure_derive_session_key s l (hdr\<lparr>h_img_tag := k\<rparr>) = secure_derive_session_key s l hdr"
  "secure_compute_key_tag (hdr\<lparr>h_measurements := m\<rparr>) = secure_compute_key_tag hdr"
  "secure_compute_key_tag (hdr\<lparr>h_wrapped := w\<rparr>) = secure_compute_key_tag hdr"
  "secure_compute_key_tag (hdr\<lparr>h_key_tag := k\<rparr>) = secure_compute_key_tag hdr"
  "secure_compute_key_tag (hdr\<lparr>h_img_tag := k\<rparr>) = secure_compute_key_tag hdr"
  "secure_compute_img_tag s l (hdr\<lparr>h_measurements := m\<rparr>) = secure_compute_img_tag s l hdr"
  "secure_compute_img_tag s l (hdr\<lparr>h_wrapped := w\<rparr>) = secure_compute_img_tag s l hdr"
  "secure_compute_img_tag s l (hdr\<lparr>h_key_tag := k\<rparr>) = secure_compute_img_tag s l hdr"
  "secure_compute_img_tag s l (hdr\<lparr>h_img_tag := k\<rparr>) = secure_compute_img_tag s l hdr"
  by (simp_all add: secure_derive_session_key_def secure_collect_measurements_def session_info_def
      secure_compute_key_tag_def secure_compute_img_tag_def img_tag_words_def fun_eq_iff)

lemma header_ranges_tags [simp]:
  "header_ranges_ok n (hdr\<lparr>h_measurements := m\<rparr>) = header_ranges_ok n hdr"
  "header_ranges_ok n (hdr\<lparr>h_wrapped := w\<rparr>) = header_ranges_ok n hdr"
  "header_ranges_ok n (hdr\<lparr>h_key_tag := k\<rparr>) = header_ranges_ok n hdr"
  "header_ranges_ok n (hdr\<lparr>h_img_tag := k\<rparr>) = header_ranges_ok n hdr"
  by (simp_all add: header_ranges_ok_def)

text \<open>The header block as the words that creation writes.\<close>

definition header_block :: "SecureHeaderState \<Rightarrow> (nat \<times> u32) list" where
  "header_block hdr =
     [(W_MAGIC, SEC_HDR_MAGIC), (W_VERSION, SEC_HDR_VERSION), (W_FLAGS, SEC_HDR_FLAGS),
      (W_POLICY, h_policy hdr), (W_TEXT_START, h_text_start hdr), (W_TEXT_WORDS, h_text_words hdr),
      (W_TEXT_END, h_text_end hdr), (W_DATA_START, h_data_start hdr), (W_DATA_WORDS, h_data_words hdr),
      (W_DATA_END, h_data_end hdr), (W_DATA_FLAGS, h_data_flags hdr), (W_EPOCH, h_epoch hdr)]
     @ quad_at W_NONCE0 (h_nonce hdr) @ quad_at W_WRAP0 (h_wrapped hdr) @ quad_at W_MEAS0 (h_measurements hdr)"

definition tag_block :: "block \<Rightarrow> block \<Rightarrow> (nat \<times> u32) list" where
  "tag_block kt it = quad_at W_KEYTAG0 kt @ quad_at W_IMGTAG0 it"

lemma quad_at_list:
  "quad_at b q = [(b, quad_nth q 0), (b + 1, quad_nth q 1), (b + 2, quad_nth q 2), (b + 3, quad_nth q 3)]"
  by (simp add: quad_at_def upt_rec numeral_eq_Suc)

lemma block_addresses:
  "fst ` set (header_block hdr) \<subseteq> {..<32}" "fst ` set (tag_block kt it) = {16..<24}"
proof -
  show "fst ` set (header_block hdr) \<subseteq> {..<32}" by (simp add: header_block_def quad_at_list)
  have "{16..<24} = {16, 17, 18, 19, 20, 21, 22, 23 :: nat}" by auto
  then show "fst ` set (tag_block kt it) = {16..<24}" by (simp add: tag_block_def quad_at_list)
qed

text \<open>The header read back from the two blocks.\<close>

lemma header_of_blocks:
  assumes "\<And>b. b < 32 \<Longrightarrow> r b =
    (case map_of (rev (tag_block kt it)) b of Some v \<Rightarrow> v | None \<Rightarrow>
      (case map_of (rev (header_block hdr)) b of Some v \<Rightarrow> v | None \<Rightarrow> r0 b))"
  shows "header_of r = hdr\<lparr>h_key_tag := kt, h_img_tag := it\<rparr> \<and> header_magic_ok r"
proof -
  have q: "quad_gen (\<lambda>i. r (b + i)) = q" if "\<And>i. i < 4 \<Longrightarrow> r (b + i) = quad_nth q i" for b q
    by (rule quad_eqI) (simp add: that)
  note list = tag_block_def header_block_def quad_at_list
  have "r 0 = SEC_HDR_MAGIC" "r 1 = SEC_HDR_VERSION" "r 2 = SEC_HDR_FLAGS"
    "r 3 = h_policy hdr" "r 4 = h_text_start hdr" "r 5 = h_text_words hdr" "r 6 = h_text_end hdr"
    "r 7 = h_epoch hdr" "r 28 = h_data_start hdr" "r 29 = h_data_words hdr" "r 30 = h_data_end hdr"
    "r 31 = h_data_flags hdr"
    by (subst assms; simp add: list)+
  moreover have "quad_gen (\<lambda>i. r (8 + i)) = h_nonce hdr" "quad_gen (\<lambda>i. r (12 + i)) = h_wrapped hdr"
    "quad_gen (\<lambda>i. r (16 + i)) = kt" "quad_gen (\<lambda>i. r (20 + i)) = it"
    "quad_gen (\<lambda>i. r (24 + i)) = h_measurements hdr"
    by (rule q; subst assms; (simp add: list)?; drule less_4_cases; elim disjE; simp)+
  ultimately show ?thesis by (simp add: header_of_def header_magic_ok_def)
qed

lemma wrote_scatter:
  "wrote l ((\<lambda>p. p div 32) ` set pos) s (scatter (\<lambda>s. mem_read s l) (rmw_write l) key pos s)"
  unfolding scatter_def
  by (rule for_up_invariant) (auto intro: wrote_steps(2))

lemma wrote_secret_map [simp]: "wrote l W s (t\<lparr>secret_map := g\<rparr>) = wrote l W s t"
  by (simp add: wrote_def smem_wf_def)

lemma wrote_region [simp]: "wrote l W s (secure_apply_runtime_region t h) = wrote l W s t"
  by (simp add: wrote_def)

lemma accessible_wrote: "wrote l W s t \<Longrightarrow> accessible s l \<Longrightarrow> smem_wf s \<Longrightarrow>
    smem_wf t \<and> accessible t l \<and> num_words t = num_words s \<and> hardware_root t = hardware_root s
    \<and> num_layers t = num_layers s \<and> security_lockdown t = security_lockdown s"
  by (simp add: wrote_def)

lemma words32_cong: "num_words t = num_words s \<Longrightarrow> words32 t = words32 s"
  by (simp add: words32_def getNumWords_def)

text \<open>Hiding at good positions: what is extracted afterwards, and what else changed.\<close>

lemma hide_hidden:
  assumes "smem_wf s" "accessible s l" "length ps = 128" "distinct ps"
    and ok: "\<forall>p\<in>set ps. position_ok (num_words s) ts te (unat p)"
  shows "hidden_wrapped (secure_hide_wrapped s l ps w) l ps = w"
    and "wrote l ((\<lambda>p. unat p div 32) ` set ps) s (secure_hide_wrapped s l ps w)"
proof -
  let ?pos = "map unat ps"
  obtain g where g: "secure_hide_wrapped s l ps w =
      (scatter (\<lambda>s. mem_read s l) (rmw_write l) (quad_list w) ?pos s)\<lparr>secret_map := g\<rparr>"
    using hide_scatter[OF assms(3)] by blast
  have "distinct ?pos" using assms(4) by (simp add: distinct_map inj_on_def word_unat_eq_iff)
  moreover have "set ?pos \<subseteq> {..<32 * num_words s}" using ok by (auto simp: position_ok_def div_less_iff_less_mult mult.commute)
  ultimately have "gather (mem_read (scatter (\<lambda>s. mem_read s l) (rmw_write l) (quad_list w) ?pos s) l) ?pos
      (length (quad_list w)) = quad_list w"
    using assms by (intro layer_store.gather_scatter[where n = "num_words s"]) simp_all
  then show "hidden_wrapped (secure_hide_wrapped s l ps w) l ps = w"
    by (simp add: g hidden_wrapped_def)
  show "wrote l ((\<lambda>p. unat p div 32) ` set ps) s (secure_hide_wrapped s l ps w)"
    using wrote_scatter[of l ?pos s "quad_list w"] by (simp add: g image_image)
qed

lemma hidden_wrapped_wrote:
  assumes "wrote l W s t" "smem_wf s" "accessible s l" "\<forall>p\<in>set ps. unat p div 32 \<notin> W"
  shows "hidden_wrapped t l ps = hidden_wrapped s l ps"
proof -
  have "gather (mem_read t l) (map unat ps) 4 = gather (mem_read s l) (map unat ps) 4"
    by (rule gather_cong) (use assms in \<open>auto simp: wrote_def\<close>)
  then show ?thesis by (simp add: hidden_wrapped_def)
qed

definition aligned_text :: "SecureHeaderState \<Rightarrow> bool" where
  "aligned_text hdr \<longleftrightarrow> h_text_start hdr mod 4 = 0 \<and> h_text_end hdr mod 4 = 0"

lemma aligned_text_unat:
  "aligned_text hdr \<Longrightarrow> unat (h_text_start hdr) mod 4 = 0 \<and> unat (h_text_end hdr) mod 4 = 0"
proof -
  assume "aligned_text hdr"
  then have "unat (h_text_start hdr mod 4) = 0" "unat (h_text_end hdr mod 4) = 0" by (simp_all add: aligned_text_def)
  then show ?thesis by (simp add: unat_mod)
qed

lemma session_key_wrote:
  assumes w: "wrote l W s t" and al: "aligned_text hdr"
    and out: "\<forall>w\<in>W. \<not> (unat (h_text_start hdr) \<le> w \<and> w < unat (h_text_end hdr))"
  shows "secure_derive_session_key t l hdr = secure_derive_session_key s l hdr"
proof -
  have "text_raw_words t l hdr = text_raw_words s l hdr"
    by (rule text_raw_words_wrote[OF w _ _ out]) (use aligned_text_unat[OF al] in simp_all)
  moreover have "hardware_root t = hardware_root s" using w by (simp add: wrote_def)
  ultimately show ?thesis
    by (simp add: secure_derive_session_key_def secure_collect_measurements_def
        secure_derive_root_from_nonce_def deriveHardwareWord_def)
qed

lemma img_tag_wrote:
  assumes w: "wrote l W s t" and al: "aligned_text hdr" and d: "h_data_start hdr mod 4 = 0"
    and out: "\<forall>w\<in>W. w < unat (h_text_start hdr) \<and> w < unat (h_data_start hdr)"
  shows "secure_compute_img_tag t l hdr = secure_compute_img_tag s l hdr"
proof -
  have "text_raw_words t l hdr = text_raw_words s l hdr"
    by (rule text_raw_words_wrote[OF w]) (use aligned_text_unat[OF al] out in auto)
  moreover have "data_raw_words t l hdr = data_raw_words s l hdr"
  proof -
    have "unat (h_data_start hdr) mod 4 = 0" using arg_cong[OF d, of unat] by (simp add: unat_mod)
    then have "x div 4 \<noteq> a div 4" if "x < unat (h_data_start hdr)" "unat (h_data_start hdr) \<le> a" for x a
      using that by (intro aligned_blocks[of "unat (h_data_start hdr)" "(a div 4 + 1) * 4"]) auto
    then show ?thesis unfolding data_raw_words_def
      by (intro map_cong refl rawRead_wrote[OF w]) (use out in auto)
  qed
  ultimately show ?thesis by (simp add: secure_compute_img_tag_def img_tag_words_def fun_eq_iff)
qed

text \<open>The states creation passes through, for positions that were found.\<close>

definition create_seed :: "SecureHeaderState \<Rightarrow> u32" where
  "create_seed hdr = quad_nth (h_nonce hdr) 0 XOR rotl32 (quad_nth (h_nonce hdr) 1) 7 XOR 0xD00DFEED"

lemma create_unfold:
  assumes "l < num_layers s"
  shows "create_large_block_with_key s l key =
    (let hdr = initial_header s key;
         s1 = scrub_header s l (create_seed hdr);
         (sk, meas) = secure_derive_session_key s1 l hdr;
         hdr = hdr\<lparr>h_measurements := meas, h_wrapped := aes_encrypt_block key sk\<rparr>;
         s2 = write_words l (header_block hdr) s1
     in case secure_generate_positions (h_nonce hdr) (h_text_start hdr) (h_text_end hdr) (words32 s) of
          None \<Rightarrow> lock_sec s2 ''NO HIDE MAP'' (-20)
        | Some ps \<Rightarrow>
          let s3 = secure_hide_wrapped s2 l ps (h_wrapped hdr);
              (hidden, u) = secure_extract_hidden_wrapped s3 l ps;
              kt = secure_compute_key_tag hdr hidden sk meas;
              it = secure_compute_img_tag u l hdr sk meas;
              s5 = write_words l (tag_block kt it) u
          in (0, secure_apply_runtime_region s5 (hdr\<lparr>h_key_tag := kt, h_img_tag := it\<rparr>)))"
proof -
  have "header_block hdr =
     [(W_MAGIC, SEC_HDR_MAGIC), (W_VERSION, SEC_HDR_VERSION), (W_FLAGS, SEC_HDR_FLAGS),
      (W_POLICY, h_policy hdr), (W_TEXT_START, h_text_start hdr), (W_TEXT_WORDS, h_text_words hdr),
      (W_TEXT_END, h_text_end hdr), (W_DATA_START, h_data_start hdr), (W_DATA_WORDS, h_data_words hdr),
      (W_DATA_END, h_data_end hdr), (W_DATA_FLAGS, h_data_flags hdr), (W_EPOCH, h_epoch hdr)]
     @ quad_at W_NONCE0 (h_nonce hdr) @ quad_at W_WRAP0 (h_wrapped hdr) @ quad_at W_MEAS0 (h_measurements hdr)" for hdr
    by (rule header_block_def)
  then show ?thesis using assms
    unfolding create_large_block_with_key_def create_seed_def Let_def tag_block_def
    by (simp add: getNumLayers_def case_prod_unfold split: option.split)
qed

lemma create_code:
  assumes "l < num_layers s"
  shows "fst (create_large_block_with_key s l key) = 0 \<longleftrightarrow>
    secure_generate_positions (h_nonce (initial_header s key)) (h_text_start (initial_header s key))
      (h_text_end (initial_header s key)) (words32 s) \<noteq> None"
  unfolding create_unfold[OF assms] Let_def case_prod_unfold
  by (simp split: option.split)

lemma generate_positions_words:
  "secure_generate_positions nonce ts te n = Some ps \<Longrightarrow> 32 < n"
  by (auto simp: secure_generate_positions_def split: if_splits)

text \<open>
  The created image: its header reads back as written, the hidden copy of the wrapped key is the
  wrapped key, and, when the text region is a whole number of blocks and its header is acceptable,
  the image is sealed.
\<close>

lemma create_sealed:
  assumes wf: "smem_wf s" and acc: "accessible s l" and code: "fst (create_large_block_with_key s l key) = 0"
  defines "t \<equiv> snd (create_large_block_with_key s l key)" and "hdr \<equiv> initial_header s key"
  shows "\<exists>hf sk ps. h_wrapped hf = aes_encrypt_block key sk
     \<and> (\<exists>meas kt it. hf = hdr\<lparr>h_measurements := meas, h_wrapped := aes_encrypt_block key sk,
           h_key_tag := kt, h_img_tag := it\<rparr>)
     \<and> decoded t l = (if header_ranges_ok (words32 s) hdr then Some hf else None)
     \<and> (header_ranges_ok (words32 s) hdr \<longrightarrow> image_sealed t l hf ps sk)
     \<and> smem_wf t \<and> accessible t l \<and> num_words t = num_words s \<and> num_layers t = num_layers s
     \<and> security_lockdown t = security_lockdown s
     \<and> (\<exists>qs. secure_generate_positions (h_nonce hdr) (h_text_start hdr) (h_text_end hdr) (words32 s) = Some qs
          \<and> wrote l ({..<32} \<union> (\<lambda>p. unat p div 32) ` set qs) s t)"
proof -
  have l: "l < num_layers s" using acc by (simp add: accessible_def isValidLayer_def)
  obtain ps where ps: "secure_generate_positions (h_nonce hdr) (h_text_start hdr) (h_text_end hdr) (words32 s) = Some ps"
    using code create_code[OF l] by (auto simp: hdr_def)
  note pos = generate_positions_length[OF ps wf]
  have n: "32 < num_words s"
  proof -
    have "num_words s \<le> 1024" using wf by (simp add: smem_wf_def)
    then show ?thesis using generate_positions_words[OF ps]
      by (simp add: words32_def getNumWords_def word_less_nat_alt unat_of_nat)
  qed
  define s1 where "s1 = scrub_header s l (create_seed hdr)"
  obtain sk meas where sk: "secure_derive_session_key s1 l hdr = (sk, meas)" by fastforce
  define h2 where "h2 = hdr\<lparr>h_measurements := meas, h_wrapped := aes_encrypt_block key sk\<rparr>"
  have h2: "h_nonce h2 = h_nonce hdr" "h_text_start h2 = h_text_start hdr" "h_text_end h2 = h_text_end hdr"
    "h_wrapped h2 = aes_encrypt_block key sk" "h_measurements h2 = meas" "h_data_start h2 = h_data_start hdr"
    by (simp_all add: h2_def)
  define s2 where "s2 = write_words l (header_block h2) s1"
  define s3 where "s3 = secure_hide_wrapped s2 l ps (h_wrapped h2)"
  obtain u where u: "quiet s3 u" "secure_extract_hidden_wrapped s3 l ps = (hidden_wrapped s3 l ps, u)"
    using extract_cases[of ps] pos by blast
  define kt where "kt = secure_compute_key_tag h2 (hidden_wrapped s3 l ps) sk meas"
  define it where "it = secure_compute_img_tag u l h2 sk meas"
  define s5 where "s5 = write_words l (tag_block kt it) u"
  define hf where "hf = h2\<lparr>h_key_tag := kt, h_img_tag := it\<rparr>"
  have t: "t = secure_apply_runtime_region s5 hf"
    unfolding t_def create_unfold[OF l] Let_def hdr_def[symmetric] s1_def[symmetric] sk prod.case
      h2_def[symmetric] h2(1-3) ps option.case s2_def[symmetric] s3_def[symmetric] u(2)
      kt_def[symmetric] it_def[symmetric] s5_def[symmetric] hf_def[symmetric] snd_conv
    by (rule refl)
  let ?P = "(\<lambda>p. unat p div 32) ` set ps"
  have w1: "wrote l {..<32} s s1" unfolding s1_def by (rule wrote_scrub)
  note a1 = accessible_wrote[OF w1 acc wf]
  have w2: "wrote l {..<32} s1 s2"
    unfolding s2_def by (rule wrote_mono[OF wrote_write_words block_addresses(1)])
  have a2: "smem_wf s2" "accessible s2 l" "num_words s2 = num_words s"
    using accessible_wrote[OF w2] a1 by auto
  have ok2: "\<forall>p\<in>set ps. position_ok (num_words s2) (h_text_start hdr) (h_text_end hdr) (unat p)"
    using pos a2(3) by simp
  have w3: "wrote l ?P s2 s3" and hid3: "hidden_wrapped s3 l ps = h_wrapped h2"
    unfolding s3_def using hide_hidden[OF a2(1,2) _ _ ok2] pos by auto
  have w4: "wrote l {} s3 u" by (rule wrote_quiet[OF u(1)])
  have w5: "wrote l {16..<24} u s5"
    using wrote_write_words[of l "tag_block kt it" u] by (simp add: s5_def block_addresses)
  have a3: "smem_wf s3" "accessible s3 l" "num_words s3 = num_words s"
    using accessible_wrote[OF w3 a2(2,1)] a2 by auto
  have au: "smem_wf u" "accessible u l" "num_words u = num_words s"
    using accessible_wrote[OF w4 a3(2,1)] a3 by auto
  have a5: "smem_wf s5" "accessible s5 l" "num_words s5 = num_words s"
    using accessible_wrote[OF w5 au(2,1)] au by auto
  have P32: "x \<in> ?P \<Longrightarrow> 32 \<le> x" for x using pos by (auto simp: position_ok_def)
  have head: "mem_read s5 l b =
      (case map_of (rev (tag_block kt it)) b of Some v \<Rightarrow> v | None \<Rightarrow>
        (case map_of (rev (header_block h2)) b of Some v \<Rightarrow> v | None \<Rightarrow> mem_read s1 l b))" if "b < 32" for b
  proof -
    have "b \<notin> ?P" using P32[of b] that by auto
    then have "mem_read u l b = mem_read s2 l b" using w3 a2 u(1) by (simp add: wrote_def quiet_reads)
    moreover have "mem_read s2 l b = (case map_of (rev (header_block h2)) b of Some v \<Rightarrow> v | None \<Rightarrow> mem_read s1 l b)"
      unfolding s2_def by (rule write_words_read) (use a1 acc wf n block_addresses(1)[of h2] in auto)
    moreover have "mem_read s5 l b = (case map_of (rev (tag_block kt it)) b of Some v \<Rightarrow> v | None \<Rightarrow> mem_read u l b)"
      unfolding s5_def by (rule write_words_read) (use au n block_addresses(2)[of kt it] in auto)
    ultimately show ?thesis by (simp cong: option.case_cong)
  qed
  have head_read: "header_of (mem_read s5 l) = hf \<and> header_magic_ok (mem_read s5 l)"
    unfolding hf_def by (rule header_of_blocks[where ?r0.0 = "mem_read s1 l"]) (erule head)
  note hdrs = conjunct1[OF head_read] conjunct2[OF head_read]
  have same: "same_image s5 t" by (simp add: t same_image_def)
  have words: "words32 s5 = words32 s" by (rule words32_cong[OF a5(3)])
  have rng: "header_ranges_ok n hf = header_ranges_ok n hdr" for n
    by (simp add: hf_def h2_def)
  have dec: "decoded s5 l = (if header_ranges_ok (words32 s) hdr then Some hf else None)"
    using generate_positions_words[OF ps] by (simp add: decoded_def hdrs words rng Let_def)
  have sealed: "image_sealed s5 l hf ps sk" if r: "header_ranges_ok (words32 s) hdr"
  proof -
    have al: "aligned_text hf" and d: "h_data_start hf mod 4 = 0" and ts: "32 \<le> h_text_start hf"
      "h_text_end hf \<le> h_data_start hf" "h_text_start hf \<le> h_text_end hf"
      using r by (simp_all add: header_ranges_ok_def aligned_text_def hf_def h2_def not_less)
    have tn: "32 \<le> unat (h_text_start hf)" "unat (h_text_start hf) \<le> unat (h_data_start hf)"
      using ts by (simp_all add: word_le_nat_alt)
    have w: "wrote l ({..<32} \<union> ?P \<union> {} \<union> {16..<24}) s1 s5"
      by (rule wrote_trans[OF wrote_trans[OF wrote_trans[OF w2 w3] w4] w5])
    have "secure_derive_session_key s5 l hf = secure_derive_session_key s1 l hf"
      by (rule session_key_wrote[OF w al])
         (use tn pos in \<open>auto simp: position_ok_def hf_def h2_def\<close>)
    then have key: "secure_derive_session_key s5 l hf = (sk, h_measurements hf)"
      by (simp add: hf_def h2_def sk)
    have "hidden_wrapped s5 l ps = hidden_wrapped u l ps"
      by (rule hidden_wrapped_wrote[OF w5 au(1,2)]) (use P32 in force)
    then have hid: "hidden_wrapped s5 l ps = h_wrapped hf"
      using u(1) hid3 by (simp add: hf_def)
    have "secure_compute_img_tag s5 l hf = secure_compute_img_tag u l hf"
      by (rule img_tag_wrote[OF w5 al d]) (use tn in auto)
    then have img: "secure_compute_img_tag s5 l hf sk (h_measurements hf) = h_img_tag hf"
      by (simp add: hf_def h2(5) it_def)
    have kt: "secure_compute_key_tag hf (h_wrapped hf) sk (h_measurements hf) = h_key_tag hf"
      by (simp add: hf_def kt_def hid3 h2(5))
    show ?thesis unfolding image_sealed_def key_sealed_def
      using r ps key hid img kt by (simp add: dec words) (simp add: hf_def h2)
  qed
  have "h_wrapped hf = aes_encrypt_block key sk" by (simp add: hf_def h2)
  moreover have "smem_wf t" "accessible t l" "num_words t = num_words s" "num_layers t = num_layers s"
    "security_lockdown t = security_lockdown s"
    using a5 accessible_wrote[OF w5 au(2,1)] accessible_wrote[OF w4 a3(2,1)] accessible_wrote[OF w3 a2(2,1)]
      accessible_wrote[OF w2] a1 by (simp_all add: t)
  moreover have "\<exists>meas kt it. hf = hdr\<lparr>h_measurements := meas, h_wrapped := aes_encrypt_block key sk,
      h_key_tag := kt, h_img_tag := it\<rparr>"
    by (auto simp: hf_def h2_def)
  moreover have "wrote l ({..<32} \<union> ?P) s t"
    using wrote_trans[OF w1 wrote_trans[OF wrote_trans[OF wrote_trans[OF w2 w3] w4] w5]]
    by (simp add: t) (erule wrote_mono, auto)
  ultimately show ?thesis
    using dec sealed same_image_functions[OF same] ps
    by (rule_tac x = hf in exI, rule_tac x = sk in exI, rule_tac x = ps in exI) simp
qed

section \<open>Clamping of the configuration\<close>

lemma word_align_down: "x - x mod 4 \<le> (x :: u32)" "(x - x mod 4) mod 4 = 0"
proof -
  have "unat (x mod 4) = unat x mod 4" by (simp add: unat_mod)
  moreover have "x mod 4 \<le> x" by (simp add: word_le_nat_alt unat_mod)
  ultimately have u: "unat (x - x mod 4) = unat x div 4 * 4"
    by (metis unat_sub minus_mod_eq_div_mult)
  then show "x - x mod 4 \<le> x" by (simp add: word_le_nat_alt)
  have "unat ((x - x mod 4) mod 4) = 0" by (simp add: unat_mod u)
  then show "(x - x mod 4) mod 4 = 0" by (simp only: unat_eq_0)
qed

lemma nat_round_up:
  assumes "m mod 4 = 0" "x mod 4 \<noteq> 0" "x \<le> (m :: nat)"
  shows "x div 4 * 4 + 4 \<le> m"
proof -
  obtain k where k: "m = 4 * k" using assms(1) by (auto simp: mod_eq_0_iff_dvd elim!: dvdE)
  have "x \<noteq> m" using assms(1,2) by auto
  then have "x div 4 < k" using assms(3) k by (simp add: div_less_iff_less_mult mult.commute)
  then show ?thesis using k by simp
qed

lemma word_align_up:
  fixes x w :: u32
  assumes "x \<le> w" "w \<le> 1024" "w mod 4 = 0" "x mod 4 \<noteq> 0"
  shows "x \<le> x + (4 - x mod 4) \<and> x + (4 - x mod 4) \<le> w \<and> (x + (4 - x mod 4)) mod 4 = 0"
proof -
  have m: "unat (x mod 4) = unat x mod 4" by (simp add: unat_mod)
  have "unat w mod 4 = 0" using arg_cong[OF assms(3), of unat] by (simp add: unat_mod)
  moreover have "unat x mod 4 \<noteq> 0" using assms(4) m by (metis unat_eq_0)
  moreover have b: "unat x \<le> unat w" "unat w \<le> 1024" using assms(1,2) by (simp_all add: word_le_nat_alt)
  ultimately have *: "unat x div 4 * 4 + 4 \<le> unat w"
    by (intro nat_round_up)
  have "x mod 4 \<le> 4" by (simp add: word_le_nat_alt m)
  then have "unat (4 - x mod 4) = 4 - unat x mod 4" by (simp add: unat_sub m)
  moreover have "unat x + (4 - unat x mod 4) = unat x div 4 * 4 + 4" by presburger
  ultimately have u: "unat (x + (4 - x mod 4)) = unat x div 4 * 4 + 4"
    using * b by (simp only: unat_word_ariths) simp
  then have "unat ((x + (4 - x mod 4)) mod 4) = 0" by (simp add: unat_mod)
  then have "(x + (4 - x mod 4)) mod 4 = 0" by (simp only: unat_eq_0)
  moreover have "unat x \<le> unat x div 4 * 4 + 4" by presburger
  ultimately show ?thesis using * u by (simp add: word_le_nat_alt)
qed

text \<open>The relation between the fields that every clamping establishes.\<close>

definition regions_ok :: "u32 \<Rightarrow> u32 \<Rightarrow> u32 \<Rightarrow> u32 \<Rightarrow> u32 \<Rightarrow> u32 \<Rightarrow> u32 \<Rightarrow> bool" where
  "regions_ok words ts tw te ds dw de \<longleftrightarrow> 32 \<le> ts \<and> ts \<le> te \<and> te \<le> ds \<and> ds \<le> de \<and> de \<le> words
     \<and> tw \<le> te - ts \<and> dw \<le> de - ds"

lemma word_diff_mono: "a' \<le> a \<Longrightarrow> a \<le> b \<Longrightarrow> b \<le> b' \<Longrightarrow> b - a \<le> b' - (a' :: u32)"
  by (simp add: word_le_nat_alt unat_sub)

lemma clamp_bounds:
  "lo \<le> words \<Longrightarrow> lo \<le> clamp_lo lo words x \<and> clamp_lo lo words x \<le> words"
  "lo \<le> words \<Longrightarrow> lo \<le> clamp_hi lo words x \<and> clamp_hi lo words x \<le> words"
  by (auto simp: clamp_lo_def clamp_hi_def Let_def not_less)

lemma align_bounds:
  "lo \<le> x \<Longrightarrow> lo \<le> align_lo lo x \<and> align_lo lo x \<le> x"
  "lo mod 4 = 0 \<Longrightarrow> align_lo lo x mod 4 = 0"
  using word_align_down[of x] by (auto simp: align_lo_def Let_def not_less)

lemma align_hi_bounds:
  "x \<le> words \<Longrightarrow> words \<le> 1024 \<Longrightarrow> words mod 4 = 0 \<Longrightarrow>
     x \<le> align_hi words x \<and> align_hi words x \<le> words \<and> align_hi words x mod 4 = 0"
  using word_align_up[of x words] by (auto simp: align_hi_def Let_def not_less)

lemma clamp_header_fields:
  fixes hdr :: SecureHeaderState and words :: u32
  defines "ts \<equiv> clamp_lo 32 words (h_text_start hdr)"
  defines "te \<equiv> clamp_hi ts words (h_text_end hdr)"
  defines "ds \<equiv> clamp_lo te words (h_data_start hdr)"
  defines "de \<equiv> clamp_hi ds words (h_data_end hdr)"
  shows "h_text_start (clamp_header words hdr) = ts" "h_text_end (clamp_header words hdr) = te"
    "h_text_words (clamp_header words hdr) = clamp_len (te - ts) (h_text_words hdr)"
    "h_data_start (clamp_header words hdr) = align_lo te ds"
    "h_data_end (clamp_header words hdr) = align_hi words de"
    "h_data_words (clamp_header words hdr) = clamp_len (de - ds) (h_data_words hdr)"
    "h_epoch (clamp_header words hdr) = h_epoch hdr"
  by (simp_all add: clamp_header_def Let_def ts_def te_def ds_def de_def)

lemma clamp_len_le: "clamp_len lim x \<le> lim"
  by (simp add: clamp_len_def not_less)

lemma initial_header_fields:
  "h_text_start (initial_header s key) = clamp_lo 32 (words32 s) (secure_text_start_addr s)"
  "h_text_end (initial_header s key) =
     clamp_hi (clamp_lo 32 (words32 s) (secure_text_start_addr s)) (words32 s) (secure_text_enc_end s)"
  by (simp_all add: initial_header_def clamp_header_fields Let_def)

lemma header_ranges_iff:
  "header_ranges_ok words hdr \<longleftrightarrow>
     regions_ok words (h_text_start hdr) (h_text_words hdr) (h_text_end hdr) (h_data_start hdr)
       (h_data_words hdr) (h_data_end hdr)
     \<and> aligned_text hdr \<and> h_data_start hdr mod 4 = 0 \<and> h_data_end hdr mod 4 = 0 \<and> h_epoch hdr \<noteq> 0"
  unfolding header_ranges_ok_def regions_ok_def aligned_text_def de_Morgan_disj not_less not_not
  by (intro iffI; elim conjE; intro conjI; (assumption | order))

lemma regions_clamped:
  fixes words x1 x2 x3 x4 x5 x6 :: u32
  assumes "32 \<le> words"
  defines "ts \<equiv> clamp_lo 32 words x1"
  defines "te \<equiv> clamp_hi ts words x2"
  defines "ds \<equiv> clamp_lo te words x3"
  defines "de \<equiv> clamp_hi ds words x4"
  shows "regions_ok words ts (clamp_len (te - ts) x5) te ds (clamp_len (de - ds) x6) de"
    "words \<le> 1024 \<Longrightarrow> words mod 4 = 0 \<Longrightarrow>
     regions_ok words ts (clamp_len (te - ts) x5) te (align_lo te ds) (clamp_len (de - ds) x6) (align_hi words de)"
proof -
  have ts: "32 \<le> ts" "ts \<le> words" using clamp_bounds(1)[OF assms(1)] by (simp_all add: ts_def)
  have te: "ts \<le> te" "te \<le> words" using clamp_bounds(2)[OF ts(2)] by (simp_all add: te_def)
  have ds: "te \<le> ds" "ds \<le> words" using clamp_bounds(1)[OF te(2)] by (simp_all add: ds_def)
  have de: "ds \<le> de" "de \<le> words" using clamp_bounds(2)[OF ds(2)] by (simp_all add: de_def)
  show "regions_ok words ts (clamp_len (te - ts) x5) te ds (clamp_len (de - ds) x6) de"
    using ts te ds de by (simp add: regions_ok_def clamp_len_le)
  assume w: "words \<le> 1024" "words mod 4 = 0"
  note al = align_bounds(1)[OF ds(1)] and ah = align_hi_bounds[OF de(2) w]
  have "clamp_len (de - ds) x6 \<le> align_hi words de - align_lo te ds"
    by (rule order_trans[OF clamp_len_le word_diff_mono]) (use al ah de in simp_all)
  moreover have "align_lo te ds \<le> align_hi words de"
    by (rule order_trans[OF conjunct2[OF al] order_trans[OF de(1) conjunct1[OF ah]]])
  ultimately show "regions_ok words ts (clamp_len (te - ts) x5) te (align_lo te ds) (clamp_len (de - ds) x6)
      (align_hi words de)"
    using ts te al ah by (simp add: regions_ok_def clamp_len_le)
qed

text \<open>The clamped header lacks nothing but the alignment of the text region.\<close>

lemma initial_header_ranges:
  assumes "32 < words32 s" "words32 s \<le> 1024" "words32 s mod 4 = 0"
  shows "header_ranges_ok (words32 s) (initial_header s key) \<longleftrightarrow> aligned_text (initial_header s key)"
proof -
  let ?h = "initial_header s key"
  have al: "h_data_start ?h mod 4 = 0" if "aligned_text ?h"
    using that align_bounds(2) by (simp add: aligned_text_def initial_header_def clamp_header_fields Let_def)
  have ah: "h_data_end ?h mod 4 = 0"
    using align_hi_bounds[OF _ assms(2,3)] clamp_bounds assms(1)
    by (simp add: initial_header_def clamp_header_fields Let_def)
  have "h_epoch ?h \<noteq> 0" by (simp add: initial_header_def clamp_header_fields Let_def)
  moreover have "regions_ok (words32 s) (h_text_start ?h) (h_text_words ?h) (h_text_end ?h) (h_data_start ?h)
      (h_data_words ?h) (h_data_end ?h)"
    using regions_clamped(2)[OF _ assms(2,3)] assms(1)
    by (simp add: initial_header_def clamp_header_fields Let_def)
  ultimately show ?thesis unfolding header_ranges_iff using al ah by blast
qed

section \<open>Resealing\<close>

lemma decoded_wrote:
  assumes "wrote l W s t" "smem_wf s" "accessible s l" "W \<inter> {..<32} = {}"
  shows "decoded t l = decoded s l"
proof -
  have r: "mem_read t l b = mem_read s l b" if "b < 32" for b using assms that by (auto simp: wrote_def)
  have "header_of (mem_read t l) = header_of (mem_read s l)"
    by (simp add: header_of_def r quad_gen_def)
  moreover have "header_magic_ok (mem_read t l) = header_magic_ok (mem_read s l)"
    by (simp add: header_magic_ok_def r)
  moreover have "words32 t = words32 s" using assms(1) by (auto simp: wrote_def intro: words32_cong)
  ultimately show ?thesis by (simp add: decoded_def)
qed

lemma decoded_ranges:
  assumes "decoded s l = Some hdr"
  shows "header_ranges_ok (words32 s) hdr" "hdr = header_of (mem_read s l)" "aligned_text hdr"
    "h_data_start hdr mod 4 = 0" "32 \<le> unat (h_text_start hdr)"
    "unat (h_text_start hdr) \<le> unat (h_text_end hdr)" "unat (h_text_end hdr) \<le> unat (h_data_start hdr)"
    "32 < words32 s"
proof -
  show r: "header_ranges_ok (words32 s) hdr" "hdr = header_of (mem_read s l)" "32 < words32 s"
    using assms by (auto simp: decoded_def Let_def split: if_splits)
  show "aligned_text hdr" "h_data_start hdr mod 4 = 0" "32 \<le> unat (h_text_start hdr)"
    "unat (h_text_start hdr) \<le> unat (h_text_end hdr)" "unat (h_text_end hdr) \<le> unat (h_data_start hdr)"
    using r(1) unfolding header_ranges_iff regions_ok_def by (simp_all add: word_le_nat_alt)
qed

lemma reseal_accepts:
  assumes key: "key_sealed s 0 hdr ps sk" and wf: "smem_wf s" and acc: "accessible s 0"
    and pol: "h_policy hdr AND 4 \<noteq> 0"
  shows "\<exists>t hf. secure_reseal_current_image s x = (0, t) \<and> image_sealed t 0 hf ps sk
    \<and> h_wrapped hf = h_wrapped hdr \<and> wrote 0 {20..<24} s t"
proof -
  note sealed = key[unfolded key_sealed_def]
  have l: "0 < num_layers s" using acc by (simp add: accessible_def isValidLayer_def)
  note rng = decoded_ranges[OF conjunct1[OF sealed]]
  obtain t where t: "quiet s t" "secure_decode_header s 0 = (decoded s 0, t)" by (rule decode_cases)
  have "length ps = 128" using sealed length_positions by blast
  then obtain u where u: "quiet t u" "secure_extract_hidden_wrapped t 0 ps = (hidden_wrapped t 0 ps, u)"
    by (rule extract_cases)
  have su: "quiet s u" by (rule quiet_trans[OF t(1) u(1)])
  define it where "it = secure_compute_img_tag u 0 hdr sk (h_measurements hdr)"
  define hf where "hf = hdr\<lparr>h_img_tag := it\<rparr>"
  define v where "v = write_words 0 (quad_at W_IMGTAG0 it) u"
  have res: "secure_reseal_current_image s x = (0, secure_apply_runtime_region v hf)"
    using sealed pol t u su by (simp add: secure_reseal_current_image_def Let_def v_def hf_def it_def)
  have addr: "fst ` set (quad_at 20 it) = {20..<24}"
  proof -
    have "{20..<24} = {20, 21, 22, 23 :: nat}" by auto
    then show ?thesis by (simp add: quad_at_list)
  qed
  have w: "wrote 0 {20..<24} u v"
    using wrote_write_words[of 0 "quad_at 20 it" u] by (simp add: v_def addr)
  have u': "smem_wf u" "accessible u 0" "num_words u = num_words s"
    using wf acc quiet_reads(4,13)[OF su] su[unfolded quiet_def] by simp_all
  have n: "32 < num_words s"
  proof -
    have "num_words s \<le> 1024" using wf by (simp add: smem_wf_def)
    then show ?thesis using rng(8) by (simp add: words32_def getNumWords_def word_less_nat_alt unat_of_nat)
  qed
  have rd: "mem_read v 0 b = (case map_of (rev (quad_at 20 it)) b of Some x \<Rightarrow> x | None \<Rightarrow> mem_read s 0 b)" for b
    unfolding v_def quiet_reads(1)[OF su, symmetric]
    by (rule write_words_read) (use u' n addr in auto)
  have small: "mem_read v 0 b = mem_read s 0 b" if "b < 20 \<or> 24 \<le> b" for b
    using that by (simp add: rd quad_at_list) linarith
  have tag: "quad_gen (\<lambda>i. mem_read v 0 (20 + i)) = it"
    by (rule quad_eqI) (auto simp: rd quad_at_list dest!: less_4_cases)
  have "header_of (mem_read v 0) = (header_of (mem_read s 0))\<lparr>h_img_tag := it\<rparr>"
    unfolding header_of_def tag by (simp add: small quad_gen_def)
  then have hdr: "header_of (mem_read v 0) = hf" unfolding rng(2)[symmetric] hf_def .
  have "header_magic_ok (mem_read v 0) = header_magic_ok (mem_read s 0)"
    by (simp add: header_magic_ok_def small)
  moreover have words: "words32 v = words32 s"
    by (rule words32_cong) (use w u' in \<open>simp add: wrote_def\<close>)
  ultimately have dec: "decoded v 0 = Some hf"
    using sealed rng(1,2) by (auto simp: decoded_def hdr Let_def hf_def split: if_splits)
  have al: "aligned_text hf" "h_data_start hf mod 4 = 0" using rng(3,4) by (simp_all add: hf_def aligned_text_def)
  have "secure_derive_session_key v 0 hf = secure_derive_session_key u 0 hf"
    by (rule session_key_wrote[OF w al(1)]) (use rng(5) in \<open>auto simp: hf_def\<close>)
  then have sk: "secure_derive_session_key v 0 hf = (sk, h_measurements hf)"
    using sealed su by (simp add: hf_def)
  have pos: "\<forall>p\<in>set ps. 32 \<le> unat p div 32"
    using generate_positions_length[OF _ wf] sealed by (auto simp: position_ok_def)
  have "hidden_wrapped v 0 ps = hidden_wrapped u 0 ps"
    by (rule hidden_wrapped_wrote[OF w u'(1,2)]) (use pos in force)
  then have hid: "hidden_wrapped v 0 ps = h_wrapped hf" using sealed su by (simp add: hf_def)
  have "secure_compute_img_tag v 0 hf = secure_compute_img_tag u 0 hf"
    by (rule img_tag_wrote[OF w al]) (use rng(5-7) in \<open>auto simp: hf_def\<close>)
  then have img: "secure_compute_img_tag v 0 hf sk (h_measurements hf) = h_img_tag hf"
    by (simp add: hf_def it_def)
  have "image_sealed v 0 hf ps sk"
    unfolding image_sealed_def key_sealed_def using dec sk hid img sealed
    by (simp add: words) (simp add: hf_def)
  moreover have "same_image v (secure_apply_runtime_region v hf)" by simp
  moreover have "wrote 0 {20..<24} s (secure_apply_runtime_region v hf)"
    using wrote_trans[OF wrote_quiet[OF su] w] by (simp add: wrote_def)
  ultimately show ?thesis using res same_image_functions(7)[of v "secure_apply_runtime_region v hf"]
    by (intro exI[of _ "secure_apply_runtime_region v hf"] exI[of _ hf]) (simp add: hf_def)
qed

lemma reseal_rejects_state:
  assumes "decoded s 0 = Some hdr" "h_policy hdr AND 4 \<noteq> 0" "\<nexists>ps sk. key_sealed s 0 hdr ps sk"
  shows "fst (secure_reseal_current_image s x) < 0 \<and>
    (\<exists>t r. quiet s t \<and> snd (secure_reseal_current_image s x) = lockSecurity t r)"
proof -
  obtain t where t: "quiet s t" "secure_decode_header s 0 = (decoded s 0, t)" by (rule decode_cases)
  show ?thesis
  proof (cases "secure_generate_positions (h_nonce hdr) (h_text_start hdr) (h_text_end hdr) (words32 s)")
    case None
    then show ?thesis using assms t by (auto simp: secure_reseal_current_image_def lock_sec_def)
  next
    case (Some ps)
    then obtain u where u: "quiet t u" "secure_extract_hidden_wrapped t 0 ps = (hidden_wrapped t 0 ps, u)"
      using extract_cases[OF length_positions] by blast
    have su: "quiet s u" by (rule quiet_trans[OF t(1) u(1)])
    obtain sk meas where sk: "secure_derive_session_key s 0 hdr = (sk, meas)" by fastforce
    have "\<not> key_sealed s 0 hdr ps sk" using assms(3) by blast
    then show ?thesis using Some assms t u su sk
      by (auto simp: key_sealed_def secure_reseal_current_image_def lock_sec_def)
  qed
qed

lemma reseal_rejects:
  assumes "decoded s 0 = Some hdr" "h_policy hdr AND 4 \<noteq> 0" "\<nexists>ps sk. key_sealed s 0 hdr ps sk"
  shows "fst (secure_reseal_current_image s x) < 0 \<and> security_lockdown (snd (secure_reseal_current_image s x))"
  using reseal_rejects_state[OF assms, of x] by (auto simp: lockSecurity_def Let_def)

section \<open>Changing a data word\<close>

lemma gather_eq_iff:
  assumes "length pos = 32 * n"
  shows "gather r pos n = gather r' pos n \<longleftrightarrow>
    (\<forall>p\<in>set pos. bit (r (p div 32)) (p mod 32) = bit (r' (p div 32)) (p mod 32))"
proof
  assume eq: "gather r pos n = gather r' pos n"
  show "\<forall>p\<in>set pos. bit (r (p div 32)) (p mod 32) = bit (r' (p div 32)) (p mod 32)"
  proof
    fix p assume "p \<in> set pos"
    then obtain i where i: "i < length pos" "p = pos ! i" by (auto simp: in_set_conv_nth)
    have j: "i div 32 < n" using i(1) assms by (simp add: div_less_iff_less_mult mult.commute)
    have "bit (gather r pos n ! (i div 32)) (i mod 32) = bit (gather r' pos n ! (i div 32)) (i mod 32)"
      by (simp only: eq)
    then show "bit (r (p div 32)) (p mod 32) = bit (r' (p div 32)) (p mod 32)"
      using bit_gather[OF assms j, of "i mod 32"] i(2) by simp
  qed
next
  assume eq: "\<forall>p\<in>set pos. bit (r (p div 32)) (p mod 32) = bit (r' (p div 32)) (p mod 32)"
  show "gather r pos n = gather r' pos n"
  proof (rule nth_equalityI, simp)
    fix j assume "j < length (gather r pos n)"
    then have j: "j < n" by simp
    show "gather r pos n ! j = gather r' pos n ! j"
    proof (rule bit_word_eqI)
      fix b assume "b < LENGTH(32)"
      then have b: "b < 32" by simp
      then have "32 * j + b < length pos" using j assms by simp
      then show "bit (gather r pos n ! j) b = bit (gather r' pos n ! j) b"
        using eq by (simp add: bit_gather[OF assms j b])
    qed
  qed
qed

lemma quad_of_list_inject: "length xs = 4 \<Longrightarrow> length ys = 4 \<Longrightarrow> quad_of_list xs = quad_of_list ys \<longleftrightarrow> xs = ys"
  by (metis quad_upd_list(2) nth_equalityI)

text \<open>Whether a store into the data region touches the hidden copy of the key.\<close>

definition keeps_hidden_bits :: "'a sec_scheme \<Rightarrow> nat \<Rightarrow> u32 list \<Rightarrow> nat \<Rightarrow> u32 \<Rightarrow> bool" where
  "keeps_hidden_bits s l ps a v \<longleftrightarrow>
     (\<forall>p\<in>set ps. unat p div 32 = a \<longrightarrow> bit v (unat p mod 32) = bit (mem_read s l a) (unat p mod 32))"

lemma hidden_after_write:
  assumes "smem_wf s" "accessible s l" "a < num_words s" "length ps = 128"
  shows "hidden_wrapped (protectedWrite s l a v) l ps = hidden_wrapped s l ps \<longleftrightarrow> keeps_hidden_bits s l ps a v"
proof -
  have "length (map unat ps) = 32 * 4" using assms(4) by simp
  note g = gather_eq_iff[OF this]
  show ?thesis unfolding hidden_wrapped_def
    by (subst quad_of_list_inject, simp, simp, subst g)
       (auto simp: keeps_hidden_bits_def protectedWrite_read[OF assms(1-3)])
qed

lemma data_store:
  fixes s :: "'a sec_scheme" and v :: u32
  assumes sealed: "image_sealed s 0 hdr ps sk" and wf: "smem_wf s" and acc: "accessible s 0"
    and a: "unat (h_data_start hdr) \<le> a" "a < unat (h_data_end hdr)" and pol: "h_policy hdr AND 4 \<noteq> 0"
  defines "t \<equiv> protectedWrite s 0 a v"
  shows "if keeps_hidden_bits s 0 ps a v then key_sealed t 0 hdr ps sk
    else fst (secure_reseal_current_image t x) < 0 \<and> security_lockdown (snd (secure_reseal_current_image t x))"
proof -
  note k = sealed[unfolded image_sealed_def key_sealed_def]
  note rng = decoded_ranges[OF conjunct1[OF conjunct1[OF k]]]
  have "num_words s \<le> 1024" using wf by (simp add: smem_wf_def)
  then have words: "unat (words32 s) = num_words s" by (simp add: words32_def getNumWords_def unat_of_nat)
  have n: "a < num_words s"
    using rng(1) a(2) words unfolding header_ranges_iff regions_ok_def by (simp add: word_le_nat_alt)
  have w: "wrote 0 {a} s t" unfolding t_def by (rule wrote_protectedWrite)
  note at = accessible_wrote[OF w acc wf]
  have dec: "decoded t 0 = decoded s 0" by (rule decoded_wrote[OF w wf acc]) (use a rng(5-7) in auto)
  have wt: "words32 t = words32 s" by (rule words32_cong) (use at in simp)
  have sk: "secure_derive_session_key t 0 hdr = secure_derive_session_key s 0 hdr"
    by (rule session_key_wrote[OF w rng(3)]) (use a rng(7) in auto)
  have len: "length ps = 128" using k length_positions by blast
  note hid = hidden_after_write[OF wf acc n len, of v, folded t_def]
  show ?thesis
  proof (cases "keeps_hidden_bits s 0 ps a v")
    case True
    then show ?thesis using k dec wt sk hid by (simp add: key_sealed_def)
  next
    case False
    then have "hidden_wrapped t 0 ps \<noteq> h_wrapped hdr" using hid k by metis
    then have "\<nexists>ps sk. key_sealed t 0 hdr ps sk" using k by (auto simp: key_sealed_def wt)
    then show ?thesis using reseal_rejects[of t hdr x] False dec k pol by simp
  qed
qed

lemma word_mod4_unat: "(x :: u32) mod 4 = 0 \<Longrightarrow> unat x mod 4 = 0"
proof -
  assume "x mod 4 = 0"
  then have "unat (x mod 4) = 0" by simp
  moreover have "unat (x mod 4) = unat x mod 4" by (simp add: unat_mod)
  ultimately show ?thesis by simp
qed

section \<open>Reading a data word\<close>

lemma read_data_plain:
  assumes sealed: "image_sealed s 0 hdr ps sk" and a: "a < words32 s" "words32 s mod 4 = 0" "words32 s \<le> 1024"
  defines "key \<equiv> aes_decrypt_block (h_wrapped hdr) sk"
  shows "\<exists>t. quiet s t \<and> secure_read_data_word_plain s a =
    (0, Some (if h_data_flags hdr AND 1 \<noteq> 0 \<and> h_data_start hdr \<le> a \<and> a < h_data_end hdr
       then quad_nth (aes_decrypt_block (quad_gen (\<lambda>i. rawRead s 0 (unat a div 4 * 4 + i))) key) (unat a mod 4)
       else mem_read s 0 (unat a)), t)"
proof -
  note k = sealed[unfolded image_sealed_def key_sealed_def]
  obtain t where t: "quiet s t" "secure_decode_header s 0 = (decoded s 0, t)" by (rule decode_cases)
  have "length ps = 128" using k length_positions by blast
  then obtain u where u: "quiet t u" "secure_extract_hidden_wrapped t 0 ps = (hidden_wrapped t 0 ps, u)"
    by (rule extract_cases)
  have su: "quiet s u" by (rule quiet_trans[OF t(1) u(1)])
  have an: "unat a < unat (words32 s)" "unat (words32 s) \<le> 1024" "unat (words32 s) mod 4 = 0"
    using a by (simp_all add: word_less_nat_alt word_le_nat_alt word_mod4_unat)
  then have blk: "unat a div 4 * 4 + 4 \<le> unat (words32 s)"
    by (intro block_in_bounds) (simp_all add: mod_eq_0_iff_dvd)
  have base: "unat (a div 4 * 4) = unat a div 4 * 4" using an by (simp add: unat_word_ariths unat_div)
  have fits: "\<not> a div 4 * 4 + 4 > words32 s"
    using blk an base by (simp add: word_less_nat_alt unat_word_ariths)
  have idx: "unat (a div 4 * 4 + of_nat i) = unat a div 4 * 4 + i" if "i < 4" for i
    using that blk an(2) base by (simp add: unat_word_ariths unat_of_nat)
  have cipher: "quad_gen (\<lambda>i. rawRead u 0 (unat (a div 4 * 4 + of_nat i))) =
      quad_gen (\<lambda>i. rawRead s 0 (unat a div 4 * 4 + i))"
    by (rule quad_gen_cong) (simp add: idx quiet_reads(2)[OF su])
  have lt: "\<not> words32 s \<le> a" using a(1) by simp
  have "secure_read_data_word_plain s a =
     (if h_data_flags hdr AND 1 = 0 \<or> a < h_data_start hdr \<or> a \<ge> h_data_end hdr
      then (0, Some (mem_read s 0 (unat a)), rd 0 (unat a) u)
      else (0, Some (quad_nth (aes_decrypt_block (quad_gen (\<lambda>i. rawRead u 0 (unat (a div 4 * 4 + of_nat i)))) key)
         (unat (a mod 4))), u))"
    using k t u su lt fits
    by (simp add: secure_read_data_word_plain_def Let_def protectedRead_pair quiet_reads(1)[OF su] key_def)
  then show ?thesis unfolding cipher
    using quiet_trans[OF su quiet_rd] su by (auto simp: unat_mod not_less)
qed

end
