(* ===== verification/Pipeline_Invariant.thy ===== *)
theory Pipeline_Invariant
  imports Mips_Semantics Pipeline Image_Integrity
begin

text \<open>
  The relation between a state of the processor and the reference machine: the machine a state runs
  (\<open>machine_of\<close>), the assumptions on the environment (\<open>env\<close>: the key is extracted, the regions of an
  accepted header are active, layer 0 is plain and accessible), the frame relation \<open>keeps\<close>, encrypted
  data words as a function (\<open>data_words\<close>), the abstraction \<open>arch\<close> that completes the instructions in
  flight, and the invariant \<open>pipe_ok\<close> of the pipeline registers and the instruction cache.
\<close>

section \<open>The specification on instruction words\<close>

definition commit :: "machine \<Rightarrow> u32 \<Rightarrow> u32 \<Rightarrow> u32 \<Rightarrow> isa \<Rightarrow> isa" where
  "commit M w v b st =
     (if mips_opcode w = MIPS_OP_LW then load M (mips_rt w) v st
      else if mips_opcode w = MIPS_OP_SW then store M v b st
      else if isWriteInstruction w then set_reg (getDestReg w) v st else st)"

definition follow :: "machine \<Rightarrow> u32 \<Rightarrow> u32 \<times> nat \<Rightarrow> u32 \<Rightarrow> u32 \<Rightarrow> u32 \<times> nat" where
  "follow M w p a b =
     (let (br, nb) = branch_outcome w (fst p * 4 + of_nat (snd p)) a b
      in if mips_opcode w = MIPS_OP_J then enter M nb
         else if br \<and> nb \<noteq> fst (advance p) then enter M nb else advance p)"

lemma isa_step_word:
  assumes "\<not> at_end M st"
  defines "w \<equiv> fetched M (pc st)"
  defines "a \<equiv> get_reg st (fst (getSourceRegs w))" and "b \<equiv> get_reg st (snd (getSourceRegs w))"
  defines "r \<equiv> alu w a b (app_key M) (copro st)"
  shows "isa_step M st = commit M w (fst r) b (st\<lparr>copro := snd r, pc := follow M w (pc st) a b\<rparr>)"
proof -
  have "(effect M (decode_instr w) st)\<lparr>pc := next_pc M (decode_instr w) st\<rparr> =
      commit M w (fst r) b (st\<lparr>copro := snd r, pc := follow M w (pc st) a b\<rparr>)"
  proof (cases "mips_opcode w = MIPS_OP_SPECIAL")
    case True
    then show ?thesis
      unfolding r_def a_def b_def
      by (simp add: decode_instr_def decode_special_def effect_def next_pc_def commit_def follow_def
          branch_outcome_def alu_def getSourceRegs_def isWriteInstruction_def getDestReg_def
          isMipsRWriteFunct_def set_reg_def get_reg_def Let_def mips_shamt_def)
  next
    case False
    then show ?thesis
      unfolding r_def a_def b_def
      by (simp add: decode_instr_def effect_def next_pc_def commit_def follow_def load_def store_def
          branch_outcome_def branch_to_def alu_def getSourceRegs_def isWriteInstruction_def getDestReg_def
          set_reg_def get_reg_def Let_def split: option.splits)
  qed
  then show ?thesis using assms(1) by (simp add: isa_step_def Let_def w_def)
qed

section \<open>The machine a processor state runs\<close>

definition in_text :: "'a sec_scheme \<Rightarrow> u32 \<Rightarrow> bool" where
  "in_text s b \<longleftrightarrow> secure_runtime_text_start_addr s div 4 \<le> b \<and> b < (secure_runtime_text_enc_end s + 4 - 1) div 4"

definition machine_of :: "'a cpu_scheme \<Rightarrow> machine" where
  "machine_of s =
     \<lparr>text_first = secure_runtime_text_start_addr s div 4,
      text_last = (secure_runtime_text_enc_end s + 4 - 1) div 4,
      text_block = (\<lambda>b. if in_text s b then aes_decrypt_block (icache_fetch_block_from_mem s b) (runtime_app_key s)
                         else Quad 0 0 0 0),
      data_first = secure_runtime_data_start_addr s, data_last = secure_runtime_data_enc_end s,
      app_key = runtime_app_key s\<rparr>"

definition env :: "'a cpu_scheme \<Rightarrow> bool" where
  "env s \<longleftrightarrow> smem_wf s \<and> accessible s 0 \<and> \<not> layer_is_encrypted s 0
     \<and> instr_layer s = 0 \<and> data_layer s = 0 \<and> key_valid s \<and> \<not> key_check_failed s
     \<and> secure_runtime_region_valid s \<and> secure_runtime_map_valid s
     \<and> secure_runtime_map s = secure_build_map_params (secure_runtime_text_start_addr s)
         (secure_runtime_text_enc_end s) (secure_runtime_epoch s)
     \<and> regions_ok (words32 s) (secure_runtime_text_start_addr s) (secure_runtime_text_plain_words s)
         (secure_runtime_text_enc_end s) (secure_runtime_data_start_addr s) (secure_runtime_data_plain_words s)
         (secure_runtime_data_enc_end s)
     \<and> secure_runtime_text_start_addr s mod 4 = 0 \<and> secure_runtime_text_enc_end s mod 4 = 0
     \<and> secure_runtime_data_start_addr s mod 4 = 0 \<and> secure_runtime_data_enc_end s mod 4 = 0
     \<and> secure_runtime_data_flags s AND 1 \<noteq> 0"

text \<open>What every stage keeps: all of the state the environment looks at, and the words outside the data region.\<close>

definition keeps :: "'a cpu_scheme \<Rightarrow> 'a cpu_scheme \<Rightarrow> bool" where
  "keeps s t \<longleftrightarrow> (smem_wf s \<longrightarrow> smem_wf t) \<and> accessible t 0 = accessible s 0
     \<and> layer_is_encrypted t 0 = layer_is_encrypted s 0 \<and> num_words t = num_words s
     \<and> num_layers t = num_layers s \<and> hardware_root t = hardware_root s
     \<and> instr_layer t = instr_layer s \<and> data_layer t = data_layer s
     \<and> key_valid t = key_valid s \<and> key_check_failed t = key_check_failed s \<and> runtime_app_key t = runtime_app_key s
     \<and> secure_runtime_region_valid t = secure_runtime_region_valid s
     \<and> secure_runtime_map_valid t = secure_runtime_map_valid s \<and> secure_runtime_map t = secure_runtime_map s
     \<and> secure_runtime_epoch t = secure_runtime_epoch s
     \<and> secure_runtime_text_start_addr t = secure_runtime_text_start_addr s
     \<and> secure_runtime_text_plain_words t = secure_runtime_text_plain_words s
     \<and> secure_runtime_text_enc_end t = secure_runtime_text_enc_end s
     \<and> secure_runtime_data_start_addr t = secure_runtime_data_start_addr s
     \<and> secure_runtime_data_plain_words t = secure_runtime_data_plain_words s
     \<and> secure_runtime_data_enc_end t = secure_runtime_data_enc_end s
     \<and> secure_runtime_data_flags t = secure_runtime_data_flags s
     \<and> (\<forall>a. a < unat (secure_runtime_data_start_addr s) \<or> unat (secure_runtime_data_enc_end s) \<le> a
            \<longrightarrow> memory t 0 a = memory s 0 a)"

lemma keeps_refl [simp]: "keeps s s"
  by (simp add: keeps_def)

lemma keeps_trans [trans]: "keeps s t \<Longrightarrow> keeps t u \<Longrightarrow> keeps s u"
  unfolding keeps_def by (intro conjI; simp)

lemma keeps_env: "env s \<Longrightarrow> keeps s t \<Longrightarrow> env t"
proof -
  assume "env s" and k: "keeps s t"
  moreover have "words32 t = words32 s" by (rule words32_cong) (use k in \<open>simp add: keeps_def\<close>)
  ultimately show "env t" by (simp add: env_def keeps_def)
qed

text \<open>The geometry of the regions in natural numbers.\<close>

lemma env_geometry:
  assumes "env s"
  shows "unat (words32 s) = num_words s" "num_words s \<le> 1024" "4 dvd num_words s"
    "32 \<le> unat (secure_runtime_text_start_addr s)"
    "unat (secure_runtime_text_start_addr s) \<le> unat (secure_runtime_text_enc_end s)"
    "unat (secure_runtime_text_enc_end s) \<le> unat (secure_runtime_data_start_addr s)"
    "unat (secure_runtime_data_start_addr s) \<le> unat (secure_runtime_data_enc_end s)"
    "unat (secure_runtime_data_enc_end s) \<le> num_words s"
    "4 dvd unat (secure_runtime_text_start_addr s)" "4 dvd unat (secure_runtime_text_enc_end s)"
    "4 dvd unat (secure_runtime_data_start_addr s)" "4 dvd unat (secure_runtime_data_enc_end s)"
proof -
  note e = assms[unfolded env_def regions_ok_def]
  show n: "num_words s \<le> 1024" "4 dvd num_words s" using e by (auto simp: smem_wf_def)
  show w: "unat (words32 s) = num_words s" using n by (simp add: words32_def getNumWords_def unat_of_nat)
  show "32 \<le> unat (secure_runtime_text_start_addr s)"
    "unat (secure_runtime_text_start_addr s) \<le> unat (secure_runtime_text_enc_end s)"
    "unat (secure_runtime_text_enc_end s) \<le> unat (secure_runtime_data_start_addr s)"
    "unat (secure_runtime_data_start_addr s) \<le> unat (secure_runtime_data_enc_end s)"
    using e by (simp_all add: word_le_nat_alt)
  have "unat (secure_runtime_data_enc_end s) \<le> unat (words32 s)" using e by (simp add: word_le_nat_alt)
  then show "unat (secure_runtime_data_enc_end s) \<le> num_words s" by (simp only: w)
  show "4 dvd unat (secure_runtime_text_start_addr s)" "4 dvd unat (secure_runtime_text_enc_end s)"
    "4 dvd unat (secure_runtime_data_start_addr s)" "4 dvd unat (secure_runtime_data_enc_end s)"
    using e word_mod4_unat by (auto simp: dvd_eq_mod_eq_0)
qed

lemma in_text_unat:
  assumes "env s"
  shows "in_text s b \<longleftrightarrow> unat (secure_runtime_text_start_addr s) div 4 \<le> unat b
    \<and> unat b < unat (secure_runtime_text_enc_end s) div 4"
    "unat ((secure_runtime_text_enc_end s + 4 - 1) div 4) = unat (secure_runtime_text_enc_end s) div 4"
proof -
  note g = env_geometry[OF assms]
  have "unat (secure_runtime_text_enc_end s + 4 - 1) = unat (secure_runtime_text_enc_end s) + 3"
    using g by (simp add: unat_word_ariths)
  then show *: "unat ((secure_runtime_text_enc_end s + 4 - 1) div 4) = unat (secure_runtime_text_enc_end s) div 4"
    using g(10) by (simp add: unat_div) presburger
  show "in_text s b \<longleftrightarrow> unat (secure_runtime_text_start_addr s) div 4 \<le> unat b
    \<and> unat b < unat (secure_runtime_text_enc_end s) div 4"
    by (simp only: in_text_def word_le_nat_alt word_less_nat_alt *) (simp add: unat_div)
qed

lemma in_text_bound: "env s \<Longrightarrow> in_text s b \<Longrightarrow> unat b < 256"
  using env_geometry(2,6-8)[of s] by (simp add: in_text_unat) linarith

text \<open>A block of the text region is fetched from words of the text region.\<close>

lemma fetch_from_text:
  assumes "env s" "in_text s b"
  defines "p \<equiv> unat (secure_map_text_block_runtime s b)"
  shows "icache_fetch_block_from_mem s b = quad_gen (\<lambda>i. memory s 0 (p * 4 + i))"
    "p * 4 + 4 \<le> unat (secure_runtime_text_enc_end s)"
proof -
  note g = env_geometry[OF assms(1)]
  let ?p = "secure_map_text_block_runtime s b"
  have "unat ?p < unat (secure_runtime_text_enc_end s) div 4"
    using block_map_permutation[of "secure_runtime_text_start_addr s" "secure_runtime_text_enc_end s"
        "secure_runtime_epoch s"] assms
    by (simp add: secure_map_text_block_runtime_def env_def in_text_unat[OF assms(1)])
  then show pt: "p * 4 + 4 \<le> unat (secure_runtime_text_enc_end s)" unfolding p_def using g(10) by linarith
  then have le: "unat ?p * 4 + 4 \<le> num_words s" "unat ?p < num_words s div 4" using g unfolding p_def by linarith+
  have "\<not> words32 s div 4 \<le> ?p"
    using le(2) g(1) by (simp add: word_le_nat_alt unat_div)
  moreover have "rawRead s (instr_layer s) (unat (?p * 4 + of_nat i)) = memory s 0 (unat ?p * 4 + i)" if "i < 4" for i
  proof -
    have "unat (?p * 4 + of_nat i) = unat ?p * 4 + i"
      using that le(1) g(2) by (simp add: unat_word_ariths unat_of_nat)
    then show ?thesis using assms(1) le(1) that by (simp add: rawRead_def env_def accessible_def)
  qed
  ultimately show "icache_fetch_block_from_mem s b = quad_gen (\<lambda>i. memory s 0 (p * 4 + i))"
    by (simp add: icache_fetch_block_from_mem_def Let_def p_def cong: quad_gen_cong)
qed

lemma keeps_fetch:
  assumes "env s" "keeps s t"
  shows "in_text t b = in_text s b"
    "in_text s b \<Longrightarrow> icache_fetch_block_from_mem t b = icache_fetch_block_from_mem s b"
proof -
  have e: "env t" using assms by (rule keeps_env)
  show it: "in_text t b = in_text s b" using assms(2) by (simp add: in_text_def keeps_def)
  assume b: "in_text s b"
  let ?p = "secure_map_text_block_runtime s b"
  have pt: "secure_map_text_block_runtime t b = ?p"
    using assms(2) by (simp add: secure_map_text_block_runtime_def keeps_def)
  have fetch: "icache_fetch_block_from_mem u b = quad_gen (\<lambda>i. memory u 0 (unat (secure_map_text_block_runtime u b) * 4 + i))
      \<and> unat (secure_map_text_block_runtime u b) * 4 + 4 \<le> unat (secure_runtime_text_enc_end u)"
    if "env u" "in_text u b" for u :: "'a cpu_scheme"
    by (rule conjI) (rule fetch_from_text[OF that])+
  have le: "unat ?p * 4 + 4 \<le> unat (secure_runtime_data_start_addr s)"
    using fetch[OF assms(1) b] env_geometry(6)[OF assms(1)] by linarith
  have "memory t 0 (unat ?p * 4 + i) = memory s 0 (unat ?p * 4 + i)" if "i < 4" for i
    using assms(2) le that by (simp add: keeps_def)
  then show "icache_fetch_block_from_mem t b = icache_fetch_block_from_mem s b"
    using fetch[OF e] fetch[OF assms(1) b] b it pt by (simp cong: quad_gen_cong)
qed

lemma keeps_machine: "env s \<Longrightarrow> keeps s t \<Longrightarrow> machine_of t = machine_of s"
  using keeps_fetch[of s t] by (auto simp: machine_of_def keeps_def fun_eq_iff)

section \<open>Data words\<close>

lemma plain_write:
  assumes "accessible s 0" "\<not> layer_is_encrypted s 0" "a < num_words s"
  obtains f where "protectedWrite s 0 a v = s\<lparr>layer_log := f, memory := (memory s)(0 := (memory s 0)(a := v))\<rparr>"
proof -
  obtain f where "note_access s ''WRITE'' 0 a = s\<lparr>layer_log := f\<rparr>" using note_access_log by blast
  then have "protectedWrite s 0 a v = (note_access s ''WRITE'' 0 a)
      \<lparr>memory := (memory s)(0 := (memory s 0)(a := v)), layer_log := f(0 := appendLog (f 0) (write_log_text 0 a))\<rparr>"
    using assms by (simp add: protectedWrite_def mem_write_def accessible_def isValidLayer_def add_log_def)
  then have "protectedWrite s 0 a v = s\<lparr>layer_log := f(0 := appendLog (f 0) (write_log_text 0 a)),
      memory := (memory s)(0 := (memory s 0)(a := v))\<rparr>" by (simp add: \<open>note_access s _ 0 a = _\<close>)
  then show ?thesis by (rule that)
qed

definition data_words :: "'a cpu_scheme \<Rightarrow> u32 \<Rightarrow> u32" where
  "data_words s a = secure_read_encrypted_data_word s a"

text \<open>The loop of \<open>secure_write_encrypted_data_word\<close> after \<open>k\<close> words.\<close>

definition recrypt_step :: "u32 \<Rightarrow> block \<Rightarrow> nat \<Rightarrow> 'a cpu_scheme \<Rightarrow> 'a cpu_scheme" where
  "recrypt_step base c i s =
     (let addr = base + of_nat i;
          s = protectedWrite s (data_layer s) (unat addr) (quad_nth c i);
          index = unat (addr mod 4); tag = addr div 4
      in if dcache_valid s index \<and> dcache_tag s index = tag
         then s\<lparr>dcache_valid := (dcache_valid s)(index := False)\<rparr> else s)"

definition recrypted :: "nat \<Rightarrow> block \<Rightarrow> nat \<Rightarrow> (nat \<Rightarrow> u32) \<Rightarrow> nat \<Rightarrow> u32" where
  "recrypted base c k m a = (if base \<le> a \<and> a < base + k then quad_nth c (a - base) else m a)"

lemma recrypt_loop:
  assumes e: "env s" and b: "unat base + 4 \<le> num_words s" and k: "k \<le> 4"
  shows "\<exists>f d. for_up 0 k (recrypt_step base c) s = s\<lparr>layer_log := f, dcache_valid := d,
      memory := (memory s)(0 := recrypted (unat base) c k (memory s 0))\<rparr>"
  using k
proof (induction k)
  case 0
  have "recrypted (unat base) c 0 (memory s 0) = memory s 0" by (auto simp: fun_eq_iff recrypted_def)
  then have "for_up 0 0 (recrypt_step base c) s = s\<lparr>layer_log := layer_log s, dcache_valid := dcache_valid s,
      memory := (memory s)(0 := recrypted (unat base) c 0 (memory s 0))\<rparr>" by simp
  then show ?case by blast
next
  case (Suc k)
  let ?m = "\<lambda>k. recrypted (unat base) c k (memory s 0)"
  from Suc.IH[OF Suc_leD[OF Suc.prems]] obtain f d where IH: "for_up 0 k (recrypt_step base c) s =
      s\<lparr>layer_log := f, dcache_valid := d, memory := (memory s)(0 := ?m k)\<rparr>" (is "_ = ?t") by blast
  have n: "num_words s \<le> 1024" using env_geometry(2)[OF e] .
  have addr: "unat (base + of_nat k) = unat base + k"
    using Suc.prems b n by (simp add: unat_word_ariths unat_of_nat)
  have "accessible ?t 0" "\<not> layer_is_encrypted ?t 0" "unat base + k < num_words ?t"
    using e b Suc.prems by (simp_all add: env_def accessible_def isValidLayer_def)
  then obtain g where w: "protectedWrite ?t 0 (unat base + k) (quad_nth c k) =
      ?t\<lparr>layer_log := g, memory := (memory ?t)(0 := (memory ?t 0)(unat base + k := quad_nth c k))\<rparr>"
    by (rule plain_write)
  have upd: "(?m k)(unat base + k := quad_nth c k) = ?m (Suc k)" by (auto simp: fun_eq_iff recrypted_def)
  have "data_layer ?t = 0" using e by (simp add: env_def)
  then have put: "protectedWrite ?t (data_layer ?t) (unat (base + of_nat k)) (quad_nth c k) =
      s\<lparr>layer_log := g, dcache_valid := d, memory := (memory s)(0 := ?m (Suc k))\<rparr>" (is "_ = ?u")
    unfolding addr using w upd by simp
  have "\<exists>d. recrypt_step base c k ?t = ?u\<lparr>dcache_valid := d\<rparr>"
  proof (cases "dcache_valid ?u (unat ((base + of_nat k) mod 4)) \<and>
      dcache_tag ?u (unat ((base + of_nat k) mod 4)) = (base + of_nat k) div 4")
    case True
    then show ?thesis unfolding recrypt_step_def Let_def put by auto
  next
    case False
    have "?u = ?u\<lparr>dcache_valid := d\<rparr>" by simp
    moreover have "recrypt_step base c k ?t = ?u" unfolding recrypt_step_def Let_def put if_not_P[OF False] ..
    ultimately show ?thesis by metis
  qed
  then obtain d' where "recrypt_step base c k ?t = ?u\<lparr>dcache_valid := d'\<rparr>" ..
  then have "for_up 0 (Suc k) (recrypt_step base c) s = ?u\<lparr>dcache_valid := d'\<rparr>"
    by (simp only: for_up_Suc[OF le0] IH)
  also have "\<dots> = s\<lparr>layer_log := g, dcache_valid := d', memory := (memory s)(0 := ?m (Suc k))\<rparr>" by simp
  finally show ?case by blast
qed

lemma block_word_address:
  assumes "i < 4" shows "unat ((a :: u32) div 4 * 4 + of_nat i) = unat a div 4 * 4 + i"
proof -
  have "unat a < 4294967296" using unsigned_less[of a, where 'a = nat] by simp
  then have "unat a div 4 * 4 + 4 \<le> 4294967296" by presburger
  then show ?thesis using assms by (simp add: unat_word_ariths unat_div unat_of_nat)
qed

definition crypt_block :: "'a cpu_scheme \<Rightarrow> u32 \<Rightarrow> block" where
  "crypt_block s a = quad_gen (\<lambda>i. rawRead s 0 (unat a div 4 * 4 + i))"

lemma crypt_block_same: "x div 4 = a div 4 \<Longrightarrow> crypt_block s x = crypt_block s a"
  by (simp add: crypt_block_def flip: unat_div4)

lemma crypt_block_raw:
  "quad_gen (\<lambda>i. rawRead s 0 (unat (a div 4 * 4 + of_nat i))) = crypt_block s a"
  unfolding crypt_block_def by (rule quad_gen_cong) (simp add: block_word_address)

lemma data_words_block:
  "data_layer s = 0 \<Longrightarrow> data_words s a = (if a div 4 * 4 + 4 > words32 s then 0
     else quad_nth (aes_decrypt_block (crypt_block s a) (runtime_app_key s)) (unat (a mod 4)))"
  by (simp add: data_words_def secure_read_encrypted_data_word_def Let_def crypt_block_raw)

lemma wf_unrelated_cpu [simp]: "smem_wf (dcache_valid_update f s) = smem_wf s"
  by (simp add: smem_wf_def)

lemma wf_protectedWrite: "smem_wf s \<Longrightarrow> smem_wf (protectedWrite s l a v)"
  by (simp add: protectedWrite_def wf_mem_write wf_note_access)

lemma wf_recrypt: "smem_wf s \<Longrightarrow> smem_wf (secure_write_encrypted_data_word s a v)"
  unfolding secure_write_encrypted_data_word_def Let_def
  by (auto simp: wf_protectedWrite intro!: for_up_invariant[where P = smem_wf])

lemma data_in_bounds:
  assumes "env s" "secure_runtime_data_start_addr s \<le> a" "a < secure_runtime_data_enc_end s"
  shows "unat (secure_runtime_data_start_addr s) \<le> unat a div 4 * 4" "unat a div 4 * 4 + 4 \<le> num_words s"
    "\<not> words32 s < a div 4 * 4 + 4" "unat a div 4 * 4 + 4 \<le> unat (secure_runtime_data_enc_end s)"
proof -
  note g = env_geometry[OF assms(1)]
  have a: "unat (secure_runtime_data_start_addr s) \<le> unat a" "unat a < unat (secure_runtime_data_enc_end s)"
    using assms(2,3) by (simp_all add: word_le_nat_alt word_less_nat_alt)
  show "unat (secure_runtime_data_start_addr s) \<le> unat a div 4 * 4" using a(1) g(11) by (auto elim!: dvdE)
  show "unat a div 4 * 4 + 4 \<le> unat (secure_runtime_data_enc_end s)" by (rule block_in_bounds[OF g(12) a(2)])
  then show b: "unat a div 4 * 4 + 4 \<le> num_words s" using g(8) by linarith
  have "unat (a div 4 * 4 + of_nat 0 + 4) = unat a div 4 * 4 + 4"
    using block_word_address[of 0 a] b g(2) by (simp add: unat_word_ariths)
  then show "\<not> words32 s < a div 4 * 4 + 4" using b g(1) by (simp add: word_less_nat_alt)
qed

lemma encrypted_store:
  fixes s :: "'a cpu_scheme" and v :: u32
  assumes e: "env s" and a: "secure_runtime_data_start_addr s \<le> a" "a < secure_runtime_data_enc_end s"
  defines "t \<equiv> secure_write_encrypted_data_word s a v"
  obtains f d m where "t = s\<lparr>layer_log := f, dcache_valid := d, memory := (memory s)(0 := m)\<rparr>"
    "keeps s t" "data_words t = (data_words s)(a := v)"
proof -
  note g = env_geometry[OF e] and dl = e[unfolded env_def]
  note b = data_in_bounds[OF e a]
  let ?plain = "aes_decrypt_block (crypt_block s a) (runtime_app_key s)"
  let ?c = "aes_encrypt_block (quad_upd ?plain (unat (a mod 4)) v) (runtime_app_key s)"
  let ?m = "recrypted (unat a div 4 * 4) ?c 4 (memory s 0)"
  have base: "unat (a div 4 * 4) = unat a div 4 * 4" using block_word_address[of 0 a] by simp
  have run: "t = for_up 0 4 (recrypt_step (a div 4 * 4) ?c) s"
    using b(3) dl by (simp add: t_def secure_write_encrypted_data_word_def Let_def crypt_block_raw recrypt_step_def[abs_def])
  obtain f d where shape: "t = s\<lparr>layer_log := f, dcache_valid := d, memory := (memory s)(0 := ?m)\<rparr>"
    using recrypt_loop[OF e _ order_refl, of "a div 4 * 4" ?c] b(2) unfolding run base by blast
  have "smem_wf t" unfolding t_def using dl by (intro wf_recrypt) simp
  then have k: "keeps s t" using b(1,4) by (simp add: keeps_def shape accessible_def isValidLayer_def recrypted_def)
  have raw: "rawRead t 0 x = (if unat a div 4 * 4 \<le> x \<and> x < unat a div 4 * 4 + 4
      then quad_nth ?c (x - unat a div 4 * 4) else rawRead s 0 x)" for x
    using b(2) dl by (auto simp: rawRead_def shape recrypted_def accessible_def isValidLayer_def)
  have "crypt_block t x = (if x div 4 = a div 4 then ?c else crypt_block s x)" for x
  proof (cases "x div 4 = a div 4")
    case True
    then have "unat x div 4 = unat a div 4" by (metis unat_div unat_numeral unat_div4)
    then have "crypt_block t x = quad_gen (quad_nth ?c)" unfolding crypt_block_def[of t x]
      by (intro quad_gen_cong) (simp add: raw)
    then show ?thesis using True by simp
  next
    case False
    then have "unat x div 4 \<noteq> unat a div 4" by (metis unat_div4 word_unat_eq_iff)
    then have "crypt_block t x = crypt_block s x" unfolding crypt_block_def[of t x] crypt_block_def[of s x]
      by (intro quad_gen_cong) (auto simp: raw)
    then show ?thesis using False by simp
  qed
  moreover have "words32 t = words32 s" by (rule words32_cong) (simp add: shape)
  moreover have "data_layer t = 0" "data_layer s = 0" "runtime_app_key t = runtime_app_key s"
    using dl by (simp_all add: shape)
  ultimately have "data_words t x = ((data_words s)(a := v)) x" for x
  proof -
    have m4: "unat (y mod 4) < 4" for y :: u32 by (simp add: unat_mod)
    have same: "x = a \<longleftrightarrow> unat (x mod 4) = unat (a mod 4)" if "x div 4 = a div 4"
      by (metis that div_mult_mod_eq word_unat_eq_iff)
    show ?thesis using b(3) \<open>words32 t = words32 s\<close> \<open>data_layer t = 0\<close> \<open>data_layer s = 0\<close>
        \<open>runtime_app_key t = _\<close> \<open>\<And>x. crypt_block t x = _\<close> same
      by (auto simp: data_words_block aes_round_trip quad_nth_upd m4 dest: crypt_block_same[of x a s])
  qed
  then show ?thesis using that shape k by blast
qed

section \<open>The abstraction\<close>

text \<open>Where the next instruction to execute stands, and the effect of the instructions in flight.\<close>

definition front_pc :: "'a cpu_scheme \<Rightarrow> u32 \<times> nat" where
  "front_pc s =
     (if dr_valid (decr_reg s) then (dr_block_addr (decr_reg s), instr_index (decr_reg s))
      else enter (machine_of s) (fe_block_addr (fetch_reg s)))"

definition position :: "'a cpu_scheme \<Rightarrow> u32 \<times> nat" where
  "position s =
     (if ex_valid (exec_reg s) \<and> control_mispredict (exec_reg s)
      then enter (machine_of s) (recovery_block_addr (exec_reg s))
      else if de_valid (decode_reg s) then (word_addr (decode_reg s) div 4, unat (word_addr (decode_reg s) mod 4))
      else front_pc s)"

definition after_mem :: "MemReg \<Rightarrow> isa \<Rightarrow> isa" where
  "after_mem m st =
     (if me_valid m \<and> isWriteInstruction (me_instr m) then set_reg (getDestReg (me_instr m)) (mem_read_val m) st
      else st)"

definition after_exec :: "machine \<Rightarrow> ExecReg \<Rightarrow> isa \<Rightarrow> isa" where
  "after_exec M e st = (if ex_valid e then commit M (ex_instr e) (ex_alu_result e) (rt_forward_val e) st else st)"

definition core :: "'a cpu_scheme \<Rightarrow> isa" where
  "core s = \<lparr>pc = position s, regs = reg_file s, copro = copro_reg s, words = data_words s, locked = security_lockdown s\<rparr>"

definition arch :: "'a cpu_scheme \<Rightarrow> isa" where
  "arch s = after_exec (machine_of s) (exec_reg s) (after_mem (mem_reg s) (core s))"

section \<open>The invariant of the pipeline registers\<close>

definition icache_ok :: "'a cpu_scheme \<Rightarrow> bool" where
  "icache_ok s \<longleftrightarrow> (\<forall>b. in_text s b \<and> iCache_valid s (unat (b mod 4)) \<and> iCache_tag s (unat (b mod 4)) = b div 4
     \<longrightarrow> iCache_data s (unat (b mod 4)) = icache_fetch_block_from_mem s b)"

definition front_ok :: "'a cpu_scheme \<Rightarrow> bool" where
  "front_ok s \<longleftrightarrow>
     (fe_valid (fetch_reg s) \<longrightarrow> in_text s (fe_block_addr (fetch_reg s))
        \<and> fe_block_data (fetch_reg s) = icache_fetch_block_from_mem s (fe_block_addr (fetch_reg s)))
     \<and> (dr_valid (decr_reg s) \<longrightarrow> in_text s (dr_block_addr (decr_reg s)) \<and> instr_index (decr_reg s) < 4
        \<and> decr_block (decr_reg s) = text_block (machine_of s) (dr_block_addr (decr_reg s))
        \<and> fe_block_addr (fetch_reg s) = dr_block_addr (decr_reg s) + 1)"

definition decode_ok :: "'a cpu_scheme \<Rightarrow> bool" where
  "decode_ok s \<longleftrightarrow>
     (de_valid (decode_reg s) \<longrightarrow>
        (let d = decode_reg s; w = de_instr d; p = (word_addr d div 4, unat (word_addr d mod 4)) in
         in_text s (fst p) \<and> w = fetched (machine_of s) p
         \<and> (rs_idx d, rt_idx d) = getSourceRegs w
         \<and> de_is_control d = isControlInstruction w \<and> de_predicted_taken d = (mips_opcode w = MIPS_OP_J)
         \<and> de_fallthrough_block_addr d = (word_addr d + 1) div 4
         \<and> (mips_opcode w = MIPS_OP_J \<longrightarrow> de_predicted_block_addr d = computeJumpTargetBlock w)
         \<and> front_pc s = (if mips_opcode w = MIPS_OP_J then enter (machine_of s) (computeJumpTargetBlock w)
                         else advance p)))"

definition operands_ok :: "'a cpu_scheme \<Rightarrow> bool" where
  "operands_ok s \<longleftrightarrow> (de_valid (decode_reg s) \<longrightarrow>
     rs_val (decode_reg s) = reg_file s (unat (rs_idx (decode_reg s)))
     \<and> rt_val (decode_reg s) = reg_file s (unat (rt_idx (decode_reg s))))"

definition mem_ok :: "MemReg \<Rightarrow> bool" where
  "mem_ok m \<longleftrightarrow> (me_valid m \<and> mips_opcode (me_instr m) \<noteq> MIPS_OP_LW \<longrightarrow> mem_read_val m = me_alu_result m)"

definition pipe_ok :: "'a cpu_scheme \<Rightarrow> bool" where
  "pipe_ok s \<longleftrightarrow> env s \<and> icache_ok s \<and> front_ok s \<and> decode_ok s \<and> operands_ok s \<and> mem_ok (mem_reg s)"

lemma keeps_data:
  assumes "env s" "keeps s t" "memory t 0 = memory s 0"
  shows "data_words t = data_words s"
proof -
  have "env t" using assms(1,2) by (rule keeps_env)
  then have "rawRead t 0 x = rawRead s 0 x" for x
    using assms by (simp add: rawRead_def env_def keeps_def accessible_def)
  moreover have "words32 t = words32 s" by (rule words32_cong) (use assms(2) in \<open>simp add: keeps_def\<close>)
  moreover have "data_layer t = 0" "data_layer s = 0" using assms(1) \<open>env t\<close> by (simp_all add: env_def)
  ultimately show ?thesis using assms(2)
    by (simp add: fun_eq_iff data_words_block crypt_block_def keeps_def)
qed

text \<open>Frame conditions on the caches and the pipeline registers.\<close>

lemma keeps_icache_ok:
  assumes "env s" "keeps s t" "iCache_valid t = iCache_valid s" "iCache_tag t = iCache_tag s"
    "iCache_data t = iCache_data s"
  shows "icache_ok t = icache_ok s"
  using keeps_fetch[OF assms(1,2)] assms(3-5) by (auto simp: icache_ok_def)

lemma keeps_front_ok:
  assumes "env s" "keeps s t" "fetch_reg t = fetch_reg s" "decr_reg t = decr_reg s"
  shows "front_ok t = front_ok s" "front_pc t = front_pc s"
  using keeps_fetch[OF assms(1,2)] keeps_machine[OF assms(1,2)] assms(3,4) by (auto simp: front_ok_def front_pc_def)

lemma keeps_decode_ok:
  assumes "env s" "keeps s t" "decode_reg t = decode_reg s" "front_pc t = front_pc s"
  shows "decode_ok t = decode_ok s"
  using keeps_fetch(1)[OF assms(1,2)] keeps_machine[OF assms(1,2)] assms(3,4) by (simp add: decode_ok_def)

section \<open>Write back\<close>

lemma writeback_shape:
  assumes "mem_ok (mem_reg s)" "me_valid (mem_reg s)" "\<not> wb_valid (wb_reg s)"
  defines "m \<equiv> mem_reg s"
  defines "wr \<equiv> isWriteInstruction (me_instr m)"
  shows "stage_writeback s =
    s\<lparr>reg_file := (if wr \<and> getDestReg (me_instr m) \<noteq> 0
                   then (reg_file s)(unat (getDestReg (me_instr m)) := mem_read_val m) else reg_file s),
      retired_instructions := retired_instructions s + of_bool wr,
      wb_reg := \<lparr>wb_valid = True, final_val = (if wr then mem_read_val m else 0), wb_instr = me_instr m\<rparr>,
      mem_reg := m\<lparr>me_valid := False\<rparr>\<rparr>"
  using assms(1-3)
  by (simp add: stage_writeback_def wr_def m_def isWriteInstruction_def getDestReg_def write_reg_def mem_ok_def Let_def)

end
