(* ===== verification/Pipeline_Stages.thy ===== *)
theory Pipeline_Stages
  imports Pipeline_Invariant
begin

text \<open>
  One lemma per pipeline stage: write back, memory (with recovery from a misprediction), decode,
  decrypt and fetch leave the abstraction \<open>arch\<close> as it is, and execute, whose operands come through
  the forwarding paths, performs one step of the reference machine.
\<close>

lemma set_reg_fields [simp]:
  "pc (set_reg r v st) = pc st" "copro (set_reg r v st) = copro st" "words (set_reg r v st) = words st"
  "locked (set_reg r v st) = locked st"
  "regs (set_reg r v st) = (if r = 0 then regs st else (regs st)(unat r := v))"
  "set_reg r v (st\<lparr>copro := c\<rparr>) = (set_reg r v st)\<lparr>copro := c\<rparr>"
  "set_reg r v (st\<lparr>pc := p\<rparr>) = (set_reg r v st)\<lparr>pc := p\<rparr>"
  by (simp_all add: set_reg_def)

text \<open>The processor state is no part of the well-formedness of the memory.\<close>

lemma wf_processor [simp]:
  "smem_wf (reg_file_update f_reg_file s) = smem_wf s"
  "smem_wf (copro_reg_update f_copro_reg s) = smem_wf s"
  "smem_wf (fetch_reg_update f_fetch_reg s) = smem_wf s"
  "smem_wf (decr_reg_update f_decr_reg s) = smem_wf s"
  "smem_wf (decode_reg_update f_decode_reg s) = smem_wf s"
  "smem_wf (exec_reg_update f_exec_reg s) = smem_wf s"
  "smem_wf (mem_reg_update f_mem_reg s) = smem_wf s"
  "smem_wf (wb_reg_update f_wb_reg s) = smem_wf s"
  "smem_wf (retired_instructions_update f_retired_instructions s) = smem_wf s"
  "smem_wf (pipeline_stall_count_update f_pipeline_stall_count s) = smem_wf s"
  "smem_wf (branch_prediction_count_update f_branch_prediction_count s) = smem_wf s"
  "smem_wf (branch_mispredict_count_update f_branch_mispredict_count s) = smem_wf s"
  "smem_wf (perf_cycle_count_update f_perf_cycle_count s) = smem_wf s"
  "smem_wf (perf_icache_hits_update f_perf_icache_hits s) = smem_wf s"
  "smem_wf (perf_icache_misses_update f_perf_icache_misses s) = smem_wf s"
  "smem_wf (perf_forward_mem_update f_perf_forward_mem s) = smem_wf s"
  "smem_wf (perf_forward_wb_update f_perf_forward_wb s) = smem_wf s"
  "smem_wf (perf_load_use_stalls_update f_perf_load_use_stalls s) = smem_wf s"
  "smem_wf (perf_store_data_forwards_update f_perf_store_data_forwards s) = smem_wf s"
  "smem_wf (perf_aes_instructions_update f_perf_aes_instructions s) = smem_wf s"
  "smem_wf (iCache_data_update f_iCache_data s) = smem_wf s"
  "smem_wf (iCache_tag_update f_iCache_tag s) = smem_wf s"
  "smem_wf (iCache_valid_update f_iCache_valid s) = smem_wf s"
  by (simp_all add: smem_wf_def)

lemma accessible_processor [simp]:
  "accessible (reg_file_update f_reg_file s) 0 = accessible s 0"
  "accessible (copro_reg_update f_copro_reg s) 0 = accessible s 0"
  "accessible (fetch_reg_update f_fetch_reg s) 0 = accessible s 0"
  "accessible (decr_reg_update f_decr_reg s) 0 = accessible s 0"
  "accessible (decode_reg_update f_decode_reg s) 0 = accessible s 0"
  "accessible (exec_reg_update f_exec_reg s) 0 = accessible s 0"
  "accessible (mem_reg_update f_mem_reg s) 0 = accessible s 0"
  "accessible (wb_reg_update f_wb_reg s) 0 = accessible s 0"
  "accessible (retired_instructions_update f_retired_instructions s) 0 = accessible s 0"
  "accessible (pipeline_stall_count_update f_pipeline_stall_count s) 0 = accessible s 0"
  "accessible (branch_prediction_count_update f_branch_prediction_count s) 0 = accessible s 0"
  "accessible (branch_mispredict_count_update f_branch_mispredict_count s) 0 = accessible s 0"
  "accessible (perf_cycle_count_update f_perf_cycle_count s) 0 = accessible s 0"
  "accessible (perf_icache_hits_update f_perf_icache_hits s) 0 = accessible s 0"
  "accessible (perf_icache_misses_update f_perf_icache_misses s) 0 = accessible s 0"
  "accessible (perf_forward_mem_update f_perf_forward_mem s) 0 = accessible s 0"
  "accessible (perf_forward_wb_update f_perf_forward_wb s) 0 = accessible s 0"
  "accessible (perf_load_use_stalls_update f_perf_load_use_stalls s) 0 = accessible s 0"
  "accessible (perf_store_data_forwards_update f_perf_store_data_forwards s) 0 = accessible s 0"
  "accessible (perf_aes_instructions_update f_perf_aes_instructions s) 0 = accessible s 0"
  "accessible (iCache_data_update f_iCache_data s) 0 = accessible s 0"
  "accessible (iCache_tag_update f_iCache_tag s) 0 = accessible s 0"
  "accessible (iCache_valid_update f_iCache_valid s) 0 = accessible s 0"
  by (simp_all add: accessible_def isValidLayer_def)

definition writeback_phase :: "'a cpu_scheme \<Rightarrow> 'a cpu_scheme" where
  "writeback_phase s =
     (let s = s\<lparr>perf_cycle_count := perf_cycle_count s + 1\<rparr>;
          s = (if wb_valid (wb_reg s) then s\<lparr>wb_reg := (wb_reg s)\<lparr>wb_valid := False\<rparr>\<rparr> else s)
      in if me_valid (mem_reg s) then stage_writeback s else s)"

definition memory_phase :: "'a cpu_scheme \<Rightarrow> 'a cpu_scheme" where
  "memory_phase s = (if ex_valid (exec_reg s) then stage_memory (recover s) else s)"

definition execute_phase :: "'a cpu_scheme \<Rightarrow> 'a cpu_scheme" where
  "execute_phase s = (if de_valid (decode_reg s) then stage_execute s else s)"

definition fetch_phase :: "'a cpu_scheme \<Rightarrow> 'a cpu_scheme" where
  "fetch_phase s = (if \<not> fe_valid (fetch_reg s) then stage_fetch s else s)"

lemma cycle_phases:
  "cycle_step s = fetch_phase (advance_decode (execute_phase (memory_phase (writeback_phase s))))"
  unfolding cycle_step_def writeback_phase_def memory_phase_def execute_phase_def fetch_phase_def Let_def
  by (rule refl)

lemma writeback_phase:
  fixes s :: "'a cpu_scheme"
  assumes "mem_ok (mem_reg s)"
  defines "t \<equiv> writeback_phase s" and "m \<equiv> mem_reg s"
  shows "keeps s t" and "memory t = memory s" "security_lockdown t = security_lockdown s"
    "fetch_reg t = fetch_reg s" "decr_reg t = decr_reg s" "decode_reg t = decode_reg s" "exec_reg t = exec_reg s"
    "copro_reg t = copro_reg s" "iCache_valid t = iCache_valid s" "iCache_tag t = iCache_tag s"
    "iCache_data t = iCache_data s" "\<not> me_valid (mem_reg t)" "wb_valid (wb_reg t) = me_valid m"
    "me_valid m \<Longrightarrow> wb_instr (wb_reg t) = me_instr m"
    "me_valid m \<Longrightarrow> isWriteInstruction (me_instr m) \<Longrightarrow> final_val (wb_reg t) = mem_read_val m"
    "regs (after_mem m (st\<lparr>regs := reg_file s\<rparr>)) = reg_file t"
proof -
  let ?s = "s\<lparr>perf_cycle_count := perf_cycle_count s + 1\<rparr>"
  let ?u = "if wb_valid (wb_reg ?s) then ?s\<lparr>wb_reg := (wb_reg ?s)\<lparr>wb_valid := False\<rparr>\<rparr> else ?s"
  have t: "t = (if me_valid m then stage_writeback ?u else ?u)"
    by (simp add: t_def writeback_phase_def Let_def m_def)
  have sh: "me_valid m \<Longrightarrow> t = ?u\<lparr>reg_file := (if isWriteInstruction (me_instr m) \<and> getDestReg (me_instr m) \<noteq> 0
                   then (reg_file s)(unat (getDestReg (me_instr m)) := mem_read_val m) else reg_file s),
      retired_instructions := retired_instructions s + of_bool (isWriteInstruction (me_instr m)),
      wb_reg := \<lparr>wb_valid = True, final_val = (if isWriteInstruction (me_instr m) then mem_read_val m else 0), wb_instr = me_instr m\<rparr>,
      mem_reg := m\<lparr>me_valid := False\<rparr>\<rparr>"
    using writeback_shape[of ?u] assms(1) by (simp add: t m_def)
  show "keeps s t"
  proof (cases "me_valid m")
    case True
    show ?thesis unfolding sh[OF True] by (simp add: keeps_def)
  next
    case False
    then show ?thesis by (simp add: t keeps_def)
  qed
  show "memory t = memory s" "security_lockdown t = security_lockdown s"
    "fetch_reg t = fetch_reg s" "decr_reg t = decr_reg s" "decode_reg t = decode_reg s" "exec_reg t = exec_reg s"
    "copro_reg t = copro_reg s" "iCache_valid t = iCache_valid s" "iCache_tag t = iCache_tag s"
    "iCache_data t = iCache_data s" "\<not> me_valid (mem_reg t)" "wb_valid (wb_reg t) = me_valid m"
    by (cases "me_valid m", (simp_all add: sh)[1], (simp_all add: t m_def)[1])+
  show "me_valid m \<Longrightarrow> wb_instr (wb_reg t) = me_instr m"
    "me_valid m \<Longrightarrow> isWriteInstruction (me_instr m) \<Longrightarrow> final_val (wb_reg t) = mem_read_val m"
    by (simp_all add: sh)
  show "regs (after_mem m (st\<lparr>regs := reg_file s\<rparr>)) = reg_file t"
  proof (cases "me_valid m")
    case True
    show ?thesis unfolding sh[OF True] using True by (simp add: after_mem_def)
  next
    case False
    then show ?thesis by (simp add: t after_mem_def)
  qed
qed

lemma arch_writeback:
  assumes "env s" "mem_ok (mem_reg s)"
  shows "arch (writeback_phase s) = arch s"
proof -
  let ?t = "writeback_phase s"
  note w = writeback_phase[OF assms(2)]
  note m = keeps_machine[OF assms(1) w(1)]
  have fp: "front_pc ?t = front_pc s" by (rule keeps_front_ok(2)[OF assms(1) w(1) w(4,5)])
  have "data_words ?t = data_words s" by (rule keeps_data[OF assms(1) w(1)]) (simp add: w(2))
  then have "core ?t = (core s)\<lparr>regs := reg_file ?t\<rparr>"
    by (simp add: core_def position_def w m fp)
  also have "\<dots> = after_mem (mem_reg s) (core s)"
    using w(16)[of "core s"] by (simp add: core_def after_mem_def)
  finally show ?thesis by (simp add: arch_def m w after_mem_def[of "mem_reg ?t"])
qed

section \<open>Memory\<close>

text \<open>The pipeline registers, the register file and the instruction cache.\<close>

definition same_core :: "'a cpu_scheme \<Rightarrow> 'a cpu_scheme \<Rightarrow> bool" where
  "same_core s t \<longleftrightarrow> fetch_reg t = fetch_reg s \<and> decr_reg t = decr_reg s \<and> decode_reg t = decode_reg s
     \<and> exec_reg t = exec_reg s \<and> mem_reg t = mem_reg s \<and> wb_reg t = wb_reg s \<and> reg_file t = reg_file s
     \<and> copro_reg t = copro_reg s \<and> iCache_valid t = iCache_valid s \<and> iCache_tag t = iCache_tag s
     \<and> iCache_data t = iCache_data s"

lemma lock_shape:
  "\<exists>f. lockSecurity s r = s\<lparr>tamper_detected := True, tamper_events := tamper_events s + 1,
     security_lockdown := True, layer_log := f\<rparr>"
  by (auto simp: lockSecurity_def Let_def add_log_def)

lemma lock_keeps:
  fixes s :: "'a cpu_scheme" and r :: string
  defines "t \<equiv> lockSecurity s r"
  shows "keeps s t" "same_core s t" "memory t = memory s" "security_lockdown t"
proof -
  obtain f where t: "t = s\<lparr>tamper_detected := True, tamper_events := tamper_events s + 1,
     security_lockdown := True, layer_log := f\<rparr>" using lock_shape t_def by blast
  have "smem_wf s \<Longrightarrow> smem_wf t" unfolding t_def lockSecurity_def Let_def by (simp add: wf_add_log)
  then show "keeps s t" "same_core s t" "memory t = memory s" "security_lockdown t"
    by (simp_all add: keeps_def same_core_def t accessible_def isValidLayer_def)
qed

lemma env_data:
  assumes "env s"
  shows "translateDataAddress s a = data_address (machine_of s) a"
    "secure_is_data_word s w = in_data (machine_of s) w"
    "secure_is_encrypted_data_word s w = in_data (machine_of s) w"
    "in_data (machine_of s) w \<Longrightarrow> \<not> w < of_nat SEC_HDR_WORDS" "in_data (machine_of s) w \<Longrightarrow> \<not> secure_is_text_word s w"
proof -
  have e: "secure_runtime_region_valid s" "secure_runtime_data_flags s AND 1 \<noteq> 0" using assms by (simp_all add: env_def)
  show "translateDataAddress s a = data_address (machine_of s) a"
    using e by (simp add: translateDataAddress_def data_address_def machine_of_def active_data_start_def Let_def)
  show "secure_is_data_word s w = in_data (machine_of s) w"
    using e by (auto simp: secure_is_data_word_def in_data_def machine_of_def active_data_start_def active_data_end_def Let_def)
  show "secure_is_encrypted_data_word s w = in_data (machine_of s) w"
    using e by (auto simp: secure_is_encrypted_data_word_def in_data_def machine_of_def active_data_start_def
        active_data_end_def Let_def)
  assume "in_data (machine_of s) w"
  then have "unat (secure_runtime_data_start_addr s) \<le> unat w"
    by (simp add: in_data_def machine_of_def word_le_nat_alt)
  then show "\<not> w < of_nat SEC_HDR_WORDS" "\<not> secure_is_text_word s w"
    using e env_geometry(4-6)[OF assms]
    by (auto simp: secure_is_text_word_def Let_def word_less_nat_alt word_le_nat_alt)
qed

lemma load_word_spec:
  assumes "env s" "load_word s a = (v, t)"
  shows "keeps s t" "same_core s t" "data_words t = data_words s"
    "case data_address (machine_of s) a of
       None \<Rightarrow> v = 0 \<and> security_lockdown t = security_lockdown s
     | Some w \<Rightarrow> if in_data (machine_of s) w then v = data_words s w \<and> security_lockdown t = security_lockdown s
                 else v = 0 \<and> security_lockdown t"
proof -
  note d = env_data[OF assms(1)]
  have "t = s \<or> t = lockSecurity s ''DATA READ''"
    and "case data_address (machine_of s) a of
       None \<Rightarrow> v = 0 \<and> t = s
     | Some w \<Rightarrow> if in_data (machine_of s) w then v = data_words s w \<and> t = s
                 else v = 0 \<and> t = lockSecurity s ''DATA READ''"
    using assms(2) by (auto simp: load_word_def d data_words_def split: option.splits if_splits)
  then show "keeps s t" "same_core s t" "data_words t = data_words s"
    "case data_address (machine_of s) a of
       None \<Rightarrow> v = 0 \<and> security_lockdown t = security_lockdown s
     | Some w \<Rightarrow> if in_data (machine_of s) w then v = data_words s w \<and> security_lockdown t = security_lockdown s
                 else v = 0 \<and> security_lockdown t"
    using lock_keeps[of s "''DATA READ''"] keeps_data[OF assms(1), of "lockSecurity s ''DATA READ''"]
    by (auto simp: same_core_def split: option.splits)
qed

lemma store_word_spec:
  fixes s :: "'a cpu_scheme" and a v :: u32
  assumes "env s"
  defines "t \<equiv> store_word s a v"
  shows "keeps s t" "same_core s t"
    "case data_address (machine_of s) a of
       None \<Rightarrow> data_words t = data_words s \<and> security_lockdown t = security_lockdown s
     | Some w \<Rightarrow> if in_data (machine_of s) w
         then data_words t = (data_words s)(w := v) \<and> security_lockdown t = security_lockdown s
         else data_words t = data_words s \<and> security_lockdown t"
proof -
  note d = env_data[OF assms(1)]
  have written: "keeps s u \<and> same_core s u \<and> data_words u = (data_words s)(w := v) \<and> security_lockdown u = security_lockdown s"
    if "in_data (machine_of s) w" "u = secure_write_encrypted_data_word s w v" for w u
  proof -
    note u = that(2)
    have "secure_runtime_data_start_addr s \<le> w" "w < secure_runtime_data_enc_end s"
      using that(1) by (simp_all add: in_data_def machine_of_def)
    then obtain f d m where "u = s\<lparr>layer_log := f, dcache_valid := d, memory := (memory s)(0 := m)\<rparr>"
      "keeps s u" "data_words u = (data_words s)(w := v)"
      unfolding u by (rule encrypted_store[OF assms(1)])
    then show ?thesis by (simp add: same_core_def)
  qed
  note locked = lock_keeps[of s "''DATA WRITE''"] keeps_data[OF assms(1) lock_keeps(1), of "''DATA WRITE''"]
  consider (none) "data_address (machine_of s) a = None" "t = s"
    | (data) w where "data_address (machine_of s) a = Some w" "in_data (machine_of s) w"
        "t = secure_write_encrypted_data_word s w v"
    | (other) w where "data_address (machine_of s) a = Some w" "\<not> in_data (machine_of s) w"
        "t = lockSecurity s ''DATA WRITE''"
  proof (cases "data_address (machine_of s) a")
    case None
    then show ?thesis using none by (simp add: t_def store_word_def d(1))
  next
    case (Some w)
    then show ?thesis using d(4,5)[of w] data[of w] other[of w]
      by (cases "in_data (machine_of s) w") (simp_all add: t_def store_word_def d(1-3))
  qed
  then have "keeps s t \<and> same_core s t \<and> (case data_address (machine_of s) a of
       None \<Rightarrow> data_words t = data_words s \<and> security_lockdown t = security_lockdown s
     | Some w \<Rightarrow> if in_data (machine_of s) w
         then data_words t = (data_words s)(w := v) \<and> security_lockdown t = security_lockdown s
         else data_words t = data_words s \<and> security_lockdown t)"
  proof cases
    case none
    then show ?thesis by (simp add: same_core_def)
  next
    case data
    then show ?thesis using written[OF data(2,3)] by simp
  next
    case other
    then show ?thesis using locked by simp
  qed
  then show "keeps s t" "same_core s t"
    "case data_address (machine_of s) a of
       None \<Rightarrow> data_words t = data_words s \<and> security_lockdown t = security_lockdown s
     | Some w \<Rightarrow> if in_data (machine_of s) w
         then data_words t = (data_words s)(w := v) \<and> security_lockdown t = security_lockdown s
         else data_words t = data_words s \<and> security_lockdown t" by simp_all
qed

lemma write_classes:
  "mips_opcode w = MIPS_OP_LW \<Longrightarrow> isWriteInstruction w \<and> getDestReg w = mips_rt w"
  "mips_opcode w = MIPS_OP_SW \<Longrightarrow> \<not> isWriteInstruction w"
  by (simp_all add: isWriteInstruction_def getDestReg_def Let_def)

lemma recover_keeps:
  fixes s :: "'a cpu_scheme"
  shows "keeps s (recover s)" "memory (recover s) = memory s" "security_lockdown (recover s) = security_lockdown s"
    "exec_reg (recover s) = exec_reg s" "mem_reg (recover s) = mem_reg s" "wb_reg (recover s) = wb_reg s"
    "reg_file (recover s) = reg_file s" "copro_reg (recover s) = copro_reg s"
    "iCache_valid (recover s) = iCache_valid s" "iCache_tag (recover s) = iCache_tag s"
    "iCache_data (recover s) = iCache_data s"
  by (simp_all add: recover_def keeps_def)

text \<open>The value that leaves the memory stage, and what the access did.\<close>

definition access :: "'a cpu_scheme \<Rightarrow> u32 \<times> 'a cpu_scheme" where
  "access s =
     (let e = exec_reg s; opcode = mips_opcode (ex_instr e) in
      if opcode = MIPS_OP_LW then load_word s (ex_alu_result e)
      else (ex_alu_result e, if opcode = MIPS_OP_SW then store_word s (ex_alu_result e) (rt_forward_val e) else s))"

lemma stage_memory_access:
  "ex_valid (exec_reg s) \<Longrightarrow> \<not> me_valid (mem_reg s) \<Longrightarrow>
     stage_memory s = (let e = exec_reg s; (val, s) = access s in
       s\<lparr>mem_reg := \<lparr>me_valid = True, me_alu_result = ex_alu_result e, me_instr = ex_instr e, mem_read_val = val\<rparr>,
         exec_reg := e\<lparr>ex_valid := False\<rparr>\<rparr>)"
  by (simp add: stage_memory_def access_def Let_def case_prod_unfold)

lemma access_spec:
  fixes s :: "'a cpu_scheme"
  assumes "env s" "access s = (v, t)"
  defines "e \<equiv> exec_reg s"
  shows "keeps s t" "same_core s t" "mips_opcode (ex_instr e) \<noteq> MIPS_OP_LW \<Longrightarrow> v = ex_alu_result e"
    "(if isWriteInstruction (ex_instr e) then set_reg (getDestReg (ex_instr e)) v else id)
       (st\<lparr>words := data_words t, locked := security_lockdown t\<rparr>) =
     commit (machine_of s) (ex_instr e) (ex_alu_result e) (rt_forward_val e)
       (st\<lparr>words := data_words s, locked := security_lockdown s\<rparr>)"
proof -
  consider (load) "mips_opcode (ex_instr e) = MIPS_OP_LW" | (store) "mips_opcode (ex_instr e) = MIPS_OP_SW"
    | (other) "mips_opcode (ex_instr e) \<noteq> MIPS_OP_LW" "mips_opcode (ex_instr e) \<noteq> MIPS_OP_SW" by blast
  then have "keeps s t \<and> same_core s t \<and> (mips_opcode (ex_instr e) \<noteq> MIPS_OP_LW \<longrightarrow> v = ex_alu_result e) \<and>
     (if isWriteInstruction (ex_instr e) then set_reg (getDestReg (ex_instr e)) v else id)
       (st\<lparr>words := data_words t, locked := security_lockdown t\<rparr>) =
     commit (machine_of s) (ex_instr e) (ex_alu_result e) (rt_forward_val e)
       (st\<lparr>words := data_words s, locked := security_lockdown s\<rparr>)"
  proof cases
    case load
    then have "load_word s (ex_alu_result e) = (v, t)" using assms(2) by (simp add: access_def e_def)
    note l = load_word_spec[OF assms(1) this]
    show ?thesis using l(1-3) l(4) load write_classes(1)[OF load]
      by (cases "data_address (machine_of s) (ex_alu_result e)") (auto simp: commit_def load_def)
  next
    case store
    then have vt: "v = ex_alu_result e" "t = store_word s (ex_alu_result e) (rt_forward_val e)"
      using assms(2) by (auto simp: access_def e_def Let_def)
    note w = store_word_spec[OF assms(1), of "ex_alu_result e" "rt_forward_val e", folded vt(2)]
    show ?thesis using w(1,2) w(3) store write_classes(2)[OF store] vt(1)
      by (cases "data_address (machine_of s) (ex_alu_result e)") (auto simp: commit_def store_def)
  next
    case other
    then have "v = ex_alu_result e" "t = s" using assms(2) by (auto simp: access_def e_def Let_def)
    then show ?thesis using other by (simp add: commit_def same_core_def)
  qed
  then show "keeps s t" "same_core s t" "mips_opcode (ex_instr e) \<noteq> MIPS_OP_LW \<Longrightarrow> v = ex_alu_result e"
    "(if isWriteInstruction (ex_instr e) then set_reg (getDestReg (ex_instr e)) v else id)
       (st\<lparr>words := data_words t, locked := security_lockdown t\<rparr>) =
     commit (machine_of s) (ex_instr e) (ex_alu_result e) (rt_forward_val e)
       (st\<lparr>words := data_words s, locked := security_lockdown s\<rparr>)" by blast+
qed


lemma memory_phase:
  fixes s :: "'a cpu_scheme"
  assumes "env s" "\<not> me_valid (mem_reg s)" "ex_valid (exec_reg s)"
  defines "t \<equiv> memory_phase s" and "e \<equiv> exec_reg s" and "r \<equiv> recover s"
  shows "keeps s t" "\<not> ex_valid (exec_reg t)" "me_valid (mem_reg t)" "me_instr (mem_reg t) = ex_instr e"
    "mem_ok (mem_reg t)" "reg_file t = reg_file s" "wb_reg t = wb_reg s" "copro_reg t = copro_reg s"
    "iCache_valid t = iCache_valid s" "iCache_tag t = iCache_tag s" "iCache_data t = iCache_data s"
    "fetch_reg t = fetch_reg r" "decr_reg t = decr_reg r" "decode_reg t = decode_reg r"
    "arch t = arch s" "keeps r t"
proof -
  note rk = recover_keeps[of s, folded r_def]
  obtain v u where vu: "access r = (v, u)" by fastforce
  have er: "env r" by (rule keeps_env[OF assms(1) rk(1)])
  note a = access_spec[OF er vu] and c = access_spec(2)[OF er vu, unfolded same_core_def]
  have t: "t = u\<lparr>mem_reg := \<lparr>me_valid = True, me_alu_result = ex_alu_result e, me_instr = ex_instr e, mem_read_val = v\<rparr>,
         exec_reg := e\<lparr>ex_valid := False\<rparr>\<rparr>"
    using stage_memory_access[of r] assms(2,3) vu by (simp add: t_def memory_phase_def e_def r_def[symmetric] rk Let_def)
  have ut: "keeps u t" by (simp add: t keeps_def)
  show kr: "keeps r t" by (rule keeps_trans[OF a(1) ut])
  show k: "keeps s t" by (rule keeps_trans[OF rk(1) kr])
  show "\<not> ex_valid (exec_reg t)" "me_valid (mem_reg t)" "me_instr (mem_reg t) = ex_instr e"
    "reg_file t = reg_file s" "wb_reg t = wb_reg s" "copro_reg t = copro_reg s"
    "iCache_valid t = iCache_valid s" "iCache_tag t = iCache_tag s" "iCache_data t = iCache_data s"
    "fetch_reg t = fetch_reg r" "decr_reg t = decr_reg r" "decode_reg t = decode_reg r"
    using c rk by (simp_all add: t)
  note regs = this
  show "mem_ok (mem_reg t)" using a(3) rk(4) by (simp add: mem_ok_def t e_def)
  have m: "machine_of t = machine_of s" "machine_of r = machine_of s"
    by (rule keeps_machine[OF assms(1) k], rule keeps_machine[OF assms(1) rk(1)])
  have eu: "env u" by (rule keeps_env[OF er a(1)])
  have words: "data_words t = data_words u" "data_words r = data_words s"
    by (rule keeps_data[OF eu ut], simp add: t, rule keeps_data[OF assms(1) rk(1)], simp add: rk)
  have "position t = position s"
  proof (cases "control_mispredict e")
    case True
    then show ?thesis using regs m assms(3) by (simp add: position_def front_pc_def r_def recover_def e_def)
  next
    case False
    then show ?thesis using regs m assms(3) by (simp add: position_def front_pc_def r_def recover_def e_def)
  qed
  then have core: "core t = (core s)\<lparr>words := data_words u, locked := security_lockdown u\<rparr>"
    "core s = (core s)\<lparr>words := data_words r, locked := security_lockdown r\<rparr>"
    using regs rk words by (simp_all add: core_def t)
  have "arch t = (if isWriteInstruction (ex_instr e) then set_reg (getDestReg (ex_instr e)) v else id) (core t)"
    by (simp add: arch_def after_exec_def after_mem_def t)
  also have "\<dots> = commit (machine_of s) (ex_instr e) (ex_alu_result e) (rt_forward_val e) (core s)"
    unfolding core(1) e_def using a(4)[of "core s", folded core(2), unfolded rk(4) m(2)] .
  also have "\<dots> = arch s" using assms(2,3) by (simp add: arch_def after_exec_def after_mem_def e_def)
  finally show "arch t = arch s" .
qed

section \<open>Execute\<close>

definition operand :: "'a cpu_scheme \<Rightarrow> u32 \<Rightarrow> u32 \<Rightarrow> u32" where
  "operand s r v =
     (if me_valid (mem_reg s) \<and> isWriteInstruction (me_instr (mem_reg s)) \<and> getDestReg (me_instr (mem_reg s)) \<noteq> 0
         \<and> r = getDestReg (me_instr (mem_reg s)) then mem_read_val (mem_reg s)
      else if wb_valid (wb_reg s) \<and> isWriteInstruction (wb_instr (wb_reg s)) \<and> getDestReg (wb_instr (wb_reg s)) \<noteq> 0
         \<and> r = getDestReg (wb_instr (wb_reg s)) then final_val (wb_reg s) else v)"

lemma forward_parts:
  "fst (forward_operands s) = operand s (rs_idx (decode_reg s)) (rs_val (decode_reg s))"
  "fst (snd (forward_operands s)) = operand s (rt_idx (decode_reg s)) (rt_val (decode_reg s))"
  "\<exists>n m. snd (snd (snd (forward_operands s))) = s\<lparr>perf_forward_mem := n, perf_forward_wb := m\<rparr>"
proof -
  show "fst (forward_operands s) = operand s (rs_idx (decode_reg s)) (rs_val (decode_reg s))"
    "fst (snd (forward_operands s)) = operand s (rt_idx (decode_reg s)) (rt_val (decode_reg s))"
    unfolding forward_operands_def operand_def Let_def fst_conv snd_conv by auto
  show "\<exists>n m. snd (snd (snd (forward_operands s))) = s\<lparr>perf_forward_mem := n, perf_forward_wb := m\<rparr>"
    unfolding forward_operands_def Let_def fst_conv snd_conv by blast
qed

lemma forward_shape:
  obtains fw n m where "forward_operands s =
    (operand s (rs_idx (decode_reg s)) (rs_val (decode_reg s)), operand s (rt_idx (decode_reg s)) (rt_val (decode_reg s)),
     fw, s\<lparr>perf_forward_mem := n, perf_forward_wb := m\<rparr>)"
  using forward_parts[of s] by (metis prod.collapse)

text \<open>What \<open>stage_execute\<close> makes of the instruction in the decode register and two operand values.\<close>

definition executed :: "'a cpu_scheme \<Rightarrow> u32 \<Rightarrow> u32 \<Rightarrow> ExecReg" where
  "executed s a b =
     (let d = decode_reg s; w = de_instr d;
          (br, nb) = branch_outcome w (word_addr d) a b;
          actual = (if br then nb else de_fallthrough_block_addr d);
          predicted = (if de_predicted_taken d then de_predicted_block_addr d else de_fallthrough_block_addr d)
      in \<lparr>ex_valid = True, ex_alu_result = fst (alu w a b (runtime_app_key s) (copro_reg s)), ex_instr = w,
          rt_forward_val = b, taken_branch = br, new_block_addr = nb, ex_predicted_taken = de_predicted_taken d,
          ex_predicted_block_addr = de_predicted_block_addr d,
          ex_fallthrough_block_addr = de_fallthrough_block_addr d, ex_is_control = de_is_control d,
          control_mispredict = (de_is_control d \<and> actual \<noteq> predicted), recovery_block_addr = actual\<rparr>)"

lemma execute_shape:
  fixes s :: "'a cpu_scheme"
  assumes "de_valid (decode_reg s)" "\<not> ex_valid (exec_reg s)"
  defines "a \<equiv> operand s (rs_idx (decode_reg s)) (rs_val (decode_reg s))"
    and "b \<equiv> operand s (rt_idx (decode_reg s)) (rt_val (decode_reg s))"
  obtains n1 n2 n3 n4 n5 where "stage_execute s =
    s\<lparr>perf_forward_mem := n1, perf_forward_wb := n2, perf_store_data_forwards := n3, perf_aes_instructions := n4,
      copro_reg := snd (alu (de_instr (decode_reg s)) a b (runtime_app_key s) (copro_reg s)),
      branch_mispredict_count := n5, exec_reg := executed s a b,
      decode_reg := (decode_reg s)\<lparr>de_valid := False\<rparr>\<rparr>"
proof -
  obtain fw n m where f: "forward_operands s = (a, b, fw, s\<lparr>perf_forward_mem := n, perf_forward_wb := m\<rparr>)"
    unfolding a_def b_def by (rule forward_shape)
  let ?w = "de_instr (decode_reg s)"
  have "stage_execute s =
    s\<lparr>perf_forward_mem := n, perf_forward_wb := m,
      perf_store_data_forwards :=
        (if mips_opcode ?w = MIPS_OP_SW \<and> fw then perf_store_data_forwards s + 1 else perf_store_data_forwards s),
      perf_aes_instructions := (if is_aes_instruction ?w then perf_aes_instructions s + 1 else perf_aes_instructions s),
      copro_reg := snd (alu ?w a b (runtime_app_key s) (copro_reg s)),
      branch_mispredict_count := (if control_mispredict (executed s a b) then branch_mispredict_count s + 1
                                  else branch_mispredict_count s),
      exec_reg := executed s a b,
      decode_reg := (decode_reg s)\<lparr>de_valid := False\<rparr>\<rparr>"
    using assms(1,2) by (simp add: stage_execute_def f executed_def case_prod_unfold Let_def)
  then show thesis by (rule that)
qed

text \<open>The misprediction check against the program counter of the reference.\<close>

lemma executed_follow:
  fixes s :: "'a cpu_scheme" and a b :: u32
  assumes e: "env s" and de: "de_valid (decode_reg s)" and ok: "decode_ok s"
  defines "x \<equiv> executed s a b" and "wa \<equiv> word_addr (decode_reg s)"
  shows "(if control_mispredict x then enter (machine_of s) (recovery_block_addr x) else front_pc s) =
    follow (machine_of s) (de_instr (decode_reg s)) (wa div 4, unat (wa mod 4)) a b"
proof -
  let ?d = "decode_reg s"
  let ?w = "de_instr ?d"
  let ?p = "(wa div 4, unat (wa mod 4))"
  have d: "in_text s (wa div 4)" "de_is_control ?d = isControlInstruction ?w"
    "de_predicted_taken ?d = (mips_opcode ?w = MIPS_OP_J)" "de_fallthrough_block_addr ?d = (wa + 1) div 4"
    "mips_opcode ?w = MIPS_OP_J \<Longrightarrow> de_predicted_block_addr ?d = computeJumpTargetBlock ?w"
    "front_pc s = (if mips_opcode ?w = MIPS_OP_J then enter (machine_of s) (computeJumpTargetBlock ?w)
                         else advance ?p)"
    using ok de by (simp_all add: decode_ok_def Let_def wa_def)
  have b: "unat wa div 4 < 256" using in_text_bound[OF e d(1)] by (simp add: unat_div)
  then have fall: "(wa + 1) div 4 = fst (advance ?p)"
  proof -
    have "unat (wa + 1) = unat wa + 1" using b by (simp add: unat_word_ariths)
    then have "unat ((wa + 1) div 4) = (if unat wa mod 4 = 3 then unat wa div 4 + 1 else unat wa div 4)"
      by (simp add: unat_div) presburger
    also have "\<dots> = unat (fst (advance ?p))"
      using b by (simp add: advance_def unat_mod unat_word_ariths unat_div)
    finally show ?thesis by (simp only: word_unat_eq_iff)
  qed
  have addr: "wa div 4 * 4 + of_nat (unat (wa mod 4)) = wa"
    by (simp add: div_mult_mod_eq)
  show ?thesis
    using d fall by (auto simp: x_def executed_def follow_def branch_outcome_def isControlInstruction_def addr div_mult_mod_eq
        Let_def case_prod_unfold simp flip: wa_def)
qed

lemma app_key_machine [simp]: "app_key (machine_of s) = runtime_app_key s"
  by (simp add: machine_of_def)

lemma commit_pc:
  "after_mem m (st\<lparr>copro := c, pc := p\<rparr>) = (after_mem m st)\<lparr>copro := c, pc := p\<rparr>"
  "pc (after_mem m st) = pc st" "copro (after_mem m st) = copro st"
  by (simp_all add: after_mem_def)

lemma execute_stage:
  fixes s :: "'a cpu_scheme"
  assumes e: "env s" and de: "de_valid (decode_reg s)" and nex: "\<not> ex_valid (exec_reg s)" and ok: "decode_ok s"
    and rs: "operand s (rs_idx (decode_reg s)) (rs_val (decode_reg s)) = get_reg (arch s) (rs_idx (decode_reg s))"
    and rt: "operand s (rt_idx (decode_reg s)) (rt_val (decode_reg s)) = get_reg (arch s) (rt_idx (decode_reg s))"
  defines "t \<equiv> stage_execute s"
  shows "keeps s t" "\<not> de_valid (decode_reg t)" "ex_valid (exec_reg t)" "mem_reg t = mem_reg s"
    "reg_file t = reg_file s" "fetch_reg t = fetch_reg s" "decr_reg t = decr_reg s"
    "iCache_valid t = iCache_valid s" "iCache_tag t = iCache_tag s" "iCache_data t = iCache_data s"
    "security_lockdown t = security_lockdown s" "arch t = isa_step (machine_of s) (arch s)"
proof -
  let ?d = "decode_reg s" and ?M = "machine_of s"
  let ?w = "de_instr ?d" and ?p = "(word_addr ?d div 4, unat (word_addr ?d mod 4))"
  define a b where "a = get_reg (arch s) (rs_idx ?d)" and "b = get_reg (arch s) (rt_idx ?d)"
  obtain n1 n2 n3 n4 n5 where t: "t = s\<lparr>perf_forward_mem := n1, perf_forward_wb := n2, perf_store_data_forwards := n3,
      perf_aes_instructions := n4, copro_reg := snd (alu ?w a b (runtime_app_key s) (copro_reg s)),
      branch_mispredict_count := n5, exec_reg := executed s a b, decode_reg := ?d\<lparr>de_valid := False\<rparr>\<rparr>"
    unfolding t_def a_def b_def by (rule execute_shape[OF de nex, unfolded rs rt])
  show k: "keeps s t" by (simp add: t keeps_def)
  show regs: "\<not> de_valid (decode_reg t)" "ex_valid (exec_reg t)" "mem_reg t = mem_reg s"
    "reg_file t = reg_file s" "fetch_reg t = fetch_reg s" "decr_reg t = decr_reg s"
    "iCache_valid t = iCache_valid s" "iCache_tag t = iCache_tag s" "iCache_data t = iCache_data s"
    by (simp_all add: t executed_def Let_def case_prod_unfold)
  show "security_lockdown t = security_lockdown s" by (simp add: t)
  note M = keeps_machine[OF e k]
  note fp = keeps_front_ok(2)[OF e k regs(5,6)]
  have words: "data_words t = data_words s" by (rule keeps_data[OF e k]) (simp add: t)
  have ex: "exec_reg t = executed s a b" by (simp add: t)
  have pos: "position t = follow ?M ?w ?p a b"
    unfolding executed_follow[OF e de ok, of a b, symmetric] using regs(1,2) by (simp add: position_def M fp ex)
  have d: "in_text s (fst ?p)" "?w = fetched ?M ?p" "(rs_idx ?d, rt_idx ?d) = getSourceRegs ?w"
    using ok de by (simp_all add: decode_ok_def Let_def)
  have as: "arch s = after_mem (mem_reg s) (core s)" using nex by (simp add: arch_def after_exec_def)
  have pcs: "pc (arch s) = ?p" "copro (arch s) = copro_reg s"
    using nex de by (simp_all add: as commit_pc core_def position_def)
  have "\<not> at_end ?M (arch s)"
    using d(1) by (simp add: at_end_def pcs in_text_def machine_of_def not_le)
  then have "isa_step ?M (arch s) = commit ?M ?w (fst (alu ?w a b (app_key ?M) (copro_reg s))) b
      ((arch s)\<lparr>copro := snd (alu ?w a b (app_key ?M) (copro_reg s)), pc := follow ?M ?w ?p a b\<rparr>)"
    using isa_step_word[of ?M "arch s"] d(3)[symmetric] unfolding pcs d(2)[symmetric] a_def b_def by simp
  also have "(arch s)\<lparr>copro := snd (alu ?w a b (app_key ?M) (copro_reg s)), pc := follow ?M ?w ?p a b\<rparr> =
      after_mem (mem_reg t) (core t)"
    unfolding as regs(3) by (simp add: commit_pc(1)[symmetric] core_def pos words) (simp add: t)
  also have "commit ?M ?w (fst (alu ?w a b (app_key ?M) (copro_reg s))) b \<dots> = arch t"
    by (simp add: arch_def after_exec_def M ex executed_def Let_def case_prod_unfold)
  finally show "arch t = isa_step (machine_of s) (arch s)" ..
qed

lemma execute_idle: "\<not> de_valid (decode_reg s) \<Longrightarrow> execute_phase s = s"
  by (simp add: execute_phase_def)

text \<open>Before the execute stage the forwarding paths yield the architectural register values.\<close>

lemma operand_forwarded:
  fixes s :: "'a cpu_scheme"
  assumes e: "env s" and m: "mem_ok (mem_reg s)"
  defines "t \<equiv> memory_phase (writeback_phase s)"
  shows "operand t r (reg_file s (unat r)) = get_reg (arch t) r"
proof -
  let ?u = "writeback_phase s"
  note w = writeback_phase[OF m]
  have eu: "env ?u" by (rule keeps_env[OF e w(1)])
  have t: "reg_file t = reg_file ?u" "wb_reg t = wb_reg ?u" "\<not> ex_valid (exec_reg t)"
  proof -
    have "reg_file t = reg_file ?u \<and> wb_reg t = wb_reg ?u \<and> \<not> ex_valid (exec_reg t)"
    proof (cases "ex_valid (exec_reg ?u)")
      case True
      then show ?thesis using memory_phase[OF eu w(12) True] unfolding t_def by blast
    next
      case False
      then show ?thesis by (simp add: t_def memory_phase_def)
    qed
    then show "reg_file t = reg_file ?u" "wb_reg t = wb_reg ?u" "\<not> ex_valid (exec_reg t)" by blast+
  qed
  have "get_reg (arch t) r = (if me_valid (mem_reg t) \<and> isWriteInstruction (me_instr (mem_reg t))
      \<and> getDestReg (me_instr (mem_reg t)) \<noteq> 0 \<and> r = getDestReg (me_instr (mem_reg t)) then mem_read_val (mem_reg t)
      else reg_file ?u (unat r))"
    using t by (auto simp: arch_def after_exec_def after_mem_def get_reg_def core_def simp flip: word_unat_eq_iff)
  moreover have "reg_file ?u (unat r) = (if wb_valid (wb_reg ?u) \<and> isWriteInstruction (wb_instr (wb_reg ?u))
      \<and> getDestReg (wb_instr (wb_reg ?u)) \<noteq> 0 \<and> r = getDestReg (wb_instr (wb_reg ?u)) then final_val (wb_reg ?u)
      else reg_file s (unat r))"
    unfolding w(16)[of "core s", symmetric]
    using w(13-15) by (auto simp: after_mem_def core_def simp flip: word_unat_eq_iff)
  ultimately show ?thesis unfolding operand_def t(2) by presburger
qed

section \<open>Decode, decrypt and fetch\<close>

lemma text_range:
  assumes "env s"
  shows "text_start_block s = text_first (machine_of s)" "text_end_block s = text_last (machine_of s)"
    "in_text s b \<longleftrightarrow> text_first (machine_of s) \<le> b \<and> b < text_last (machine_of s)"
  using assms by (simp_all add: env_def text_start_block_def text_end_block_def machine_of_def in_text_def)

definition decode_entry :: "'a cpu_scheme \<Rightarrow> DecodeReg" where
  "decode_entry s =
     (let d = decr_reg s; w = quad_nth (decr_block d) (instr_index d);
          waddr = dr_block_addr d * 4 + of_nat (instr_index d); rs = fst (getSourceRegs w); rt = snd (getSourceRegs w);
          h = checkDataHazard s w (ex_instr (exec_reg s)) (me_instr (mem_reg s))
      in \<lparr>de_valid = True, de_instr = w, word_addr = waddr, rs_val = reg_file s (unat rs),
          rt_val = reg_file s (unat rt), rs_idx = rs, rt_idx = rt, a_sel = fst (snd h), b_sel = snd (snd h),
          de_predicted_taken = branchPredictTaken w,
          de_predicted_block_addr =
            (if mips_opcode w = MIPS_OP_J then computeJumpTargetBlock w
             else if mips_opcode w = MIPS_OP_BEQ \<or> mips_opcode w = MIPS_OP_BNE
             then (if branchPredictTaken w then computeBranchTargetBlock waddr (mips_simm w) else (waddr + 1) div 4)
             else (waddr + 1) div 4),
          de_fallthrough_block_addr = (waddr + 1) div 4, de_is_control = isControlInstruction w\<rparr>)"

lemma decode_shape:
  fixes s :: "'a cpu_scheme"
  assumes "dr_valid (decr_reg s)" "\<not> de_valid (decode_reg s)"
  defines "d \<equiv> decr_reg s" and "f \<equiv> fetch_reg s"
  defines "w \<equiv> quad_nth (decr_block d) (instr_index d)"
  obtains n where "stage_decode s False =
    s\<lparr>decode_reg := decode_entry s, branch_prediction_count := n,
      decr_reg := d\<lparr>instr_index := instr_index d + 1, dr_valid := instr_index d + 1 < 4 \<and> mips_opcode w \<noteq> MIPS_OP_J\<rparr>,
      fetch_reg := (if mips_opcode w = MIPS_OP_J
                    then f\<lparr>fe_valid := False, fe_block_addr := computeJumpTargetBlock w\<rparr> else f)\<rparr>"
proof -
  have "stage_decode s False =
    s\<lparr>decode_reg := decode_entry s,
      branch_prediction_count :=
        (if isControlInstruction w then branch_prediction_count s + 1 else branch_prediction_count s),
      decr_reg := d\<lparr>instr_index := instr_index d + 1, dr_valid := instr_index d + 1 < 4 \<and> mips_opcode w \<noteq> MIPS_OP_J\<rparr>,
      fetch_reg := (if mips_opcode w = MIPS_OP_J
                    then f\<lparr>fe_valid := False, fe_block_addr := computeJumpTargetBlock w\<rparr> else f)\<rparr>"
    unfolding stage_decode_def decode_entry_def Let_def case_prod_unfold w_def d_def f_def branchPredictTaken_def
    using assms(1,2) by (cases "mips_opcode (quad_nth (decr_block (decr_reg s)) (instr_index (decr_reg s))) = MIPS_OP_J")
      (simp_all only: if_True if_False not_False_eq_True simp_thms, simp_all add: not_le)
  then show thesis by (rule that)
qed

lemma block_position:
  assumes "unat b < 256" "i < 4"
  shows "(b * 4 + of_nat i :: u32) div 4 = b" "unat ((b * 4 + of_nat i :: u32) mod 4) = i"
proof -
  have u: "unat (b * 4 + of_nat i) = unat b * 4 + i" using assms by (simp add: unat_word_ariths unat_of_nat)
  show "(b * 4 + of_nat i :: u32) div 4 = b"
    by (rule iffD2[OF word_unat_eq_iff]) (use assms(2) in \<open>simp add: unat_div u\<close>)
  show "unat ((b * 4 + of_nat i :: u32) mod 4) = i" using assms(2) by (simp add: unat_mod u)
qed

lemma enter_in_text: "env s \<Longrightarrow> in_text s b \<Longrightarrow> enter (machine_of s) b = (b, 0)"
  by (simp add: enter_def text_range max_absorb2)

lemma decode_stage:
  fixes s :: "'a cpu_scheme"
  assumes e: "env s" and dr: "dr_valid (decr_reg s)" and de: "\<not> de_valid (decode_reg s)" and f: "front_ok s"
  defines "t \<equiv> stage_decode s False"
  shows "keeps s t" "mem_reg t = mem_reg s" "exec_reg t = exec_reg s" "reg_file t = reg_file s"
    "iCache_valid t = iCache_valid s" "iCache_tag t = iCache_tag s" "iCache_data t = iCache_data s"
    "front_ok t" "decode_ok t" "operands_ok t" "arch t = arch s" "security_lockdown t = security_lockdown s"
proof -
  let ?d = "decr_reg s" and ?f = "fetch_reg s" and ?M = "machine_of s"
  let ?w = "quad_nth (decr_block ?d) (instr_index ?d)"
  let ?p = "(dr_block_addr ?d, instr_index ?d)"
  obtain n where t: "t = s\<lparr>decode_reg := decode_entry s, branch_prediction_count := n,
      decr_reg := ?d\<lparr>instr_index := instr_index ?d + 1, dr_valid := instr_index ?d + 1 < 4 \<and> mips_opcode ?w \<noteq> MIPS_OP_J\<rparr>,
      fetch_reg := (if mips_opcode ?w = MIPS_OP_J
                    then ?f\<lparr>fe_valid := False, fe_block_addr := computeJumpTargetBlock ?w\<rparr> else ?f)\<rparr>"
    unfolding t_def by (rule decode_shape[OF dr de])
  have fd: "in_text s (dr_block_addr ?d)" "instr_index ?d < 4" "decr_block ?d = text_block ?M (dr_block_addr ?d)"
    "fe_block_addr ?f = dr_block_addr ?d + 1" using f dr by (simp_all add: front_ok_def)
  show k: "keeps s t" by (simp add: t keeps_def)
  show "security_lockdown t = security_lockdown s" by (simp add: t)
  show "mem_reg t = mem_reg s" "exec_reg t = exec_reg s" "reg_file t = reg_file s"
    "iCache_valid t = iCache_valid s" "iCache_tag t = iCache_tag s" "iCache_data t = iCache_data s"
    by (simp_all add: t)
  note regs = this and M = keeps_machine[OF e k] and it = keeps_fetch[OF e k]
  show "operands_ok t" by (simp add: operands_ok_def t decode_entry_def Let_def)
  show "front_ok t" using f fd it M by (auto simp: front_ok_def t)
  note b = in_text_bound[OF e fd(1)] and bp = block_position[OF in_text_bound[OF e fd(1)] fd(2)]
  have entry: "decode_reg t = decode_entry s" by (simp add: t)
  have pos: "word_addr (decode_entry s) div 4 = dr_block_addr ?d" "unat (word_addr (decode_entry s) mod 4) = instr_index ?d"
    by (simp_all add: decode_entry_def Let_def bp)
  have "text_first ?M \<le> dr_block_addr ?d + 1"
    using fd(1) b by (simp add: text_range[OF e] word_le_nat_alt unat_word_ariths)
  then have next_block: "enter ?M (dr_block_addr ?d + 1) = (dr_block_addr ?d + 1, 0)"
    by (simp add: enter_def max_absorb2)
  have front: "front_pc t = (if mips_opcode ?w = MIPS_OP_J then enter ?M (computeJumpTargetBlock ?w) else advance ?p)"
    using fd(2,4) next_block by (simp add: front_pc_def M advance_def) (auto simp: t)
  show "decode_ok t"
    using pos fd front it(1) by (simp add: decode_ok_def Let_def entry M)
      (simp add: decode_entry_def Let_def fetched_def branchPredictTaken_def)
  have "position t = position s"
    using pos de dr by (simp add: position_def front_pc_def entry M regs) (simp add: decode_entry_def Let_def)
  moreover have "data_words t = data_words s" by (rule keeps_data[OF e k]) (simp add: t)
  ultimately have "core t = core s" using regs by (simp add: core_def) (simp add: t)
  then show "arch t = arch s" by (simp add: arch_def regs M)
qed

lemma decrypt_stage:
  fixes s :: "'a cpu_scheme"
  assumes e: "env s" and dr: "\<not> dr_valid (decr_reg s)" and de: "\<not> de_valid (decode_reg s)" and f: "front_ok s"
  defines "t \<equiv> stage_decrypt s"
  shows "keeps s t" "mem_reg t = mem_reg s" "exec_reg t = exec_reg s" "reg_file t = reg_file s"
    "decode_reg t = decode_reg s"
    "iCache_valid t = iCache_valid s" "iCache_tag t = iCache_tag s" "iCache_data t = iCache_data s"
    "front_ok t" "arch t = arch s" "security_lockdown t = security_lockdown s"
proof -
  let ?f = "fetch_reg s" and ?M = "machine_of s"
  have "keeps s t \<and> mem_reg t = mem_reg s \<and> exec_reg t = exec_reg s \<and> reg_file t = reg_file s \<and>
    decode_reg t = decode_reg s \<and> iCache_valid t = iCache_valid s \<and> iCache_tag t = iCache_tag s \<and>
    iCache_data t = iCache_data s \<and> front_ok t \<and> arch t = arch s \<and> security_lockdown t = security_lockdown s"
  proof (cases "fe_valid ?f")
    case False
    then have "t = s" by (simp add: t_def stage_decrypt_def)
    then show ?thesis using f by simp
  next
    case True
    then have ff: "in_text s (fe_block_addr ?f)" "fe_block_data ?f = icache_fetch_block_from_mem s (fe_block_addr ?f)"
      using f by (simp_all add: front_ok_def)
    have t: "t = s\<lparr>decr_reg := \<lparr>dr_valid = True, dr_block_addr = fe_block_addr ?f,
          decr_block = text_block ?M (fe_block_addr ?f), instr_index = 0\<rparr>,
        fetch_reg := ?f\<lparr>fe_valid := False, fe_block_addr := fe_block_addr ?f + 1\<rparr>\<rparr>"
    proof -
      have "text_start_block s \<le> fe_block_addr ?f" using ff(1) by (simp add: text_range[OF e])
      moreover have "text_block ?M (fe_block_addr ?f) = aes_decrypt_block (fe_block_data ?f) (runtime_app_key s)"
        using ff by (simp add: machine_of_def)
      ultimately show ?thesis unfolding t_def stage_decrypt_def Let_def using True dr by simp
    qed
    have k: "keeps s t" by (simp add: t keeps_def)
    have regs: "mem_reg t = mem_reg s" "exec_reg t = exec_reg s" "reg_file t = reg_file s"
      "decode_reg t = decode_reg s"
      "iCache_valid t = iCache_valid s" "iCache_tag t = iCache_tag s" "iCache_data t = iCache_data s"
      by (simp_all add: t)
    note M = keeps_machine[OF e k] and it = keeps_fetch[OF e k]
    have "front_ok t" using ff it M by (simp add: front_ok_def t)
    moreover have "position t = position s"
      using dr enter_in_text[OF e ff(1)] by (simp add: position_def front_pc_def M regs) (simp add: t)
    moreover have "data_words t = data_words s" by (rule keeps_data[OF e k]) (simp add: t)
    ultimately have "front_ok t" "core t = core s" using regs by (simp_all add: core_def) (simp add: t)
    moreover have "security_lockdown t = security_lockdown s" by (simp add: t)
    ultimately show ?thesis using k regs by (simp add: arch_def M)
  qed
  then show "keeps s t" "mem_reg t = mem_reg s" "exec_reg t = exec_reg s" "reg_file t = reg_file s"
    "decode_reg t = decode_reg s"
    "iCache_valid t = iCache_valid s" "iCache_tag t = iCache_tag s" "iCache_data t = iCache_data s"
    "front_ok t" "arch t = arch s" "security_lockdown t = security_lockdown s" by blast+
qed

lemma icache_read_spec:
  fixes s :: "'a cpu_scheme"
  assumes e: "env s" and b: "in_text s b" and ok: "icache_ok s"
  defines "r \<equiv> icache_read_block s b"
  shows "fst r = icache_fetch_block_from_mem s b" "icache_ok (snd r)" "keeps s (snd r)"
    "memory (snd r) = memory s" "security_lockdown (snd r) = security_lockdown s"
    "fetch_reg (snd r) = fetch_reg s" "decr_reg (snd r) = decr_reg s" "decode_reg (snd r) = decode_reg s"
    "exec_reg (snd r) = exec_reg s" "mem_reg (snd r) = mem_reg s" "reg_file (snd r) = reg_file s"
    "copro_reg (snd r) = copro_reg s"
proof -
  let ?i = "unat (b mod 4)" and ?tag = "b div 4"
  let ?hit = "iCache_valid s ?i \<and> iCache_tag s ?i = ?tag"
  have r: "r = (if ?hit then (iCache_data s ?i, s\<lparr>perf_icache_hits := perf_icache_hits s + 1\<rparr>)
    else (icache_fetch_block_from_mem s b, s\<lparr>perf_icache_misses := perf_icache_misses s + 1,
                      iCache_data := (iCache_data s)(?i := icache_fetch_block_from_mem s b),
                      iCache_tag := (iCache_tag s)(?i := ?tag), iCache_valid := (iCache_valid s)(?i := True)\<rparr>))"
    unfolding r_def icache_read_block_def Let_def by simp
  show k: "keeps s (snd r)" by (simp add: r keeps_def)
  show "memory (snd r) = memory s" "security_lockdown (snd r) = security_lockdown s"
    "fetch_reg (snd r) = fetch_reg s" "decr_reg (snd r) = decr_reg s" "decode_reg (snd r) = decode_reg s"
    "exec_reg (snd r) = exec_reg s" "mem_reg (snd r) = mem_reg s" "reg_file (snd r) = reg_file s"
    "copro_reg (snd r) = copro_reg s" by (simp_all add: r)
  show "fst r = icache_fetch_block_from_mem s b" using ok b by (simp add: r icache_ok_def)
  have same: "c = b" if "c mod 4 = b mod 4" "c div 4 = b div 4" for c :: u32
    using that by (metis div_mult_mod_eq)
  show "icache_ok (snd r)"
  proof (cases ?hit)
    case True
    have kk: "keeps s (s\<lparr>perf_icache_hits := perf_icache_hits s + 1\<rparr>)" using k True by (simp add: r)
    show ?thesis using keeps_icache_ok[OF e kk] ok True by (simp add: r)
  next
    case False
    note miss = r[unfolded if_not_P[OF False]]
    have "iCache_data (snd r) (unat (c mod 4)) = icache_fetch_block_from_mem (snd r) c"
      if "in_text (snd r) c" "iCache_valid (snd r) (unat (c mod 4))" "iCache_tag (snd r) (unat (c mod 4)) = c div 4" for c
    proof -
      have c: "in_text s c" "icache_fetch_block_from_mem (snd r) c = icache_fetch_block_from_mem s c"
        using that(1) keeps_fetch[OF e k] by simp_all
      show ?thesis
      proof (cases "c mod 4 = b mod 4")
        case True
        then have "c = b" using that(3) False by (intro same) (simp_all add: miss)
        then show ?thesis unfolding c(2) by (simp add: miss)
      next
        case ne: False
        then have "unat (c mod 4) \<noteq> ?i" by (simp flip: word_unat_eq_iff)
        then show ?thesis using that(2,3) c(1) ok unfolding c(2) by (simp add: miss icache_ok_def)
      qed
    qed
    then show ?thesis by (simp add: icache_ok_def)
  qed
qed

lemma fetch_stage:
  fixes s :: "'a cpu_scheme"
  assumes e: "env s" and fe: "\<not> fe_valid (fetch_reg s)" and ic: "icache_ok s" and f: "front_ok s" and d: "decode_ok s"
  defines "t \<equiv> stage_fetch s"
  shows "keeps s t" "icache_ok t" "front_ok t" "decode_ok t" "mem_reg t = mem_reg s" "exec_reg t = exec_reg s"
    "reg_file t = reg_file s" "decode_reg t = decode_reg s" "decr_reg t = decr_reg s" "arch t = arch s"
    "security_lockdown t = security_lockdown s"
    "fst (enter (machine_of s) (fe_block_addr (fetch_reg s))) < text_last (machine_of s) \<Longrightarrow> fe_valid (fetch_reg t)"
proof -
  let ?M = "machine_of s"
  define b where "b = max (text_first ?M) (fe_block_addr (fetch_reg s))"
  define u where "u = (if fe_block_addr (fetch_reg s) < text_first ?M
      then s\<lparr>fetch_reg := (fetch_reg s)\<lparr>fe_block_addr := text_first ?M\<rparr>\<rparr> else s)"
  have ku: "keeps s u" by (simp add: u_def keeps_def)
  have bu: "fe_block_addr (fetch_reg u) = b"
    by (cases "fe_block_addr (fetch_reg s) < text_first ?M") (auto simp: u_def b_def max_absorb1 max_absorb2 not_less)
  have eu: "env u" by (rule keeps_env[OF e ku])
  have regs_u: "iCache_valid u = iCache_valid s" "iCache_tag u = iCache_tag s" "iCache_data u = iCache_data s"
    "mem_reg u = mem_reg s" "exec_reg u = exec_reg s" "reg_file u = reg_file s" "decode_reg u = decode_reg s"
    "decr_reg u = decr_reg s" "copro_reg u = copro_reg s" "memory u = memory s" "security_lockdown u = security_lockdown s"
    "\<not> fe_valid (fetch_reg u)" using fe by (simp_all add: u_def)
  have icu: "icache_ok u" using keeps_icache_ok[OF e ku] ic regs_u by simp
  note Mu = keeps_machine[OF e ku]
  have t: "t = (if text_last ?M \<le> b then u else (snd (icache_read_block u b))
      \<lparr>fetch_reg := (fetch_reg (snd (icache_read_block u b)))\<lparr>fe_block_data := fst (icache_read_block u b), fe_valid := True\<rparr>\<rparr>)"
    using fe e bu unfolding t_def stage_fetch_def fetch_block_def Let_def case_prod_unfold text_range(1)[OF e] u_def[symmetric]
    by (simp add: env_def text_range(2)[OF eu] Mu)
  note r = icache_read_spec[OF eu _ icu, of b]
  have it: "in_text u b" if "\<not> text_last ?M \<le> b"
    using that max.cobounded1[of "text_first ?M"] by (simp add: text_range(3)[OF eu] Mu not_le flip: b_def) (simp add: b_def)
  have all: "keeps u t \<and> icache_ok t \<and> mem_reg t = mem_reg u \<and> exec_reg t = exec_reg u \<and> reg_file t = reg_file u \<and>
    decode_reg t = decode_reg u \<and> decr_reg t = decr_reg u \<and> memory t = memory u \<and> copro_reg t = copro_reg u \<and>
    security_lockdown t = security_lockdown u \<and> fe_block_addr (fetch_reg t) = b \<and>
    (b < text_last ?M \<longrightarrow> fe_valid (fetch_reg t)) \<and>
    (fe_valid (fetch_reg t) \<longrightarrow> in_text u b \<and> fe_block_data (fetch_reg t) = icache_fetch_block_from_mem u b)"
  proof (cases "text_last ?M \<le> b")
    case True
    then show ?thesis using regs_u icu bu by (simp add: t not_less)
  next
    case False
    note ri = r[OF it[OF False]]
    have kt: "keeps (snd (icache_read_block u b)) t" using False by (simp add: t keeps_def)
    have "icache_ok t = icache_ok (snd (icache_read_block u b))"
      by (rule keeps_icache_ok[OF keeps_env[OF eu ri(3)] kt]) (use False in \<open>simp_all add: t\<close>)
    then show ?thesis using ri keeps_trans[OF ri(3) kt] False it[OF False] bu by (simp add: t)
  qed
  then show k: "keeps s t" using keeps_trans[OF ku] by blast
  show "icache_ok t" and regs: "mem_reg t = mem_reg s" "exec_reg t = exec_reg s"
    "reg_file t = reg_file s" "decode_reg t = decode_reg s" "decr_reg t = decr_reg s" using all regs_u by simp_all
  show "security_lockdown t = security_lockdown s" using all regs_u by simp
  show "fst (enter ?M (fe_block_addr (fetch_reg s))) < text_last ?M \<Longrightarrow> fe_valid (fetch_reg t)"
    using all by (simp add: enter_def b_def)
  note M = keeps_machine[OF e k]
  have "fe_block_addr (fetch_reg s) = b" if "dr_valid (decr_reg s)"
  proof -
    have a: "in_text s (dr_block_addr (decr_reg s))" "fe_block_addr (fetch_reg s) = dr_block_addr (decr_reg s) + 1"
      using f that by (simp_all add: front_ok_def)
    then have "text_first ?M \<le> fe_block_addr (fetch_reg s)"
      using in_text_bound[OF e a(1)] by (simp add: text_range[OF e] word_le_nat_alt unat_word_ariths)
    then show ?thesis by (simp add: b_def max_absorb2)
  qed
  moreover have "in_text u c = in_text s c" "in_text t c = in_text s c"
    "in_text s c \<Longrightarrow> icache_fetch_block_from_mem u c = icache_fetch_block_from_mem s c"
    "in_text s c \<Longrightarrow> icache_fetch_block_from_mem t c = icache_fetch_block_from_mem s c" for c
    using keeps_fetch[OF e ku] keeps_fetch[OF e k] by simp_all
  ultimately show "front_ok t" using f all regs_u M by (auto simp: front_ok_def)
  have fp: "front_pc t = front_pc s" using all regs_u M by (simp add: front_pc_def enter_def b_def)
  show "decode_ok t" using keeps_decode_ok[OF e k regs(4) fp] d by simp
  have "data_words t = data_words s" by (rule keeps_data[OF e k]) (use all regs_u in simp)
  then have "core t = core s" using all regs_u fp M by (simp add: core_def position_def)
  then show "arch t = arch s" by (simp add: arch_def regs M)
qed

end
