(* ===== verification/Stuttering.thy ===== *)
theory Stuttering
  imports Main
begin

text \<open>
  Simulation of a specification by an implementation that may stutter: each implementation step
  performs one step of the specification or none, and a rank bounds the steps without one.
\<close>

lemma funpow_fixed: "f x = x \<Longrightarrow> (f ^^ n) x = x"
  by (induction n) simp_all

lemma funpow_stable: "f ((f ^^ m) x) = (f ^^ m) x \<Longrightarrow> m \<le> n \<Longrightarrow> (f ^^ n) x = (f ^^ m) x"
proof -
  assume fx: "f ((f ^^ m) x) = (f ^^ m) x" and le: "m \<le> n"
  have "(f ^^ n) x = (f ^^ (n - m)) ((f ^^ m) x)" using le by (metis funpow_add le_add_diff_inverse2 o_apply)
  then show ?thesis using funpow_fixed[of f "(f ^^ m) x", OF fx] by simp
qed

locale stuttering =
  fixes step :: "'s \<Rightarrow> 's" and spec :: "'a \<Rightarrow> 'a" and view :: "'s \<Rightarrow> 'a" and good :: "'s \<Rightarrow> bool"
    and moves :: "'s \<Rightarrow> bool" and measure_of :: "'s \<Rightarrow> nat" and final :: "'a \<Rightarrow> bool" and bound :: nat
  assumes good_step: "good s \<Longrightarrow> good (step s)"
    and simulation: "good s \<Longrightarrow> view (step s) = (if moves s then spec (view s) else view s)"
    and progress: "good s \<Longrightarrow> \<not> moves s \<Longrightarrow> \<not> final (view s) \<Longrightarrow> measure_of (step s) < measure_of s"
    and bounded: "measure_of s \<le> bound"
    and final_stays: "final a \<Longrightarrow> spec a = a"
begin

lemma good_run: "good s \<Longrightarrow> good ((step ^^ n) s)"
  by (induction n) (simp_all add: good_step)

text \<open>The number of specification steps in a run, and what the other steps cost.\<close>

lemma run:
  assumes "good s"
  shows "\<exists>k\<le>n. view ((step ^^ n) s) = (spec ^^ k) (view s)
    \<and> (final (view ((step ^^ n) s)) \<or> n + measure_of ((step ^^ n) s) \<le> measure_of s + k * (bound + 1))"
proof (induction n)
  case 0
  show ?case by simp
next
  case (Suc n)
  let ?t = "(step ^^ n) s"
  obtain k where k: "k \<le> n" "view ?t = (spec ^^ k) (view s)"
    "final (view ?t) \<or> n + measure_of ?t \<le> measure_of s + k * (bound + 1)" using Suc by blast
  have good: "good ?t" using assms by (rule good_run)
  note sim = simulation[OF good]
  show ?case
  proof (cases "final (view ?t)")
    case True
    then have "view (step ?t) = view ?t" using sim final_stays by simp
    then show ?thesis using k True by (intro exI[of _ k]) simp
  next
    case live: False
    show ?thesis
    proof (cases "moves ?t")
      case True
      then have "view (step ?t) = (spec ^^ Suc k) (view s)" using sim k(2) by simp
      moreover have "Suc n + measure_of (step ?t) \<le> measure_of s + Suc k * (bound + 1)"
        using k(3) live bounded[of "step ?t"] by simp
      ultimately show ?thesis using k(1) by (intro exI[of _ "Suc k"]) simp
    next
      case False
      then have "view (step ?t) = (spec ^^ k) (view s)" using sim k(2) by simp
      then show ?thesis using k progress[OF good False live] live by (intro exI[of _ k]) simp
    qed
  qed
qed

text \<open>A run that is long enough reaches the final state of the specification.\<close>

lemma reaches_final:
  assumes "good s" "final ((spec ^^ m) (view s))" "n > m * (bound + 1) + bound"
  shows "view ((step ^^ n) s) = (spec ^^ m) (view s)"
proof -
  obtain k where k: "k \<le> n" "view ((step ^^ n) s) = (spec ^^ k) (view s)"
    "final (view ((step ^^ n) s)) \<or> n + measure_of ((step ^^ n) s) \<le> measure_of s + k * (bound + 1)"
    using run[OF assms(1)] by blast
  note stable = funpow_stable[OF final_stays]
  show ?thesis
  proof (cases "k \<le> m")
    case True
    show ?thesis
    proof (cases "final (view ((step ^^ n) s))")
      case f: True
      then show ?thesis using stable[of k "view s" m] k(2) True by simp
    next
      case False
      then have "n \<le> bound + k * (bound + 1)" using k(3) bounded[of s] by linarith
      moreover have "k * (bound + 1) \<le> m * (bound + 1)" using True by (rule mult_le_mono1)
      ultimately show ?thesis using assms(3) by linarith
    qed
  next
    case False
    then show ?thesis using stable[OF assms(2), of k] k(2) by simp
  qed
qed

end

end
