(* ===== verification/Pipeline_Refinement.thy ===== *)
theory Pipeline_Refinement
  imports Pipeline_Stages Stuttering
begin

text \<open>
  The pipeline of \<open>src/3d.cpp\<close> refines the sequential machine of \<open>Mips_Semantics\<close>: one clock cycle keeps
  the invariant and performs one instruction or none, and at most three cycles pass without one. The
  locale of \<open>Stuttering\<close> turns this into statements on whole runs.
\<close>

section \<open>One cycle is at most one instruction\<close>

definition flushes :: "'a cpu_scheme \<Rightarrow> bool" where
  "flushes s \<longleftrightarrow> ex_valid (exec_reg s) \<and> control_mispredict (exec_reg s)"

definition executes :: "'a cpu_scheme \<Rightarrow> bool" where
  "executes s \<longleftrightarrow> de_valid (decode_reg s) \<and> \<not> flushes s"

text \<open>The first half of a cycle: write back, recovery, memory, execute.\<close>

lemma back_half:
  fixes s :: "'a cpu_scheme"
  assumes ok: "pipe_ok s"
  defines "t \<equiv> execute_phase (memory_phase (writeback_phase s))"
  shows "keeps s t \<and> icache_ok t \<and> front_ok t \<and> \<not> de_valid (decode_reg t) \<and> mem_ok (mem_reg t)
    \<and> arch t = (if executes s then isa_step (machine_of s) (arch s) else arch s)
    \<and> ex_valid (exec_reg t) = executes s \<and> me_valid (mem_reg t) = ex_valid (exec_reg s)
    \<and> fetch_reg t = (if flushes s then (fetch_reg s)\<lparr>fe_valid := False, fe_block_addr := recovery_block_addr (exec_reg s)\<rparr>
                     else fetch_reg s)
    \<and> dr_valid (decr_reg t) = (dr_valid (decr_reg s) \<and> \<not> flushes s)
    \<and> security_lockdown t = locked (arch s)"
proof -
  let ?w = "writeback_phase s"
  let ?m = "memory_phase ?w"
  have e: "env s" and mo: "mem_ok (mem_reg s)" and inv: "icache_ok s" "front_ok s" "decode_ok s" "operands_ok s"
    using ok by (simp_all add: pipe_ok_def)
  note w = writeback_phase[OF mo]
  have ew: "env ?w" by (rule keeps_env[OF e w(1)])
  have fw: "front_ok ?w" "front_pc ?w = front_pc s" using keeps_front_ok[OF e w(1) w(4,5)] inv by simp_all
  have dw: "decode_ok ?w" using keeps_decode_ok[OF e w(1) w(6) fw(2)] inv by simp
  have iw: "icache_ok ?w" using keeps_icache_ok[OF e w(1) w(9-11)] inv by simp
  define r where "r = (if ex_valid (exec_reg ?w) then recover ?w else ?w)"
  have kr: "keeps ?w r" using recover_keeps(1)[of ?w] by (simp add: r_def)
  have er: "env r" by (rule keeps_env[OF ew kr])
  have mem: "keeps ?w ?m \<and> keeps r ?m \<and> \<not> ex_valid (exec_reg ?m) \<and> mem_ok (mem_reg ?m) \<and> arch ?m = arch ?w
    \<and> me_valid (mem_reg ?m) = ex_valid (exec_reg s)
    \<and> iCache_valid ?m = iCache_valid ?w \<and> iCache_tag ?m = iCache_tag ?w \<and> iCache_data ?m = iCache_data ?w
    \<and> fetch_reg ?m = fetch_reg r \<and> decr_reg ?m = decr_reg r \<and> decode_reg ?m = decode_reg r"
  proof (cases "ex_valid (exec_reg ?w)")
    case True
    then show ?thesis using memory_phase[OF ew w(12) True] w(7) by (simp add: r_def)
  next
    case False
    then show ?thesis using w(7,12) by (simp add: memory_phase_def r_def mem_ok_def)
  qed
  then have km: "keeps s ?m" using keeps_trans[OF w(1)] by blast
  have em: "env ?m" by (rule keeps_env[OF e km])
  have M: "machine_of ?m = machine_of s" by (rule keeps_machine[OF e km])
  have am: "arch ?m = arch s" using mem arch_writeback[OF e mo] by simp
  have im: "icache_ok ?m" using keeps_icache_ok[OF ew, of ?m] mem iw by simp
  have rk: "keeps r ?m" using mem by blast
  have fr: "front_ok r"
  proof (cases "ex_valid (exec_reg ?w) \<and> control_mispredict (exec_reg ?w)")
    case True
    then show ?thesis by (simp add: r_def recover_def front_ok_def)
  next
    case False
    then have "r = ?w" by (auto simp: r_def recover_def)
    then show ?thesis using fw(1) by simp
  qed
  have fm: "front_ok ?m" "front_pc ?m = front_pc r"
    using keeps_front_ok[OF er rk] mem fr by simp_all
  have front: "fetch_reg ?m = (if flushes s then (fetch_reg s)\<lparr>fe_valid := False, fe_block_addr := recovery_block_addr (exec_reg s)\<rparr>
                     else fetch_reg s)" "dr_valid (decr_reg ?m) = (dr_valid (decr_reg s) \<and> \<not> flushes s)"
    using mem w(4,5,7) by (auto simp: r_def recover_def flushes_def)
  have "locked (arch ?m) = security_lockdown ?m"
    using mem by (simp add: arch_def after_exec_def after_mem_def core_def)
  then have lk: "security_lockdown ?m = locked (arch s)" by (simp add: am)
  have dv: "de_valid (decode_reg ?m) = executes s"
    using mem w(6,7) by (auto simp: r_def recover_def executes_def flushes_def)
  show ?thesis
  proof (cases "executes s")
    case False
    then have "t = ?m" using dv execute_idle[of ?m] by (simp add: t_def)
    then show ?thesis using False mem km im fm am dv front lk by simp
  next
    case True
    then have rw: "decode_reg r = decode_reg s" "front_pc r = front_pc s"
      using w(6,7) fw(2) by (auto simp: r_def recover_def executes_def flushes_def)
    have de: "de_valid (decode_reg ?m)" "decode_reg ?m = decode_reg s" using dv True mem rw by simp_all
    have dm: "decode_ok ?m" using keeps_decode_ok[OF e km de(2)] fm(2) rw(2) inv by simp
    have op: "operand ?m (rs_idx (decode_reg ?m)) (rs_val (decode_reg ?m)) = get_reg (arch ?m) (rs_idx (decode_reg ?m))"
      "operand ?m (rt_idx (decode_reg ?m)) (rt_val (decode_reg ?m)) = get_reg (arch ?m) (rt_idx (decode_reg ?m))"
      using operand_forwarded[OF e mo] inv(4) de by (simp_all add: operands_ok_def)
    have nex: "\<not> ex_valid (exec_reg ?m)" using mem by blast
    have t: "t = stage_execute ?m" using de(1) by (simp add: t_def execute_phase_def)
    note x = execute_stage[OF em de(1) nex dm op, folded t]
    have "icache_ok t" using keeps_icache_ok[OF em x(1)] x(8-10) im by simp
    moreover have "front_ok t" using keeps_front_ok(1)[OF em x(1)] x(6,7) fm by simp
    ultimately show ?thesis using x keeps_trans[OF km x(1)] mem am M True front lk by simp
  qed
qed

text \<open>The second half: decode or decrypt, and fetch.\<close>

lemma front_half:
  fixes s :: "'a cpu_scheme"
  assumes e: "env s" and ic: "icache_ok s" and f: "front_ok s" and de: "\<not> de_valid (decode_reg s)"
    and m: "mem_ok (mem_reg s)"
  defines "t \<equiv> fetch_phase (advance_decode s)"
  shows "keeps s t \<and> pipe_ok t \<and> arch t = arch s \<and> mem_reg t = mem_reg s \<and> exec_reg t = exec_reg s
    \<and> security_lockdown t = security_lockdown s"
proof -
  let ?a = "advance_decode s"
  have a: "keeps s ?a \<and> icache_ok ?a \<and> front_ok ?a \<and> decode_ok ?a \<and> operands_ok ?a \<and> mem_reg ?a = mem_reg s
    \<and> exec_reg ?a = exec_reg s \<and> arch ?a = arch s \<and> security_lockdown ?a = security_lockdown s"
  proof (cases "dr_valid (decr_reg s)")
    case False
    then have a: "?a = stage_decrypt s" by (simp add: advance_decode_def)
    note d = decrypt_stage[OF e False de f]
    have "icache_ok ?a" using keeps_icache_ok[OF e d(1)] d ic a by simp
    then show ?thesis using d de by (simp add: a decode_ok_def operands_ok_def)
  next
    case dr: True
    note d = decode_stage[OF e dr de f]
    consider (go) "?a = stage_decode s False" | (stall) n m where
      "?a = s\<lparr>pipeline_stall_count := n, perf_load_use_stalls := m\<rparr>"
    proof (cases "fst (checkDataHazard s (quad_nth (decr_block (decr_reg s)) (instr_index (decr_reg s)))
        (ex_instr (exec_reg s)) (me_instr (mem_reg s)))")
      case True
      then show ?thesis using dr by (intro stall) (simp add: advance_decode_def Let_def case_prod_unfold)
    next
      case False
      then show ?thesis using dr by (intro go) (simp add: advance_decode_def Let_def case_prod_unfold)
    qed
    then show ?thesis
    proof cases
      case go
      have "icache_ok ?a" using keeps_icache_ok[OF e d(1)] d ic go by simp
      then show ?thesis using d by (simp add: go)
    next
      case stall
      have k: "keeps s ?a" by (simp add: stall keeps_def)
      have regs: "mem_reg ?a = mem_reg s" "exec_reg ?a = exec_reg s" "fetch_reg ?a = fetch_reg s"
        "decr_reg ?a = decr_reg s" "decode_reg ?a = decode_reg s" "reg_file ?a = reg_file s"
        "iCache_valid ?a = iCache_valid s" "iCache_tag ?a = iCache_tag s" "iCache_data ?a = iCache_data s"
        by (simp_all add: stall)
      note fo = keeps_front_ok[OF e k regs(3,4)] and M = keeps_machine[OF e k]
      have "data_words ?a = data_words s" by (rule keeps_data[OF e k]) (simp add: stall)
      then have "core ?a = core s" using regs fo M by (simp add: core_def position_def) (simp add: stall)
      then show ?thesis using k regs fo f de M keeps_icache_ok[OF e k regs(7-9)] ic
        by (simp add: decode_ok_def operands_ok_def arch_def) (simp add: stall)
    qed
  qed
  have ea: "env ?a" by (rule keeps_env[OF e]) (use a in blast)
  show ?thesis
  proof (cases "fe_valid (fetch_reg ?a)")
    case True
    then show ?thesis using a ea m by (simp add: t_def fetch_phase_def pipe_ok_def)
  next
    case False
    have "t = stage_fetch ?a" using False by (simp add: t_def fetch_phase_def)
    note x = fetch_stage[OF ea False, folded this]
    have inv: "icache_ok ?a" "front_ok ?a" "decode_ok ?a" "keeps s ?a" using a by blast+
    note x = x[OF inv(1-3)]
    have "operands_ok t" using a x by (simp add: operands_ok_def)
    then show ?thesis using a x m keeps_trans[OF inv(4) x(1)] keeps_env[OF ea x(1)] by (simp add: pipe_ok_def)
  qed
qed

lemma cycle_refines:
  fixes s :: "'a cpu_scheme"
  assumes "pipe_ok s"
  shows "pipe_ok (cycle_step s)" "keeps s (cycle_step s)"
    "arch (cycle_step s) = (if executes s then isa_step (machine_of s) (arch s) else arch s)"
    "machine_of (cycle_step s) = machine_of s"
    "ex_valid (exec_reg (cycle_step s)) = executes s" "me_valid (mem_reg (cycle_step s)) = ex_valid (exec_reg s)"
    "security_lockdown (cycle_step s) = locked (arch s)"
proof -
  let ?b = "execute_phase (memory_phase (writeback_phase s))"
  have e: "env s" using assms by (simp add: pipe_ok_def)
  note b = back_half[OF assms]
  have eb: "env ?b" by (rule keeps_env[OF e]) (use b in blast)
  have f: "keeps ?b (cycle_step s) \<and> pipe_ok (cycle_step s) \<and> arch (cycle_step s) = arch ?b
      \<and> mem_reg (cycle_step s) = mem_reg ?b \<and> exec_reg (cycle_step s) = exec_reg ?b
      \<and> security_lockdown (cycle_step s) = security_lockdown ?b"
    unfolding cycle_phases by (rule front_half[OF eb]) (use b in blast)+
  then show "pipe_ok (cycle_step s)" by blast
  show k: "keeps s (cycle_step s)" using b f keeps_trans by blast
  show "arch (cycle_step s) = (if executes s then isa_step (machine_of s) (arch s) else arch s)"
    "ex_valid (exec_reg (cycle_step s)) = executes s" "me_valid (mem_reg (cycle_step s)) = ex_valid (exec_reg s)"
    "security_lockdown (cycle_step s) = locked (arch s)"
    using b f by simp_all
  show "machine_of (cycle_step s) = machine_of s" by (rule keeps_machine[OF e k])
qed

section \<open>Progress\<close>

text \<open>The number of cycles until an instruction is executed, if there is one.\<close>

definition rank :: "'a cpu_scheme \<Rightarrow> nat" where
  "rank s = (if executes s then 0 else if flushes s then 3 else if dr_valid (decr_reg s) then 1
             else if fe_valid (fetch_reg s) then 2 else 3)"

lemma rank_bound: "rank s \<le> 3"
  by (simp add: rank_def)

lemma no_hazard: "\<not> ex_valid (exec_reg s) \<Longrightarrow> \<not> fst (checkDataHazard s w x m)"
  by (simp add: checkDataHazard_def Let_def case_prod_unfold)

lemma front_progress:
  fixes s :: "'a cpu_scheme"
  assumes e: "env s" and ic: "icache_ok s" and f: "front_ok s" and de: "\<not> de_valid (decode_reg s)"
    and ex: "\<not> ex_valid (exec_reg s)"
  defines "t \<equiv> fetch_phase (advance_decode s)"
  shows "de_valid (decode_reg t) = dr_valid (decr_reg s)"
    "\<not> dr_valid (decr_reg s) \<Longrightarrow> dr_valid (decr_reg t) = fe_valid (fetch_reg s)"
    "\<not> dr_valid (decr_reg s) \<Longrightarrow> \<not> fe_valid (fetch_reg s) \<Longrightarrow>
       fst (enter (machine_of s) (fe_block_addr (fetch_reg s))) < text_last (machine_of s) \<Longrightarrow> fe_valid (fetch_reg t)"
proof -
  let ?a = "advance_decode s"
  have "\<exists>u. keeps s u \<and> icache_ok u \<and> front_ok u \<and> decode_ok u \<and> ?a = u \<and> de_valid (decode_reg u) = dr_valid (decr_reg s)
    \<and> (\<not> dr_valid (decr_reg s) \<longrightarrow> dr_valid (decr_reg u) = fe_valid (fetch_reg s)
        \<and> (\<not> fe_valid (fetch_reg s) \<longrightarrow> fetch_reg u = fetch_reg s))"
  proof (cases "dr_valid (decr_reg s)")
    case True
    have a: "?a = stage_decode s False"
      using True no_hazard[OF ex] by (simp add: advance_decode_def Let_def case_prod_unfold)
    note d = decode_stage[OF e True de f, folded a]
    obtain n where "de_valid (decode_reg ?a)" unfolding a
      by (rule decode_shape[OF True de]) (simp add: decode_entry_def Let_def)
    then show ?thesis using d True keeps_icache_ok[OF e d(1) d(5-7)] ic by (intro exI[of _ ?a]) simp
  next
    case False
    have a: "?a = stage_decrypt s" using False by (simp add: advance_decode_def)
    note d = decrypt_stage[OF e False de f, folded a]
    have "dr_valid (decr_reg ?a) = fe_valid (fetch_reg s)" "\<not> fe_valid (fetch_reg s) \<Longrightarrow> fetch_reg ?a = fetch_reg s"
      using False by (simp_all add: a stage_decrypt_def Let_def)
    then show ?thesis using d False de keeps_icache_ok[OF e d(1) d(6-8)] ic
      by (intro exI[of _ ?a]) (simp add: decode_ok_def)
  qed
  then have u: "keeps s ?a" "icache_ok ?a" "front_ok ?a" "decode_ok ?a" "de_valid (decode_reg ?a) = dr_valid (decr_reg s)"
    "\<not> dr_valid (decr_reg s) \<Longrightarrow> dr_valid (decr_reg ?a) = fe_valid (fetch_reg s)"
    "\<not> dr_valid (decr_reg s) \<Longrightarrow> \<not> fe_valid (fetch_reg s) \<Longrightarrow> fetch_reg ?a = fetch_reg s" by blast+
  have "decode_reg t = decode_reg ?a \<and> decr_reg t = decr_reg ?a \<and>
      (fst (enter (machine_of ?a) (fe_block_addr (fetch_reg ?a))) < text_last (machine_of ?a) \<longrightarrow> fe_valid (fetch_reg t))"
  proof (cases "fe_valid (fetch_reg ?a)")
    case True
    then show ?thesis by (simp add: t_def fetch_phase_def)
  next
    case False
    then have t: "t = stage_fetch ?a" by (simp add: t_def fetch_phase_def)
    show ?thesis using fetch_stage[OF keeps_env[OF e u(1)] False u(2-4), folded t] by blast
  qed
  then show "de_valid (decode_reg t) = dr_valid (decr_reg s)"
    "\<not> dr_valid (decr_reg s) \<Longrightarrow> dr_valid (decr_reg t) = fe_valid (fetch_reg s)"
    "\<not> dr_valid (decr_reg s) \<Longrightarrow> \<not> fe_valid (fetch_reg s) \<Longrightarrow>
       fst (enter (machine_of s) (fe_block_addr (fetch_reg s))) < text_last (machine_of s) \<Longrightarrow> fe_valid (fetch_reg t)"
    using u keeps_machine[OF e u(1)] by simp_all
qed

lemma pc_arch: "pc (arch s) = position s"
  by (simp add: arch_def after_exec_def commit_def load_def store_def core_def commit_pc split: option.splits)

lemma rank_decreases:
  fixes s :: "'a cpu_scheme"
  assumes ok: "pipe_ok s" and ne: "\<not> executes s" and run: "\<not> at_end (machine_of s) (arch s)"
  shows "rank (cycle_step s) < rank s"
proof -
  let ?b = "execute_phase (memory_phase (writeback_phase s))" and ?t = "cycle_step s"
  have e: "env s" using ok by (simp add: pipe_ok_def)
  note b = back_half[OF ok]
  have b': "env ?b" "icache_ok ?b" "front_ok ?b" "\<not> de_valid (decode_reg ?b)" "\<not> ex_valid (exec_reg ?b)"
    "machine_of ?b = machine_of s" using b ne keeps_env[OF e] keeps_machine[OF e] by blast+
  note f = front_progress[OF b'(1-5), folded cycle_phases, unfolded b'(6)]
  have nf: "\<not> flushes ?t" using cycle_refines(5)[OF ok] ne by (simp add: flushes_def)
  have pos: "fst (position s) < text_last (machine_of s)" using run ne by (simp add: at_end_def pc_arch)
  show ?thesis
  proof (cases "dr_valid (decr_reg ?b)")
    case True
    then have "executes ?t" using f(1) nf by (simp add: executes_def)
    then show ?thesis using ne by (simp add: rank_def)
  next
    case nd: False
    then have nx: "\<not> executes ?t" using f(1) by (simp add: executes_def)
    show ?thesis
    proof (cases "fe_valid (fetch_reg ?b)")
      case True
      then have "dr_valid (decr_reg ?t)" using f(2)[OF nd] by simp
      then have "rank ?t = 1" using nx nf by (simp add: rank_def)
      moreover have "rank s \<ge> 2" using True nd ne b by (auto simp: rank_def split: if_splits)
      ultimately show ?thesis by simp
    next
      case False
      have "fst (enter (machine_of s) (fe_block_addr (fetch_reg ?b))) < text_last (machine_of s)"
      proof (cases "flushes s")
        case True
        then show ?thesis using b pos by (simp add: position_def flushes_def)
      next
        case no: False
        then have "\<not> de_valid (decode_reg s)" "\<not> dr_valid (decr_reg s)" using ne nd b by (auto simp: executes_def)
        then have "position s = enter (machine_of s) (fe_block_addr (fetch_reg s))"
          unfolding position_def flushes_def[symmetric] front_pc_def using no by simp
        moreover have "fetch_reg ?b = fetch_reg s" using b no by simp
        ultimately show ?thesis using pos by simp
      qed
      then have "fe_valid (fetch_reg ?t)" "\<not> dr_valid (decr_reg ?t)" using f(2,3)[OF nd] False by simp_all
      then have "rank ?t = 2" using nx nf by (simp add: rank_def)
      moreover have "rank s = 3" using False nd ne b by (auto simp: rank_def split: if_splits)
      ultimately show ?thesis by simp
    qed
  qed
qed

section \<open>Runs\<close>

lemma at_end_stays: "at_end M st \<Longrightarrow> isa_step M st = st"
  by (simp add: isa_step_def)

interpretation pipeline: stuttering cycle_step "isa_step M" arch "\<lambda>s. pipe_ok s \<and> machine_of s = M" executes rank
    "at_end M" 3 for M :: machine
proof unfold_locales
  fix s :: "'a cpu_scheme"
  assume "pipe_ok s \<and> machine_of s = M" "\<not> executes s" "\<not> at_end M (arch s)"
  then show "rank (cycle_step s) < rank s" using rank_decreases by blast
qed (auto simp: cycle_refines(1,3,4) rank_bound at_end_stays)

text \<open>A run stops early only at a lockdown.\<close>

lemma run_cycles_steps:
  fixes s :: "'a cpu_scheme"
  assumes "pipe_ok s"
  shows "\<exists>m\<le>n. run_cycles n s = (cycle_step ^^ m) s \<and> (m = n \<or> security_lockdown ((cycle_step ^^ m) s))
    \<and> (\<forall>i<m. \<not> security_lockdown ((cycle_step ^^ i) s))"
  using assms
proof (induction n arbitrary: s)
  case 0
  then show ?case by simp
next
  case (Suc n)
  have run: "run_cycles (Suc n) s = (if security_lockdown s then s else run_cycles n (cycle_step s))"
    using Suc.prems by (simp add: pipe_ok_def env_def isSecurityLocked_def)
  show ?case
  proof (cases "security_lockdown s")
    case True
    then show ?thesis by (intro exI[of _ 0]) (simp add: run del: run_cycles.simps)
  next
    case False
    obtain m where "m \<le> n" "run_cycles n (cycle_step s) = (cycle_step ^^ m) (cycle_step s)"
      "m = n \<or> security_lockdown ((cycle_step ^^ m) (cycle_step s))"
      "\<forall>i<m. \<not> security_lockdown ((cycle_step ^^ i) (cycle_step s))"
      using Suc.IH[OF cycle_refines(1)[OF Suc.prems]] by blast
    then show ?thesis using False
      by (intro exI[of _ "Suc m"]) (auto simp: run funpow_swap1[symmetric] less_Suc_eq_0_disj simp del: run_cycles.simps)
  qed
qed

lemma run_keeps:
  fixes s :: "'a cpu_scheme"
  assumes "pipe_ok s"
  shows "pipe_ok ((cycle_step ^^ n) s)" "keeps s ((cycle_step ^^ n) s)"
proof (induction n)
  case (Suc n)
  { case 1 show ?case using cycle_refines(1)[OF Suc(1)] by simp }
  { case 2 show ?case using keeps_trans[OF Suc(2) cycle_refines(2)[OF Suc(1)]] by simp }
qed (simp_all add: assms)

lemma lock_persists_isa: "locked st \<Longrightarrow> locked (isa_step M st)"
proof -
  have c: "locked st \<Longrightarrow> locked (commit M w v b st)" for w v b st
    by (auto simp: commit_def load_def store_def split: option.splits)
  assume "locked st"
  then show ?thesis
  proof (cases "at_end M st")
    case True
    then show ?thesis using \<open>locked st\<close> by (simp add: isa_step_def)
  next
    case False
    then show ?thesis using isa_step_word[OF False] c \<open>locked st\<close> by simp
  qed
qed

lemma executes_not_end: "pipe_ok s \<Longrightarrow> executes s \<Longrightarrow> \<not> at_end (machine_of s) (arch s)"
  by (auto simp: pipe_ok_def executes_def decode_ok_def flushes_def at_end_def pc_arch position_def Let_def text_range(3)
      not_le)

text \<open>Once the program has ended, two cycles complete the instructions in flight.\<close>

lemma drained:
  fixes s :: "'a cpu_scheme"
  assumes ok: "pipe_ok s" and fin: "at_end (machine_of s) (arch s)"
  defines "t \<equiv> cycle_step (cycle_step s)"
  shows "arch t = core t" "arch t = arch s"
proof -
  let ?u = "cycle_step s"
  note c = cycle_refines[OF ok] and d = cycle_refines[OF cycle_refines(1)[OF ok]]
  have n: "\<not> executes s" using executes_not_end[OF ok] fin by blast
  then have u: "arch ?u = arch s" "\<not> ex_valid (exec_reg ?u)" using c by simp_all
  then have "\<not> executes ?u" using executes_not_end[OF c(1)] fin c(4) by auto
  then show "arch t = core t" "arch t = arch s"
    using d u by (simp_all add: t_def arch_def after_exec_def after_mem_def)
qed

text \<open>A lockdown stops the processor at most one instruction behind the violating one.\<close>

lemma lock_monotone: "locked (isa_run M i st) \<Longrightarrow> i \<le> j \<Longrightarrow> locked (isa_run M j st)"
proof (induction j)
  case (Suc j)
  then show ?case using lock_persists_isa by (cases "i = Suc j") (auto simp: isa_run_def)
qed (simp add: isa_run_def)

lemma lock_delay:
  fixes s :: "'a cpu_scheme"
  assumes ok: "pipe_ok s" and un: "\<forall>i<m. \<not> security_lockdown ((cycle_step ^^ i) s)" "\<not> locked (arch s)"
  shows "\<exists>k\<le>m. arch ((cycle_step ^^ m) s) = isa_run (machine_of s) k (arch s)
    \<and> \<not> locked (isa_run (machine_of s) (k - 2) (arch s))"
proof (cases "m < 2")
  case True
  obtain k where "k \<le> m" "arch ((cycle_step ^^ m) s) = isa_run (machine_of s) k (arch s)"
    using pipeline.run[of s "machine_of s" m] ok unfolding isa_run_def by blast
  then show ?thesis using True un(2) by (intro exI[of _ k]) (simp add: isa_run_def)
next
  case False
  then obtain j where m: "m = Suc (Suc j)" by (metis add_2_eq_Suc not_less le_Suc_ex)
  let ?t = "(cycle_step ^^ j) s"
  have t: "pipe_ok ?t" "machine_of ?t = machine_of s"
    using pipeline.good_run[of s "machine_of s" j] ok by simp_all
  obtain k where k: "k \<le> j" "arch ?t = isa_run (machine_of s) k (arch s)"
    using pipeline.run[of s "machine_of s" j] ok unfolding isa_run_def by blast
  obtain i where i: "i \<le> 2" "arch ((cycle_step ^^ 2) ?t) = isa_run (machine_of s) i (arch ?t)"
    using pipeline.run[of ?t "machine_of s" 2] t unfolding isa_run_def by blast
  have two: "(cycle_step ^^ 2) ?t = (cycle_step ^^ m) s" by (simp add: m numeral_2_eq_2)
  have "\<not> security_lockdown (cycle_step ?t)" using un(1) m by (metis funpow.simps(2) lessI o_apply)
  then have nl: "\<not> locked (isa_run (machine_of s) k (arch s))" using cycle_refines(7)[OF t(1)] k(2) by simp
  have "arch ((cycle_step ^^ m) s) = isa_run (machine_of s) (i + k) (arch s)"
    using i(2) k(2) unfolding two by (simp add: isa_run_def funpow_add)
  moreover have "i + k - 2 \<le> k" using i(1) by simp
  moreover have "\<not> locked (isa_run (machine_of s) (i + k - 2) (arch s))"
    using nl lock_monotone[of "machine_of s" "i + k - 2" "arch s" k] \<open>i + k - 2 \<le> k\<close> by blast
  ultimately show ?thesis using i(1) k(1) m by (intro exI[of _ "i + k"]) simp
qed

end
