(* ===== verification/Program_Run.thy ===== *)
theory Program_Run
  imports Pipeline_Refinement
begin

text \<open>
  From a sealed image to the run of its program: the reference machine and initial state that an
  image describes, the first cycle after reset, which validates the image and extracts the key, and
  the runs of \<open>run_cycles\<close> behind it, up to the lockdown or the end of the program.
\<close>

section \<open>The program of a sealed image\<close>

definition image_machine :: "'a sec_scheme \<Rightarrow> SecureHeaderState \<Rightarrow> block \<Rightarrow> machine" where
  "image_machine s hdr key =
     (let place = (\<lambda>b. secure_map_block_with_params b
                     (secure_build_map_params (h_text_start hdr) (h_text_end hdr) (h_epoch hdr)))
      in \<lparr>text_first = h_text_start hdr div 4, text_last = h_text_end hdr div 4,
          text_block = (\<lambda>b. if h_text_start hdr div 4 \<le> b \<and> b < h_text_end hdr div 4
            then aes_decrypt_block (quad_gen (\<lambda>i. memory s 0 (unat (place b) * 4 + i))) key else Quad 0 0 0 0),
          data_first = h_data_start hdr, data_last = h_data_end hdr, app_key = key\<rparr>)"

definition image_words :: "'a sec_scheme \<Rightarrow> block \<Rightarrow> u32 \<Rightarrow> u32" where
  "image_words s key a =
     (if a div 4 * 4 + 4 > words32 s then 0
      else quad_nth (aes_decrypt_block (quad_gen (\<lambda>i. rawRead s 0 (unat a div 4 * 4 + i))) key) (unat (a mod 4)))"

definition initial_isa :: "'a cpu_scheme \<Rightarrow> SecureHeaderState \<Rightarrow> block \<Rightarrow> isa" where
  "initial_isa s hdr key =
     \<lparr>pc = (h_text_start hdr div 4, 0), regs = (\<lambda>r. if r < 32 then 0 else reg_file s r), copro = Quad 0 0 0 0,
      words = image_words s key, locked = False\<rparr>"

text \<open>What the processor needs of the memory before it starts.\<close>

definition bootable :: "'a sec_scheme \<Rightarrow> SecureHeaderState \<Rightarrow> u32 list \<Rightarrow> block \<Rightarrow> bool" where
  "bootable s hdr ps sk \<longleftrightarrow> image_sealed s 0 hdr ps sk \<and> h_data_flags hdr AND 1 \<noteq> 0 \<and> smem_wf s \<and> accessible s 0
     \<and> \<not> layer_is_encrypted s 0 \<and> \<not> security_lockdown s"

lemma reset_fields:
  fixes s :: "'a cpu_scheme"
  assumes "accessible s 0"
  defines "t \<equiv> reset_processor s"
  shows "memory t = memory s" "num_words t = num_words s" "num_layers t = num_layers s" "layer_access t = layer_access s"
    "layer_is_encrypted t = layer_is_encrypted s" "hardware_root t = hardware_root s"
    "layer_keys t = layer_keys s"
    "security_lockdown t = security_lockdown s" "smem_wf s \<Longrightarrow> smem_wf t"
    "reg_file t = (\<lambda>r. if r < 32 then 0 else reg_file s r)"
    "i < 4 \<Longrightarrow> \<not> iCache_valid t i" "instr_layer t = 0" "data_layer t = 0"
    "\<not> fe_valid (fetch_reg t)" "fe_block_addr (fetch_reg t) = 8" "\<not> dr_valid (decr_reg t)" "\<not> de_valid (decode_reg t)"
    "\<not> ex_valid (exec_reg t)" "\<not> me_valid (mem_reg t)" "\<not> wb_valid (wb_reg t)" "\<not> key_valid t" "\<not> key_check_failed t"
    "copro_reg t = Quad 0 0 0 0" "runtime_app_key t = Quad 0 0 0 0"
proof -
  have v: "0 < num_layers s" using assms(1) by (simp add: accessible_def isValidLayer_def)
  show "memory t = memory s" "num_words t = num_words s" "num_layers t = num_layers s" "layer_access t = layer_access s"
    "layer_is_encrypted t = layer_is_encrypted s" "hardware_root t = hardware_root s"
    "layer_keys t = layer_keys s"
    "security_lockdown t = security_lockdown s"
    "i < 4 \<Longrightarrow> \<not> iCache_valid t i" "instr_layer t = 0" "data_layer t = 0"
    "\<not> fe_valid (fetch_reg t)" "fe_block_addr (fetch_reg t) = 8" "\<not> dr_valid (decr_reg t)" "\<not> de_valid (decode_reg t)"
    "\<not> ex_valid (exec_reg t)" "\<not> me_valid (mem_reg t)" "\<not> wb_valid (wb_reg t)" "\<not> key_valid t" "\<not> key_check_failed t"
    "copro_reg t = Quad 0 0 0 0" "runtime_app_key t = Quad 0 0 0 0"
    by (simp_all add: t_def reset_processor_def Let_def enableProcessingLayer_def isValidLayer_def v add_log_def)
  show "reg_file t = (\<lambda>r. if r < 32 then 0 else reg_file s r)"
    by (rule ext) (simp add: t_def reset_processor_def Let_def enableProcessingLayer_def add_log_def)
  show "smem_wf s \<Longrightarrow> smem_wf t"
    by (auto simp: t_def reset_processor_def Let_def enableProcessingLayer_def isValidLayer_def v add_log_def smem_wf_def)
qed

lemma same_image_cong:
  assumes "memory t = memory s" "num_words t = num_words s" "num_layers t = num_layers s"
    "layer_access t = layer_access s" "layer_is_encrypted t = layer_is_encrypted s" "layer_keys t = layer_keys s"
    "hardware_root t = hardware_root s"
  shows "same_image s t"
proof -
  have "isValidLayer t = isValidLayer s" by (intro ext) (simp add: isValidLayer_def assms)
  then have "mem_read t = mem_read s" "rawRead t = rawRead s"
    by (intro ext, simp add: mem_read_def rawRead_def assms Let_def)+
  then show ?thesis using assms by (simp add: same_image_def)
qed

text \<open>The state in which the key has just been extracted, before the first block is fetched.\<close>

definition keyed :: "'a cpu_scheme \<Rightarrow> SecureHeaderState \<Rightarrow> block \<Rightarrow> (nat \<Rightarrow> string) \<Rightarrow> 'a cpu_scheme" where
  "keyed s hdr key f =
     (secure_apply_runtime_region (s\<lparr>perf_cycle_count := perf_cycle_count s + 1\<rparr>) hdr)
       \<lparr>layer_log := f, runtime_app_key := key, key_check_failed := False, key_valid := True\<rparr>"

lemma keyed_fields [simp]:
  "memory (keyed s hdr key f) = memory s" "num_words (keyed s hdr key f) = num_words s"
  "num_layers (keyed s hdr key f) = num_layers s" "hardware_root (keyed s hdr key f) = hardware_root s"
  "layer_access (keyed s hdr key f) = layer_access s" "layer_is_encrypted (keyed s hdr key f) = layer_is_encrypted s"
  "security_lockdown (keyed s hdr key f) = security_lockdown s" "reg_file (keyed s hdr key f) = reg_file s"
  "iCache_valid (keyed s hdr key f) = iCache_valid s" "instr_layer (keyed s hdr key f) = instr_layer s"
  "data_layer (keyed s hdr key f) = data_layer s" "fetch_reg (keyed s hdr key f) = fetch_reg s"
  "decr_reg (keyed s hdr key f) = decr_reg s" "decode_reg (keyed s hdr key f) = decode_reg s"
  "exec_reg (keyed s hdr key f) = exec_reg s" "mem_reg (keyed s hdr key f) = mem_reg s"
  "copro_reg (keyed s hdr key f) = copro_reg s" "runtime_app_key (keyed s hdr key f) = key"
  "key_valid (keyed s hdr key f)" "\<not> key_check_failed (keyed s hdr key f)"
  "secure_runtime_region_valid (keyed s hdr key f)" "secure_runtime_map_valid (keyed s hdr key f)"
  "secure_runtime_map (keyed s hdr key f) = secure_build_map_params (h_text_start hdr) (h_text_end hdr) (h_epoch hdr)"
  "secure_runtime_text_start_addr (keyed s hdr key f) = h_text_start hdr"
  "secure_runtime_text_plain_words (keyed s hdr key f) = h_text_words hdr"
  "secure_runtime_text_enc_end (keyed s hdr key f) = h_text_end hdr"
  "secure_runtime_data_start_addr (keyed s hdr key f) = h_data_start hdr"
  "secure_runtime_data_plain_words (keyed s hdr key f) = h_data_words hdr"
  "secure_runtime_data_enc_end (keyed s hdr key f) = h_data_end hdr"
  "secure_runtime_data_flags (keyed s hdr key f) = h_data_flags hdr"
  "secure_runtime_epoch (keyed s hdr key f) = h_epoch hdr"
  by (simp_all add: keyed_def secure_apply_runtime_region_def)

text \<open>The first cycle extracts the key and fetches the first block.\<close>

lemma first_cycle:
  fixes s :: "'a cpu_scheme"
  assumes b: "bootable s hdr ps sk"
  defines "key \<equiv> aes_decrypt_block (h_wrapped hdr) sk" and "r \<equiv> reset_processor s"
  obtains f where "smem_wf (keyed r hdr key f)" "cycle_step r = stage_fetch (keyed r hdr key f)"
proof -
  note bt = b[unfolded bootable_def]
  have acc: "accessible s 0" using bt by blast
  note rf = reset_fields[OF acc, folded r_def]
  let ?c = "r\<lparr>perf_cycle_count := perf_cycle_count r + 1\<rparr>"
  have "same_image s ?c" by (rule same_image_cong) (simp_all add: rf)
  then have sealed: "image_sealed ?c 0 hdr ps sk" using bt same_image_functions(7) by metis
  have layers: "0 < num_layers ?c" using acc by (simp add: rf accessible_def isValidLayer_def)
  obtain f where ex: "extract_key_from_large_block ?c 0 = (0, key, (secure_apply_runtime_region ?c hdr)\<lparr>layer_log := f\<rparr>)"
    "smem_wf ?c \<longrightarrow> smem_wf ((secure_apply_runtime_region ?c hdr)\<lparr>layer_log := f\<rparr>)"
    unfolding key_def by (rule extract_sealed_state[OF sealed layers])
  have "smem_wf r" using bt rf(9) by blast
  then have wf: "smem_wf (keyed r hdr key f)" using ex(2) by (simp add: keyed_def smem_wf_def)
  have "writeback_phase r = ?c" by (simp add: writeback_phase_def rf Let_def)
  then have "cycle_step r = fetch_phase (stage_decrypt ?c)"
    unfolding cycle_phases by (simp add: memory_phase_def execute_phase_def advance_decode_def rf)
  also have "\<dots> = stage_fetch ?c" by (simp add: stage_decrypt_def fetch_phase_def rf)
  also have "\<dots> = fetch_block (keyed r hdr key f)"
    using bt by (simp add: stage_fetch_def rf ex(1) isSecurityLocked_def keyed_def)
  also have "\<dots> = stage_fetch (keyed r hdr key f)" by (simp add: stage_fetch_def rf)
  finally show thesis using that wf by blast
qed

lemma keyed_env:
  fixes s :: "'a cpu_scheme"
  assumes b: "bootable s hdr ps sk" and wf: "smem_wf (keyed (reset_processor s) hdr key f)"
  defines "t \<equiv> keyed (reset_processor s) hdr key f"
  shows "env t" "machine_of t = image_machine s hdr key" "data_words t = image_words s key"
    "arch t = initial_isa s hdr key"
proof -
  note bt = b[unfolded bootable_def]
  have acc: "accessible s 0" using bt by blast
  note rf = reset_fields[OF acc]
  have words: "words32 t = words32 s" by (rule words32_cong) (simp add: t_def rf)
  have dec: "decoded s 0 = Some hdr" using bt by (simp add: image_sealed_def key_sealed_def)
  note rng = decoded_ranges[OF dec]
  have "accessible t 0" using acc by (simp add: t_def accessible_def isValidLayer_def rf)
  then show e: "env t"
    using wf bt rng(1) unfolding header_ranges_iff aligned_text_def words[symmetric]
    by (simp add: env_def t_def rf)
  have le: "(h_text_end hdr + 4 - 1) div 4 = h_text_end hdr div 4"
    by (rule iffD2[OF word_unat_eq_iff]) (use in_text_unat(2)[OF e] in \<open>simp add: t_def unat_div\<close>)
  have it: "in_text t b \<longleftrightarrow> h_text_start hdr div 4 \<le> b \<and> b < h_text_end hdr div 4" for b
    by (simp only: in_text_def t_def keyed_fields le)
  have "icache_fetch_block_from_mem t b = quad_gen (\<lambda>i. memory s 0
      (unat (secure_map_block_with_params b
        (secure_build_map_params (h_text_start hdr) (h_text_end hdr) (h_epoch hdr))) * 4 + i))" if "in_text t b" for b
    using fetch_from_text(1)[OF e that] by (simp add: t_def secure_map_text_block_runtime_def rf)
  then show m: "machine_of t = image_machine s hdr key"
    unfolding machine_of_def image_machine_def Let_def it[symmetric]
    by (simp add: fun_eq_iff) (use le in \<open>simp add: t_def\<close>)
  have raw: "rawRead t 0 = rawRead s 0"
    by (intro ext) (simp add: t_def rawRead_def isValidLayer_def rf)
  show dw: "data_words t = image_words s key"
  proof (rule ext)
    have "data_layer t = 0" "runtime_app_key t = key" by (simp_all add: t_def rf)
    then show "data_words t a = image_words s key a" for a
      using data_words_block[of t a] by (simp add: crypt_block_def image_words_def words raw)
  qed
  have "max (h_text_start hdr div 4) 8 = h_text_start hdr div 4"
    using rng(5) by (intro max_absorb1) (simp add: word_le_nat_alt unat_div)
  then have "position t = (h_text_start hdr div 4, 0)"
    by (simp add: position_def front_pc_def m) (simp add: t_def rf enter_def image_machine_def Let_def)
  then show "arch t = initial_isa s hdr key"
    using bt by (simp add: arch_def after_exec_def after_mem_def core_def initial_isa_def dw) (simp add: t_def rf)
qed

lemma boot:
  fixes s :: "'a cpu_scheme"
  assumes b: "bootable s hdr ps sk"
  defines "key \<equiv> aes_decrypt_block (h_wrapped hdr) sk"
  defines "t \<equiv> cycle_step (reset_processor s)"
  shows "pipe_ok t" "arch t = initial_isa s hdr key" "machine_of t = image_machine s hdr key"
    "\<not> security_lockdown t" "num_words t = num_words s" "runtime_app_key t = key"
    "a < unat (h_data_start hdr) \<or> unat (h_data_end hdr) \<le> a \<Longrightarrow> memory t 0 a = memory s 0 a"
    "secure_runtime_data_start_addr t = h_data_start hdr" "secure_runtime_data_enc_end t = h_data_end hdr"
    "num_layers t = num_layers s" "hardware_root t = hardware_root s"
proof -
  obtain f where f: "smem_wf (keyed (reset_processor s) hdr key f)" "t = stage_fetch (keyed (reset_processor s) hdr key f)"
    unfolding t_def key_def by (rule first_cycle[OF b])
  let ?k = "keyed (reset_processor s) hdr key f"
  have acc: "accessible s 0" and nl: "\<not> security_lockdown s" using b by (simp_all add: bootable_def)
  note rf = reset_fields[OF acc]
  note k = keyed_env[OF b f(1)]
  have ic: "icache_ok ?k" "front_ok ?k" "decode_ok ?k" "operands_ok ?k" "mem_ok (mem_reg ?k)" "\<not> fe_valid (fetch_reg ?k)"
    by (simp_all add: icache_ok_def front_ok_def decode_ok_def operands_ok_def mem_ok_def rf unat_mod)
  note x = fetch_stage[OF k(1) ic(6,1-3), folded f(2)]
  have kk: "keeps ?k t" by (rule x(1))
  show "pipe_ok t" using keeps_env[OF k(1) kk] x ic(4,5) by (simp add: pipe_ok_def operands_ok_def)
  show "arch t = initial_isa s hdr key" using x k(4) by simp
  show "machine_of t = image_machine s hdr key" using keeps_machine[OF k(1) kk] k(2) by simp
  show "\<not> security_lockdown t" using x nl rf by simp
  show "num_words t = num_words s" "runtime_app_key t = key"
    "secure_runtime_data_start_addr t = h_data_start hdr" "secure_runtime_data_enc_end t = h_data_end hdr"
    "num_layers t = num_layers s" "hardware_root t = hardware_root s"
    using kk by (simp_all add: keeps_def rf)
  show "a < unat (h_data_start hdr) \<or> unat (h_data_end hdr) \<le> a \<Longrightarrow> memory t 0 a = memory s 0 a"
    using kk rf(1) unfolding keeps_def keyed_fields by metis
qed

lemma bootable_iff:
  fixes s :: "'a sec_scheme"
  assumes "fst (secure_validate_image s 0) = 0" "fst (secure_decode_header s 0) = Some hdr" "h_data_flags hdr AND 1 \<noteq> 0"
    "smem_wf s" "accessible s 0" "\<not> layer_is_encrypted s 0" "\<not> isSecurityLocked s"
  obtains ps sk where "bootable s hdr ps sk"
    "fst (snd (extract_key_from_large_block s 0)) = aes_decrypt_block (h_wrapped hdr) sk"
proof -
  have l: "0 < num_layers s" using assms(5) by (simp add: accessible_def isValidLayer_def)
  obtain h ps sk where i: "image_sealed s 0 h ps sk" using assms(1) validate_iff[OF l] by blast
  have "h = hdr" using i assms(2) by (simp add: image_sealed_def key_sealed_def decode_header_pair(1))
  then have "bootable s hdr ps sk" using i assms(3-7) by (simp add: bootable_def isSecurityLocked_def)
  moreover have "fst (snd (extract_key_from_large_block s 0)) = aes_decrypt_block (h_wrapped hdr) sk"
    using extract_sealed[OF i l] \<open>h = hdr\<close> by auto
  ultimately show thesis by (rule that)
qed

lemma run_after_reset:
  fixes s :: "'a cpu_scheme"
  assumes "bootable s hdr ps sk"
  shows "run_cycles (Suc n) (reset_processor s) = run_cycles n (cycle_step (reset_processor s))"
  using reset_fields[of s] assms by (simp add: bootable_def isSecurityLocked_def)

text \<open>A run from reset in terms of cycles behind the first one.\<close>

lemma reset_run:
  fixes s :: "'a cpu_scheme"
  assumes b: "bootable s hdr ps sk"
  defines "t \<equiv> cycle_step (reset_processor s)"
  obtains m where "m \<le> n" "run_cycles (Suc n) (reset_processor s) = (cycle_step ^^ m) t"
    "m = n \<or> security_lockdown ((cycle_step ^^ m) t)" "\<forall>i<m. \<not> security_lockdown ((cycle_step ^^ i) t)"
  using run_cycles_steps[OF boot(1)[OF b], of n] unfolding run_after_reset[OF b] t_def by blast

lemma initial_unlocked: "\<not> locked (initial_isa s hdr key)"
  by (simp add: initial_isa_def)

lemma run_refines:
  fixes s :: "'a cpu_scheme" and n :: nat
  assumes b: "bootable s hdr ps sk"
  defines "key \<equiv> aes_decrypt_block (h_wrapped hdr) sk"
  defines "M \<equiv> image_machine s hdr key" and "st \<equiv> initial_isa s hdr key"
  defines "r \<equiv> run_cycles (Suc n) (reset_processor s)"
  shows "\<exists>k\<le>n. arch r = isa_run M k st \<and> \<not> locked (isa_run M (k - 2) st)"
    "\<exists>k\<le>n. arch r = isa_run M k st \<and> (isSecurityLocked r \<or> at_end M (isa_run M k st) \<or> n \<le> 4 * k + 3)"
    "keeps (cycle_step (reset_processor s)) r"
proof -
  let ?t = "cycle_step (reset_processor s)"
  obtain m where m: "m \<le> n" "r = (cycle_step ^^ m) ?t" "m = n \<or> security_lockdown r"
    "\<forall>i<m. \<not> security_lockdown ((cycle_step ^^ i) ?t)"
    unfolding r_def by (rule reset_run[OF b, of n]) auto
  note bt = boot[OF b, folded key_def]
  show "\<exists>k\<le>n. arch r = isa_run M k st \<and> \<not> locked (isa_run M (k - 2) st)"
    using lock_delay[OF bt(1) m(4)] m(1) initial_unlocked[of s hdr key]
    unfolding bt(2,3) m(2)[symmetric] M_def[symmetric] st_def[symmetric] by (meson order_trans)
  show "\<exists>k\<le>n. arch r = isa_run M k st \<and> (isSecurityLocked r \<or> at_end M (isa_run M k st) \<or> n \<le> 4 * k + 3)"
  proof -
    obtain k where k: "k \<le> m" "arch r = isa_run M k st" "at_end M (arch r) \<or> m + rank r \<le> rank ?t + k * (3 + 1)"
      using pipeline.run[of ?t M m] bt(1-3) unfolding m(2)[symmetric] isa_run_def M_def st_def by auto
    then have "isSecurityLocked r \<or> at_end M (isa_run M k st) \<or> n \<le> 4 * k + 3"
      using m(3) rank_bound[of ?t] by (auto simp: isSecurityLocked_def)
    then show ?thesis using k m(1) by (intro exI[of _ k]) simp
  qed
  show "keeps ?t r" unfolding m(2) by (rule run_keeps(2)[OF bt(1)])
qed

lemma isa_unlocked:
  assumes "at_end M (isa_run M m st)" "\<not> locked (isa_run M m st)"
  shows "\<not> locked (isa_run M k st)"
proof (cases "k \<le> m")
  case True
  then show ?thesis using lock_monotone assms(2) by blast
next
  case False
  then have "isa_run M k st = isa_run M m st"
    unfolding isa_run_def by (intro funpow_stable) (use assms(1) in \<open>simp_all add: at_end_stays isa_run_def\<close>)
  then show ?thesis using assms(2) by simp
qed

lemma run_completes:
  fixes s :: "'a cpu_scheme" and m n :: nat
  assumes b: "bootable s hdr ps sk"
  defines "key \<equiv> aes_decrypt_block (h_wrapped hdr) sk"
  defines "M \<equiv> image_machine s hdr key" and "st \<equiv> initial_isa s hdr key"
  assumes fin: "at_end M (isa_run M m st)" "\<not> locked (isa_run M m st)" and n: "4 * m + 7 \<le> n"
  defines "r \<equiv> run_cycles n (reset_processor s)"
  shows "core r = isa_run M m st" "keeps (cycle_step (reset_processor s)) r"
proof -
  let ?t = "cycle_step (reset_processor s)"
  note bt = boot[OF b, folded key_def M_def st_def]
  define j where "j = n - 3"
  have nj: "n = Suc (Suc (Suc j))" "j > m * (3 + 1) + 3" using n by (simp_all add: j_def)
  obtain i where i: "i \<le> Suc (Suc j)" "r = (cycle_step ^^ i) ?t" "i = Suc (Suc j) \<or> security_lockdown r"
    unfolding r_def nj(1) by (rule reset_run[OF b, of "Suc (Suc j)"]) auto
  have un: "\<not> security_lockdown ((cycle_step ^^ l) ?t)" for l
  proof (cases l)
    case 0
    then show ?thesis using bt(4) by simp
  next
    case (Suc l')
    have "pipe_ok ((cycle_step ^^ l') ?t)" by (rule run_keeps(1)[OF bt(1)])
    moreover obtain k where "arch ((cycle_step ^^ l') ?t) = isa_run M k st"
      using pipeline.run[of ?t M l'] bt(1-3) unfolding isa_run_def by auto
    ultimately show ?thesis using cycle_refines(7)[of "(cycle_step ^^ l') ?t"] isa_unlocked[OF fin] Suc by simp
  qed
  then have "r = cycle_step (cycle_step ((cycle_step ^^ j) ?t))" using i by auto
  moreover have "arch ((cycle_step ^^ j) ?t) = isa_run M m st"
    using pipeline.reaches_final[of ?t M m j] bt(1-3) fin(1) nj(2) unfolding isa_run_def by simp
  moreover have "pipe_ok ((cycle_step ^^ j) ?t)" "machine_of ((cycle_step ^^ j) ?t) = M"
    using pipeline.good_run[of ?t M j] bt(1,3) by simp_all
  ultimately show "core r = isa_run M m st" using drained[of "(cycle_step ^^ j) ?t"] fin(1) by simp
  show "keeps ?t r" unfolding i(2) by (rule run_keeps(2)[OF bt(1)])
qed

end
