(* ===== verification/Top_Level.thy ===== *)
theory Top_Level
  imports Program_Run
begin

text \<open>
  The top function of \<open>src/3d.cpp\<close> as a whole: copying the host image in and out, what an image
  that fails validation leads to, and the run of a terminating program between the two, from the
  host words to the status word.
\<close>

section \<open>Copying the image\<close>

lemma plain_mem_write:
  assumes "accessible s 0" "\<not> layer_is_encrypted s 0" "a < num_words s"
  obtains f where "mem_write s 0 a v = s\<lparr>layer_log := f, memory := (memory s)(0 := (memory s 0)(a := v))\<rparr>"
proof -
  have "mem_write s 0 a v = s\<lparr>memory := (memory s)(0 := (memory s 0)(a := v)),
      layer_log := (layer_log s)(0 := appendLog (layer_log s 0) (write_log_text 0 a))\<rparr>"
    using assms by (simp add: mem_write_def accessible_def isValidLayer_def add_log_def)
  also have "\<dots> = s\<lparr>layer_log := (layer_log s)(0 := appendLog (layer_log s 0) (write_log_text 0 a)),
      memory := (memory s)(0 := (memory s 0)(a := v))\<rparr>" by simp
  finally show ?thesis by (rule that)
qed

definition overlay :: "nat \<Rightarrow> nat \<Rightarrow> (nat \<Rightarrow> u32) \<Rightarrow> (nat \<Rightarrow> u32) \<Rightarrow> nat \<Rightarrow> u32" where
  "overlay a b h m x = (if a \<le> x \<and> x < b then h x else m x)"

lemma fill_loop:
  fixes s :: "'a cpu_scheme"
  assumes acc: "accessible s 0" "\<not> layer_is_encrypted s 0" and b: "b \<le> num_words s"
  shows "\<exists>f. for_up a b (\<lambda>i s. if i < SEC_HDR_WORDS then protectedWrite s 0 i (h i) else mem_write s 0 i (h i)) s =
    s\<lparr>layer_log := f, memory := (memory s)(0 := overlay a b h (memory s 0))\<rparr>"
  using b
proof (induction b)
  case 0
  have "overlay a 0 h (memory s 0) = memory s 0" by (simp add: fun_eq_iff overlay_def)
  then show ?case by (intro exI[of _ "layer_log s"]) simp
next
  case (Suc b)
  let ?body = "\<lambda>i s :: 'a cpu_scheme. if i < SEC_HDR_WORDS then protectedWrite s 0 i (h i) else mem_write s 0 i (h i)"
  show ?case
  proof (cases "a \<le> b")
    case False
    then have "overlay a (Suc b) h (memory s 0) = memory s 0" by (auto simp: fun_eq_iff overlay_def)
    then show ?thesis using False by (intro exI[of _ "layer_log s"]) simp
  next
    case True
    from Suc.IH[OF Suc_leD[OF Suc.prems]] obtain f where IH: "for_up a b ?body s =
        s\<lparr>layer_log := f, memory := (memory s)(0 := overlay a b h (memory s 0))\<rparr>" (is "_ = ?t")
      by blast
    have t: "accessible ?t 0" "\<not> layer_is_encrypted ?t 0" "b < num_words ?t"
      using acc Suc.prems by (simp_all add: accessible_def isValidLayer_def)
    obtain g where g: "?body b ?t = ?t\<lparr>layer_log := g, memory := (memory ?t)(0 := (memory ?t 0)(b := h b))\<rparr>"
    proof (cases "b < SEC_HDR_WORDS")
      case True
      obtain g where "protectedWrite ?t 0 b (h b) = ?t\<lparr>layer_log := g, memory := (memory ?t)(0 := (memory ?t 0)(b := h b))\<rparr>"
        by (rule plain_write[OF t])
      then show thesis using True by (intro that[of g]) (simp only: if_True)
    next
      case False
      obtain g where "mem_write ?t 0 b (h b) = ?t\<lparr>layer_log := g, memory := (memory ?t)(0 := (memory ?t 0)(b := h b))\<rparr>"
        by (rule plain_mem_write[OF t])
      then show thesis using False by (intro that[of g]) (simp only: if_False)
    qed
    have upd: "(overlay a b h (memory s 0))(b := h b) = overlay a (Suc b) h (memory s 0)"
      using True by (auto simp: fun_eq_iff overlay_def)
    have "for_up a (Suc b) ?body s = s\<lparr>layer_log := g, memory := (memory s)(0 := overlay a (Suc b) h (memory s 0))\<rparr>"
      by (subst for_up_Suc[OF True]) (simp only: IH g, simp add: upd)
    then show ?thesis by blast
  qed
qed

lemma load_image_shape:
  fixes s :: "'a cpu_scheme"
  assumes acc: "accessible s 0" "\<not> layer_is_encrypted s 0" and n: "num_words s = 1024" "io \<le> 1024"
  obtains f m where "load_image s host io = s\<lparr>layer_log := f, memory := (memory s)(0 := m)\<rparr>"
    "\<And>a. a < 1024 \<Longrightarrow> m a = (if a < io then host a else 0)"
proof -
  obtain f where f: "for_up 0 io (\<lambda>i s. if i < SEC_HDR_WORDS then protectedWrite s 0 i (host i) else mem_write s 0 i (host i)) s =
    s\<lparr>layer_log := f, memory := (memory s)(0 := overlay 0 io host (memory s 0))\<rparr>" (is "_ = ?t")
    using fill_loop[OF acc, of io 0 host] n by auto
  have t: "accessible ?t 0" "\<not> layer_is_encrypted ?t 0" "1024 \<le> num_words ?t"
    using acc n by (simp_all add: accessible_def isValidLayer_def)
  obtain g where g: "for_up io 1024 (\<lambda>i s. if i < SEC_HDR_WORDS then protectedWrite s 0 i 0 else mem_write s 0 i 0) ?t =
    ?t\<lparr>layer_log := g, memory := (memory ?t)(0 := overlay io 1024 (\<lambda>_. 0) (memory ?t 0))\<rparr>"
    using fill_loop[OF t, of io "\<lambda>_. 0"] by auto
  have "load_image s host io = s\<lparr>layer_log := g, memory := (memory s)(0 := overlay io 1024 (\<lambda>_. 0) (overlay 0 io host (memory s 0)))\<rparr>"
    unfolding load_image_def Let_def f g by simp
  moreover have "overlay io 1024 (\<lambda>_. 0) (overlay 0 io host m) a = (if a < io then host a else 0)" if "a < 1024" for a m
    using that by (simp add: overlay_def)
  ultimately show thesis by (rule that)
qed

lemma store_image_shape:
  fixes s :: "'a cpu_scheme"
  obtains t where "store_image s host io = (\<lambda>i. if i < io then mem_read s 0 i else host i, t)" "quiet s t"
proof -
  let ?step = "\<lambda>i (h, s :: 'a cpu_scheme). let (value, s) = (if i < SEC_HDR_WORDS then protectedRead s 0 i else (mem_read s 0 i, s))
          in (h(i := value), s)"
  have "\<exists>t. for_up 0 k ?step (host, s) = (\<lambda>i. if i < k then mem_read s 0 i else host i, t) \<and> quiet s t" for k
  proof (induction k)
    case 0
    then show ?case by simp
  next
    case (Suc k)
    then obtain t where t: "for_up 0 k ?step (host, s) = (\<lambda>i. if i < k then mem_read s 0 i else host i, t)" "quiet s t"
      by blast
    let ?h = "\<lambda>i. if i < k then mem_read s 0 i else host i"
    have r: "mem_read t = mem_read s" by (rule quiet_reads(1)[OF t(2)])
    have step: "for_up 0 (Suc k) ?step (host, s) = ?step k (?h, t)" by (subst for_up_Suc) (simp_all only: t(1) le0)
    have u: "?step k (?h, t) = (?h(k := mem_read s 0 k), if k < SEC_HDR_WORDS then rd 0 k t else t)"
      by (simp add: protectedRead_pair r)
    have "quiet s (if k < SEC_HDR_WORDS then rd 0 k t else t)" using t(2) quiet_trans[OF t(2) quiet_rd] by simp
    moreover have "?h(k := mem_read s 0 k) = (\<lambda>i. if i < Suc k then mem_read s 0 i else host i)"
      by (auto simp: fun_eq_iff less_Suc_eq)
    ultimately show ?case unfolding step u by auto
  qed
  then show thesis using that unfolding store_image_def by blast
qed

section \<open>The processor registers under the image functions\<close>

lemma more_sec: "smem.more t = smem.more s \<Longrightarrow> sec.more t = sec.more s" for s t :: "'a sec_scheme"
  by (cases s; cases t) simp

lemma quiet_more: "quiet s t \<Longrightarrow> sec.more t = sec.more s" for s t :: "'a sec_scheme"
  by (rule more_sec) (simp add: quiet_reads)

lemma cpu_fields:
  fixes s t :: "'a cpu_scheme"
  assumes "sec.more t = sec.more s"
  shows "reg_file t = reg_file s" "key_check_failed t = key_check_failed s" "key_valid t = key_valid s"
    "retired_instructions t = retired_instructions s" "copro_reg t = copro_reg s"
  using assms by (cases s; cases t; simp)+

lemma more_protectedWrite: "smem.more (protectedWrite s l a v) = smem.more s"
proof -
  have "smem.more (mem_write t l a v) = smem.more t" for t :: "'a smem_scheme"
    by (simp add: mem_write_def Let_def add_log_def)
  moreover obtain f where "note_access s ''WRITE'' l a = s\<lparr>layer_log := f\<rparr>" using note_access_log by blast
  ultimately show ?thesis by (simp add: protectedWrite_def)
qed

lemma more_write_words: "smem.more (write_words l kvs s) = smem.more s"
proof (induction kvs arbitrary: s)
  case (Cons p kvs)
  then show ?case using Cons[of "protectedWrite s l (fst p) (snd p)"]
    by (simp add: write_words_def case_prod_unfold more_protectedWrite)
qed (simp add: write_words_def)

lemma more_lock: "sec.more (lockSecurity s r) = sec.more s" for s :: "'a sec_scheme"
  by (rule more_sec) (simp add: lockSecurity_def Let_def add_log_def)

lemma more_reseal: "sec.more (snd (secure_reseal_current_image s x)) = sec.more s" for s :: "'a sec_scheme"
proof -
  obtain t where t: "quiet s t" "secure_decode_header s 0 = (decoded s 0, t)" by (rule decode_cases)
  have lock: "sec.more (snd (lock_sec u r c)) = sec.more s" if "quiet s u" for u r c
    by (simp add: lock_sec_def more_lock quiet_more[OF that])
  show ?thesis
  proof (cases "decoded s 0")
    case None
    then show ?thesis using t lock by (simp add: secure_reseal_current_image_def)
  next
    case (Some hdr)
    show ?thesis
    proof (cases "secure_generate_positions (h_nonce hdr) (h_text_start hdr) (h_text_end hdr) (words32 s)")
      case None
      then show ?thesis using Some t lock[OF t(1)] quiet_more[OF t(1)] by (simp add: secure_reseal_current_image_def)
    next
      case pos: (Some ps)
      then obtain u where u: "quiet t u" "secure_extract_hidden_wrapped t 0 ps = (hidden_wrapped t 0 ps, u)"
        using extract_cases[OF length_positions] by blast
      have su: "quiet s u" by (rule quiet_trans[OF t(1) u(1)])
      have "sec.more (secure_apply_runtime_region (write_words 0 kvs u) h) = sec.more s" for kvs h
        using more_sec[OF more_write_words[of 0 kvs u]] quiet_more[OF su] by (simp add: secure_apply_runtime_region_def)
      then show ?thesis using Some pos t u lock[OF su] quiet_more[OF t(1)]
        by (simp add: secure_reseal_current_image_def Let_def case_prod_unfold)
    qed
  qed
qed

section \<open>A rejected image\<close>

lemma extract_rejected:
  fixes s :: "'a sec_scheme"
  assumes "\<nexists>hdr ps sk. image_sealed s 0 hdr ps sk" "0 < num_layers s"
  obtains rc t r where "extract_key_from_large_block s 0 = (rc, Quad 0 0 0 0, lockSecurity t r)" "rc < 0" "quiet s t"
proof -
  obtain t r where v: "fst (secure_validate_image s 0) < 0" "quiet s t" "snd (secure_validate_image s 0) = lockSecurity t r"
    using validate_rejects[OF assms(1)] by blast
  then have "extract_key_from_large_block s 0 = (fst (secure_validate_image s 0), Quad 0 0 0 0, lockSecurity t r)"
    using assms(2) by (simp add: extract_key_from_large_block_def getNumLayers_def case_prod_unfold)
  then show thesis using that v by blast
qed

lemma rejected_run:
  fixes s :: "'a cpu_scheme" and n :: nat
  assumes acc: "accessible s 0" "\<not> security_lockdown s" and rej: "\<nexists>hdr ps sk. image_sealed s 0 hdr ps sk"
  defines "t \<equiv> run_cycles (Suc n) (reset_processor s)"
  shows "security_lockdown t" "key_check_failed t" "retired_instructions t = 0" "memory t = memory s"
    "reg_file t = (\<lambda>r. if r < 32 then 0 else reg_file s r)" "\<not> key_valid t" "mem_read t 0 = mem_read s 0"
proof -
  let ?r = "reset_processor s"
  note rf = reset_fields[OF acc(1)]
  let ?c = "?r\<lparr>perf_cycle_count := perf_cycle_count ?r + 1\<rparr>"
  have si: "same_image s ?c" by (rule same_image_cong) (simp_all add: rf)
  then have "\<nexists>hdr ps sk. image_sealed ?c 0 hdr ps sk" using rej same_image_functions(7)[OF si] by metis
  moreover have "0 < num_layers ?c" using acc(1) by (simp add: rf accessible_def isValidLayer_def)
  ultimately obtain rc u r where ex: "extract_key_from_large_block ?c 0 = (rc, Quad 0 0 0 0, lockSecurity u r)"
    "rc < 0" "quiet ?c u" by (rule extract_rejected)
  have "writeback_phase ?r = ?c" by (simp add: writeback_phase_def rf Let_def)
  then have "cycle_step ?r = fetch_phase (stage_decrypt ?c)"
    unfolding cycle_phases by (simp add: memory_phase_def execute_phase_def advance_decode_def rf)
  also have "\<dots> = stage_fetch ?c" by (simp add: stage_decrypt_def fetch_phase_def rf)
  also have "\<dots> = (lockSecurity u r)\<lparr>key_check_failed := True, runtime_app_key := Quad 0 0 0 0\<rparr>"
    using ex(2) by (simp add: stage_fetch_def rf ex(1))
  finally have step: "cycle_step ?r = (lockSecurity u r)\<lparr>key_check_failed := True, runtime_app_key := Quad 0 0 0 0\<rparr>" .
  have t: "t = (lockSecurity u r)\<lparr>key_check_failed := True, runtime_app_key := Quad 0 0 0 0\<rparr>"
    unfolding t_def using acc(2) rf by (cases n) (simp_all add: isSecurityLocked_def step)
  obtain f where u: "u = ?c\<lparr>layer_log := f\<rparr>" using ex(3) by (auto simp: quiet_def)
  obtain g where l: "lockSecurity u r = u\<lparr>tamper_detected := True, tamper_events := tamper_events u + 1,
     security_lockdown := True, layer_log := g\<rparr>" using lock_shape by blast
  have rt: "retired_instructions ?r = 0"
    by (simp add: reset_processor_def Let_def enableProcessingLayer_def add_log_def)
  show "security_lockdown t" "key_check_failed t" "retired_instructions t = 0" "memory t = memory s" "\<not> key_valid t"
    "reg_file t = (\<lambda>r. if r < 32 then 0 else reg_file s r)"
    by (simp_all add: t u l[unfolded u] rf rt)
  have "same_image s t" by (rule same_image_cong) (simp_all add: t u l[unfolded u] rf)
  then show "mem_read t 0 = mem_read s 0" by (simp add: same_image_def)
qed

section \<open>The top function\<close>

lemma quad_bits: "push_bit 16 (x AND 0xFFFF :: u32) AND 3 = 0"
  by (rule bit_eqI) (auto simp: bit_simps less_Suc_eq numeral_eq_Suc)

lemma status_low: "status_of s AND 3 = (if isSecurityLocked s then 1 else 0) OR (if key_check_failed s then 2 else 0)"
proof -
  have "(a OR b) AND (3::u32) = (a AND 3) OR (b AND 3)" for a b by (simp add: bit.conj_disj_distrib2)
  moreover define y :: u32 where "y = push_bit 16 (retired_instructions s AND 0xFFFF)"
  moreover have "y AND 3 = 0" unfolding y_def by (rule quad_bits)
  ultimately show ?thesis unfolding status_of_def Let_def y_def[symmetric] by simp
qed

text \<open>Two layers whose plain words agree outside a set.\<close>

lemma plain_wrote:
  fixes s t :: "'a smem_scheme"
  assumes "smem_wf s" "smem_wf t" "accessible s 0" "accessible t 0" "\<not> layer_is_encrypted s 0" "\<not> layer_is_encrypted t 0"
    "num_words t = num_words s" "num_layers t = num_layers s" "hardware_root t = hardware_root s"
    "security_lockdown t = security_lockdown s" "\<And>a. a \<notin> W \<Longrightarrow> memory t 0 a = memory s 0 a"
  shows "wrote 0 W s t"
proof -
  have "mem_read t 0 b = mem_read s 0 b" if "b \<notin> W" for b
    using assms that by (simp add: mem_read_def accessible_def)
  then show ?thesis using assms by (auto simp: wrote_def)
qed

lemma plain_read: "accessible s 0 \<Longrightarrow> \<not> layer_is_encrypted s 0 \<Longrightarrow> a < num_words s \<Longrightarrow> mem_read s 0 a = memory s 0 a"
  by (simp add: mem_read_def accessible_def)

definition unlocked :: "'a smem_scheme \<Rightarrow> 'a smem_scheme" where
  "unlocked s = (if isSecurityLocked s then clearSecurityLockdown s else s)"

lemma unlocked_fields [simp]:
  "memory (unlocked s) = memory s" "num_words (unlocked s) = num_words s" "accessible (unlocked s) l = accessible s l"
  "layer_is_encrypted (unlocked s) = layer_is_encrypted s" "smem_wf s \<Longrightarrow> smem_wf (unlocked s)"
  "\<not> security_lockdown (unlocked s)"
proof -
  show "smem_wf s \<Longrightarrow> smem_wf (unlocked s)"
    by (simp add: unlocked_def clearSecurityLockdown_def wf_add_log)
qed (simp_all add: unlocked_def isSecurityLocked_def clearSecurityLockdown_def add_log_def accessible_def isValidLayer_def)

lemma cpu_unlocked:
  fixes s :: "'a cpu_scheme"
  shows "reg_file (unlocked s) = reg_file s"
  by (simp add: unlocked_def clearSecurityLockdown_def add_log_def)

text \<open>The phases of the top function for a host image.\<close>

lemma top_phases:
  fixes s :: "'a cpu_scheme" and host :: "nat \<Rightarrow> u32" and wc :: u32
  defines "u \<equiv> reseal_output (run_cycles 2000 (reset_processor (load_image (unlocked s) host (io_word_count wc))))"
  shows "\<exists>t. quiet u t \<and> Crypto3DStackCPU_top s (Some host) wc =
    (Some (\<lambda>i. if i < io_word_count wc then mem_read u 0 i else host i), status_of u,
     t\<lparr>runtime_app_key := Quad 0 0 0 0, copro_reg := Quad 0 0 0 0, key_valid := False\<rparr>)"
proof -
  obtain t where t: "store_image u host (io_word_count wc) =
      (\<lambda>i. if i < io_word_count wc then mem_read u 0 i else host i, t)" "quiet u t" by (rule store_image_shape)
  have "status_of t = status_of u"
    using cpu_fields[OF quiet_more[OF t(2)]] quiet_reads(11)[OF t(2)] by (simp add: status_of_def isSecurityLocked_def)
  then have "Crypto3DStackCPU_top s (Some host) wc =
    (Some (\<lambda>i. if i < io_word_count wc then mem_read u 0 i else host i), status_of u,
     t\<lparr>runtime_app_key := Quad 0 0 0 0, copro_reg := Quad 0 0 0 0, key_valid := False\<rparr>)"
    unfolding Crypto3DStackCPU_top_def Let_def unlocked_def[symmetric] option.case u_def[symmetric] t(1) by simp
  then show ?thesis using t(2) by blast
qed

lemma io_bound: "io_word_count wc \<le> 1024"
proof -
  have "unat wc \<le> 1024" if "\<not> wc > 1024" using that by (simp add: not_less word_le_nat_alt)
  then show ?thesis by (simp add: io_word_count_def)
qed

lemma loaded:
  fixes s :: "'a cpu_scheme" and host :: "nat \<Rightarrow> u32" and wc :: u32
  assumes "smem_wf s" "accessible s 0" "\<not> layer_is_encrypted s 0" "num_words s = 1024"
  defines "s1 \<equiv> load_image (unlocked s) host (io_word_count wc)"
  shows "smem_wf s1" "accessible s1 0" "\<not> layer_is_encrypted s1 0" "num_words s1 = 1024" "\<not> security_lockdown s1"
    "reg_file s1 = reg_file s" "a < 1024 \<Longrightarrow> memory s1 0 a = (if a < io_word_count wc then host a else 0)"
proof -
  have u: "accessible (unlocked s) 0" "\<not> layer_is_encrypted (unlocked s) 0" "num_words (unlocked s) = 1024"
    using assms by simp_all
  obtain f m where m: "s1 = (unlocked s)\<lparr>layer_log := f, memory := (memory (unlocked s))(0 := m)\<rparr>"
    "\<And>a. a < 1024 \<Longrightarrow> m a = (if a < io_word_count wc then host a else 0)"
    unfolding s1_def by (rule load_image_shape[OF u io_bound, where host = host]) blast
  show "accessible s1 0" "\<not> layer_is_encrypted s1 0" "num_words s1 = 1024" "\<not> security_lockdown s1"
    using u by (simp_all add: m(1) accessible_def isValidLayer_def)
  show "reg_file s1 = reg_file s" by (simp add: m(1) cpu_unlocked)
  show "a < 1024 \<Longrightarrow> memory s1 0 a = (if a < io_word_count wc then host a else 0)" by (simp add: m)
  show "smem_wf s1"
    unfolding s1_def load_image_def Let_def
    by (intro wf_for_up) (use assms(1) in \<open>simp_all add: wf_protectedWrite wf_mem_write\<close>)
qed

lemma top_rejects:
  fixes s :: "'a cpu_scheme"
  assumes m: "smem_wf s" "accessible s 0" "\<not> layer_is_encrypted s 0" "num_words s = 1024"
    and rej: "fst (secure_validate_image (load_image (unlocked s) host (io_word_count wc)) 0) \<noteq> 0"
  shows "let (out, status, t) = Crypto3DStackCPU_top s (Some host) wc
    in out = Some host \<and> status = 3 \<and> isSecurityLocked t \<and> retired_instructions t = 0 \<and> (\<forall>r<32. reg_file t r = 0)"
proof -
  let ?s1 = "load_image (unlocked s) host (io_word_count wc)"
  note l = loaded[OF m, where host = host and wc = wc]
  have n: "0 < num_layers ?s1" using l(2) by (simp add: accessible_def isValidLayer_def)
  have rj: "\<nexists>hdr ps sk. image_sealed ?s1 0 hdr ps sk" using rej validate_iff[OF n] by blast
  define u where "u = run_cycles 2000 (reset_processor ?s1)"
  have suc: "(2000::nat) = Suc 1999" by simp
  note r = rejected_run[OF l(2,5) rj, of 1999, folded suc, folded u_def]
  have same: "reseal_output u = u" using r(6) by (simp add: reseal_output_def)
  obtain t where t: "quiet u t" "Crypto3DStackCPU_top s (Some host) wc =
    (Some (\<lambda>i. if i < io_word_count wc then mem_read u 0 i else host i), status_of u,
     t\<lparr>runtime_app_key := Quad 0 0 0 0, copro_reg := Quad 0 0 0 0, key_valid := False\<rparr>)"
    using top_phases[of s host wc, folded u_def, unfolded same] by blast
  have "(\<lambda>i. if i < io_word_count wc then mem_read u 0 i else host i) = host"
  proof (rule ext)
    fix i
    have "mem_read u 0 i = host i" if "i < io_word_count wc"
      using that io_bound[of wc] l plain_read[OF l(2,3)] r(7) by simp
    then show "(if i < io_word_count wc then mem_read u 0 i else host i) = host i" by simp
  qed
  moreover have "status_of u = 3" using r by (simp add: status_of_def isSecurityLocked_def)
  ultimately show ?thesis
    using cpu_fields[OF quiet_more[OF t(1)]] quiet_reads(11)[OF t(1)] r by (simp add: t(2) isSecurityLocked_def)
qed

text \<open>Between the loaded image and the end of a terminating program: only data words change.\<close>

lemma program_frame:
  fixes s :: "'a cpu_scheme" and m n :: nat
  assumes b: "bootable s hdr ps sk"
  defines "key \<equiv> aes_decrypt_block (h_wrapped hdr) sk"
  defines "M \<equiv> image_machine s hdr key" and "st \<equiv> initial_isa s hdr key"
  assumes fin: "at_end M (isa_run M m st)" "\<not> locked (isa_run M m st)" and n: "4 * m + 7 \<le> n"
  defines "r \<equiv> run_cycles n (reset_processor s)"
  shows "env r" "runtime_app_key r = key" "\<not> security_lockdown r" "reg_file r = regs (isa_run M m st)"
    "copro_reg r = copro (isa_run M m st)" "image_words r key = words (isa_run M m st)"
    "wrote 0 {unat (h_data_start hdr)..<unat (h_data_end hdr)} s r"
    "\<And>a. a < unat (h_data_start hdr) \<or> unat (h_data_end hdr) \<le> a \<Longrightarrow> memory r 0 a = memory s 0 a"
proof -
  let ?t = "cycle_step (reset_processor s)"
  note bt = boot[OF b, folded key_def]
  note c = run_completes[OF b, folded key_def, folded M_def st_def, OF fin n, folded r_def]
  have et: "env ?t" using bt(1) by (simp add: pipe_ok_def)
  show e: "env r" by (rule keeps_env[OF et c(2)])
  show k: "runtime_app_key r = key" using c(2) bt(6) by (simp add: keeps_def)
  show nl: "\<not> security_lockdown r" "reg_file r = regs (isa_run M m st)" "copro_reg r = copro (isa_run M m st)"
    using fin(2) unfolding c(1)[symmetric] by (simp_all add: core_def)
  have "data_words r = image_words r key"
  proof (rule ext)
    show "data_words r a = image_words r key a" for a
      using data_words_block[of r a] e by (simp add: env_def crypt_block_def image_words_def k)
  qed
  then show "image_words r key = words (isa_run M m st)" unfolding c(1)[symmetric] by (simp add: core_def)
  show mem: "memory r 0 a = memory s 0 a" if "a < unat (h_data_start hdr) \<or> unat (h_data_end hdr) \<le> a" for a
  proof -
    have "memory r 0 a = memory ?t 0 a" using c(2) that unfolding keeps_def bt(8,9) by blast
    then show ?thesis using bt(7)[OF that] by simp
  qed
  note bs = b[unfolded bootable_def] and er = e[unfolded env_def]
  show "wrote 0 {unat (h_data_start hdr)..<unat (h_data_end hdr)} s r"
  proof (rule plain_wrote)
    show "smem_wf s" "accessible s 0" "\<not> layer_is_encrypted s 0" using bs by blast+
    show "smem_wf r" "accessible r 0" "\<not> layer_is_encrypted r 0" using er by blast+
    show "num_words r = num_words s" "num_layers r = num_layers s" "hardware_root r = hardware_root s"
      using c(2) bt(5,10,11) by (simp_all add: keeps_def)
    show "security_lockdown r = security_lockdown s" using nl bs by blast
    show "memory r 0 a = memory s 0 a" if "a \<notin> {unat (h_data_start hdr)..<unat (h_data_end hdr)}" for a
    proof -
      have "a < unat (h_data_start hdr) \<or> unat (h_data_end hdr) \<le> a" using that by auto
      then show ?thesis by (rule mem)
    qed
  qed
qed

text \<open>The final resealing: a valid image again, or the lockdown with the memory left as it was.\<close>

lemma reseal_output_cases:
  fixes r :: "'a cpu_scheme"
  assumes dec: "decoded r 0 = Some hdr" and pol: "h_policy hdr AND 4 \<noteq> 0" and mem: "smem_wf r" "accessible r 0"
    and run: "key_valid r" "\<not> key_check_failed r" "\<not> security_lockdown r"
  obtains (sealed) hf ps where "wrote 0 {20..<24} r (reseal_output r)" "sec.more (reseal_output r) = sec.more r"
      "image_sealed (reseal_output r) 0 hf ps (fst (secure_derive_session_key r 0 hdr))" "h_wrapped hf = h_wrapped hdr"
  | (locked) "security_lockdown (reseal_output r)" "key_check_failed (reseal_output r)"
      "memory (reseal_output r) = memory r" "same_image r (reseal_output r)" "reg_file (reseal_output r) = reg_file r"
      "accessible (reseal_output r) 0 = accessible r 0" "layer_is_encrypted (reseal_output r) = layer_is_encrypted r"
      "num_layers (reseal_output r) = num_layers r"
proof (cases "\<exists>ps sk. key_sealed r 0 hdr ps sk")
  case True
  then obtain ps sk where k: "key_sealed r 0 hdr ps sk" by blast
  obtain v hf where v: "secure_reseal_current_image r 0 = (0, v)" "image_sealed v 0 hf ps sk" "h_wrapped hf = h_wrapped hdr"
    "wrote 0 {20..<24} r v" using reseal_accepts[OF k mem pol, of 0] by blast
  have sk: "fst (secure_derive_session_key r 0 hdr) = sk" using k by (simp add: key_sealed_def)
  have "reseal_output r = v" using run v(1) by (simp add: reseal_output_def isSecurityLocked_def)
  then show thesis using v sealed[of hf ps] more_reseal[of r 0] unfolding sk by simp
next
  case False
  then obtain w x where w: "fst (secure_reseal_current_image r 0) < 0" "quiet r w"
    "snd (secure_reseal_current_image r 0) = lockSecurity w x"
    using reseal_rejects_state[OF dec pol, of 0] by blast
  have out: "reseal_output r = (lockSecurity w x)\<lparr>key_check_failed := True\<rparr>"
    using run w by (simp add: reseal_output_def isSecurityLocked_def case_prod_unfold)
  obtain f where f: "w = r\<lparr>layer_log := f\<rparr>" using w(2) by (auto simp: quiet_def)
  obtain g where "lockSecurity w x = w\<lparr>tamper_detected := True, tamper_events := tamper_events w + 1,
     security_lockdown := True, layer_log := g\<rparr>" using lock_shape by blast
  note o = out[unfolded this, unfolded f]
  have "same_image r (reseal_output r)" by (rule same_image_cong) (simp_all add: o)
  then show thesis using locked by (simp add: o accessible_def isValidLayer_def)
qed

text \<open>
  The frame of the final resealing: every word outside the image tag keeps its stored value, and the
  data words their meaning.
\<close>

lemma reseal_output_frame:
  fixes r :: "'a cpu_scheme"
  assumes dec: "decoded r 0 = Some hdr" and pol: "h_policy hdr AND 4 \<noteq> 0" and mem: "smem_wf r" "accessible r 0"
    and run: "key_valid r" "\<not> key_check_failed r" "\<not> security_lockdown r"
  defines "u \<equiv> reseal_output r"
  shows "reg_file u = reg_file r" "accessible u 0" "layer_is_encrypted u 0 = layer_is_encrypted r 0" "num_words u = num_words r"
    "a div 4 \<noteq> 5 \<Longrightarrow> memory u 0 a = memory r 0 a"
    "unat b div 4 \<noteq> 5 \<Longrightarrow> image_words u key b = image_words r key b"
    "if security_lockdown u \<or> key_check_failed u then security_lockdown u \<and> key_check_failed u
     else fst (secure_validate_image u 0) = 0
       \<and> fst (snd (extract_key_from_large_block u 0))
         = aes_decrypt_block (h_wrapped hdr) (fst (secure_derive_session_key r 0 hdr))"
proof -
  note cs = reseal_output_cases[OF dec pol mem run]
  show "reg_file u = reg_file r" unfolding u_def by (rule cs) (erule cpu_fields(1), assumption)
  show "num_words u = num_words r" unfolding u_def by (rule cs) (simp_all add: wrote_def same_image_def)
  show acc: "accessible u 0" unfolding u_def by (rule cs) (use mem in \<open>simp_all add: wrote_def\<close>)
  show "layer_is_encrypted u 0 = layer_is_encrypted r 0" unfolding u_def by (rule cs) (simp_all add: wrote_def)
  have blk: "(\<forall>w\<in>{20..<24}. w div 4 \<noteq> a div 4) \<longleftrightarrow> a div 4 \<noteq> (5::nat)" for a
  proof -
    have "{20..<24} = {20, 21, 22, 23 :: nat}" by auto
    then show ?thesis by auto
  qed
  show "memory u 0 a = memory r 0 a" if "a div 4 \<noteq> 5" for a
    unfolding u_def by (rule cs) (use that blk[of a] in \<open>simp_all add: wrote_def\<close>)
  show "image_words u key b = image_words r key b" if "unat b div 4 \<noteq> 5" for b
  proof -
    have raw: "rawRead u 0 (unat b div 4 * 4 + i) = rawRead r 0 (unat b div 4 * 4 + i)" if "i < 4" for i
    proof -
      have "(unat b div 4 * 4 + i) div 4 = unat b div 4" using that by simp
      then have ne: "\<forall>w\<in>{20..<24}. w div 4 \<noteq> (unat b div 4 * 4 + i) div 4"
        using \<open>unat b div 4 \<noteq> 5\<close> by (simp only: blk not_False_eq_True)
      show ?thesis unfolding u_def
      proof (rule cs)
        assume "wrote 0 {20..<24} r (reseal_output r)"
        from rawRead_wrote[OF this ne] show "rawRead (reseal_output r) 0 (unat b div 4 * 4 + i) = rawRead r 0 (unat b div 4 * 4 + i)" .
      qed (simp add: same_image_def)
    qed
    have "quad_gen (\<lambda>i. rawRead u 0 (unat b div 4 * 4 + i)) = quad_gen (\<lambda>i. rawRead r 0 (unat b div 4 * 4 + i))"
      unfolding quad_gen_def using raw[of 0] raw[of 1] raw[of 2] raw[of 3] by (simp only: zero_less_numeral one_less_numeral_iff numeral_less_iff semiring_norm refl simp_thms)
    moreover have "words32 u = words32 r"
      by (rule words32_cong, unfold u_def) (rule cs, simp_all add: wrote_def same_image_def)
    ultimately show ?thesis by (simp add: image_words_def)
  qed
  have n: "0 < num_layers u" using acc by (simp add: accessible_def isValidLayer_def)
  show "if security_lockdown u \<or> key_check_failed u then security_lockdown u \<and> key_check_failed u
     else fst (secure_validate_image u 0) = 0
       \<and> fst (snd (extract_key_from_large_block u 0))
         = aes_decrypt_block (h_wrapped hdr) (fst (secure_derive_session_key r 0 hdr))"
  proof (rule cs[folded u_def])
    fix hf ps
    assume w: "wrote 0 {20..<24} r u" and m: "sec.more u = sec.more r"
      and i: "image_sealed u 0 hf ps (fst (secure_derive_session_key r 0 hdr))" and h: "h_wrapped hf = h_wrapped hdr"
    have "\<not> security_lockdown u" "\<not> key_check_failed u"
      using w run cpu_fields[OF m] by (simp_all add: wrote_def)
    moreover have "fst (secure_validate_image u 0) = 0"
      using i validate_iff[OF n] by blast
    ultimately show ?thesis using extract_sealed[OF i n] h by auto
  qed simp
qed

text \<open>A key that is still sealed lets the resealing succeed.\<close>

lemma reseal_output_unlocked:
  fixes r :: "'a cpu_scheme"
  assumes key: "key_sealed r 0 hdr ps sk" and pol: "h_policy hdr AND 4 \<noteq> 0" and mem: "smem_wf r" "accessible r 0"
    and run: "key_valid r" "\<not> key_check_failed r" "\<not> security_lockdown r"
  shows "\<not> security_lockdown (reseal_output r)" "\<not> key_check_failed (reseal_output r)"
proof -
  obtain v where v: "secure_reseal_current_image r 0 = (0, v)" "wrote 0 {20..<24} r v"
    using reseal_accepts[OF key mem pol, of 0] by blast
  then have "reseal_output r = v" using run by (simp add: reseal_output_def isSecurityLocked_def)
  moreover have "sec.more v = sec.more r" using more_reseal[of r 0] v(1) by simp
  ultimately show "\<not> security_lockdown (reseal_output r)" "\<not> key_check_failed (reseal_output r)"
    using v(2) run cpu_fields(2) by (auto simp: wrote_def)
qed

lemma top_runs:
  fixes s :: "'a cpu_scheme" and m :: nat and host :: "nat \<Rightarrow> u32" and wc :: u32
  assumes mem: "smem_wf s" "accessible s 0" "\<not> layer_is_encrypted s 0" "num_words s = 1024"
  defines "s1 \<equiv> load_image (unlocked s) host (io_word_count wc)"
  assumes b: "bootable s1 hdr ps sk" and pol: "h_policy hdr AND 4 \<noteq> 0"
  defines "key \<equiv> aes_decrypt_block (h_wrapped hdr) sk"
  defines "M \<equiv> image_machine s1 hdr key"
  defines "f \<equiv> isa_run M m (initial_isa s1 hdr key)"
  assumes fin: "at_end M f" "\<not> locked f" "m \<le> 498"
  obtains out status t where "Crypto3DStackCPU_top s (Some host) wc = (Some out, status, t)"
    "\<forall>i<io_word_count wc. out i = memory t 0 i" "reg_file t = regs f"
    "\<forall>a. in_data M a \<longrightarrow> image_words t key a = words f a"
    "\<forall>a<1024. a < 20 \<or> 24 \<le> a \<and> a < unat (h_data_start hdr) \<or> unat (h_data_end hdr) \<le> a
         \<longrightarrow> memory t 0 a = (if a < io_word_count wc then host a else 0)"
    "if status AND 3 = 0 then fst (secure_validate_image t 0) = 0 \<and> fst (snd (extract_key_from_large_block t 0)) = key
     else status AND 3 = 3 \<and> isSecurityLocked t"
    "(\<forall>p\<in>set ps. unat p div 32 < unat (h_data_start hdr) \<or> unat (h_data_end hdr) \<le> unat p div 32) \<longrightarrow> status AND 3 = 0"
proof -
  note l = loaded[OF mem, where host = host and wc = wc, folded s1_def]
  define r where "r = run_cycles 2000 (reset_processor s1)"
  have "4 * m + 7 \<le> 2000" using fin(3) by simp
  note p = program_frame[OF b, folded key_def, folded M_def, OF fin(1,2)[unfolded f_def] this, folded f_def r_def]
  have bs: "key_sealed s1 0 hdr ps sk" "smem_wf s1" "accessible s1 0" using b by (simp_all add: bootable_def image_sealed_def)
  have dec1: "decoded s1 0 = Some hdr" using bs by (simp add: key_sealed_def)
  note rng = decoded_ranges[OF dec1]
  have er: "smem_wf r" "accessible r 0" "\<not> layer_is_encrypted r 0" "key_valid r" "\<not> key_check_failed r"
    using p(1) by (simp_all add: env_def)
  have nr: "num_words r = 1024" using p(7) l(4) by (simp add: wrote_def)
  have dec: "decoded r 0 = Some hdr"
    unfolding dec1[symmetric] by (rule decoded_wrote[OF p(7) bs(2,3)]) (use rng(5-7) in auto)
  have skd: "secure_derive_session_key r 0 hdr = secure_derive_session_key s1 0 hdr"
    by (rule session_key_wrote[OF p(7) rng(3)]) (use rng(7) in auto)
  then have skr: "aes_decrypt_block (h_wrapped hdr) (fst (secure_derive_session_key r 0 hdr)) = key"
    using bs(1) by (simp add: key_sealed_def key_def)
  define u where "u = reseal_output r"
  note o = reseal_output_frame[OF dec pol er(1,2,4,5) p(3), folded u_def, unfolded skr]
  obtain t0 where t0: "quiet u t0" "Crypto3DStackCPU_top s (Some host) wc =
    (Some (\<lambda>i. if i < io_word_count wc then mem_read u 0 i else host i), status_of u,
     t0\<lparr>runtime_app_key := Quad 0 0 0 0, copro_reg := Quad 0 0 0 0, key_valid := False\<rparr>)"
    using top_phases[of s host wc, folded s1_def, folded r_def, folded u_def] by blast
  define t where "t = t0\<lparr>runtime_app_key := Quad 0 0 0 0, copro_reg := Quad 0 0 0 0, key_valid := False\<rparr>"
  have mt: "memory t = memory u" and ut: "same_image u t" and lt: "security_lockdown t = security_lockdown u"
    and rt: "reg_file t = reg_file u" and kt: "num_layers t = num_layers u"
    using t0(1) cpu_fields(1)[OF quiet_more[OF t0(1)]]
    by (auto simp: t_def quiet_def intro!: same_image_cong)
  have plain: "mem_read u 0 i = memory t 0 i" if "i < io_word_count wc" for i
    using that io_bound[of wc] plain_read[OF o(2)] o(3,4) er(3) nr mt by simp
  have ml: "memory t 0 a = (if a < io_word_count wc then host a else 0)"
    if "a < 1024" "a < 20 \<or> 24 \<le> a \<and> a < unat (h_data_start hdr) \<or> unat (h_data_end hdr) \<le> a" for a
  proof -
    have "24 \<le> unat (h_data_start hdr)" "unat (h_data_start hdr) \<le> unat (h_data_end hdr)"
      using rng(1,5-7) unfolding header_ranges_iff regions_ok_def by (simp_all add: word_le_nat_alt)
    then have "a div 4 \<noteq> 5" "a < unat (h_data_start hdr) \<or> unat (h_data_end hdr) \<le> a" using that(2) by auto
    then show ?thesis using o(5) p(8) l(7) that(1) mt by simp
  qed
  have iw: "image_words t key a = words f a" if "in_data M a" for a
  proof -
    have "unat (h_data_start hdr) \<le> unat a"
      using that by (simp add: in_data_def M_def image_machine_def Let_def word_le_nat_alt)
    then have "unat a div 4 \<noteq> 5" using rng(5-7) by auto
    moreover have "rawRead t = rawRead u" "words32 t = words32 u"
      using ut by (auto simp: same_image_def intro: words32_cong)
    then have img: "image_words t key a = image_words u key a" by (simp add: image_words_def)
    ultimately show ?thesis using o(6)[of a key] fun_cong[OF p(6), of a] img by simp
  qed
  note e = same_image_functions[OF ut]
  have st: "if status_of u AND 3 = 0 then fst (secure_validate_image t 0) = 0 \<and> fst (snd (extract_key_from_large_block t 0)) = key
     else status_of u AND 3 = 3 \<and> isSecurityLocked t"
  proof (cases "security_lockdown u \<or> key_check_failed u")
    case True
    then show ?thesis using o(7) lt by (simp add: status_low isSecurityLocked_def)
  next
    case False
    then have v: "fst (secure_validate_image u 0) = 0" "fst (snd (extract_key_from_large_block u 0)) = key"
      using o(7) by simp_all
    have n: "0 < num_layers u" using o(2) by (simp add: accessible_def isValidLayer_def)
    then obtain h ps' sk' where i: "image_sealed u 0 h ps' sk'" using v(1) validate_iff by blast
    then have i': "image_sealed t 0 h ps' sk'" using e(7) by metis
    have "fst (secure_validate_image t 0) = 0" using i' validate_iff[of 0 t] n kt by auto
    moreover have "fst (snd (extract_key_from_large_block t 0)) = key"
      using extract_sealed[OF i n] extract_sealed[OF i'] n kt v(2) by auto
    ultimately show ?thesis using False by (simp add: status_low isSecurityLocked_def)
  qed
  have free: "status_of u AND 3 = 0"
    if out: "\<forall>p\<in>set ps. unat p div 32 < unat (h_data_start hdr) \<or> unat (h_data_end hdr) \<le> unat p div 32"
  proof -
    have "hidden_wrapped r 0 ps = hidden_wrapped s1 0 ps"
      by (rule hidden_wrapped_wrote[OF p(7) bs(2,3)]) (use out in auto)
    moreover have "words32 r = words32 s1" by (rule words32_cong) (use nr l(4) in simp)
    ultimately have "key_sealed r 0 hdr ps sk" using bs(1) dec skd by (simp add: key_sealed_def)
    from reseal_output_unlocked[OF this pol er(1,2,4,5) p(3)] show ?thesis
      by (simp add: u_def status_low isSecurityLocked_def)
  qed
  show thesis
    by (rule that[OF t0(2)[folded t_def] _ _ _ _ st]) (use plain ml iw rt o(1) p(4) free in auto)
qed

end
