(* ===== verification/Layer_Frame.thy ===== *)
theory Layer_Frame
  imports Top_Level
begin

text \<open>
  What no program, no image and no sequence of cycles can change: the geometry and the keys of the
  memory, its other layers, and the lockdown once it is set.
\<close>

definition frame :: "nat \<Rightarrow> 'a smem_scheme \<Rightarrow> 'a smem_scheme \<Rightarrow> bool" where
  "frame l s t \<longleftrightarrow> (smem_wf s \<longrightarrow> smem_wf t) \<and> num_words t = num_words s \<and> num_layers t = num_layers s
     \<and> layer_access t = layer_access s \<and> layer_is_encrypted t = layer_is_encrypted s \<and> layer_keys t = layer_keys s
     \<and> hardware_root t = hardware_root s \<and> (\<forall>k. k \<noteq> l \<longrightarrow> memory t k = memory s k)
     \<and> (security_lockdown s \<longrightarrow> security_lockdown t)"

lemma frame_refl [simp]: "frame l s s"
  by (simp add: frame_def)

lemma frame_trans [trans]: "frame l s t \<Longrightarrow> frame l t u \<Longrightarrow> frame l s u"
  by (simp add: frame_def)

lemma frame_for_up: "(\<And>i s. frame l s (f i s)) \<Longrightarrow> frame l s (for_up a b f s)"
  by (rule for_up_invariant[where P = "frame l s"]) (auto intro: frame_trans)

section \<open>The memory\<close>

named_theorems frames

lemma frame_note [frames]: "frame l s (note_access s ty k a)"
proof -
  obtain f where f: "note_access s ty k a = s\<lparr>layer_log := f\<rparr>" using note_access_log by blast
  have "smem_wf s \<longrightarrow> smem_wf (note_access s ty k a)" by (simp add: wf_note_access)
  then show ?thesis by (simp add: frame_def f)
qed

lemma frame_quiet: "quiet s t \<Longrightarrow> frame l s t"
  by (auto simp: quiet_def frame_def)

lemma frame_mem_write [frames]: "frame l s (mem_write s l a v)"
proof -
  have "smem_wf s \<longrightarrow> smem_wf (mem_write s l a v)" by (simp add: wf_mem_write)
  then show ?thesis by (simp add: frame_def) (simp add: mem_write_def Let_def add_log_def)
qed

lemma frame_protectedWrite [frames]: "frame l s (protectedWrite s l a v)"
  by (auto simp: protectedWrite_def intro: frame_trans frames)

lemma frame_protectedRead [frames]: "frame l s (snd (protectedRead s k a))"
  by (simp add: protectedRead_pair frame_quiet[OF quiet_rd])

lemma frame_lock [frames]: "frame l s (lockSecurity s r)"
proof -
  have "smem_wf s \<longrightarrow> smem_wf (lockSecurity s r)" unfolding lockSecurity_def Let_def by (simp add: wf_add_log)
  then show ?thesis by (simp add: frame_def) (simp add: lockSecurity_def Let_def add_log_def)
qed

lemma frame_write_words [frames]: "frame l s (write_words l kvs s)"
  unfolding write_words_def
  by (induction kvs arbitrary: s) (auto intro: frame_trans frame_protectedWrite)

section \<open>The image functions\<close>

lemma frame_region [simp]: "frame l s (secure_apply_runtime_region t h) = frame l s t"
  by (simp add: frame_def smem_wf_def secure_apply_runtime_region_def)

lemma frame_decode: "frame l s (snd (secure_decode_header s k))"
  using decode_header_pair(2)[of s k] by (intro frame_quiet) simp

lemma frame_extract_hidden: "length ps = 128 \<Longrightarrow> frame l s (snd (secure_extract_hidden_wrapped s k ps))"
  using extract_hidden_pair(2)[of ps s k] by (intro frame_quiet) simp

lemma frame_quiet_lock: "quiet s t \<Longrightarrow> frame l s (lockSecurity t r)"
  by (rule frame_trans[OF frame_quiet frame_lock])

lemma frame_validate: "frame l s (snd (secure_validate_image s k))"
proof (cases "k < num_layers s \<and> (\<exists>hdr ps sk. image_sealed s k hdr ps sk)")
  case True
  then obtain t hdr where "quiet s t" "snd (secure_validate_image s k) = secure_apply_runtime_region t hdr"
    using validate_accepts by fastforce
  then show ?thesis by (simp add: frame_quiet)
next
  case False
  consider "k \<ge> num_layers s" | "\<nexists>hdr ps sk. image_sealed s k hdr ps sk" using False by fastforce
  then show ?thesis
  proof cases
    case 1
    then show ?thesis by (simp add: secure_validate_image_def getNumLayers_def lock_sec_def frame_lock)
  next
    case 2
    then show ?thesis using validate_rejects[OF 2] frame_quiet_lock by metis
  qed
qed

lemma frame_extract: "frame l s (snd (snd (extract_key_from_large_block s k)))"
proof -
  define v where "v = snd (secure_validate_image s k)"
  obtain d where d: "quiet v d" "secure_decode_header v k = (decoded v k, d)" by (rule decode_cases)
  have v: "frame l s v" unfolding v_def by (rule frame_validate)
  have vd: "frame l s d" by (rule frame_trans[OF v frame_quiet[OF d(1)]])
  have "frame l s (lockSecurity d r)" for r by (rule frame_trans[OF vd frame_lock])
  then show ?thesis
    using v vd by (simp add: extract_key_from_large_block_def case_prod_unfold Let_def v_def[symmetric] d(2) frame_lock split: option.split)
qed

lemma frame_reseal: "frame 0 s (snd (secure_reseal_current_image s x))"
proof -
  obtain t where t: "quiet s t" "secure_decode_header s 0 = (decoded s 0, t)" by (rule decode_cases)
  show ?thesis
  proof (cases "decoded s 0")
    case None
    then show ?thesis using t by (simp add: secure_reseal_current_image_def lock_sec_def frame_quiet_lock)
  next
    case (Some hdr)
    show ?thesis
    proof (cases "secure_generate_positions (h_nonce hdr) (h_text_start hdr) (h_text_end hdr) (words32 t)")
      case None
      then show ?thesis using Some t
        by (simp add: secure_reseal_current_image_def lock_sec_def frame_quiet_lock frame_quiet)
    next
      case pos: (Some ps)
      then obtain u where u: "quiet t u" "secure_extract_hidden_wrapped t 0 ps = (hidden_wrapped t 0 ps, u)"
        using extract_cases[OF length_positions] by blast
      have su: "quiet s u" by (rule quiet_trans[OF t(1) u(1)])
      have "frame 0 s (write_words 0 kvs u)" for kvs by (rule frame_trans[OF frame_quiet[OF su] frame_write_words])
      then show ?thesis using Some pos t u frame_quiet_lock[OF su] frame_quiet[OF t(1)]
        by (simp add: secure_reseal_current_image_def Let_def lock_sec_def case_prod_unfold)
    qed
  qed
qed

lemma more_extract: "sec.more (snd (snd (extract_key_from_large_block s k))) = sec.more s" for s :: "'a sec_scheme"
proof (cases "k < num_layers s \<and> (\<exists>hdr ps sk. image_sealed s k hdr ps sk)")
  case True
  then obtain f hdr where "snd (snd (extract_key_from_large_block s k)) = (secure_apply_runtime_region s hdr)\<lparr>layer_log := f\<rparr>"
    using extract_sealed_state by (metis snd_conv)
  then show ?thesis by (simp add: secure_apply_runtime_region_def)
next
  case False
  then consider "k \<ge> num_layers s" | "\<nexists>hdr ps sk. image_sealed s k hdr ps sk" "k < num_layers s" by fastforce
  then show ?thesis
  proof cases
    case 1
    then show ?thesis by (simp add: extract_key_from_large_block_def getNumLayers_def more_lock)
  next
    case 2
    obtain t r where "fst (secure_validate_image s k) < 0" "quiet s t" "snd (secure_validate_image s k) = lockSecurity t r"
      using validate_rejects[OF 2(1)] by blast
    then show ?thesis using 2(2) quiet_more[of s t]
      by (simp add: extract_key_from_large_block_def getNumLayers_def case_prod_unfold more_lock)
  qed
qed

section \<open>The stages\<close>

lemma data_layer_more: "sec.more t = sec.more s \<Longrightarrow> data_layer t = data_layer s" for s t :: "'a cpu_scheme"
  by (cases s; cases t) simp

text \<open>A stage keeps the frame of layer 0 and the choice of the data layer.\<close>

definition inside :: "'a cpu_scheme \<Rightarrow> 'a cpu_scheme \<Rightarrow> bool" where
  "inside s t \<longleftrightarrow> frame 0 s t \<and> data_layer t = data_layer s"

lemma inside_refl [simp]: "inside s s"
  by (simp add: inside_def)

lemma inside_trans: "inside s t \<Longrightarrow> inside t u \<Longrightarrow> inside s u"
  by (auto simp: inside_def intro: frame_trans)

lemma inside_registers [simp]:
  "inside s (reg_file_update a t) = inside s t" "inside s (copro_reg_update b t) = inside s t"
  "inside s (fetch_reg_update c t) = inside s t" "inside s (decr_reg_update d t) = inside s t"
  "inside s (decode_reg_update e t) = inside s t" "inside s (exec_reg_update f t) = inside s t"
  "inside s (mem_reg_update g t) = inside s t" "inside s (wb_reg_update h t) = inside s t"
  "inside s (key_valid_update i t) = inside s t" "inside s (key_check_failed_update i t) = inside s t"
  "inside s (runtime_app_key_update b t) = inside s t"
  "inside s (iCache_data_update j t) = inside s t" "inside s (iCache_tag_update k t) = inside s t"
  "inside s (iCache_valid_update m t) = inside s t" "inside s (dcache_data_update a t) = inside s t"
  "inside s (dcache_tag_update k t) = inside s t" "inside s (dcache_valid_update m t) = inside s t"
  "inside s (retired_instructions_update n t) = inside s t" "inside s (perf_cycle_count_update n t) = inside s t"
  "inside s (pipeline_stall_count_update n t) = inside s t" "inside s (perf_load_use_stalls_update n t) = inside s t"
  "inside s (branch_prediction_count_update n t) = inside s t" "inside s (branch_mispredict_count_update n t) = inside s t"
  "inside s (perf_icache_hits_update n t) = inside s t" "inside s (perf_icache_misses_update n t) = inside s t"
  "inside s (perf_dcache_hits_update n t) = inside s t" "inside s (perf_dcache_misses_update n t) = inside s t"
  "inside s (perf_forward_mem_update n t) = inside s t" "inside s (perf_forward_wb_update n t) = inside s t"
  "inside s (perf_store_data_forwards_update n t) = inside s t" "inside s (perf_aes_instructions_update n t) = inside s t"
  by (simp_all add: inside_def frame_def smem_wf_def)

lemma inside_lock [simp]: "inside s (lockSecurity s r)"
  by (simp add: inside_def frame_lock data_layer_more[OF more_lock])

lemma inside_write: "data_layer s = 0 \<Longrightarrow> inside s (protectedWrite s 0 a v)"
  by (simp add: inside_def frame_protectedWrite data_layer_more[OF more_sec[OF more_protectedWrite]])

lemma inside_read: "inside s (snd (protectedRead s k a))"
  by (simp add: protectedRead_pair inside_def frame_quiet[OF quiet_rd] data_layer_more[OF quiet_more[OF quiet_rd]])

lemma inside_dcache_read: "inside s (snd (dcache_read s a))"
proof -
  have "inside s (snd (protectedRead (s\<lparr>perf_dcache_misses := n\<rparr>) (data_layer s) (unat a)))" for n
    using inside_read[of "s\<lparr>perf_dcache_misses := n\<rparr>"] inside_trans[of s "s\<lparr>perf_dcache_misses := n\<rparr>"] by simp
  then show ?thesis by (simp add: dcache_read_def Let_def case_prod_unfold)
qed

lemma inside_dcache_write:
  assumes "data_layer s = 0" shows "inside s (dcache_write s a v)"
proof -
  let ?t = "s\<lparr>dcache_data := (dcache_data s)(unat (a mod 4) := v), dcache_tag := (dcache_tag s)(unat (a mod 4) := a div 4),
    dcache_valid := (dcache_valid s)(unat (a mod 4) := True)\<rparr>"
  have t: "inside s ?t" "data_layer ?t = 0" by (simp_all add: assms)
  have "dcache_write s a v = protectedWrite ?t (data_layer ?t) (unat a) v" unfolding dcache_write_def Let_def ..
  then show ?thesis using inside_trans[OF t(1) inside_write[OF t(2)]] unfolding t(2) by (simp only:)
qed

lemma inside_recrypt:
  assumes "data_layer s = 0" shows "inside s (secure_write_encrypted_data_word s a v)"
proof -
  have step: "inside s (for_up 0 n f s)" if "\<And>i t. data_layer t = 0 \<Longrightarrow> inside t (f i t)" for n f
  proof (rule for_up_invariant[where P = "inside s"])
    show "inside s (f i t)" if "inside s t" for i t
      using inside_trans[OF that] \<open>\<And>i t. data_layer t = 0 \<Longrightarrow> inside t (f i t)\<close> that assms by (auto simp: inside_def)
  qed simp
  show ?thesis unfolding secure_write_encrypted_data_word_def Let_def
    by (auto simp: inside_write intro!: step)
qed

lemma inside_memory:
  assumes "data_layer s = 0" shows "inside s (stage_memory s)"
proof -
  have "inside s (snd (load_word s a))" for a
    by (simp add: load_word_def inside_dcache_read split: option.split)
  moreover have "inside s (store_word s a v)" for a v
    using inside_recrypt[OF assms] inside_dcache_write[OF assms]
    by (simp add: store_word_def invalidateFrontendOnTextWrite_def split: option.split)
  ultimately show ?thesis by (simp add: stage_memory_def Let_def case_prod_unfold)
qed

lemma inside_writeback: "inside s (stage_writeback s)"
  by (simp add: stage_writeback_def Let_def write_reg_def split: if_split)

lemma inside_execute: "inside s (stage_execute s)"
  by (simp add: stage_execute_def Let_def forward_operands_def case_prod_unfold)

lemma inside_decode: "inside s (stage_decode s b)"
  by (simp add: stage_decode_def Let_def case_prod_unfold)

lemma inside_decrypt: "inside s (stage_decrypt s)"
  by (simp add: stage_decrypt_def Let_def)

lemma inside_fetch_block: "inside s (fetch_block s)"
  by (simp add: fetch_block_def Let_def icache_read_block_def)

lemma inside_fetch: "inside s (stage_fetch s)"
proof -
  let ?e = "snd (snd (extract_key_from_large_block s (instr_layer s)))"
  have e: "inside s ?e" by (simp add: inside_def frame_extract data_layer_more[OF more_extract])
  have "inside s (fetch_block t)" if "inside s t" for t by (rule inside_trans[OF that inside_fetch_block])
  then show ?thesis using e by (simp add: stage_fetch_def Let_def case_prod_unfold inside_fetch_block)
qed

lemma inside_cycle:
  assumes "data_layer s = 0" shows "inside s (cycle_step s)"
proof -
  have step: "inside s (f t)" if "inside s t" "inside t (f t)" for t :: "'a cpu_scheme" and f :: "'a cpu_scheme \<Rightarrow> 'a cpu_scheme"
    using that by (rule inside_trans)
  have wb: "inside s (writeback_phase s)"
  proof -
    let ?c = "s\<lparr>perf_cycle_count := perf_cycle_count s + 1\<rparr>"
    let ?d = "if wb_valid (wb_reg ?c) then ?c\<lparr>wb_reg := (wb_reg ?c)\<lparr>wb_valid := False\<rparr>\<rparr> else ?c"
    have "inside s ?d" by simp
    then have "inside s (stage_writeback ?d)" by (rule step) (rule inside_writeback)
    then show ?thesis using \<open>inside s ?d\<close> unfolding writeback_phase_def Let_def by (simp only: split: if_split) simp
  qed
  let ?m = "memory_phase (writeback_phase s)"
  have m: "inside s ?m"
  proof (rule step[OF wb])
    have "data_layer (recover (writeback_phase s)) = 0" using wb assms by (simp add: recover_def inside_def)
    then have "inside (recover (writeback_phase s)) (stage_memory (recover (writeback_phase s)))" by (rule inside_memory)
    moreover have "inside (writeback_phase s) (recover (writeback_phase s))" by (simp add: recover_def)
    ultimately show "inside (writeback_phase s) ?m" unfolding memory_phase_def by (auto intro: inside_trans)
  qed
  let ?e = "execute_phase ?m"
  have e: "inside s ?e" by (rule step[OF m]) (simp add: execute_phase_def inside_execute)
  have a: "inside s (advance_decode ?e)"
    by (rule step[OF e]) (simp add: advance_decode_def Let_def case_prod_unfold inside_decode inside_decrypt)
  show ?thesis unfolding cycle_phases by (rule step[OF a]) (simp add: fetch_phase_def inside_fetch)
qed

lemma inside_run: "data_layer s = 0 \<Longrightarrow> inside s (run_cycles n s)"
proof (induction n arbitrary: s)
  case (Suc n)
  have c: "inside s (cycle_step s)" by (rule inside_cycle[OF Suc.prems])
  then have "inside (cycle_step s) (run_cycles n (cycle_step s))" using Suc by (simp add: inside_def)
  then show ?case using inside_trans[OF c] by simp
qed simp

section \<open>The top function\<close>

lemma frame_load: "frame 0 s (load_image s host n)"
proof -
  have put: "frame 0 t (if i < SEC_HDR_WORDS then protectedWrite t 0 i v else mem_write t 0 i v)" for t :: "'a cpu_scheme" and i v
    by (simp add: frame_protectedWrite frame_mem_write)
  show ?thesis unfolding load_image_def Let_def
    by (rule frame_trans[OF frame_for_up[where f = "\<lambda>i s. if i < SEC_HDR_WORDS then protectedWrite s 0 i (host i) else mem_write s 0 i (host i)"]
          frame_for_up[where f = "\<lambda>i s. if i < SEC_HDR_WORDS then protectedWrite s 0 i 0 else mem_write s 0 i 0"]]; rule put)
qed

lemma frame_reset: "frame 0 s (reset_processor s)" "data_layer (reset_processor s) = 0"
proof -
  show "frame 0 s (reset_processor s)"
    by (auto simp: frame_def reset_processor_def Let_def enableProcessingLayer_def isValidLayer_def add_log_def smem_wf_def)
  show "data_layer (reset_processor s) = 0" by (simp add: reset_processor_def Let_def)
qed

lemma frame_output: "frame 0 s (reseal_output s)"
proof -
  have "inside s (snd (secure_reseal_current_image s 0))"
    by (simp add: inside_def frame_reseal data_layer_more[OF more_reseal])
  then have "inside s (reseal_output s)" by (simp add: reseal_output_def case_prod_unfold Let_def)
  then show ?thesis by (simp add: inside_def)
qed

text \<open>The top function, but for the registers it clears at the end, is such a change of layer 0.\<close>

lemma top_framed:
  fixes s :: "'a cpu_scheme"
  obtains z where "frame 0 (unlocked s) z" "snd (snd (Crypto3DStackCPU_top s host word_count)) =
    z\<lparr>runtime_app_key := Quad 0 0 0 0, copro_reg := Quad 0 0 0 0, key_valid := False\<rparr>"
proof -
  define v where "v = (case host of None \<Rightarrow> unlocked s | Some img \<Rightarrow> load_image (unlocked s) img (io_word_count word_count))"
  define y where "y = reseal_output (run_cycles 2000 (reset_processor v))"
  define z where "z = (case host of None \<Rightarrow> y | Some img \<Rightarrow> snd (store_image y img (io_word_count word_count)))"
  have "frame 0 (unlocked s) v" by (cases host) (simp_all add: v_def frame_load)
  also have "frame 0 v (reset_processor v)" by (rule frame_reset)
  also have "frame 0 (reset_processor v) (run_cycles 2000 (reset_processor v))"
    using inside_run[where s = "reset_processor v" and n = 2000, OF frame_reset(2)] by (simp add: inside_def)
  also have "frame 0 (run_cycles 2000 (reset_processor v)) y" unfolding y_def by (rule frame_output)
  also have "frame 0 y z"
  proof (cases host)
    case (Some img)
    obtain t where "store_image y img (io_word_count word_count) = (\<lambda>i. if i < io_word_count word_count then mem_read y 0 i else img i, t)"
      "quiet y t" by (rule store_image_shape)
    then show ?thesis by (simp add: z_def Some frame_quiet)
  qed (simp add: z_def)
  finally have f: "frame 0 (unlocked s) z" .
  have top: "snd (snd (Crypto3DStackCPU_top s host word_count)) = z\<lparr>runtime_app_key := Quad 0 0 0 0, copro_reg := Quad 0 0 0 0, key_valid := False\<rparr>"
  proof (cases host)
    case None
    show ?thesis
      unfolding Crypto3DStackCPU_top_def Let_def unlocked_def[symmetric] v_def[symmetric] y_def[symmetric]
      unfolding None z_def by (simp only: option.case prod.case snd_conv)
  next
    case (Some img)
    obtain h t where st: "store_image y img (io_word_count word_count) = (h, t)" by fastforce
    show ?thesis
      unfolding Crypto3DStackCPU_top_def Let_def unlocked_def[symmetric] v_def[symmetric] y_def[symmetric]
      unfolding Some z_def by (simp only: option.case prod.case snd_conv st)
  qed
  then show thesis by (rule that[OF f])
qed

text \<open>
  C6: The processor stays inside layer 0. Whatever the host gives it, valid image or not, one call
  of the top function keeps the memory well-formed and its geometry, keys and device root as they
  were, touches no other layer, and leaves no key material in the processor.
\<close>

theorem top_frame:
  fixes s :: "'a cpu_scheme"
  shows "let t = snd (snd (Crypto3DStackCPU_top s host word_count))
    in (smem_wf s \<longrightarrow> smem_wf t) \<and> num_words t = num_words s \<and> num_layers t = num_layers s
      \<and> layer_access t = layer_access s \<and> layer_is_encrypted t = layer_is_encrypted s \<and> layer_keys t = layer_keys s
      \<and> hardware_root t = hardware_root s \<and> (\<forall>k. k \<noteq> 0 \<longrightarrow> memory t k = memory s k)
      \<and> runtime_app_key t = Quad 0 0 0 0 \<and> copro_reg t = Quad 0 0 0 0 \<and> \<not> key_valid t"
proof -
  obtain z where f: "frame 0 (unlocked s) z" and top: "snd (snd (Crypto3DStackCPU_top s host word_count)) =
    z\<lparr>runtime_app_key := Quad 0 0 0 0, copro_reg := Quad 0 0 0 0, key_valid := False\<rparr>" by (rule top_framed)
  have "layer_access (unlocked s) = layer_access s" "layer_keys (unlocked s) = layer_keys s"
    "hardware_root (unlocked s) = hardware_root s" "num_layers (unlocked s) = num_layers s"
    by (simp_all add: unlocked_def clearSecurityLockdown_def add_log_def)
  moreover have "smem_wf (z\<lparr>runtime_app_key := Quad 0 0 0 0, copro_reg := Quad 0 0 0 0, key_valid := False\<rparr>) = smem_wf z"
    by (simp add: smem_wf_def)
  ultimately show ?thesis using f unfolding top Let_def frame_def by simp
qed

end
