(* ===== verification/Image_Properties.thy ===== *)
theory Image_Properties
  imports Image_Integrity
begin

text \<open>
  The properties of the sealed image, and a concrete image on which their hypotheses hold: two
  layers of 1024 words, 16 words of text at 32, 16 encrypted data words at 48. The 128 positions of
  the example are computed by \<open>first_positions\<close>, which follows the search while every first attempt
  succeeds; the search itself is proved to return them.
\<close>

section \<open>The search when every first attempt succeeds\<close>

fun first_positions :: "u32 \<Rightarrow> u32 \<Rightarrow> u32 \<Rightarrow> u32 \<Rightarrow> u32 \<Rightarrow> nat \<Rightarrow> u32 \<Rightarrow> u32 list option" where
  "first_positions low span ts te i 0 seed = Some []"
| "first_positions low span ts te i (Suc n) seed =
     (let seed = secure_prng_step (seed + 0xA511E9B3 + i * 0x3C6EF372);
          wd = low + (seed mod span);
          pos = wd * 32 + (drop_bit 27 seed AND 31)
      in if wd < 32 \<or> wd \<ge> ts \<and> wd < te then None
         else map_option (Cons pos) (first_positions low span ts te (i + 1) n seed))"

lemma first_positions:
  "first_positions low span ts te (of_nat i) n seed = Some qs \<Longrightarrow> distinct (ps @ qs) \<Longrightarrow>
   place_positions low span ts te i n ps seed = Some (ps @ qs)"
proof (induction n arbitrary: i ps qs seed)
  case (Suc n)
  have "place_position low span ts te ps i 2048 seed =
    (let seed = secure_prng_step (seed + 0xA511E9B3 + of_nat i * 0x3C6EF372);
         wd = low + (seed mod span);
         pos = wd * 32 + (drop_bit 27 seed AND 31)
     in if wd < 32 \<or> wd \<ge> ts \<and> wd < te \<or> pos \<in> set ps then place_position low span ts te ps i 2047 seed
        else Some (pos, seed))"
    using place_position.simps(2)[of low span ts te ps i 2047 seed] by (simp add: Let_def)
  then show ?case using Suc.prems Suc.IH[of "i + 1" _ _ "ps @ [_]"]
    by (auto simp: Let_def add.commute split: if_splits)
qed simp

definition demo_positions :: "u32 list" where
  "demo_positions = [17519, 23880, 23730, 20171, 22001, 21147, 20778, 28863, 29691, 25973, 22737, 29821, 17815, 32007, 16438, 18191,
   24746, 23108, 16810, 30554, 22439, 27619, 24033, 30104, 26232, 19849, 22447, 22916, 32221, 16643, 25847, 22565,
   22872, 22578, 21595, 27911, 27731, 21917, 25345, 20046, 31670, 20841, 20470, 31487, 24047, 23252, 19095, 30201,
   23668, 20452, 19121, 32020, 20085, 17998, 25512, 24218, 25905, 24135, 29409, 25258, 27616, 18476, 20360, 19913,
   20909, 18119, 20133, 30646, 16908, 18841, 22134, 19189, 21787, 29143, 16396, 27354, 17106, 29850, 28020, 27411,
   30705, 17897, 26079, 27376, 22830, 26921, 32261, 20991, 18322, 17618, 20709, 19968, 22230, 30316, 19908, 28901,
   32272, 18196, 23053, 23846, 17895, 24733, 29028, 27061, 16537, 18594, 17009, 28675, 17061, 24900, 26061, 28780,
   21616, 24070, 26507, 16778, 25791, 29021, 20191, 21749, 28840, 24982, 19845, 22981, 31009, 28770, 20357, 23335]"

lemma distinct_demo_positions: "distinct demo_positions"
  unfolding demo_positions_def by simp

lemma demo_first: "first_positions 512 512 32 48 0 128
   (let nonce = Quad 253448347 240430177 2513607728 2503312830;
        seed = quad_nth nonce 0 XOR rotl32 (quad_nth nonce 1) 3 XOR rotl32 (quad_nth nonce 2) 9
          XOR rotl32 (quad_nth nonce 3) 15
    in (seed XOR 32 * 0x9E3779B9) XOR 48 * 0x85EBCA6B) = Some demo_positions"
  by code_simp

section \<open>An example image\<close>

definition demo_sec :: sec where
  "demo_sec = secure_set_data_region
     (secure_set_image_region (sec_boot (StackedMemory3D 2 1024)) 32 10 48) 48 16 64 1"

definition demo_key :: block where "demo_key = Quad 2 2 3 4"

lemma sec_boot_fields [simp]:
  "num_words (sec_boot m) = num_words m" "num_layers (sec_boot m) = num_layers m"
  "layer_access (sec_boot m) = layer_access m" "smem_wf (sec_boot m) = smem_wf m"
  by (simp_all add: sec_boot_def smem.defs smem_wf_def)

lemma sec_boot_config:
  "secure_text_start_addr (sec_boot m) = 32" "secure_data_start_addr (sec_boot m) = 32"
  "secure_data_plain_words (sec_boot m) = 0" "secure_data_enc_end (sec_boot m) = 32"
  "secure_epoch (sec_boot m) = 1" "secure_policy (sec_boot m) = 7"
  by (simp_all add: sec_boot_def smem.defs)

lemma set_region_fields [simp]:
  "num_words (secure_set_image_region s a b c) = num_words s"
  "num_layers (secure_set_image_region s a b c) = num_layers s"
  "layer_access (secure_set_image_region s a b c) = layer_access s"
  "smem_wf (secure_set_image_region s a b c) = smem_wf s"
  "num_words (secure_set_data_region s a b c d) = num_words s"
  "num_layers (secure_set_data_region s a b c d) = num_layers s"
  "layer_access (secure_set_data_region s a b c d) = layer_access s"
  "smem_wf (secure_set_data_region s a b c d) = smem_wf s"
  "words32 (secure_set_image_region s a b c) = words32 s"
  by (simp_all add: secure_set_image_region_def secure_set_data_region_def Let_def smem_wf_def
      words32_def getNumWords_def)

lemma demo_geometry:
  "num_words demo_sec = 1024" "num_layers demo_sec = 2" "layer_access demo_sec l = (l < 2)"
  "words32 demo_sec = 1024" "smem_wf demo_sec"
proof -
  have "num_words (StackedMemory3D 2 1024) = 1024" "num_layers (StackedMemory3D 2 1024) = 2"
    "layer_access (StackedMemory3D 2 1024) l = (l < 2)"
    by (simp_all add: StackedMemory3D_def initLayerKeys_def Let_def)
  then show "num_words demo_sec = 1024" "num_layers demo_sec = 2" "layer_access demo_sec l = (l < 2)"
    "words32 demo_sec = 1024"
    by (simp_all add: demo_sec_def words32_def getNumWords_def)
  show "smem_wf demo_sec" by (simp add: demo_sec_def wf_StackedMemory3D)
qed

lemma demo_access: "l < 2 \<Longrightarrow> accessible demo_sec l"
  by (simp add: accessible_def isValidLayer_def demo_geometry)

lemma demo_config:
  "secure_text_start_addr demo_sec = 32" "secure_text_plain_words demo_sec = 10"
  "secure_text_enc_end demo_sec = 48" "secure_data_start_addr demo_sec = 48"
  "secure_data_plain_words demo_sec = 16" "secure_data_enc_end demo_sec = 64"
  "secure_data_flags demo_sec = 1" "secure_epoch demo_sec = 1" "secure_policy demo_sec = 7"
proof -
  define b where "b = sec_boot (StackedMemory3D 2 1024)"
  define i where "i = secure_set_image_region b 32 10 48"
  have w: "words32 b = 1024" "words32 i = 1024"
    using demo_geometry(4) by (simp_all add: demo_sec_def b_def i_def words32_def getNumWords_def)
  note clamp = clamp_lo_def clamp_hi_def clamp_len_def align_lo_def align_hi_def
  note boot = sec_boot_config[of "StackedMemory3D 2 1024", folded b_def]
  have i: "secure_text_start_addr i = 32" "secure_text_plain_words i = 10" "secure_text_enc_end i = 48"
    "secure_epoch i = 1" "secure_policy i = 7"
    by (simp_all add: i_def secure_set_image_region_def w(1) Let_def clamp boot)
  have d: "demo_sec = secure_set_data_region i 48 16 64 1" by (simp add: demo_sec_def i_def b_def)
  show "secure_text_start_addr demo_sec = 32" "secure_text_plain_words demo_sec = 10"
    "secure_text_enc_end demo_sec = 48" "secure_data_start_addr demo_sec = 48"
    "secure_data_plain_words demo_sec = 16" "secure_data_enc_end demo_sec = 64"
    "secure_data_flags demo_sec = 1" "secure_epoch demo_sec = 1" "secure_policy demo_sec = 7"
    by (simp_all add: d secure_set_data_region_def w(2) Let_def clamp i)
qed

lemma demo_header:
  "initial_header demo_sec demo_key =
    \<lparr>h_policy = 7, h_text_start = 32, h_text_words = 10, h_text_end = 48, h_data_start = 48,
     h_data_words = 16, h_data_end = 64, h_data_flags = 1, h_epoch = 1,
     h_nonce = Quad 253448347 240430177 2513607728 2503312830, h_wrapped = Quad 0 0 0 0,
     h_key_tag = Quad 0 0 0 0, h_img_tag = Quad 0 0 0 0, h_measurements = Quad 0 0 0 0\<rparr>"
proof -
  have "secure_derive_nonce demo_key
    \<lparr>h_policy = 7, h_text_start = 32, h_text_words = 10, h_text_end = 48, h_data_start = 48,
     h_data_words = 16, h_data_end = 64, h_data_flags = 1, h_epoch = 1,
     h_nonce = Quad 0 0 0 0, h_wrapped = Quad 0 0 0 0,
     h_key_tag = Quad 0 0 0 0, h_img_tag = Quad 0 0 0 0, h_measurements = Quad 0 0 0 0\<rparr> =
    Quad 253448347 240430177 2513607728 2503312830"
    by code_simp
  then show ?thesis
    by (simp add: initial_header_def demo_config demo_geometry clamp_header_def Let_def
        clamp_lo_def clamp_hi_def clamp_len_def align_lo_def align_hi_def)
qed

lemma demo_generate:
  "secure_generate_positions (h_nonce (initial_header demo_sec demo_key)) 32 48 1024 = Some demo_positions"
  using first_positions[of 512 512 32 48 0 128 _ demo_positions "[]"] demo_first distinct_demo_positions
  by (simp add: secure_generate_positions_def Let_def demo_header)

lemma demo_create: "l < 2 \<Longrightarrow> fst (create_large_block_with_key demo_sec l demo_key) = 0"
  by (subst create_code) (simp_all add: demo_geometry, simp add: demo_header demo_generate[unfolded demo_header, simplified])

section \<open>Properties\<close>

text \<open>
  C35: Whenever the search for hiding positions succeeds it yields 128 pairwise different bit
  positions, all of them in words behind the header and inside the memory, none of them in the
  text region.
\<close>

theorem generate_positions_safe:
  assumes "secure_generate_positions nonce text_start text_end n = Some positions" "n \<le> 2 ^ 27"
  shows "length positions = 128 \<and> distinct positions \<and>
    (\<forall>p\<in>set positions. 32 \<le> unat p div 32 \<and> unat p div 32 < unat n \<and>
       \<not> (unat text_start \<le> unat p div 32 \<and> unat p div 32 < unat text_end))"
  using generate_positions_ok[OF assms] by (simp add: position_ok_def)

theorem generate_positions_safe_witness:
  "\<exists>positions. secure_generate_positions (h_nonce (initial_header demo_sec demo_key)) 32 48 1024 = Some positions
     \<and> length positions = 128 \<and> distinct positions"
  using generate_positions_safe[OF demo_generate] demo_generate by (simp add: word_le_nat_alt)

text \<open>
  C36: Creation followed by validation and extraction. When creation reports success, validating
  the created image on the same layer succeeds and extraction returns the application key, provided
  both boundaries of the (clamped) text region are multiples of four; otherwise the image that
  creation just reported as good is rejected as a bad header and the memory is locked down.
\<close>

theorem create_validate_extract:
  assumes "smem_wf s" "accessible s layer" "fst (create_large_block_with_key s layer key) = 0"
  shows "let hdr = initial_header s key; t = snd (create_large_block_with_key s layer key);
             (rc, u) = secure_validate_image t layer; (rc', key', u') = extract_key_from_large_block t layer
    in if h_text_start hdr mod 4 = 0 \<and> h_text_end hdr mod 4 = 0
       then rc = 0 \<and> security_lockdown u = security_lockdown s \<and> rc' = 0 \<and> key' = key
       else rc = -1 \<and> security_lockdown u \<and> rc' = -1 \<and> key' = Quad 0 0 0 0"
proof -
  let ?t = "snd (create_large_block_with_key s layer key)" and ?hdr = "initial_header s key"
  obtain hf sk ps where f: "h_wrapped hf = aes_encrypt_block key sk"
    "decoded ?t layer = (if header_ranges_ok (words32 s) ?hdr then Some hf else None)"
    "header_ranges_ok (words32 s) ?hdr \<longrightarrow> image_sealed ?t layer hf ps sk"
    "num_layers ?t = num_layers s" "security_lockdown ?t = security_lockdown s"
    using create_sealed[OF assms] by blast
  have l: "layer < num_layers s" using assms(2) by (simp add: accessible_def isValidLayer_def)
  have gen: "secure_generate_positions (h_nonce ?hdr) (h_text_start ?hdr) (h_text_end ?hdr) (words32 s) \<noteq> None"
    using assms(3) create_code[OF l] by simp
  have wb: "num_words s \<le> 1024" "4 dvd num_words s" using assms(1) by (simp_all add: smem_wf_def)
  have w: "unat (words32 s) = num_words s" using wb by (simp add: words32_def getNumWords_def unat_of_nat)
  have "unat (words32 s mod 4) = 0" using w wb by (simp add: unat_mod)
  then have m: "words32 s mod 4 = 0" by (simp only: unat_eq_0)
  have rng: "header_ranges_ok (words32 s) ?hdr \<longleftrightarrow> aligned_text ?hdr"
    by (rule initial_header_ranges) (use gen generate_positions_words w wb m in \<open>auto simp: word_le_nat_alt\<close>)
  show ?thesis
  proof (cases "aligned_text ?hdr")
    case True
    then have sealed: "image_sealed ?t layer hf ps sk" using f(3) rng by blast
    obtain v where "quiet ?t v" "secure_validate_image ?t layer = (0, secure_apply_runtime_region v hf)"
      using validate_accepts[OF sealed] f(4) l by auto
    moreover obtain v' where "extract_key_from_large_block ?t layer = (0, aes_decrypt_block (h_wrapped hf) sk, v')"
      using extract_sealed[OF sealed] f(4) l by auto
    ultimately show ?thesis using True f(1,5)
      by (simp add: Let_def aligned_text_def quiet_reads(11) aes.dec_enc)
  next
    case False
    obtain v where v: "quiet ?t v" "secure_decode_header ?t layer = (decoded ?t layer, v)" by (rule decode_cases)
    have "secure_validate_image ?t layer = lock_sec v ''BAD HEADER'' (-1)"
      using f(2,4) l rng False v by (simp add: secure_validate_image_def getNumLayers_def)
    then show ?thesis using False f(4) l lock_sec_state(1)[of v "''BAD HEADER''" "-1"]
      by (auto simp: Let_def aligned_text_def extract_key_from_large_block_def getNumLayers_def lock_sec_def)
  qed
qed

theorem create_validate_extract_witness:
  "fst (snd (extract_key_from_large_block (snd (create_large_block_with_key demo_sec 1 demo_key)) 1)) = demo_key"
proof -
  have "accessible demo_sec 1" "fst (create_large_block_with_key demo_sec 1 demo_key) = 0"
    by (simp_all add: demo_access demo_create)
  from create_validate_extract[OF demo_geometry(5) this]
  show ?thesis by (simp add: Let_def demo_header case_prod_unfold)
qed

text \<open>
  C37: Validation never changes the stored words. It either returns 0, with the lockdown state
  unchanged and the regions of the decoded header as the active regions, or a negative code, and
  then the memory is locked down and the tamper event counted; extraction then returns the same
  code and a zero key.
\<close>

theorem validate_fails_closed:
  "let (rc, t) = secure_validate_image s layer; (rc', key, u) = extract_key_from_large_block s layer
   in memory t = memory s \<and>
     (if rc = 0 then security_lockdown t = security_lockdown s \<and>
        (\<exists>hdr. fst (secure_decode_header s layer) = Some hdr \<and>
           secure_get_image_region t = (h_text_start hdr, h_text_words hdr, h_text_end hdr, h_epoch hdr) \<and>
           secure_get_data_region t = (h_data_start hdr, h_data_words hdr, h_data_end hdr, h_data_flags hdr))
      else rc < 0 \<and> security_lockdown t \<and> tamper_events t = tamper_events s + 1 \<and>
        rc' = rc \<and> key = Quad 0 0 0 0 \<and> security_lockdown u)"
proof (cases "\<exists>hdr ps sk. image_sealed s layer hdr ps sk \<and> layer < num_layers s")
  case True
  then obtain hdr ps sk where i: "image_sealed s layer hdr ps sk" "layer < num_layers s" by blast
  obtain v where v: "quiet s v" "secure_validate_image s layer = (0, secure_apply_runtime_region v hdr)"
    using validate_accepts[OF i] by blast
  have "fst (secure_decode_header s layer) = Some hdr"
    using i(1) by (simp add: image_sealed_def key_sealed_def decode_header_pair(1))
  then show ?thesis using v(2) quiet_reads[OF v(1)]
    by (simp add: Let_def case_prod_unfold)
       (simp add: secure_apply_runtime_region_def secure_get_image_region_def secure_get_data_region_def)
next
  case False
  have "fst (secure_validate_image s layer) < 0 \<and>
    (\<exists>t r. quiet s t \<and> snd (secure_validate_image s layer) = lockSecurity t r)"
  proof (cases "layer < num_layers s")
    case True
    then show ?thesis using validate_rejects[of s layer] False by blast
  next
    case l: False
    then show ?thesis
      by (auto simp: secure_validate_image_def getNumLayers_def lock_sec_def intro: quiet_refl)
  qed
  then obtain t r where t: "fst (secure_validate_image s layer) < 0" "quiet s t"
    "snd (secure_validate_image s layer) = lockSecurity t r" by blast
  have lock: "security_lockdown (lockSecurity x r')" "memory (lockSecurity x r') = memory x"
    "tamper_events (lockSecurity x r') = tamper_events x + 1" for x :: "'a sec_scheme" and r'
    by (simp_all add: lockSecurity_def Let_def)
  obtain rc v where rc: "secure_validate_image s layer = (rc, v)" by fastforce
  have "extract_key_from_large_block s layer =
      (rc, Quad 0 0 0 0, if layer < num_layers s then v else lockSecurity s ''BAD EXTRACT LAYER'')"
    using rc t(1) by (auto simp: extract_key_from_large_block_def getNumLayers_def secure_validate_image_def lock_sec_def)
  then show ?thesis using t rc lock quiet_reads[OF t(2)] by simp
qed

text \<open>
  C38: What acceptance binds. If two states of a layer with the same header words and device root
  are both accepted by validation, then the HMAC inputs of their image tags, under one and the same
  session key, have the same 128-bit tag; and these inputs differ as soon as one stored word of the
  text or the data region differs. So a changed image that is still accepted is a collision of the
  truncated HMAC.
\<close>

theorem image_tag_binds:
  assumes "fst (secure_validate_image s layer) = 0" "fst (secure_validate_image t layer) = 0"
    and "\<forall>a<32. mem_read t layer a = mem_read s layer a" "hardware_root t = hardware_root s"
  shows "let hdr = header_of (mem_read s layer); k = fst (secure_derive_session_key s layer hdr);
             input = (\<lambda>s. img_tag_words s layer hdr (h_measurements hdr))
    in secure_derive_session_key t layer hdr = secure_derive_session_key s layer hdr \<and>
       secure_compute_img_tag t layer hdr k (h_measurements hdr) =
         secure_compute_img_tag s layer hdr k (h_measurements hdr) \<and>
       (input t = input s \<longleftrightarrow> text_raw_words t layer hdr = text_raw_words s layer hdr \<and>
          data_raw_words t layer hdr = data_raw_words s layer hdr)"
proof -
  have l: "layer < num_layers s" "layer < num_layers t"
    using assms(1,2) by (auto simp: secure_validate_image_def getNumLayers_def not_le split: if_splits)
  obtain hdr ps sk where s: "image_sealed s layer hdr ps sk" using assms(1) validate_iff[OF l(1)] by blast
  obtain hdr' ps' sk' where t: "image_sealed t layer hdr' ps' sk'" using assms(2) validate_iff[OF l(2)] by blast
  have hs: "hdr = header_of (mem_read s layer)" and ht: "hdr' = header_of (mem_read t layer)"
    using s t decoded_ranges(2) by (auto simp: image_sealed_def key_sealed_def)
  have "header_of (mem_read t layer) = header_of (mem_read s layer)"
    using assms(3) by (simp add: header_of_def quad_gen_def)
  then have eq: "hdr' = hdr" using hs ht by simp
  have meas: "secure_collect_measurements s layer hdr = h_measurements hdr"
    "secure_collect_measurements t layer hdr = h_measurements hdr"
    using s t eq by (auto simp: image_sealed_def key_sealed_def secure_derive_session_key_def Let_def)
  have key: "secure_derive_session_key t layer hdr = secure_derive_session_key s layer hdr"
    by (simp add: secure_derive_session_key_def meas secure_derive_root_from_nonce_def deriveHardwareWord_def assms(4))
  then have "sk' = sk" using s t eq by (simp add: image_sealed_def key_sealed_def)
  moreover have "length (text_raw_words s layer hdr) = length (text_raw_words t layer hdr)"
    by (simp add: text_raw_words_def Let_def)
  ultimately show ?thesis using s t eq key unfolding hs[symmetric]
    by (auto simp: Let_def image_sealed_def key_sealed_def img_tag_words_def)
qed

theorem image_tag_binds_witness:
  "let s = snd (create_large_block_with_key demo_sec 0 demo_key); hdr = header_of (mem_read s 0)
   in secure_compute_img_tag (lockSecurity s ''X'') 0 hdr (fst (secure_derive_session_key s 0 hdr)) (h_measurements hdr) =
      secure_compute_img_tag s 0 hdr (fst (secure_derive_session_key s 0 hdr)) (h_measurements hdr)"
proof -
  let ?s = "snd (create_large_block_with_key demo_sec 0 demo_key)"
  obtain hf sk ps where f: "num_layers ?s = num_layers demo_sec" "image_sealed ?s 0 hf ps sk"
    using create_sealed[OF demo_geometry(5) demo_access demo_create, of 0]
    by (auto simp: demo_header demo_geometry header_ranges_ok_def)
  have same: "same_image ?s (lockSecurity ?s r)" for r
  proof -
    have "mem_read (lockSecurity ?s r) = mem_read ?s" "rawRead (lockSecurity ?s r) = rawRead ?s"
      by (intro ext, simp add: mem_read_def rawRead_def isValidLayer_def lockSecurity_def Let_def)+
    then show ?thesis by (simp add: same_image_def lockSecurity_def Let_def)
  qed
  have n: "0 < num_layers ?s" "0 < num_layers (lockSecurity ?s ''X'')"
    using f(1) by (simp_all add: demo_geometry lockSecurity_def Let_def)
  have "fst (secure_validate_image ?s 0) = 0" using validate_iff[OF n(1)] f(2) by blast
  moreover have "fst (secure_validate_image (lockSecurity ?s ''X'') 0) = 0"
    using validate_iff[OF n(2)] f(2) same_image_functions(7)[OF same] by metis
  ultimately show ?thesis
    using image_tag_binds[of ?s 0 "lockSecurity ?s ''X''"] same[of "''X''"]
    by (simp add: Let_def same_image_def)
qed

text \<open>
  C39: Resealing. When the decoded policy asks for it and resealing returns 0, the image is valid
  again: validation of the resulting state succeeds, extraction returns the key that the header
  wraps, and no word a reader can see changed except the four words of the image tag.
\<close>

theorem reseal_revalidates:
  assumes "smem_wf s" "accessible s 0"
    and "fst (secure_decode_header s 0) = Some hdr" "h_policy hdr AND 4 \<noteq> 0"
    and "fst (secure_reseal_current_image s layer) = 0"
  shows "let t = snd (secure_reseal_current_image s layer)
    in fst (secure_validate_image t 0) = 0 \<and>
       fst (snd (extract_key_from_large_block t 0)) =
         aes_decrypt_block (h_wrapped hdr) (fst (secure_derive_session_key s 0 hdr)) \<and>
       (\<forall>a. a < 20 \<or> 24 \<le> a \<longrightarrow> mem_read t 0 a = mem_read s 0 a)"
proof -
  have dec: "decoded s 0 = Some hdr" using assms(3) by (simp add: decode_header_pair(1))
  obtain ps sk where k: "key_sealed s 0 hdr ps sk"
    using reseal_rejects[OF dec assms(4), of layer] assms(5) by auto
  obtain t hf where t: "secure_reseal_current_image s layer = (0, t)" "image_sealed t 0 hf ps sk"
    "h_wrapped hf = h_wrapped hdr" "wrote 0 {20..<24} s t"
    using reseal_accepts[OF k assms(1,2,4)] by blast
  have n: "0 < num_layers t" using assms(2) t(4) by (simp add: wrote_def accessible_def isValidLayer_def)
  have "fst (secure_validate_image t 0) = 0" using validate_iff[OF n] t(2) by blast
  moreover obtain u where "extract_key_from_large_block t 0 = (0, aes_decrypt_block (h_wrapped hf) sk, u)"
    using extract_sealed[OF t(2) n] by blast
  moreover have "sk = fst (secure_derive_session_key s 0 hdr)" using k by (simp add: key_sealed_def)
  moreover have "a < 20 \<or> 24 \<le> a \<Longrightarrow> mem_read t 0 a = mem_read s 0 a" for a
    using t(4) assms(1,2) by (auto simp: wrote_def)
  ultimately show ?thesis using t(1,3) by (simp add: Let_def)
qed

text \<open>
  C40: Stores into the data region of a valid image whose policy asks for resealing. Such a store
  keeps the image resealable, with the same key, exactly when it changes none of the hidden bits of
  the wrapped key; a store that does (the positions exclude only the header and the text) makes the
  next reseal fail and lock the memory down.
\<close>

theorem data_store_reseal:
  assumes "smem_wf s" "accessible s 0" "fst (secure_validate_image s 0) = 0"
    and "fst (secure_decode_header s 0) = Some hdr" "h_policy hdr AND 4 \<noteq> 0"
    and "unat (h_data_start hdr) \<le> a" "a < unat (h_data_end hdr)"
    and "secure_generate_positions (h_nonce hdr) (h_text_start hdr) (h_text_end hdr) (words32 s) = Some positions"
  shows "let (rc, t) = secure_reseal_current_image (protectedWrite s 0 a v) layer
    in if \<forall>p\<in>set positions. unat p div 32 = a \<longrightarrow> bit v (unat p mod 32) = bit (mem_read s 0 a) (unat p mod 32)
       then rc = 0 \<and> fst (secure_validate_image t 0) = 0 \<and> mem_read t 0 a = v \<and>
         fst (snd (extract_key_from_large_block t 0)) = fst (snd (extract_key_from_large_block s 0))
       else rc < 0 \<and> security_lockdown t"
proof -
  have n: "0 < num_layers s" using assms(2) by (simp add: accessible_def isValidLayer_def)
  obtain hdr' ps sk where i: "image_sealed s 0 hdr' ps sk" using assms(3) validate_iff[OF n] by blast
  have eq: "hdr' = hdr" "ps = positions"
    using i assms(4,8) by (auto simp: image_sealed_def key_sealed_def decode_header_pair(1))
  have i: "image_sealed s 0 hdr positions sk" using i unfolding eq .
  let ?w = "protectedWrite s 0 a v"
  note ds = data_store[OF i assms(1,2,6,7,5), of v layer]
  have aw: "smem_wf ?w" "accessible ?w 0"
    using accessible_wrote[OF wrote_protectedWrite assms(2,1)] by auto
  obtain u where ks: "extract_key_from_large_block s 0 = (0, aes_decrypt_block (h_wrapped hdr) sk, u)"
    using extract_sealed[OF i n] by blast
  show ?thesis
  proof (cases "keeps_hidden_bits s 0 positions a v")
    case True
    then have "key_sealed ?w 0 hdr positions sk" using ds by simp
    then obtain t hf where t: "secure_reseal_current_image ?w layer = (0, t)" "image_sealed t 0 hf positions sk"
      "h_wrapped hf = h_wrapped hdr" "wrote 0 {20..<24} ?w t"
      using reseal_accepts aw assms(5) by blast
    have nt: "0 < num_layers t" using t(4) aw(2) by (simp add: wrote_def accessible_def isValidLayer_def)
    obtain u' where kt: "extract_key_from_large_block t 0 = (0, aes_decrypt_block (h_wrapped hf) sk, u')"
      using extract_sealed[OF t(2) nt] by blast
    have dec: "decoded s 0 = Some hdr" using i by (simp add: image_sealed_def key_sealed_def)
    note rng = decoded_ranges[OF dec]
    have "num_words s \<le> 1024" using assms(1) by (simp add: smem_wf_def)
    then have "a < num_words s" using rng(1) assms(7)
      unfolding header_ranges_iff regions_ok_def
      by (simp add: word_le_nat_alt words32_def getNumWords_def unat_of_nat)
    then have "mem_read ?w 0 a = v" using protectedWrite_read[OF assms(1,2)] by simp
    moreover have "a \<notin> {20..<24}" using rng(5-7) assms(6) by auto
    ultimately have "mem_read t 0 a = v" using t(4) aw by (auto simp: wrote_def)
    then show ?thesis using True validate_iff[OF nt] t kt ks by (auto simp: keeps_hidden_bits_def)
  next
    case False
    then show ?thesis using ds by (auto simp: keeps_hidden_bits_def case_prod_unfold Let_def)
  qed
qed

definition demo_image :: sec where
  "demo_image = snd (create_large_block_with_key demo_sec 0 demo_key)"

lemma demo_sealed:
  "\<exists>hf sk. image_sealed demo_image 0 hf demo_positions sk \<and> h_policy hf = 7 \<and> h_data_start hf = 48
     \<and> h_data_end hf = 64 \<and> h_data_flags hf = 1 \<and> h_wrapped hf = aes_encrypt_block demo_key sk
     \<and> smem_wf demo_image \<and> accessible demo_image 0 \<and> num_words demo_image = 1024 \<and> num_layers demo_image = 2"
proof -
  let ?h = "initial_header demo_sec demo_key"
  have ac: "accessible demo_sec 0" "fst (create_large_block_with_key demo_sec 0 demo_key) = 0"
    by (simp_all add: demo_access demo_create)
  obtain hf sk ps meas kt it where f: "h_wrapped hf = aes_encrypt_block demo_key sk"
    "hf = ?h\<lparr>h_measurements := meas, h_wrapped := aes_encrypt_block demo_key sk, h_key_tag := kt, h_img_tag := it\<rparr>"
    "header_ranges_ok (words32 demo_sec) ?h \<longrightarrow> image_sealed demo_image 0 hf ps sk"
    "smem_wf demo_image" "accessible demo_image 0" "num_words demo_image = num_words demo_sec"
    "num_layers demo_image = num_layers demo_sec"
    using create_sealed[OF demo_geometry(5) ac] unfolding demo_image_def by blast
  have fields: "h_policy hf = 7" "h_data_start hf = 48" "h_data_end hf = 64" "h_data_flags hf = 1"
    "h_nonce hf = h_nonce ?h" "h_text_start hf = 32" "h_text_end hf = 48"
    unfolding f(2) by (simp_all add: demo_header)
  have "header_ranges_ok (words32 demo_sec) ?h" by (simp add: demo_header demo_geometry header_ranges_ok_def)
  then have i: "image_sealed demo_image 0 hf ps sk" using f(3) by blast
  have "words32 demo_image = 1024" using f(6) by (simp add: demo_geometry words32_def getNumWords_def)
  then have "ps = demo_positions"
    using i demo_generate fields by (simp add: image_sealed_def key_sealed_def)
  then have "image_sealed demo_image 0 hf demo_positions sk" using i by simp
  then show ?thesis using fields(1-4) f(1,4-7) unfolding demo_geometry by blast
qed

lemma demo_positions_high: "p \<in> set demo_positions \<Longrightarrow> unat p div 32 \<noteq> 50"
proof -
  have "\<forall>p\<in>set demo_positions. unat p div 32 \<noteq> 50" by (simp add: demo_positions_def)
  then show "p \<in> set demo_positions \<Longrightarrow> unat p div 32 \<noteq> 50" by blast
qed

theorem reseal_revalidates_witness:
  "fst (secure_validate_image (snd (secure_reseal_current_image demo_image 0)) 0) = 0"
proof -
  obtain hf sk where i: "image_sealed demo_image 0 hf demo_positions sk" "h_policy hf = 7"
    "smem_wf demo_image" "accessible demo_image 0" using demo_sealed by blast
  have k: "key_sealed demo_image 0 hf demo_positions sk" using i(1) by (simp add: image_sealed_def)
  have d: "fst (secure_decode_header demo_image 0) = Some hf"
    using k by (simp add: key_sealed_def decode_header_pair(1))
  have p: "h_policy hf AND 4 \<noteq> 0" by (simp add: i(2))
  have "fst (secure_reseal_current_image demo_image 0) = 0" using reseal_accepts[OF k i(3,4) p, of 0] by fastforce
  from reseal_revalidates[OF i(3,4) d p this] show ?thesis by (simp add: Let_def)
qed

theorem data_store_reseal_witness:
  "let t = snd (secure_reseal_current_image (protectedWrite demo_image 0 50 0xCAFE) 0)
   in fst (secure_validate_image t 0) = 0 \<and> mem_read t 0 50 = 0xCAFE"
proof -
  obtain hf sk where i: "image_sealed demo_image 0 hf demo_positions sk" "h_policy hf = 7" "h_data_start hf = 48"
    "h_data_end hf = 64" "smem_wf demo_image" "accessible demo_image 0" "num_layers demo_image = 2"
    using demo_sealed by blast
  have d: "fst (secure_decode_header demo_image 0) = Some hf"
    "secure_generate_positions (h_nonce hf) (h_text_start hf) (h_text_end hf) (words32 demo_image) = Some demo_positions"
    using i(1) by (simp_all add: image_sealed_def key_sealed_def decode_header_pair(1))
  have "fst (secure_validate_image demo_image 0) = 0" using validate_iff[of 0 demo_image] i by auto
  moreover have "h_policy hf AND 4 \<noteq> 0" "unat (h_data_start hf) \<le> 50" "50 < unat (h_data_end hf)"
    by (simp_all add: i(2-4))
  ultimately show ?thesis
    using data_store_reseal[OF i(5,6) _ d(1) _ _ _ d(2), of 50 "0xCAFE" 0] demo_positions_high
    by (auto simp: Let_def case_prod_unfold)
qed

text \<open>
  Reading a data word of a valid image. Inside an encrypted data region the reader gets the
  word of the AES decryption, under the application key that extraction returns, of the stored
  block; everywhere else in the memory it gets what \<open>protectedRead\<close> returns.
\<close>

theorem read_data_word_plain_value:
  assumes "smem_wf s" "fst (secure_validate_image s 0) = 0" "word_addr < words32 s"
    and "fst (secure_decode_header s 0) = Some hdr"
  shows "let (rc, value, _) = secure_read_data_word_plain s word_addr;
             key = fst (snd (extract_key_from_large_block s 0)); a = unat word_addr
    in rc = 0 \<and> value = Some
      (if h_data_flags hdr AND SEC_DATA_FLAG_ENCRYPTED \<noteq> 0 \<and> h_data_start hdr \<le> word_addr \<and> word_addr < h_data_end hdr
       then quad_nth (aes_decrypt_block (quad_gen (\<lambda>i. rawRead s 0 (a div 4 * 4 + i))) key) (a mod 4)
       else fst (protectedRead s 0 a))"
proof -
  have n: "0 < num_layers s"
    using assms(2) by (auto simp: secure_validate_image_def getNumLayers_def split: if_splits)
  obtain hdr' ps sk where i: "image_sealed s 0 hdr' ps sk" using assms(2) validate_iff[OF n] by blast
  moreover from this have "hdr' = hdr"
    using assms(4) by (simp add: image_sealed_def key_sealed_def decode_header_pair(1))
  ultimately have i: "image_sealed s 0 hdr ps sk" by simp
  obtain u where "extract_key_from_large_block s 0 = (0, aes_decrypt_block (h_wrapped hdr) sk, u)"
    using extract_sealed[OF i n] by blast
  moreover have wb: "num_words s \<le> 1024" "4 dvd num_words s" using assms(1) by (simp_all add: smem_wf_def)
  then have "unat (words32 s mod 4) = 0" "words32 s \<le> 1024"
    by (simp_all add: words32_def getNumWords_def unat_of_nat unat_mod word_le_nat_alt)
  then have "words32 s mod 4 = 0" "words32 s \<le> 1024" by (simp_all only: unat_eq_0)
  ultimately show ?thesis using read_data_plain[OF i assms(3)]
    by (auto simp: Let_def protectedRead_value)
qed

theorem read_data_word_plain_value_witness:
  "fst (secure_read_data_word_plain demo_image 50) = 0"
proof -
  obtain hf sk where i: "image_sealed demo_image 0 hf demo_positions sk" "smem_wf demo_image"
    "num_layers demo_image = 2" "num_words demo_image = 1024" using demo_sealed by blast
  have "fst (secure_decode_header demo_image 0) = Some hf"
    using i(1) by (simp add: image_sealed_def key_sealed_def decode_header_pair(1))
  moreover have "fst (secure_validate_image demo_image 0) = 0" using validate_iff[of 0 demo_image] i by auto
  moreover have "50 < words32 demo_image" by (simp add: words32_def getNumWords_def i(4))
  ultimately show ?thesis using read_data_word_plain_value[OF i(2)]
    by (fastforce simp: Let_def case_prod_unfold)
qed

section \<open>The configuration\<close>

datatype config_op = SetImageRegion u32 u32 u32 | SetDataRegion u32 u32 u32 u32 | SetMappingEpoch u32

fun exec_config :: "config_op \<Rightarrow> 'a sec_scheme \<Rightarrow> 'a sec_scheme" where
  "exec_config (SetImageRegion a b c) s = secure_set_image_region s a b c"
| "exec_config (SetDataRegion a b c d) s = secure_set_data_region s a b c d"
| "exec_config (SetMappingEpoch e) s = secure_set_mapping_epoch s e"

definition config_ok :: "'a sec_scheme \<Rightarrow> bool" where
  "config_ok s \<longleftrightarrow> regions_ok (words32 s) (secure_text_start_addr s) (secure_text_plain_words s)
     (secure_text_enc_end s) (secure_data_start_addr s) (secure_data_plain_words s) (secure_data_enc_end s)
     \<and> secure_epoch s \<noteq> 0"

lemma config_words [simp]: "words32 (exec_config op s) = words32 s"
  by (cases op) (simp_all add: words32_def getNumWords_def secure_set_mapping_epoch_def)

lemma config_ok_step:
  assumes "config_ok s" "words32 s \<le> 1024" "words32 s mod 4 = 0"
  shows "config_ok (exec_config op s)"
proof (cases op)
  case (SetImageRegion a b c)
  have "32 \<le> words32 s" using assms(1) unfolding config_ok_def regions_ok_def by (elim conjE) order
  then show ?thesis using SetImageRegion assms(1) regions_clamped(1)[of "words32 s"]
    by (simp add: config_ok_def, simp add: secure_set_image_region_def Let_def)
next
  case (SetDataRegion a b c d)
  let ?w = "words32 s" and ?te = "secure_text_enc_end s"
  let ?ds = "clamp_lo ?te ?w a"
  let ?de = "clamp_hi ?ds ?w c"
  have te: "?te \<le> ?w" and old: "32 \<le> secure_text_start_addr s" "secure_text_start_addr s \<le> ?te"
    "secure_text_plain_words s \<le> ?te - secure_text_start_addr s"
    using assms(1) unfolding config_ok_def regions_ok_def by (elim conjE, order, simp_all)
  have ds: "?te \<le> ?ds" "?ds \<le> ?w" using clamp_bounds(1)[OF te] by simp_all
  have de: "?ds \<le> ?de" "?de \<le> ?w" using clamp_bounds(2)[OF ds(2)] by simp_all
  note al = align_bounds(1)[OF ds(1)] and ah = align_hi_bounds[OF de(2) assms(2,3)]
  have "clamp_len (?de - ?ds) b \<le> align_hi ?w ?de - align_lo ?te ?ds"
    by (rule order_trans[OF clamp_len_le word_diff_mono]) (use al ah de in simp_all)
  moreover have "align_lo ?te ?ds \<le> align_hi ?w ?de"
    by (rule order_trans[OF conjunct2[OF al] order_trans[OF de(1) conjunct1[OF ah]]])
  ultimately show ?thesis using SetDataRegion assms(1) old al ah config_words[of "SetDataRegion a b c d" s]
    by (simp add: config_ok_def regions_ok_def, simp add: secure_set_data_region_def Let_def)
next
  case (SetMappingEpoch e)
  then show ?thesis using assms(1) config_words[of "SetMappingEpoch e" s]
    by (simp add: config_ok_def, simp add: secure_set_mapping_epoch_def)
qed

text \<open>
  The configured regions stay consistent: on a memory with a number of words that is a multiple
  of four and more than the header, after any sequence of calls of the three configuration entry
  points with any arguments the text lies behind the header, the data behind the text, both end
  inside the memory, the plain lengths fit into the regions and the epoch is not 0.
\<close>

theorem configuration_invariant:
  assumes "smem_wf m" "32 \<le> num_words m"
  shows "let s = fold exec_config ops (sec_boot m); n = words32 s
    in 32 \<le> secure_text_start_addr s \<and> secure_text_start_addr s \<le> secure_text_enc_end s \<and>
       secure_text_enc_end s \<le> secure_data_start_addr s \<and>
       secure_data_start_addr s \<le> secure_data_enc_end s \<and> secure_data_enc_end s \<le> n \<and>
       secure_text_plain_words s \<le> secure_text_enc_end s - secure_text_start_addr s \<and>
       secure_data_plain_words s \<le> secure_data_enc_end s - secure_data_start_addr s \<and> secure_epoch s \<noteq> 0"
proof -
  have wb: "num_words m \<le> 1024" "4 dvd num_words m" using assms(1) by (simp_all add: smem_wf_def)
  have w: "words32 (sec_boot m) = of_nat (num_words m)" by (simp add: words32_def getNumWords_def)
  have "unat (words32 (sec_boot m) mod 4) = 0" using wb by (simp add: w unat_of_nat unat_mod)
  then have m: "words32 (sec_boot m) mod 4 = 0" by (simp only: unat_eq_0)
  have le: "words32 (sec_boot m) \<le> 1024" "32 \<le> words32 (sec_boot m)"
    using wb assms(2) by (simp_all add: w word_le_nat_alt unat_of_nat)
  have "config_ok s \<Longrightarrow> words32 s = words32 (sec_boot m) \<Longrightarrow> config_ok (fold exec_config ops s)" for s :: sec
    by (induction ops arbitrary: s) (simp_all add: config_ok_step m le)
  moreover have "config_ok (sec_boot m)"
    using le by (simp add: config_ok_def regions_ok_def) (simp add: sec_boot_def smem.defs)
  ultimately have "config_ok (fold exec_config ops (sec_boot m))" by blast
  then show ?thesis by (simp add: config_ok_def regions_ok_def Let_def)
qed

theorem configuration_invariant_witness:
  "secure_text_start_addr (fold exec_config [SetImageRegion 7 9999 3, SetDataRegion 1 5 9999 0] (sec_boot (StackedMemory3D 1 64)))
     \<le> secure_data_start_addr (fold exec_config [SetImageRegion 7 9999 3, SetDataRegion 1 5 9999 0] (sec_boot (StackedMemory3D 1 64)))"
proof -
  have "32 \<le> num_words (StackedMemory3D 1 64)" by (simp add: StackedMemory3D_def initLayerKeys_def Let_def)
  from configuration_invariant[OF wf_StackedMemory3D this, of "[SetImageRegion 7 9999 3, SetDataRegion 1 5 9999 0]"]
  show ?thesis unfolding Let_def by (meson order_trans)
qed

end
