(* ===== verification/Program_Properties.thy ===== *)
theory Program_Properties
  imports Layer_Frame Image_Properties
begin

text \<open>
  What the processor guarantees to the owner of an image: its program runs as the sequential machine
  says, in bounded time, inside its data region, and not at all when the image is not valid; with an
  example program that is sealed, run and read back.
\<close>

section \<open>An example program\<close>

text \<open>
  Four equal blocks of four instructions: add 5 to register 8, store it to word 48, load it back
  into register 9 and add that to register 10. The blocks are stored encrypted; because they are
  equal the placement of the blocks does not matter.
\<close>

definition demo_block :: block where
  "demo_block = Quad 0x21080005 0xAC080030 0x8C090030 0x01495020"

definition demo_program_sec :: sec where
  "demo_program_sec = demo_sec\<lparr>memory := (memory demo_sec)(0 := \<lambda>a.
     if 32 \<le> a \<and> a < 48 then quad_nth (aes_encrypt_block demo_block demo_key) (a mod 4) else memory demo_sec 0 a)\<rparr>"

definition demo_program :: sec where
  "demo_program = snd (create_large_block_with_key demo_program_sec 0 demo_key)"

definition demo_cpu :: cpu where
  "demo_cpu = cpu_boot demo_program"

lemma demo_program_sec_fields:
  "initial_header demo_program_sec demo_key = initial_header demo_sec demo_key"
  "num_words demo_program_sec = 1024" "num_layers demo_program_sec = 2" "words32 demo_program_sec = 1024"
  "accessible demo_program_sec 0" "smem_wf demo_program_sec" "\<not> layer_is_encrypted demo_program_sec 0"
  "\<not> security_lockdown demo_program_sec"
proof -
  note d = demo_program_sec_def
  show "num_words demo_program_sec = 1024" "num_layers demo_program_sec = 2" "words32 demo_program_sec = 1024"
    by (simp_all add: d words32_def getNumWords_def demo_geometry)
  then show "initial_header demo_program_sec demo_key = initial_header demo_sec demo_key"
    using demo_geometry(4) by (simp add: initial_header_def) (simp add: d)
  show "accessible demo_program_sec 0" using demo_access[of 0] by (simp add: d accessible_def isValidLayer_def)
  show "smem_wf demo_program_sec" using demo_geometry(1,5) by (auto simp: d smem_wf_def)
  have "\<not> layer_is_encrypted (StackedMemory3D 2 1024) 0" "\<not> security_lockdown (StackedMemory3D 2 1024)"
    by (simp_all add: StackedMemory3D_def initLayerKeys_def Let_def)
  moreover have "layer_is_encrypted demo_sec = layer_is_encrypted (StackedMemory3D 2 1024)"
    "security_lockdown demo_sec = security_lockdown (StackedMemory3D 2 1024)"
    by (simp_all add: demo_sec_def sec_boot_def smem.defs secure_set_data_region_def secure_set_image_region_def Let_def)
  ultimately show "\<not> layer_is_encrypted demo_program_sec 0" "\<not> security_lockdown demo_program_sec" by (simp_all add: d)
qed

lemma demo_program_sealed:
  obtains hdr ps sk where "image_sealed demo_program 0 hdr ps sk"
    "hdr = (initial_header demo_sec demo_key)\<lparr>h_measurements := h_measurements hdr,
       h_wrapped := aes_encrypt_block demo_key sk, h_key_tag := h_key_tag hdr, h_img_tag := h_img_tag hdr\<rparr>"
    "smem_wf demo_program" "accessible demo_program 0" "num_words demo_program = 1024" "num_layers demo_program = 2"
    "\<not> layer_is_encrypted demo_program 0" "\<not> security_lockdown demo_program"
    "\<And>a. 32 \<le> a \<Longrightarrow> a < 48 \<Longrightarrow> memory demo_program 0 a = quad_nth (aes_encrypt_block demo_block demo_key) (a mod 4)"
proof -
  note f = demo_program_sec_fields
  have code: "fst (create_large_block_with_key demo_program_sec 0 demo_key) = 0"
    by (subst create_code) (simp_all add: f, simp add: demo_header demo_generate[unfolded demo_header, simplified])
  have rng: "header_ranges_ok (words32 demo_program_sec) (initial_header demo_program_sec demo_key)"
    by (simp add: f demo_header header_ranges_ok_def)
  obtain hf sk ps meas kt it qs where c:
    "hf = (initial_header demo_sec demo_key)\<lparr>h_measurements := meas, h_wrapped := aes_encrypt_block demo_key sk,
       h_key_tag := kt, h_img_tag := it\<rparr>" "image_sealed demo_program 0 hf ps sk"
    "smem_wf demo_program" "accessible demo_program 0" "num_words demo_program = 1024" "num_layers demo_program = 2"
    "\<not> security_lockdown demo_program"
    "secure_generate_positions (h_nonce (initial_header demo_sec demo_key)) (h_text_start (initial_header demo_sec demo_key))
       (h_text_end (initial_header demo_sec demo_key)) 1024 = Some qs"
    "wrote 0 ({..<32} \<union> (\<lambda>p. unat p div 32) ` set qs) demo_program_sec demo_program"
    using create_sealed[OF f(6,5) code] rng f(8) unfolding demo_program_def[symmetric] f(1-4) by metis
  have qs: "qs = demo_positions" using c(8) demo_generate by (simp add: demo_header)
  have high: "512 \<le> unat p div 32" if "p \<in> set qs" for p
  proof -
    have "\<forall>p\<in>set demo_positions. 512 \<le> unat p div 32" by (simp add: demo_positions_def)
    then show ?thesis using that qs by blast
  qed
  have enc: "\<not> layer_is_encrypted demo_program 0" using c(9) f(7) by (simp add: wrote_def)
  have mem: "memory demo_program 0 a = quad_nth (aes_encrypt_block demo_block demo_key) (a mod 4)" if "32 \<le> a" "a < 48" for a
  proof -
    have "a \<notin> {..<32} \<union> (\<lambda>p. unat p div 32) ` set qs" using that high by fastforce
    then have "mem_read demo_program 0 a = mem_read demo_program_sec 0 a" using c(9) f(5,6) by (simp add: wrote_def)
    then have "memory demo_program 0 a = memory demo_program_sec 0 a"
      using plain_read[OF c(4) enc] plain_read[OF f(5,7)] that c(5) f(2) by simp
    then show ?thesis using that by (simp add: demo_program_sec_def)
  qed
  show thesis by (rule that[OF c(2) _ c(3-6) enc c(7) mem]) (simp_all add: c(1))
qed

text \<open>The processor in front of the image, and the machine the image describes.\<close>

lemma demo_cpu_fields:
  "smem_wf demo_cpu = smem_wf demo_program" "accessible demo_cpu = accessible demo_program"
  "layer_is_encrypted demo_cpu = layer_is_encrypted demo_program"
  "security_lockdown demo_cpu = security_lockdown demo_program" "num_words demo_cpu = num_words demo_program"
  "num_layers demo_cpu = num_layers demo_program" "memory demo_cpu = memory demo_program" "reg_file demo_cpu r = 0"
  "same_image demo_program demo_cpu"
proof -
  show "smem_wf demo_cpu = smem_wf demo_program" "accessible demo_cpu = accessible demo_program"
    "layer_is_encrypted demo_cpu = layer_is_encrypted demo_program"
    "security_lockdown demo_cpu = security_lockdown demo_program" "num_words demo_cpu = num_words demo_program"
    "num_layers demo_cpu = num_layers demo_program" "memory demo_cpu = memory demo_program" "reg_file demo_cpu r = 0"
    by (simp_all add: demo_cpu_def cpu_boot_def sec.defs smem_wf_def accessible_def isValidLayer_def fun_eq_iff)
  show "same_image demo_program demo_cpu"
    by (rule same_image_cong) (simp_all add: demo_cpu_def cpu_boot_def sec.defs)
qed

lemma demo_bootable:
  obtains hdr ps sk where "bootable demo_cpu hdr ps sk" "image_sealed demo_cpu 0 hdr ps sk"
    "aes_decrypt_block (h_wrapped hdr) sk = demo_key"
    "h_text_start hdr = 32" "h_text_end hdr = 48" "h_data_start hdr = 48" "h_data_end hdr = 64" "h_policy hdr = 7"
    "h_data_flags hdr = 1"
proof -
  obtain hdr ps sk where d: "image_sealed demo_program 0 hdr ps sk"
    "hdr = (initial_header demo_sec demo_key)\<lparr>h_measurements := h_measurements hdr,
       h_wrapped := aes_encrypt_block demo_key sk, h_key_tag := h_key_tag hdr, h_img_tag := h_img_tag hdr\<rparr>"
    "smem_wf demo_program" "accessible demo_program 0"
    "\<not> layer_is_encrypted demo_program 0" "\<not> security_lockdown demo_program" by (rule demo_program_sealed)
  have h: "h_text_start hdr = 32" "h_text_end hdr = 48" "h_data_start hdr = 48" "h_data_end hdr = 64"
    "h_policy hdr = 7" "h_data_flags hdr = 1" "h_wrapped hdr = aes_encrypt_block demo_key sk"
    by (subst d(2), simp add: demo_header)+
  have i: "image_sealed demo_cpu 0 hdr ps sk" using d(1) same_image_functions(7)[OF demo_cpu_fields(9)] by metis
  then have "bootable demo_cpu hdr ps sk" using d(3-6) h by (simp add: bootable_def demo_cpu_fields)
  then show thesis using i h by (intro that[of hdr ps sk]) (simp_all add: aes.dec_enc)
qed

lemma demo_program_text:
  "32 \<le> a \<Longrightarrow> a < 48 \<Longrightarrow> memory demo_program 0 a = quad_nth (aes_encrypt_block demo_block demo_key) (a mod 4)"
  by (rule demo_program_sealed) blast

lemma demo_text:
  assumes h: "h_text_start hdr = 32" "h_text_end hdr = 48" and b: "8 \<le> b" "b < 12"
  shows "text_block (image_machine demo_cpu hdr demo_key) b = demo_block"
proof -
  let ?p = "secure_build_map_params 32 48 (h_epoch hdr)"
  let ?c = "secure_map_block_with_params b ?p"
  have pl: "placed ?p x \<longleftrightarrow> 8 \<le> unat x \<and> unat x < 12" for x
    by (auto simp: placed_def word_le_nat_alt build_count)
  have "placed ?p b" using b by (simp add: pl word_le_nat_alt word_less_nat_alt)
  then have "placed ?p ?c" by (rule map_block_placed[OF build_well_placed])
  then have c: "8 \<le> unat ?c" "unat ?c < 12" by (simp_all add: pl)
  have "memory demo_cpu 0 (unat ?c * 4 + i) = quad_nth (aes_encrypt_block demo_block demo_key) i" if "i < 4" for i
    using demo_program_text[of "unat ?c * 4 + i"] c that by (simp add: demo_cpu_fields)
  then have "quad_gen (\<lambda>i. memory demo_cpu 0 (unat ?c * 4 + i)) = aes_encrypt_block demo_block demo_key"
    by (intro quad_eqI) simp
  then show ?thesis using b by (simp add: image_machine_def Let_def h aes.dec_enc)
qed

lemma demo_decode:
  "decode_instr 0x21080005 = Addi 8 8 5" "decode_instr 0xAC080030 = Sw 8 0 48" "decode_instr 0x8C090030 = Lw 9 0 48"
  "decode_instr 0x01495020 = Alu Add 10 10 9"
  by (simp_all add: decode_instr_def decode_special_def mips_opcode_def mips_funct_def mips_rs_def mips_rt_def mips_rd_def
    mips_simm_def mips_shamt_def mips_imm_def Let_def)

lemma isa_step_at:
  assumes "quad_nth (text_block M b) i = w" "b < text_last M" "pc st = (b, i)"
  shows "isa_step M st = (effect M (decode_instr w) st)\<lparr>pc := next_pc M (decode_instr w) st\<rparr>"
  using assms by (simp add: isa_step_def at_end_def fetched_def not_le[symmetric] Let_def)

lemma demo_block_run:
  assumes "text_block M b = demo_block" "b < text_last M" "data_first M = 48" "data_last M = 64" "r 0 = 0"
  shows "isa_run M 4 \<lparr>pc = (b, 0), regs = r, copro = c, words = w, locked = False\<rparr> =
    \<lparr>pc = (b + 1, 0), regs = r(8 := r 8 + 5, 9 := r 8 + 5, 10 := r 10 + (r 8 + 5)), copro = c,
      words = w(48 := r 8 + 5), locked = False\<rparr>"
proof -
  define st where "st = \<lparr>pc = (b, 0), regs = r, copro = c, words = w, locked = False\<rparr>"
  note ev = effect_def next_pc_def advance_def set_reg_def get_reg_def load_def store_def data_address_def in_data_def assms
  have w: "quad_nth (text_block M b) 0 = 0x21080005" "quad_nth (text_block M b) 1 = 0xAC080030"
    "quad_nth (text_block M b) 2 = 0x8C090030" "quad_nth (text_block M b) 3 = 0x01495020"
    by (simp_all add: assms(1) demo_block_def)
  note step = isa_step_at[OF w(1) assms(2)] isa_step_at[OF w(2) assms(2)] isa_step_at[OF w(3) assms(2)] isa_step_at[OF w(4) assms(2)]
  note step = step[unfolded demo_decode]
  have "isa_step M st = \<lparr>pc = (b, 1), regs = r(8 := r 8 + 5), copro = c, words = w, locked = False\<rparr>" (is "_ = ?s1")
    by (subst step(1)) (simp_all add: st_def ev)
  moreover have "isa_step M ?s1 = ?s1\<lparr>pc := (b, 2), words := w(48 := r 8 + 5)\<rparr>" (is "_ = ?s2")
    by (subst step(2)) (simp_all add: ev)
  moreover have "isa_step M ?s2 = ?s2\<lparr>pc := (b, 3), regs := r(8 := r 8 + 5, 9 := r 8 + 5)\<rparr>" (is "_ = ?s3")
    by (subst step(3)) (simp_all add: ev)
  moreover have "isa_step M ?s3 = ?s3\<lparr>pc := (b + 1, 0), regs := r(8 := r 8 + 5, 9 := r 8 + 5, 10 := r 10 + (r 8 + 5))\<rparr>"
    by (subst step(4)) (simp_all add: ev)
  moreover have "isa_run M 4 st = isa_step M (isa_step M (isa_step M (isa_step M st)))"
    by (simp add: isa_run_def numeral_eq_Suc)
  ultimately show ?thesis unfolding st_def by simp
qed

text \<open>The whole program: sixteen instructions, which leave 50 in register 10 and 20 in word 48.\<close>

lemma demo_run:
  assumes h: "h_text_start hdr = 32" "h_text_end hdr = 48" "h_data_start hdr = 48" "h_data_end hdr = 64"
  defines "M \<equiv> image_machine demo_cpu hdr demo_key"
  defines "f \<equiv> isa_run M 16 (initial_isa demo_cpu hdr demo_key)"
  shows "at_end M f" "\<not> locked f" "regs f 10 = 50" "words f 48 = 20" "data_first M = 48" "data_last M = 64"
proof -
  have M: "text_last M = 12" "data_first M = 48" "data_last M = 64"
    by (simp_all add: M_def image_machine_def Let_def h)
  have t: "text_block M b = demo_block" if "8 \<le> b" "b < 12" for b
    unfolding M_def by (rule demo_text[OF h(1,2) that])
  have "(16::nat) = 4 + (4 + (4 + 4))" by simp
  then have run: "isa_run M 16 st = isa_run M 4 (isa_run M 4 (isa_run M 4 (isa_run M 4 st)))" for st
    unfolding isa_run_def by (simp only: funpow_add o_apply)
  have st: "initial_isa demo_cpu hdr demo_key = \<lparr>pc = (8, 0), regs = \<lambda>_. 0, copro = Quad 0 0 0 0,
      words = image_words demo_cpu demo_key, locked = False\<rparr>"
    by (simp add: initial_isa_def h demo_cpu_fields(8) fun_eq_iff)
  have f: "f = \<lparr>pc = (12, 0), regs = (\<lambda>_. 0)(8 := 20, 9 := 20, 10 := 50), copro = Quad 0 0 0 0,
      words = (image_words demo_cpu demo_key)(48 := 20), locked = False\<rparr>"
    unfolding f_def run st by (simp add: demo_block_run t M fun_upd_twist)
  show "at_end M f" "\<not> locked f" "regs f 10 = 50" "words f 48 = 20" "data_first M = 48" "data_last M = 64"
    by (simp_all add: f at_end_def M)
qed

text \<open>Loading the words the memory already holds.\<close>

lemma demo_cpu_ready:
  "smem_wf demo_cpu" "accessible demo_cpu 0" "\<not> layer_is_encrypted demo_cpu 0" "num_words demo_cpu = 1024"
  "\<not> isSecurityLocked demo_cpu"
proof -
  obtain hdr ps sk where "bootable demo_cpu hdr ps sk" by (rule demo_bootable)
  then show "smem_wf demo_cpu" "accessible demo_cpu 0" "\<not> layer_is_encrypted demo_cpu 0" "\<not> isSecurityLocked demo_cpu"
    by (simp_all add: bootable_def isSecurityLocked_def)
  show "num_words demo_cpu = 1024" unfolding demo_cpu_fields(5) by (rule demo_program_sealed)
qed

lemma demo_valid:
  obtains hdr where "fst (secure_validate_image demo_cpu 0) = 0" "fst (secure_decode_header demo_cpu 0) = Some hdr"
    "h_data_flags hdr AND 1 \<noteq> 0" "h_text_start hdr = 32" "h_text_end hdr = 48" "h_data_start hdr = 48"
    "h_data_end hdr = 64" "fst (snd (extract_key_from_large_block demo_cpu 0)) = demo_key"
proof -
  obtain hdr ps sk where d: "image_sealed demo_cpu 0 hdr ps sk" "aes_decrypt_block (h_wrapped hdr) sk = demo_key"
    "h_text_start hdr = 32" "h_text_end hdr = 48" "h_data_start hdr = 48" "h_data_end hdr = 64" "h_data_flags hdr = 1"
    by (rule demo_bootable)
  have n: "0 < num_layers demo_cpu" using demo_cpu_ready(2) by (simp add: accessible_def isValidLayer_def)
  have "fst (secure_validate_image demo_cpu 0) = 0" using d(1) validate_iff[OF n] by blast
  moreover have "fst (secure_decode_header demo_cpu 0) = Some hdr"
    using d(1) by (simp add: image_sealed_def key_sealed_def decode_header_pair(1))
  moreover have "fst (snd (extract_key_from_large_block demo_cpu 0)) = demo_key"
    using extract_sealed[OF d(1) n] d(2) by auto
  ultimately show thesis using d(3-7) by (intro that) simp_all
qed

lemma demo_reload:
  defines "s1 \<equiv> load_image (unlocked demo_cpu) (memory demo_cpu 0) 1024"
  obtains f where "s1 = demo_cpu\<lparr>layer_log := f\<rparr>" "smem_wf s1"
proof -
  have u: "unlocked demo_cpu = demo_cpu" using demo_cpu_ready(5) by (simp add: unlocked_def)
  have io: "io_word_count 0 = 1024" by (simp add: io_word_count_def)
  note l = loaded[OF demo_cpu_ready(1-4), where host = "memory demo_cpu 0" and wc = 0, unfolded io, folded s1_def]
  obtain f m where m: "s1 = demo_cpu\<lparr>layer_log := f, memory := (memory demo_cpu)(0 := m)\<rparr>"
    unfolding s1_def u by (rule load_image_shape[OF demo_cpu_ready(2-4), of 1024 "memory demo_cpu 0"]) auto
  have "m a = memory demo_cpu 0 a" for a
  proof (cases "a < 1024")
    case True
    then show ?thesis using l(7) by (simp add: m)
  next
    case False
    then have "memory s1 0 a = 0" "memory demo_cpu 0 a = 0"
      using l(1,4) demo_cpu_ready(1,4) by (simp_all add: smem_wf_def)
    then show ?thesis by (simp add: m)
  qed
  then have "m = memory demo_cpu 0" by blast
  then have "s1 = demo_cpu\<lparr>layer_log := f\<rparr>" by (simp add: m)
  then show thesis using l(1) by (rule that)
qed

section \<open>Properties\<close>

text \<open>
  C1: The pipeline refines the instruction set. For a valid image whose data region is encrypted,
  whatever the program does, the state of the processor after any number of cycles is the state of
  the sequential machine after some number of instructions, once the instructions in flight are
  completed; and no more than two instructions behind an access violation are among them.
\<close>

theorem pipeline_refines_isa:
  fixes s :: "'a cpu_scheme" and n :: nat
  assumes "fst (secure_validate_image s 0) = 0" "fst (secure_decode_header s 0) = Some hdr" "h_data_flags hdr AND 1 \<noteq> 0"
    and "smem_wf s" "accessible s 0" "\<not> layer_is_encrypted s 0" "\<not> isSecurityLocked s"
  shows "let key = fst (snd (extract_key_from_large_block s 0)); M = image_machine s hdr key;
             st = initial_isa s hdr key; r = run_cycles (Suc n) (reset_processor s)
    in \<exists>k\<le>n. arch r = isa_run M k st \<and> \<not> locked (isa_run M (k - 2) st)"
proof -
  obtain ps sk where b: "bootable s hdr ps sk"
    "fst (snd (extract_key_from_large_block s 0)) = aes_decrypt_block (h_wrapped hdr) sk" by (rule bootable_iff[OF assms])
  show ?thesis using run_refines(1)[OF b(1), of n] by (simp add: Let_def b(2))
qed

theorem pipeline_refines_isa_witness:
  "\<exists>hdr. let key = fst (snd (extract_key_from_large_block demo_cpu 0)); M = image_machine demo_cpu hdr key;
             st = initial_isa demo_cpu hdr key; r = run_cycles (Suc 70) (reset_processor demo_cpu)
    in \<exists>k\<le>70. arch r = isa_run M k st \<and> \<not> locked (isa_run M (k - 2) st)"
proof -
  obtain hdr where d: "fst (secure_validate_image demo_cpu 0) = 0" "fst (secure_decode_header demo_cpu 0) = Some hdr"
    "h_data_flags hdr AND 1 \<noteq> 0" by (rule demo_valid)
  show ?thesis using pipeline_refines_isa[OF d demo_cpu_ready(1-3,5), of 70] by blast
qed

text \<open>
  C2: The processor makes progress. As long as the memory is not locked down and the program has
  not reached the end of its text, every four cycles complete at least one instruction of the
  sequential machine, after the four cycles the pipeline needs to fill.
\<close>

theorem pipeline_progress:
  fixes s :: "'a cpu_scheme" and n :: nat
  assumes "fst (secure_validate_image s 0) = 0" "fst (secure_decode_header s 0) = Some hdr" "h_data_flags hdr AND 1 \<noteq> 0"
    and "smem_wf s" "accessible s 0" "\<not> layer_is_encrypted s 0" "\<not> isSecurityLocked s"
  shows "let key = fst (snd (extract_key_from_large_block s 0)); M = image_machine s hdr key;
             st = initial_isa s hdr key; r = run_cycles (Suc n) (reset_processor s)
    in \<exists>k\<le>n. arch r = isa_run M k st \<and> (isSecurityLocked r \<or> at_end M (arch r) \<or> n \<le> 4 * k + 3)"
proof -
  obtain ps sk where b: "bootable s hdr ps sk"
    "fst (snd (extract_key_from_large_block s 0)) = aes_decrypt_block (h_wrapped hdr) sk" by (rule bootable_iff[OF assms])
  show ?thesis using run_refines(2)[OF b(1), of n] by (auto simp: Let_def b(2))
qed

theorem pipeline_progress_witness:
  "\<exists>hdr. let key = fst (snd (extract_key_from_large_block demo_cpu 0)); M = image_machine demo_cpu hdr key;
             st = initial_isa demo_cpu hdr key; r = run_cycles (Suc 40) (reset_processor demo_cpu)
    in \<exists>k\<le>40. arch r = isa_run M k st \<and> (isSecurityLocked r \<or> at_end M (arch r) \<or> 40 \<le> 4 * k + 3)"
proof -
  obtain hdr where d: "fst (secure_validate_image demo_cpu 0) = 0" "fst (secure_decode_header demo_cpu 0) = Some hdr"
    "h_data_flags hdr AND 1 \<noteq> 0" by (rule demo_valid)
  show ?thesis using pipeline_progress[OF d demo_cpu_ready(1-3,5), of 40] by blast
qed

text \<open>
  The result of a terminating program. If the sequential machine reaches the end of the text
  within \<open>m\<close> instructions and without an access violation, then after \<open>4 m + 7\<close> or more cycles the
  pipeline is empty, the registers and the decrypted data words are those of the sequential
  machine, and the memory is not locked down.
\<close>

theorem program_result:
  fixes s :: "'a cpu_scheme" and m n :: nat
  assumes "fst (secure_validate_image s 0) = 0" "fst (secure_decode_header s 0) = Some hdr" "h_data_flags hdr AND 1 \<noteq> 0"
    and "smem_wf s" "accessible s 0" "\<not> layer_is_encrypted s 0" "\<not> isSecurityLocked s"
  defines "key \<equiv> fst (snd (extract_key_from_large_block s 0))"
  defines "M \<equiv> image_machine s hdr key"
  defines "f \<equiv> isa_run M m (initial_isa s hdr key)"
  assumes "at_end M f" "\<not> locked f" "4 * m + 7 \<le> n"
  shows "let r = run_cycles n (reset_processor s)
    in reg_file r = regs f \<and> copro_reg r = copro f \<and> image_words r key = words f \<and> \<not> isSecurityLocked r"
proof -
  obtain ps sk where b: "bootable s hdr ps sk" "key = aes_decrypt_block (h_wrapped hdr) sk"
    unfolding key_def by (rule bootable_iff[OF assms(1-7)])
  note p = program_frame[OF b(1), folded b(2), folded M_def, OF assms(11,12)[unfolded f_def] assms(13), folded f_def]
  show ?thesis using p(3-6) by (simp add: isSecurityLocked_def)
qed

theorem program_result_witness:
  "reg_file (run_cycles 71 (reset_processor demo_cpu)) 10 = 50"
proof -
  obtain hdr where d: "fst (secure_validate_image demo_cpu 0) = 0" "fst (secure_decode_header demo_cpu 0) = Some hdr"
    "h_data_flags hdr AND 1 \<noteq> 0" "h_text_start hdr = 32" "h_text_end hdr = 48" "h_data_start hdr = 48" "h_data_end hdr = 64"
    "fst (snd (extract_key_from_large_block demo_cpu 0)) = demo_key" by (rule demo_valid)
  note r = demo_run[OF d(4-7)]
  show ?thesis using program_result[OF d(1-3) demo_cpu_ready(1-3,5), of 16 71, unfolded d(8)] r(1-3) by (simp add: Let_def)
qed

text \<open>
  C4: Programs are confined. Whatever a valid image's program does, for however many cycles and
  whether or not it ends in a lockdown, no word of layer 0 outside the data region of its header
  changes: neither the header with its tags, nor the program text, nor the words with the hidden
  key bits.
\<close>

theorem program_confined:
  fixes s :: "'a cpu_scheme"
  assumes "fst (secure_validate_image s 0) = 0" "fst (secure_decode_header s 0) = Some hdr" "h_data_flags hdr AND 1 \<noteq> 0"
    and "smem_wf s" "accessible s 0" "\<not> layer_is_encrypted s 0" "\<not> isSecurityLocked s"
    and "a < unat (h_data_start hdr) \<or> unat (h_data_end hdr) \<le> a"
  shows "memory (run_cycles n (reset_processor s)) 0 a = memory s 0 a"
proof (cases n)
  case 0
  then show ?thesis using reset_fields(1)[OF assms(5)] by simp
next
  case (Suc n')
  obtain ps sk where b: "bootable s hdr ps sk" by (rule bootable_iff[OF assms(1-7)])
  have "keeps (cycle_step (reset_processor s)) (run_cycles n (reset_processor s))"
    using run_refines(3)[OF b, of n'] Suc by simp
  then have "memory (run_cycles n (reset_processor s)) 0 a = memory (cycle_step (reset_processor s)) 0 a"
    using assms(8) unfolding keeps_def boot(8,9)[OF b] by blast
  then show ?thesis using boot(7)[OF b assms(8)] by simp
qed

theorem program_confined_witness:
  "memory (run_cycles 2000 (reset_processor demo_cpu)) 0 40 = quad_nth (aes_encrypt_block demo_block demo_key) 0"
proof -
  obtain hdr where d: "fst (secure_validate_image demo_cpu 0) = 0" "fst (secure_decode_header demo_cpu 0) = Some hdr"
    "h_data_flags hdr AND 1 \<noteq> 0" "h_text_start hdr = 32" "h_text_end hdr = 48" "h_data_start hdr = 48" "h_data_end hdr = 64"
    "fst (snd (extract_key_from_large_block demo_cpu 0)) = demo_key" by (rule demo_valid)
  have "(40::nat) < unat (h_data_start hdr) \<or> unat (h_data_end hdr) \<le> 40" by (simp add: d(6))
  from program_confined[OF d(1-3) demo_cpu_ready(1-3,5) this, of 2000] show ?thesis
    using demo_program_text[of 40] by (simp add: demo_cpu_fields(7))
qed

text \<open>
  C5: An image that does not validate never runs. For any host words whose loaded image fails
  validation, the top function returns the host words as they came, the status 3 (locked down, key
  rejected), and a processor with no retired instruction and cleared registers.
\<close>

theorem invalid_image_never_runs:
  fixes s :: "'a cpu_scheme" and host :: "nat \<Rightarrow> u32" and word_count :: u32
  assumes "smem_wf s" "accessible s 0" "\<not> layer_is_encrypted s 0" "num_words s = 1024"
    and "fst (secure_validate_image (load_image (unlocked s) host (io_word_count word_count)) 0) \<noteq> 0"
  shows "let (out, status, t) = Crypto3DStackCPU_top s (Some host) word_count
    in out = Some host \<and> status = 3 \<and> isSecurityLocked t \<and> retired_instructions t = 0 \<and> (\<forall>r<32. reg_file t r = 0)"
  by (rule top_rejects[OF assms])

theorem invalid_image_never_runs_witness:
  "fst (snd (Crypto3DStackCPU_top demo_cpu (Some (\<lambda>_. 0)) 0)) = 3"
proof -
  let ?s1 = "load_image (unlocked demo_cpu) (\<lambda>_. 0) (io_word_count 0)"
  note l = loaded[OF demo_cpu_ready(1-4), where host = "\<lambda>_. 0" and wc = 0]
  have n: "0 < num_layers ?s1" using l(2) by (simp add: accessible_def isValidLayer_def)
  have "mem_read ?s1 0 0 = 0" using plain_read[OF l(2,3), of 0] l(4) l(7)[of 0] by simp
  then have "decoded ?s1 0 = None" by (simp add: decoded_def header_magic_ok_def Let_def SEC_HDR_MAGIC_def)
  then have "fst (secure_validate_image ?s1 0) \<noteq> 0"
    using validate_iff[OF n] by (simp add: image_sealed_def key_sealed_def)
  from invalid_image_never_runs[OF demo_cpu_ready(1-4) this] show ?thesis by (auto simp: Let_def case_prod_unfold)
qed

text \<open>
  C3: From host words to host words. When the loaded words are a valid image with an encrypted data
  region and a policy that asks for resealing, and its program ends without an access violation
  within 498 instructions, the top function returns the registers and, in the data region, the words
  of the sequential machine, all other words but the image tag as the host gave them, and a status
  whose low bits are 0, for a memory that validates again and yields the same key, or 3, for a
  memory locked down because the program destroyed hidden key bits.
\<close>

theorem top_function_correct:
  fixes s :: "'a cpu_scheme" and host :: "nat \<Rightarrow> u32" and word_count :: u32 and m :: nat
  assumes "smem_wf s" "accessible s 0" "\<not> layer_is_encrypted s 0" "num_words s = 1024"
  defines "s1 \<equiv> load_image (unlocked s) host (io_word_count word_count)"
  assumes "fst (secure_validate_image s1 0) = 0" "fst (secure_decode_header s1 0) = Some hdr" "h_data_flags hdr AND 1 \<noteq> 0"
    and "h_policy hdr AND 4 \<noteq> 0"
  defines "key \<equiv> fst (snd (extract_key_from_large_block s1 0))"
  defines "M \<equiv> image_machine s1 hdr key"
  defines "f \<equiv> isa_run M m (initial_isa s1 hdr key)"
  assumes "at_end M f" "\<not> locked f" "m \<le> 498"
  shows "let (out, status, t) = Crypto3DStackCPU_top s (Some host) word_count
    in (\<forall>i<io_word_count word_count. the out i = memory t 0 i) \<and> reg_file t = regs f
      \<and> (\<forall>a. in_data M a \<longrightarrow> image_words t key a = words f a)
      \<and> (\<forall>a<1024. a < 20 \<or> 24 \<le> a \<and> a < unat (h_data_start hdr) \<or> unat (h_data_end hdr) \<le> a
           \<longrightarrow> memory t 0 a = (if a < io_word_count word_count then host a else 0))
      \<and> (if status AND 3 = 0
         then fst (secure_validate_image t 0) = 0 \<and> fst (snd (extract_key_from_large_block t 0)) = key
         else status AND 3 = 3 \<and> isSecurityLocked t)"
proof -
  note l = loaded[OF assms(1-4), where host = host and wc = word_count, folded s1_def]
  obtain ps sk where b: "bootable s1 hdr ps sk" "key = aes_decrypt_block (h_wrapped hdr) sk"
    unfolding key_def by (rule bootable_iff[OF assms(6-8) l(1-3)]) (use l(5) in \<open>auto simp: isSecurityLocked_def\<close>)
  obtain out status t where t: "Crypto3DStackCPU_top s (Some host) word_count = (Some out, status, t)"
    "\<forall>i<io_word_count word_count. out i = memory t 0 i" "reg_file t = regs f"
    "\<forall>a. in_data M a \<longrightarrow> image_words t key a = words f a"
    "\<forall>a<1024. a < 20 \<or> 24 \<le> a \<and> a < unat (h_data_start hdr) \<or> unat (h_data_end hdr) \<le> a
         \<longrightarrow> memory t 0 a = (if a < io_word_count word_count then host a else 0)"
    "if status AND 3 = 0 then fst (secure_validate_image t 0) = 0 \<and> fst (snd (extract_key_from_large_block t 0)) = key
     else status AND 3 = 3 \<and> isSecurityLocked t"
    "(\<forall>p\<in>set ps. unat p div 32 < unat (h_data_start hdr) \<or> unat (h_data_end hdr) \<le> unat p div 32) \<longrightarrow> status AND 3 = 0"
    by (rule top_runs[OF assms(1-4) b(1)[unfolded s1_def] assms(9), of m, folded s1_def, folded b(2), folded M_def,
      OF assms(13,14)[unfolded f_def] assms(15), folded f_def])
  show ?thesis unfolding t(1) Let_def prod.case using t(2-6) by simp
qed

theorem top_function_correct_witness:
  "let t = snd (snd (Crypto3DStackCPU_top demo_cpu (Some (memory demo_cpu 0)) 0))
   in reg_file t 10 = 50 \<and> image_words t demo_key 48 = 20"
proof -
  let ?s1 = "load_image (unlocked demo_cpu) (memory demo_cpu 0) 1024"
  have io: "io_word_count 0 = 1024" by (simp add: io_word_count_def)
  obtain hdr ps sk where d: "image_sealed demo_cpu 0 hdr ps sk" "aes_decrypt_block (h_wrapped hdr) sk = demo_key"
    "h_text_start hdr = 32" "h_text_end hdr = 48" "h_data_start hdr = 48" "h_data_end hdr = 64" "h_policy hdr = 7"
    "h_data_flags hdr = 1" by (rule demo_bootable)
  obtain f where f: "?s1 = demo_cpu\<lparr>layer_log := f\<rparr>" by (rule demo_reload)
  have si: "same_image demo_cpu ?s1" unfolding f same_image_log by (simp add: same_image_def)
  then have i: "image_sealed ?s1 0 hdr ps sk" using d(1) same_image_functions(7) by metis
  have n: "0 < num_layers ?s1" using demo_cpu_ready(2) by (simp add: f accessible_def isValidLayer_def)
  have v: "fst (secure_validate_image ?s1 0) = 0" "fst (secure_decode_header ?s1 0) = Some hdr"
    "h_data_flags hdr AND 1 \<noteq> 0" "h_policy hdr AND 4 \<noteq> 0"
    using i validate_iff[OF n] d(7,8) by (auto simp: image_sealed_def key_sealed_def decode_header_pair(1))
  have k: "fst (snd (extract_key_from_large_block ?s1 0)) = demo_key" using extract_sealed[OF i n] d(2) by auto
  have mem: "memory ?s1 = memory demo_cpu" by (simp add: f)
  have M: "image_machine ?s1 hdr demo_key = image_machine demo_cpu hdr demo_key"
    unfolding image_machine_def mem ..
  have "image_words ?s1 demo_key = image_words demo_cpu demo_key"
    using si same_image_functions(1)[OF si] by (simp add: image_words_def same_image_def fun_eq_iff)
  moreover have "reg_file ?s1 = reg_file demo_cpu" by (simp add: f)
  ultimately have st: "initial_isa ?s1 hdr demo_key = initial_isa demo_cpu hdr demo_key"
    by (simp only: initial_isa_def)
  note r = demo_run[OF d(3-6)]
  show ?thesis
    using top_function_correct[OF demo_cpu_ready(1-4), where host = "memory demo_cpu 0" and word_count = 0 and m = 16,
        unfolded io, OF v, unfolded k M st] r
    by (auto simp: Let_def case_prod_unfold in_data_def)
qed

theorem top_frame_witness:
  "smem_wf (snd (snd (Crypto3DStackCPU_top demo_cpu (Some (\<lambda>_. 0)) 0)))
   \<and> memory (snd (snd (Crypto3DStackCPU_top demo_cpu (Some (\<lambda>_. 0)) 0))) 1 = memory demo_cpu 1"
  using top_frame[of demo_cpu "Some (\<lambda>_. 0)" 0] demo_cpu_ready(1) by (simp add: Let_def)

end
