(* ===== verification/Assembler.thy ===== *)
theory Assembler
  imports Stacked_Memory
begin

text \<open>
  The assembler \<open>src/asm_to_hex.cpp\<close>: a line-oriented two-pass assembler. The first pass assigns
  addresses to statements and labels, the second emits the words. Strings are lists of characters;
  an error is the text the code stores in \<open>err\<close>. Reading and writing files is left to the caller:
  the input is the contents of the file, the output the contents of the two hex files.
\<close>

section \<open>Characters and tokens\<close>

text \<open>The classification of characters in the C locale.\<close>

definition isspace :: "char \<Rightarrow> bool" where
  "isspace c \<longleftrightarrow> (let n = of_char c :: nat in n = 32 \<or> 9 \<le> n \<and> n \<le> 13)"

definition isdigit :: "char \<Rightarrow> bool" where
  "isdigit c \<longleftrightarrow> (let n = of_char c :: nat in 48 \<le> n \<and> n \<le> 57)"

definition isupper :: "char \<Rightarrow> bool" where
  "isupper c \<longleftrightarrow> (let n = of_char c :: nat in 65 \<le> n \<and> n \<le> 90)"

definition islower :: "char \<Rightarrow> bool" where
  "islower c \<longleftrightarrow> (let n = of_char c :: nat in 97 \<le> n \<and> n \<le> 122)"

definition isalpha :: "char \<Rightarrow> bool" where
  "isalpha c \<longleftrightarrow> isupper c \<or> islower c"

definition tolower :: "char \<Rightarrow> char" where
  "tolower c = (if isupper c then char_of (of_char c + 32 :: nat) else c)"

definition trim :: "string \<Rightarrow> string" where
  "trim s = rev (dropWhile isspace (rev (dropWhile isspace s)))"

definition to_lower :: "string \<Rightarrow> string" where
  "to_lower s = map tolower s"

definition find_char :: "char \<Rightarrow> string \<Rightarrow> nat option" where
  "find_char c s = (let n = length (takeWhile (\<lambda>x. x \<noteq> c) s) in if n < length s then Some n else None)"

definition find_blank :: "string \<Rightarrow> nat option" where
  "find_blank s =
     (let n = length (takeWhile (\<lambda>x. x \<noteq> CHR '' '' \<and> x \<noteq> CHR 0x09) s) in if n < length s then Some n else None)"

definition strip_comment :: "string \<Rightarrow> string" where
  "strip_comment line = (case find_char (CHR ''#'') line of None \<Rightarrow> line | Some pos \<Rightarrow> take pos line)"

definition is_identifier :: "string \<Rightarrow> bool" where
  "is_identifier s =
     (case s of
        [] \<Rightarrow> False
      | c # cs \<Rightarrow>
          (isalpha c \<or> c = CHR ''_'' \<or> c = CHR ''.'' \<or> c = CHR ''$'')
          \<and> list_all (\<lambda>c. isalpha c \<or> isdigit c \<or> c = CHR ''_'' \<or> c = CHR ''.'' \<or> c = CHR ''$'') cs)"

definition push_token :: "string \<Rightarrow> string list \<Rightarrow> string list" where
  "push_token cur out = (let token = trim cur in if token \<noteq> [] then out @ [token] else out)"

fun split_loop :: "string \<Rightarrow> nat \<Rightarrow> string \<Rightarrow> string list \<Rightarrow> string list" where
  "split_loop [] depth cur out = push_token cur out"
| "split_loop (c # cs) depth cur out =
     (let depth = (if c = CHR ''('' then depth + 1 else depth);
          depth = (if c = CHR '')'' \<and> depth > 0 then depth - 1 else depth)
      in if c = CHR '','' \<and> depth = 0 then split_loop cs depth [] (push_token cur out)
         else split_loop cs depth (cur @ [c]) out)"

definition split_args :: "string \<Rightarrow> string list" where
  "split_args arg_string = split_loop arg_string 0 [] []"

section \<open>Numbers and registers\<close>

definition digit_value :: "char \<Rightarrow> nat" where
  "digit_value c =
     (if isdigit c then of_char c - 48 else if islower c then of_char c - 87 else if isupper c then of_char c - 55 else 36)"

text \<open>
  \<open>std::stoll\<close> with base 0: white space, a sign, the prefixes \<open>0x\<close> and \<open>0\<close>, then digits. It yields
  the value and the number of characters read, or throws, here \<open>None\<close>.
\<close>

definition stoll :: "string \<Rightarrow> (int \<times> nat) option" where
  "stoll s =
     (let s1 = dropWhile isspace s;
          neg = (s1 \<noteq> [] \<and> hd s1 = CHR ''-'');
          s2 = (if s1 \<noteq> [] \<and> (hd s1 = CHR ''-'' \<or> hd s1 = CHR ''+'') then tl s1 else s1);
          hex = (length s2 > 2 \<and> s2 ! 0 = CHR ''0'' \<and> (s2 ! 1 = CHR ''x'' \<or> s2 ! 1 = CHR ''X'') \<and> digit_value (s2 ! 2) < 16);
          base = (if hex then 16 else if s2 \<noteq> [] \<and> hd s2 = CHR ''0'' then 8 else 10);
          s3 = (if hex then drop 2 s2 else s2);
          ds = takeWhile (\<lambda>c. digit_value c < base) s3;
          v = foldl (\<lambda>v c. v * int base + int (digit_value c)) 0 ds;
          v = (if neg then - v else v)
      in if ds = [] \<or> v < - (2 ^ 63) \<or> v \<ge> 2 ^ 63 then None
         else Some (v, length s - length s3 + length ds))"

definition parse_int64 :: "string \<Rightarrow> int option" where
  "parse_int64 token =
     (let t = trim token in
      if t = [] then None
      else case stoll t of None \<Rightarrow> None | Some (out, idx) \<Rightarrow> if idx = length t then Some out else None)"

definition parse_u32_value :: "string \<Rightarrow> u32 option" where
  "parse_u32_value token =
     (case parse_int64 token of
        None \<Rightarrow> None
      | Some v \<Rightarrow> if v < - (2 ^ 31) \<or> v > 2 ^ 32 - 1 then None else Some (word_of_int v))"

datatype Section = NoSection | Data | Text

record Symbol =
  sym_address :: u32
  sym_section :: Section
  sym_line_no :: nat

type_synonym symbols = "string \<Rightarrow> Symbol option"

record Statement =
  st_section :: Section
  st_is_directive :: bool
  st_address :: u32
  st_line_no :: nat
  st_op :: string
  st_args :: "string list"

definition parse_u32 :: "string \<Rightarrow> symbols \<Rightarrow> u32 option" where
  "parse_u32 token symbols =
     (let t = trim token in
      case symbols t of Some e \<Rightarrow> Some (sym_address e) | None \<Rightarrow> parse_u32_value t)"

definition kRegNames :: "(string \<times> u32) list" where
  "kRegNames =
     [(''zero'', 0), (''at'', 1), (''v0'', 2), (''v1'', 3), (''a0'', 4), (''a1'', 5), (''a2'', 6), (''a3'', 7),
      (''t0'', 8), (''t1'', 9), (''t2'', 10), (''t3'', 11), (''t4'', 12), (''t5'', 13), (''t6'', 14), (''t7'', 15),
      (''s0'', 16), (''s1'', 17), (''s2'', 18), (''s3'', 19), (''s4'', 20), (''s5'', 21), (''s6'', 22), (''s7'', 23),
      (''t8'', 24), (''t9'', 25), (''k0'', 26), (''k1'', 27), (''gp'', 28), (''sp'', 29), (''fp'', 30), (''s8'', 30),
      (''ra'', 31)]"

definition parse_reg :: "string \<Rightarrow> u32 option" where
  "parse_reg token =
     (let t = trim token in
      if t = [] \<or> hd t \<noteq> CHR ''$'' then None
      else let body = to_lower (tl t) in
        if body = [] then None
        else if list_all isdigit body then
          (case parse_int64 body of
             None \<Rightarrow> None
           | Some n \<Rightarrow> if n < 0 \<or> n > 31 then None else Some (word_of_int n))
        else map_of kRegNames body)"

text \<open>The offset and the base register of \<open>offset(base)\<close>, or the error text.\<close>

definition parse_mem_operand :: "string \<Rightarrow> string + (int \<times> u32)" where
  "parse_mem_operand expr =
     (let e = trim expr; lpar = find_char (CHR ''('') e; rpar = find_char (CHR '')'') e in
      if lpar = None \<or> rpar = None \<or> the lpar \<ge> the rpar \<or> the rpar \<noteq> length e - 1
      then Inl (''invalid memory operand: '' @ expr)
      else
        let off_str = trim (take (the lpar) e);
            reg_str = trim (take (the rpar - the lpar - 1) (drop (the lpar + 1) e));
            off_str = (if off_str = [] then ''0'' else off_str)
        in case parse_int64 off_str of
             None \<Rightarrow> Inl (''invalid memory offset: '' @ off_str)
           | Some off \<Rightarrow>
               if off < -32768 \<or> off > 32767 then Inl (''memory offset out of 16-bit signed range: '' @ off_str)
               else (case parse_reg reg_str of
                       None \<Rightarrow> Inl (''invalid base register in memory operand: '' @ reg_str)
                     | Some base_reg \<Rightarrow> Inr (off, base_reg)))"

section \<open>Encoding\<close>

abbreviation (input) kDataBaseByte :: u32 where "kDataBaseByte \<equiv> 0x10010000"
abbreviation (input) kTextBaseByte :: u32 where "kTextBaseByte \<equiv> 0x00400000"
abbreviation (input) kAvailableWords :: nat where "kAvailableWords \<equiv> 992"

definition is_word_aligned :: "u32 \<Rightarrow> bool" where
  "is_word_aligned addr \<longleftrightarrow> addr mod 4 = 0"

definition is_block_aligned_text_addr :: "u32 \<Rightarrow> bool" where
  "is_block_aligned_text_addr addr \<longleftrightarrow> \<not> addr < kTextBaseByte \<and> (addr - kTextBaseByte) mod 16 = 0"

definition encode_r :: "u32 \<Rightarrow> u32 \<Rightarrow> u32 \<Rightarrow> u32 \<Rightarrow> u32 \<Rightarrow> u32" where
  "encode_r rs rt rd shamt funct =
     push_bit 21 (rs AND 0x1F) OR push_bit 16 (rt AND 0x1F) OR push_bit 11 (rd AND 0x1F)
     OR push_bit 6 (shamt AND 0x1F) OR (funct AND 0x3F)"

definition encode_i :: "u32 \<Rightarrow> u32 \<Rightarrow> u32 \<Rightarrow> 16 word \<Rightarrow> u32" where
  "encode_i opcode rs rt imm =
     push_bit 26 (opcode AND 0x3F) OR push_bit 21 (rs AND 0x1F) OR push_bit 16 (rt AND 0x1F) OR ucast imm"

definition encode_j :: "u32 \<Rightarrow> u32 \<Rightarrow> u32" where
  "encode_j opcode target26 = push_bit 26 (opcode AND 0x3F) OR (target26 AND 0x03FFFFFF)"

definition instruction_word_count :: "string \<Rightarrow> nat" where
  "instruction_word_count op = (if op = ''la'' then 2 else 1)"

definition line_error :: "nat \<Rightarrow> string \<Rightarrow> string" where
  "line_error n msg = ''line '' @ format_u n @ '': '' @ msg"

text \<open>Continue with the value of an option, or fail.\<close>

definition need :: "'a option \<Rightarrow> 'e \<Rightarrow> ('a \<Rightarrow> 'e + 'b) \<Rightarrow> 'e + 'b" where
  "need x e k = (case x of None \<Rightarrow> Inl e | Some v \<Rightarrow> k v)"

definition check :: "bool \<Rightarrow> 'e \<Rightarrow> 'e + 'b \<Rightarrow> 'e + 'b" where
  "check ok e k = (if ok then k else Inl e)"

lemma need_Inr [simp]: "need x e k = Inr b \<longleftrightarrow> (\<exists>v. x = Some v \<and> k v = Inr b)"
  by (simp add: need_def split: option.split)

lemma check_Inr [simp]: "check ok e k = Inr b \<longleftrightarrow> ok \<and> k = Inr b"
  by (simp add: check_def)

text \<open>Three registers, as most instructions take them, and a label of the text section.\<close>

definition parse_regs3 :: "string list \<Rightarrow> (u32 \<times> u32 \<times> u32) option" where
  "parse_regs3 args =
     (case (parse_reg (args ! 0), parse_reg (args ! 1), parse_reg (args ! 2)) of
        (Some a, Some b, Some c) \<Rightarrow> Some (a, b, c) | _ \<Rightarrow> None)"

definition parse_regs2 :: "string list \<Rightarrow> (u32 \<times> u32) option" where
  "parse_regs2 args =
     (case (parse_reg (args ! 0), parse_reg (args ! 1)) of (Some a, Some b) \<Rightarrow> Some (a, b) | _ \<Rightarrow> None)"

definition text_label :: "symbols \<Rightarrow> string \<Rightarrow> string \<Rightarrow> string + u32" where
  "text_label symbols kind name =
     need (symbols name) (''unknown '' @ kind @ '' label: '' @ name) (\<lambda>target.
     check (sym_section target = Text) (kind @ '' target must be a .text label: '' @ name) (
     check (is_word_aligned (sym_address target)) (''unaligned '' @ kind @ '' target: '' @ name) (
     check (is_block_aligned_text_addr (sym_address target))
       (kind @ '' target must be 4-instruction block aligned: '' @ name) (
     Inr (sym_address target)))))"

definition branch_offset :: "u32 \<Rightarrow> u32 \<Rightarrow> string \<Rightarrow> string + 16 word" where
  "branch_offset address target name =
     (let delta = uint target - (uint address + 4)
      in if delta mod 4 \<noteq> 0 then Inl (''unaligned branch target: '' @ name)
         else let off_words = delta div 4
           in if off_words < -32768 \<or> off_words > 32767
              then Inl (''branch offset out of 16-bit signed range: '' @ name)
              else Inr (word_of_int off_words))"

definition map_error :: "('e \<Rightarrow> 'f) \<Rightarrow> 'e + 'a \<Rightarrow> 'f + 'a" where
  "map_error f r = (case r of Inl e \<Rightarrow> Inl (f e) | Inr a \<Rightarrow> Inr a)"

definition and_then :: "'e + 'a \<Rightarrow> ('a \<Rightarrow> 'e + 'b) \<Rightarrow> 'e + 'b" where
  "and_then r k = (case r of Inl e \<Rightarrow> Inl e | Inr a \<Rightarrow> k a)"

lemma map_error_Inr [simp]: "map_error f r = Inr a \<longleftrightarrow> r = Inr a"
  by (simp add: map_error_def split: sum.split)

lemma and_then_Inr [simp]: "and_then r k = Inr b \<longleftrightarrow> (\<exists>a. r = Inr a \<and> k a = Inr b)"
  by (simp add: and_then_def split: sum.split)

definition encode_instruction :: "Statement \<Rightarrow> symbols \<Rightarrow> string + u32 list" where
  "encode_instruction st symbols =
     (let bad = line_error (st_line_no st); op = st_op st; args = st_args st; n = length args in
      if op = ''nop'' then check (n = 0) (bad ''nop takes no arguments'') (Inr [0])
      else if op = ''la'' then
        check (n = 2) (bad ''la expects: la rt, label_or_address'') (
        need (parse_reg (args ! 0)) (bad (''invalid register in la: '' @ args ! 0)) (\<lambda>rt.
        need (parse_u32 (args ! 1) symbols) (bad (''unknown symbol/value in la: '' @ args ! 1)) (\<lambda>addr.
        let hi = ucast (drop_bit 16 addr AND 0xFFFF) :: 16 word; lo = ucast (addr AND 0xFFFF) :: 16 word
        in Inr [encode_i 0x0F 0 rt hi, encode_i 0x0D rt rt lo])))
      else if op \<in> {''add'', ''sub'', ''and'', ''or'', ''xor''} then
        check (n = 3) (bad (op @ '' expects: rd, rs, rt'')) (
        need (parse_regs3 args) (bad (''invalid register in '' @ op)) (\<lambda>(rd, rs, rt).
        let funct = (if op = ''add'' then 0x20 else if op = ''sub'' then 0x22 else if op = ''and'' then 0x24
                     else if op = ''or'' then 0x25 else 0x26)
        in Inr [encode_r rs rt rd 0 funct]))
      else if op = ''sll'' \<or> op = ''srl'' then
        check (n = 3) (bad (op @ '' expects: rd, rt, shamt'')) (
        need (parse_regs2 args) (bad (''invalid register in '' @ op)) (\<lambda>(rd, rt).
        need (parse_int64 (args ! 2)) (bad (''invalid shift amount in '' @ op)) (\<lambda>sh.
        check (\<not> (sh < 0 \<or> sh > 31)) (bad (''invalid shift amount in '' @ op)) (
        let funct = (if op = ''sll'' then 0x00 else 0x02)
        in Inr [encode_r 0 rt rd (word_of_int sh) funct]))))
      else if op = ''mult'' then
        check (n = 2 \<or> n = 3) (bad ''mult expects: rs, rt  OR  rd, rs, rt'') (
        if n = 2 then
          need (parse_regs2 args) (bad ''invalid register in mult'') (\<lambda>(rs, rt). Inr [encode_r rs rt 0 0 0x18])
        else
          need (parse_regs3 args) (bad ''invalid register in mult'') (\<lambda>(rd, rs, rt). Inr [encode_r rs rt rd 0 0x18]))
      else if op = ''aesenc'' then
        check (n = 3) (bad ''aesenc expects: rd, rs, rt'') (
        need (parse_regs3 args) (bad ''invalid register in aesenc'') (\<lambda>(rd, rs, rt). Inr [encode_r rs rt rd 0 0x3A]))
      else if op = ''aesdec'' then
        check (n = 1) (bad ''aesdec expects: rd'') (
        need (parse_reg (args ! 0)) (bad ''invalid register in aesdec'') (\<lambda>rd. Inr [encode_r 0 0 rd 0 0x3B]))
      else if op = ''addi'' then
        check (n = 3) (bad ''addi expects: rt, rs, imm'') (
        need (parse_regs2 args) (bad ''invalid register in addi'') (\<lambda>(rt, rs).
        need (parse_int64 (args ! 2)) (bad ''addi immediate out of 16-bit signed range'') (\<lambda>imm.
        check (\<not> (imm < -32768 \<or> imm > 32767)) (bad ''addi immediate out of 16-bit signed range'') (
        Inr [encode_i 0x08 rs rt (word_of_int imm)]))))
      else if op = ''lui'' then
        check (n = 2) (bad ''lui expects: rt, imm'') (
        need (parse_reg (args ! 0)) (bad ''invalid register in lui'') (\<lambda>rt.
        need (parse_u32 (args ! 1) symbols) (bad ''lui immediate out of 16-bit unsigned range'') (\<lambda>imm.
        check (\<not> imm > 0xFFFF) (bad ''lui immediate out of 16-bit unsigned range'') (
        Inr [encode_i 0x0F 0 rt (ucast imm)]))))
      else if op = ''ori'' then
        check (n = 3) (bad ''ori expects: rt, rs, imm'') (
        need (parse_regs2 args) (bad ''invalid register in ori'') (\<lambda>(rt, rs).
        need (parse_u32 (args ! 2) symbols) (bad ''ori immediate out of 16-bit unsigned range'') (\<lambda>imm.
        check (\<not> imm > 0xFFFF) (bad ''ori immediate out of 16-bit unsigned range'') (
        Inr [encode_i 0x0D rs rt (ucast imm)]))))
      else if op = ''lw'' \<or> op = ''sw'' then
        check (n = 2) (bad (op @ '' expects: rt, offset(base)'')) (
        need (parse_reg (args ! 0)) (bad (''invalid register in '' @ op)) (\<lambda>rt.
        and_then (map_error bad (parse_mem_operand (args ! 1))) (\<lambda>(off, rs).
        check (off mod 4 = 0) (bad (op @ '' offset must be word-aligned for this CPU'')) (
        let opcode = (if op = ''lw'' then 0x23 else 0x2B)
        in Inr [encode_i opcode rs rt (word_of_int off)]))))
      else if op = ''beq'' \<or> op = ''bne'' then
        check (n = 3) (bad (op @ '' expects: rs, rt, label'')) (
        need (parse_regs2 args) (bad (''invalid register in '' @ op)) (\<lambda>(rs, rt).
        and_then (map_error bad (text_label symbols ''branch'' (args ! 2))) (\<lambda>target.
        and_then (map_error bad (branch_offset (st_address st) target (args ! 2))) (\<lambda>off.
        let opcode = (if op = ''beq'' then 0x04 else 0x05)
        in Inr [encode_i opcode rs rt off]))))
      else if op = ''j'' then
        check (n = 1) (bad ''j expects: j label'') (
        and_then (map_error bad (text_label symbols ''jump'' (args ! 0))) (\<lambda>target.
        Inr [encode_j 0x02 (drop_bit 2 target)]))
      else Inl (bad (''unsupported instruction: '' @ op)))"

section \<open>First pass\<close>

record first_state =
  fp_section :: Section
  fp_data_addr :: u32
  fp_text_addr :: u32
  fp_statements :: "Statement list"
  fp_symbols :: symbols

definition checked_add_u32 :: "u32 \<Rightarrow> u32 \<Rightarrow> u32 option" where
  "checked_add_u32 a b = (if a > 0xFFFFFFFF - b then None else Some (a + b))"

definition parse_op_and_args :: "string \<Rightarrow> (string \<times> string list) option" where
  "parse_op_and_args line =
     (let t = trim line in
      if t = [] then None
      else case find_blank t of
        None \<Rightarrow> Some (to_lower t, [])
      | Some n \<Rightarrow> Some (to_lower (trim (take n t)), split_args (trim (drop (n + 1) t))))"

text \<open>The position of the colon when the line starts with a label.\<close>

definition label_end :: "string \<Rightarrow> nat option" where
  "label_end line =
     (case find_char (CHR '':'') line of
        None \<Rightarrow> None
      | Some colon \<Rightarrow> (case find_blank line of None \<Rightarrow> Some colon | Some ws \<Rightarrow> if colon < ws then Some colon else None))"

lemma label_end_less: "label_end line = Some n \<Longrightarrow> n < length line"
  by (auto simp: label_end_def find_char_def Let_def split: option.splits if_splits)

lemma length_trim: "length (trim s) \<le> length s"
proof -
  have "length (dropWhile isspace xs) \<le> length xs" for xs by (rule length_dropWhile_le)
  then show ?thesis unfolding trim_def length_rev using le_trans length_rev by metis
qed

lemma label_rest_less: "label_end line = Some n \<Longrightarrow> length (trim (drop (n + 1) line)) < length line"
proof -
  assume "label_end line = Some n"
  then have "length (drop (n + 1) line) < length line" using label_end_less by fastforce
  then show ?thesis using length_trim le_less_trans by blast
qed

definition current_addr :: "first_state \<Rightarrow> u32" where
  "current_addr s = (if fp_section s = Data then fp_data_addr s else fp_text_addr s)"

function take_labels :: "nat \<Rightarrow> string \<Rightarrow> first_state \<Rightarrow> string + (string \<times> first_state)" where
  "take_labels n line s =
     (case label_end line of
        None \<Rightarrow> Inr (line, s)
      | Some colon \<Rightarrow>
          let label = trim (take colon line) in
          if \<not> is_identifier label then Inl (line_error n (''invalid label: '' @ label))
          else if fp_symbols s label \<noteq> None then Inl (line_error n (''duplicate label: '' @ label))
          else if fp_section s = NoSection then Inl (line_error n (''label outside .data/.text section: '' @ label))
          else
            let s = s\<lparr>fp_symbols := (fp_symbols s)(label \<mapsto>
                      \<lparr>sym_address = current_addr s, sym_section = fp_section s, sym_line_no = n\<rparr>)\<rparr>;
                line = trim (drop (colon + 1) line)
            in if line = [] then Inr (line, s) else take_labels n line s)"
  by pat_completeness auto
termination by (relation "measure (\<lambda>(n, line, s). length line)") (auto dest: label_rest_less)

declare take_labels.simps [simp del]

text \<open>Advancing the address of the current section.\<close>

definition reserve :: "nat \<Rightarrow> u32 \<Rightarrow> first_state \<Rightarrow> string + first_state" where
  "reserve n bytes s =
     (if fp_section s = Data
      then need (checked_add_u32 (fp_data_addr s) bytes) (line_error n ''data address overflow'')
             (\<lambda>a. Inr (s\<lparr>fp_data_addr := a\<rparr>))
      else need (checked_add_u32 (fp_text_addr s) bytes) (line_error n ''text address overflow'')
             (\<lambda>a. Inr (s\<lparr>fp_text_addr := a\<rparr>)))"

definition add_statement :: "nat \<Rightarrow> string \<Rightarrow> string list \<Rightarrow> bool \<Rightarrow> first_state \<Rightarrow> first_state" where
  "add_statement n op args directive s =
     s\<lparr>fp_statements := fp_statements s @
         [\<lparr>st_section = fp_section s, st_is_directive = directive, st_address = current_addr s, st_line_no = n,
           st_op = op, st_args = args\<rparr>]\<rparr>"

definition parse_space :: "string \<Rightarrow> u32 option" where
  "parse_space arg =
     (case parse_int64 arg of
        None \<Rightarrow> None | Some b \<Rightarrow> if b < 0 \<or> b > 2 ^ 32 - 1 then None else Some (word_of_int b))"

definition first_directive :: "nat \<Rightarrow> string \<Rightarrow> string list \<Rightarrow> first_state \<Rightarrow> string + first_state" where
  "first_directive n op args s =
     (if op = ''.data'' then
        check (args = []) (line_error n ''.data takes no arguments'')
          (Inr (add_statement n op args True (s\<lparr>fp_section := Data\<rparr>)))
      else if op = ''.text'' then
        check (args = []) (line_error n ''.text takes no arguments'')
          (Inr (add_statement n op args True (s\<lparr>fp_section := Text\<rparr>)))
      else check (fp_section s \<noteq> NoSection) (line_error n (''directive outside section: '' @ op)) (
        let s = add_statement n op args True s in
        if op = ''.globl'' then
          check (args \<noteq> []) (line_error n ''.globl requires at least one symbol'') (Inr s)
        else if op = ''.word'' then
          check (args \<noteq> []) (line_error n ''.word requires at least one value'') (
          check (is_word_aligned (current_addr s))
            (line_error n (if fp_section s = Data then ''.word emitted at unaligned data address''
                           else ''.word emitted at unaligned text address'')) (
          reserve n (of_nat (length args) * 4) s))
        else if op = ''.space'' then
          check (length args = 1) (line_error n ''.space requires exactly one argument'') (
          need (parse_space (args ! 0)) (line_error n ''invalid .space size'') (\<lambda>bytes.
          check (bytes mod 4 = 0) (line_error n ''.space size must be a multiple of 4 for this word-addressed CPU'') (
          reserve n bytes s)))
        else Inl (line_error n (''unsupported directive: '' @ op))))"

definition first_line :: "nat \<Rightarrow> string \<Rightarrow> first_state \<Rightarrow> string + first_state" where
  "first_line n raw s =
     (let line = trim (strip_comment raw) in
      if line = [] then Inr s
      else and_then (take_labels n line s) (\<lambda>(line, s).
        if line = [] then Inr s
        else case parse_op_and_args line of
          None \<Rightarrow> Inr s
        | Some (op, args) \<Rightarrow>
            if op \<noteq> [] \<and> hd op = CHR ''.'' then first_directive n op args s
            else
              check (fp_section s = Text) (line_error n ''instruction outside .text section'') (
              let s = add_statement n op args False s in
              need (checked_add_u32 (fp_text_addr s) (of_nat (instruction_word_count op) * 4))
                (line_error n ''text address overflow'') (\<lambda>a. Inr (s\<lparr>fp_text_addr := a\<rparr>)))))"

fun first_lines :: "nat \<Rightarrow> string list \<Rightarrow> first_state \<Rightarrow> string + first_state" where
  "first_lines n [] s = Inr s"
| "first_lines n (raw # raws) s = and_then (first_line n raw s) (\<lambda>s. first_lines (n + 1) raws s)"

text \<open>The lines that \<open>std::getline\<close> reads from the contents of a file.\<close>

function file_lines :: "string \<Rightarrow> string list" where
  "file_lines [] = []"
| "file_lines (c # cs) =
     takeWhile (\<lambda>x. x \<noteq> CHR 0x0A) (c # cs) # file_lines (drop 1 (dropWhile (\<lambda>x. x \<noteq> CHR 0x0A) (c # cs)))"
  by pat_completeness auto
termination by (relation "measure length") (simp_all add: less_Suc_eq_le le_diff_conv length_dropWhile_le le_SucI)

definition first_pass :: "string \<Rightarrow> string + first_state" where
  "first_pass contents =
     first_lines 1 (file_lines contents)
       \<lparr>fp_section = NoSection, fp_data_addr = kDataBaseByte, fp_text_addr = kTextBaseByte, fp_statements = [],
        fp_symbols = Map.empty\<rparr>"

section \<open>Second pass\<close>

record second_state =
  sp_text_words :: "u32 list"
  sp_data_map :: "u32 \<Rightarrow> u32 option"
  sp_data_cursor :: u32

fun emit_words :: "Statement \<Rightarrow> symbols \<Rightarrow> string list \<Rightarrow> second_state \<Rightarrow> string + second_state" where
  "emit_words st symbols [] s = Inr s"
| "emit_words st symbols (arg # args) s =
     need (parse_u32 arg symbols) (line_error (st_line_no st) (''invalid .word value: '' @ arg)) (\<lambda>val.
     if st_section st = Data then
       check (is_word_aligned (sp_data_cursor s))
         (line_error (st_line_no st) ''data cursor is not word-aligned for .word'') (
       emit_words st symbols args (s\<lparr>sp_data_map := (sp_data_map s)(sp_data_cursor s \<mapsto> val),
                                     sp_data_cursor := sp_data_cursor s + 4\<rparr>))
     else if st_section st = Text then
       emit_words st symbols args (s\<lparr>sp_text_words := sp_text_words s @ [val]\<rparr>)
     else emit_words st symbols args s)"

definition second_statement :: "Statement \<Rightarrow> symbols \<Rightarrow> second_state \<Rightarrow> string + second_state" where
  "second_statement st symbols s =
     (if st_is_directive st then
        (if st_op st \<in> {''.data'', ''.text'', ''.globl''} then Inr s
         else if st_op st = ''.word'' then emit_words st symbols (st_args st) s
         else if st_op st = ''.space'' then
           need (parse_space (st_args st ! 0)) (line_error (st_line_no st) ''invalid .space size'') (\<lambda>bytes.
           check (bytes mod 4 = 0) (line_error (st_line_no st) ''.space must be a multiple of 4'') (
           if st_section st = Data then Inr (s\<lparr>sp_data_cursor := sp_data_cursor s + bytes\<rparr>)
           else if st_section st = Text then
             Inr (s\<lparr>sp_text_words := sp_text_words s @ replicate (unat (bytes div 4)) 0\<rparr>)
           else Inr s))
         else Inl (line_error (st_line_no st) (''unsupported directive in second pass: '' @ st_op st)))
      else and_then (encode_instruction st symbols) (\<lambda>enc.
        Inr (s\<lparr>sp_text_words := sp_text_words s @ enc\<rparr>)))"

fun second_statements :: "Statement list \<Rightarrow> symbols \<Rightarrow> second_state \<Rightarrow> string + second_state" where
  "second_statements [] symbols s = Inr s"
| "second_statements (st # sts) symbols s =
     and_then (second_statement st symbols s) (\<lambda>s. second_statements sts symbols s)"

definition data_words_of :: "second_state \<Rightarrow> u32 list" where
  "data_words_of s =
     (let data_end = sp_data_cursor s;
          data_end = (if data_end < kDataBaseByte then kDataBaseByte else data_end);
          data_end = (if data_end AND 3 \<noteq> 0 then (data_end + 3) AND NOT 3 else data_end);
          data_count = unat ((data_end - kDataBaseByte) div 4)
      in map (\<lambda>i. case sp_data_map s (kDataBaseByte + of_nat i * 4) of None \<Rightarrow> 0 | Some v \<Rightarrow> v) [0..<data_count])"

definition second_pass :: "Statement list \<Rightarrow> symbols \<Rightarrow> string + (u32 list \<times> u32 list)" where
  "second_pass statements symbols =
     and_then (second_statements statements symbols
                 \<lparr>sp_text_words = [], sp_data_map = Map.empty, sp_data_cursor = kDataBaseByte\<rparr>)
       (\<lambda>s. Inr (sp_text_words s, data_words_of s))"

section \<open>Output\<close>

definition align_words_to_crypto_block :: "nat \<Rightarrow> nat" where
  "align_words_to_crypto_block words = (words + 4 - 1) div 4 * 4"

text \<open>\<open>None\<close> when the sizes are valid, else the error.\<close>

definition validate_output_size :: "u32 list \<Rightarrow> u32 list \<Rightarrow> string option" where
  "validate_output_size text_words data_words =
     (if text_words = [] then Some ''no .text words emitted''
      else
        let t = align_words_to_crypto_block (length text_words);
            d = align_words_to_crypto_block (length data_words)
        in if t > kAvailableWords
           then Some ''text section exceeds available memory after secure header after AES-block padding''
           else if d > kAvailableWords
           then Some ''data section exceeds available memory after secure header after AES-block padding''
           else if t + d > kAvailableWords
           then Some (''combined padded text+data image too large: '' @ format_u t @ '' padded text words + ''
                @ format_u d @ '' padded data words > '' @ format_u kAvailableWords @ '' available words'')
           else None)"

definition hex_file :: "u32 list \<Rightarrow> string" where
  "hex_file ws = concat (map (\<lambda>w. format_08X w @ [CHR 0x0A]) ws)"

text \<open>
  \<open>main\<close> for three file names, \<open>None\<close> being an input file that cannot be opened: the exit status and
  the error, or the contents of the two output files.
\<close>

definition asm_main :: "string \<Rightarrow> string option \<Rightarrow> (nat \<times> string) + (string \<times> string)" where
  "asm_main asm_path input =
     (case input of
        None \<Rightarrow> Inl (2, ''cannot open input ASM file: '' @ asm_path)
      | Some contents \<Rightarrow>
          and_then (map_error (Pair 2) (first_pass contents)) (\<lambda>s.
          and_then (map_error (Pair 3) (second_pass (fp_statements s) (fp_symbols s))) (\<lambda>(text_words, data_words).
          case validate_output_size text_words data_words of
            Some err \<Rightarrow> Inl (4, err)
          | None \<Rightarrow> Inr (hex_file text_words, hex_file data_words))))"

end
