(* ===== verification/Assembler_Encoding.thy ===== *)
theory Assembler_Encoding
  imports Assembler Pipeline Mips_Semantics
begin

text \<open>
  The instruction words of the assembler against the decoder of the processor: the fields that
  \<open>encode_r\<close>, \<open>encode_i\<close> and \<open>encode_j\<close> write are those the pipeline reads, so every accepted
  statement decodes to what its mnemonic and operands mean (\<open>statement_meaning\<close>). The lemmas go by
  groups of mnemonics; \<open>accepted_mnemonics\<close> says that there are no others.
\<close>

section \<open>Instruction words\<close>

lemma field_masks:
  "x AND 0x1F = take_bit 5 x" "x AND 0x3F = take_bit 6 x" "x AND 0xFFFF = take_bit 16 x" "x AND 0x03FFFFFF = take_bit 26 x"
  for x :: u32
  by (simp_all add: take_bit_eq_mask mask_eq_exp_minus_1)

lemma encode_r_fields:
  "mips_opcode (encode_r rs rt rd sh f) = 0" "mips_rs (encode_r rs rt rd sh f) = take_bit 5 rs"
  "mips_rt (encode_r rs rt rd sh f) = take_bit 5 rt" "mips_rd (encode_r rs rt rd sh f) = take_bit 5 rd"
  "mips_shamt (encode_r rs rt rd sh f) = take_bit 5 sh" "mips_funct (encode_r rs rt rd sh f) = take_bit 6 f"
  unfolding encode_r_def mips_opcode_def mips_rs_def mips_rt_def mips_rd_def mips_shamt_def mips_funct_def field_masks
  by (rule bit_word_eqI, auto simp: bit_simps)+

lemma encode_i_fields:
  "mips_opcode (encode_i op rs rt imm) = take_bit 6 op" "mips_rs (encode_i op rs rt imm) = take_bit 5 rs"
  "mips_rt (encode_i op rs rt imm) = take_bit 5 rt" "mips_imm (encode_i op rs rt imm) = ucast imm"
  unfolding encode_i_def mips_opcode_def mips_rs_def mips_rt_def mips_imm_def field_masks
  by (rule bit_word_eqI, auto simp: bit_simps dest: bit_imp_le_length)+

lemma encode_j_fields:
  "mips_opcode (encode_j op t) = take_bit 6 op" "mips_target (encode_j op t) = take_bit 26 t"
  unfolding encode_j_def mips_opcode_def mips_target_def field_masks
  by (rule bit_word_eqI, auto simp: bit_simps)+

lemma encode_i_simm:
  assumes "- 32768 \<le> k" "k \<le> 32767"
  shows "mips_simm (encode_i op rs rt (word_of_int k)) = word_of_int k"
proof -
  have k: "signed_take_bit 15 k = k" by (rule signed_take_bit_int_eq_self) (use assms in simp_all)
  have b: "bit k i = bit k 15" if "15 \<le> i" for i
    using bit_signed_take_bit_iff[of 15 k i] that unfolding k by (simp add: min_absorb1)
  have "mips_simm (encode_i op rs rt (word_of_int k)) = signed_take_bit 15 (mips_imm (encode_i op rs rt (word_of_int k)))"
    by (simp add: mips_simm_def mips_imm_def)
  also have "\<dots> = word_of_int k"
    unfolding encode_i_fields
  proof (rule bit_word_eqI)
    fix i :: nat assume "i < LENGTH(32)"
    then show "bit (signed_take_bit 15 (ucast (word_of_int k :: 16 word)) :: u32) i = bit (word_of_int k :: u32) i"
      using b[of i] by (cases "15 \<le> i") (simp_all add: bit_simps min_absorb1 min_absorb2)
  qed
  finally show ?thesis .
qed

section \<open>What the operands mean\<close>

lemma register_names: "map_of kRegNames s = Some r \<Longrightarrow> r < 32"
proof -
  assume "map_of kRegNames s = Some r"
  then have "r \<in> set (map snd kRegNames)" by (force dest: map_of_SomeD)
  moreover have "\<forall>x\<in>set (map snd kRegNames). x < 32" by (simp add: kRegNames_def)
  ultimately show ?thesis by blast
qed

lemma parse_reg_less: "parse_reg s = Some r \<Longrightarrow> r < 32"
  by (auto simp: parse_reg_def Let_def word_less_alt unsigned_of_int take_bit_int_eq_self dest: register_names split: if_splits option.splits)

lemma take_reg [simp]: "r < 32 \<Longrightarrow> take_bit 5 r = (r :: u32)"
  by (simp add: word_unat_eq_iff unsigned_take_bit_eq take_bit_nat_eq_self word_less_nat_alt)

text \<open>The instructions a statement stands for.\<close>

definition operand_reg :: "Statement \<Rightarrow> nat \<Rightarrow> u32" where
  "operand_reg st i = the (parse_reg (st_args st ! i))"

definition operand_int :: "Statement \<Rightarrow> nat \<Rightarrow> u32" where
  "operand_int st i = word_of_int (the (parse_int64 (st_args st ! i)))"

definition operand_value :: "symbols \<Rightarrow> Statement \<Rightarrow> nat \<Rightarrow> u32" where
  "operand_value symbols st i = the (parse_u32 (st_args st ! i) symbols)"

definition operand_mem :: "Statement \<Rightarrow> nat \<Rightarrow> int \<times> u32" where
  "operand_mem st i = projr (parse_mem_operand (st_args st ! i))"

text \<open>The number of instructions between the base of the text and an address in it.\<close>

definition text_slot :: "u32 \<Rightarrow> u32" where
  "text_slot addr = (addr - kTextBaseByte) div 4"

definition operand_slot :: "symbols \<Rightarrow> Statement \<Rightarrow> nat \<Rightarrow> u32" where
  "operand_slot symbols st i = text_slot (sym_address (the (symbols (st_args st ! i))))"

definition statement_meaning :: "symbols \<Rightarrow> Statement \<Rightarrow> mips list" where
  "statement_meaning symbols st =
     (let op = st_op st; reg = operand_reg st; n = length (st_args st) in
      if op = ''nop'' then [Sll 0 0 0]
      else if op = ''la'' then
        [Lui (reg 0) (operand_value symbols st 1 div 0x10000), Ori (reg 0) (reg 0) (operand_value symbols st 1 mod 0x10000)]
      else if op = ''add'' then [Alu Add (reg 0) (reg 1) (reg 2)]
      else if op = ''sub'' then [Alu Sub (reg 0) (reg 1) (reg 2)]
      else if op = ''and'' then [Alu And (reg 0) (reg 1) (reg 2)]
      else if op = ''or'' then [Alu Or (reg 0) (reg 1) (reg 2)]
      else if op = ''xor'' then [Alu Xor (reg 0) (reg 1) (reg 2)]
      else if op = ''mult'' then [if n = 2 then Alu Mult 0 (reg 0) (reg 1) else Alu Mult (reg 0) (reg 1) (reg 2)]
      else if op = ''sll'' then [Sll (reg 0) (reg 1) (unat (operand_int st 2))]
      else if op = ''srl'' then [Srl (reg 0) (reg 1) (unat (operand_int st 2))]
      else if op = ''aesenc'' then [AesEnc (reg 0) (reg 1) (reg 2)]
      else if op = ''aesdec'' then [AesDec (reg 0)]
      else if op = ''addi'' then [Addi (reg 0) (reg 1) (operand_int st 2)]
      else if op = ''lui'' then [Lui (reg 0) (operand_value symbols st 1)]
      else if op = ''ori'' then [Ori (reg 0) (reg 1) (operand_value symbols st 2)]
      else if op = ''lw'' then [Lw (reg 0) (snd (operand_mem st 1)) (word_of_int (fst (operand_mem st 1)))]
      else if op = ''sw'' then [Sw (reg 0) (snd (operand_mem st 1)) (word_of_int (fst (operand_mem st 1)))]
      else if op = ''beq'' then [Beq (reg 0) (reg 1) (operand_slot symbols st 2 - (text_slot (st_address st) + 1))]
      else if op = ''bne'' then [Bne (reg 0) (reg 1) (operand_slot symbols st 2 - (text_slot (st_address st) + 1))]
      else [Jump (8 + operand_slot symbols st 0 div 4)])"

lemma parse_regs_less:
  "parse_regs3 args = Some (a, b, c) \<Longrightarrow> parse_reg (args ! 0) = Some a \<and> parse_reg (args ! 1) = Some b \<and> parse_reg (args ! 2) = Some c
     \<and> a < 32 \<and> b < 32 \<and> c < 32"
  "parse_regs2 args = Some (a, b) \<Longrightarrow> parse_reg (args ! 0) = Some a \<and> parse_reg (args ! 1) = Some b \<and> a < 32 \<and> b < 32"
  by (auto simp: parse_regs3_def parse_regs2_def parse_reg_less split: option.splits)

lemma parse_mem_bounds:
  "parse_mem_operand e = Inr (off, r) \<Longrightarrow> - 32768 \<le> off \<and> off \<le> 32767 \<and> r < 32"
  by (auto simp: parse_mem_operand_def Let_def not_less parse_reg_less split: if_splits option.splits)

text \<open>A label the assembler accepts as a target, and what the processor makes of it.\<close>

lemma text_label_address:
  assumes "text_label symbols kind name = Inr t"
  shows "\<exists>y. symbols name = Some y \<and> sym_address y = t \<and> sym_section y = Text"
    "kTextBaseByte \<le> t" "(t - kTextBaseByte) mod 16 = 0"
  using assms by (auto simp: text_label_def is_block_aligned_text_addr_def)

lemma text_slot_aligned:
  assumes "kTextBaseByte \<le> t" "(t - kTextBaseByte) mod 16 = 0" "t < 0x10000000"
  shows "unat t = 0x00400000 + 4 * unat (text_slot t)" "unat (text_slot t) mod 4 = 0" "unat (text_slot t) < 0x04000000"
proof -
  have d: "unat (t - kTextBaseByte) = unat t - 0x00400000" using assms(1) by (simp add: unat_sub)
  have "unat ((t - kTextBaseByte) mod 16) = 0" using assms(2) by simp
  then have m: "(unat t - 0x00400000) mod 16 = 0" by (simp add: unat_mod d)
  have s: "unat (text_slot t) = (unat t - 0x00400000) div 4" by (simp add: text_slot_def unat_div d)
  have "0x00400000 \<le> unat t" "unat t < 0x10000000" using assms by (simp_all add: word_le_nat_alt word_less_nat_alt)
  then show "unat t = 0x00400000 + 4 * unat (text_slot t)" "unat (text_slot t) mod 4 = 0" "unat (text_slot t) < 0x04000000"
    using m unfolding s by presburger+
qed

lemma jump_target:
  assumes "kTextBaseByte \<le> t" "(t - kTextBaseByte) mod 16 = 0" "t < 0x10000000"
  shows "computeJumpTargetBlock (encode_j 2 (drop_bit 2 t)) = 8 + text_slot t div 4"
proof -
  note a = text_slot_aligned[OF assms]
  have d: "unat (drop_bit 2 t) = 0x00100000 + unat (text_slot t)" using a(1) by (simp add: drop_bit_eq_div unat_div)
  have "drop_bit 2 t = 0x00100000 + text_slot t"
    by (rule iffD2[OF word_unat_eq_iff]) (use d a(3) in \<open>simp add: unat_word_ariths\<close>)
  moreover have "take_bit 26 (drop_bit 2 t) = drop_bit 2 t"
    using d a(1) assms(3) by (simp add: word_unat_eq_iff unsigned_take_bit_eq take_bit_nat_eq_self word_less_nat_alt)
  moreover have "0x00100000 \<le> drop_bit 2 t" using d by (simp add: word_le_nat_alt)
  moreover have "(32 + text_slot t) div 4 = 8 + text_slot t div 4"
    by (rule iffD2[OF word_unat_eq_iff]) (use a(3) in \<open>simp add: unat_word_ariths unat_div\<close>)
  ultimately show ?thesis
    unfolding computeJumpTargetBlock_def Let_def encode_j_fields by simp
qed

text \<open>The branch offset counts instructions from the one behind the branch.\<close>

lemma branch_offset_value:
  assumes "branch_offset addr t name = Inr off"
  shows "\<exists>k. off = word_of_int k \<and> - 32768 \<le> k \<and> k \<le> 32767 \<and> 4 * k = uint t - (uint addr + 4)"
proof -
  define d where "d = uint t - (uint addr + 4)"
  have "d mod 4 = 0" "off = word_of_int (d div 4)" "- 32768 \<le> d div 4" "d div 4 \<le> 32767"
    using assms by (auto simp: branch_offset_def d_def[symmetric] Let_def not_less split: if_splits)
  moreover have "4 * (d div 4) = d" using calculation(1) by presburger
  ultimately show ?thesis unfolding d_def by blast
qed

lemma uint_text_slot:
  assumes "kTextBaseByte \<le> t" "t mod 4 = 0"
  shows "uint t = 0x00400000 + 4 * uint (text_slot t)"
proof -
  have "uint (t - kTextBaseByte) = uint t - 0x00400000" using assms(1) by (simp add: uint_sub_if' word_le_def)
  moreover have "uint t mod 4 = 0" using arg_cong[OF assms(2), of uint] by (simp add: uint_mod)
  moreover have "uint t \<ge> 0x00400000" using assms(1) by (simp add: word_le_def)
  ultimately show ?thesis unfolding text_slot_def uint_div by simp presburger
qed

lemma branch_slots:
  assumes k: "4 * k = uint t - (uint addr + 4)"
    and t: "kTextBaseByte \<le> t" "t mod 4 = 0" and a: "kTextBaseByte \<le> addr" "addr mod 4 = 0"
  shows "word_of_int k = text_slot t - (text_slot addr + 1)"
proof -
  have "k = uint (text_slot t) - (uint (text_slot addr) + 1)"
    using k uint_text_slot[OF t] uint_text_slot[OF a] by simp
  then show ?thesis by simp
qed

text \<open>The processor's view of a branch that stands at slot \<open>i\<close> of the text, which is loaded at word 32.\<close>

lemma branch_target_block:
  assumes "unat i < 1024" "unat j < 1024"
  shows "computeBranchTargetBlock (32 + i) (j - (i + 1)) = 8 + j div 4"
proof -
  have n: "32 + i + 1 + (j - (i + 1)) = 32 + j" by simp
  have u: "unat (32 + j) = 32 + unat j" using assms(2) by (simp add: unat_word_ariths)
  then have "unat (32 + j) < 2 ^ 31" using assms(2) by simp
  then have "int (unat (32 + j)) < int (2 ^ 31)" by (simp only: of_nat_less_iff)
  then have "int (unat (32 + j)) < 2 ^ 31" by (simp only: of_nat_power of_nat_numeral)
  then have "uint (32 + j) < 2 ^ 31" by (simp only: uint_nat)
  then have "uint (32 + j) div 2 ^ 31 = 0" by (intro div_pos_pos_trivial) simp_all
  then have "\<not> bit (uint (32 + j)) 31" by (simp add: bit_iff_odd)
  then have "\<not> 32 + j <s 0" by (simp add: word_sless_alt sint_uint)
  moreover have "(32 + j) div 4 = 8 + j div 4"
    by (rule iffD2[OF word_unat_eq_iff]) (use u assms(2) in \<open>simp add: unat_word_ariths unat_div\<close>)
  ultimately show ?thesis unfolding computeBranchTargetBlock_def Let_def n by simp
qed

text \<open>The instruction classes, decoded.\<close>

lemma decode_r:
  assumes "rs < 32" "rt < 32" "rd < 32" "sh < 32"
  shows
    "decode_instr (encode_r rs rt rd sh 0x20) = Alu Add rd rs rt" "decode_instr (encode_r rs rt rd sh 0x22) = Alu Sub rd rs rt"
    "decode_instr (encode_r rs rt rd sh 0x24) = Alu And rd rs rt" "decode_instr (encode_r rs rt rd sh 0x25) = Alu Or rd rs rt"
    "decode_instr (encode_r rs rt rd sh 0x26) = Alu Xor rd rs rt" "decode_instr (encode_r rs rt rd sh 0x18) = Alu Mult rd rs rt"
    "decode_instr (encode_r rs rt rd sh 0x00) = Sll rd rt (unat sh)" "decode_instr (encode_r rs rt rd sh 0x02) = Srl rd rt (unat sh)"
    "decode_instr (encode_r rs rt rd sh 0x3A) = AesEnc rd rs rt" "decode_instr (encode_r rs rt rd sh 0x3B) = AesDec rd"
  using assms by (simp_all add: decode_instr_def decode_special_def encode_r_fields Let_def)

lemma decode_i:
  assumes "rs < 32" "rt < 32"
  shows "decode_instr (encode_i 0x0D rs rt imm) = Ori rt rs (ucast imm)" "decode_instr (encode_i 0x0F rs rt imm) = Lui rt (ucast imm)"
    "- 32768 \<le> k \<Longrightarrow> k \<le> 32767 \<Longrightarrow> decode_instr (encode_i 0x08 rs rt (word_of_int k)) = Addi rt rs (word_of_int k)"
    "- 32768 \<le> k \<Longrightarrow> k \<le> 32767 \<Longrightarrow> decode_instr (encode_i 0x23 rs rt (word_of_int k)) = Lw rt rs (word_of_int k)"
    "- 32768 \<le> k \<Longrightarrow> k \<le> 32767 \<Longrightarrow> decode_instr (encode_i 0x2B rs rt (word_of_int k)) = Sw rt rs (word_of_int k)"
    "- 32768 \<le> k \<Longrightarrow> k \<le> 32767 \<Longrightarrow> decode_instr (encode_i 0x04 rs rt (word_of_int k)) = Beq rs rt (word_of_int k)"
    "- 32768 \<le> k \<Longrightarrow> k \<le> 32767 \<Longrightarrow> decode_instr (encode_i 0x05 rs rt (word_of_int k)) = Bne rs rt (word_of_int k)"
  using assms by (simp_all add: decode_instr_def encode_i_fields encode_i_simm Let_def)

lemma decode_j: "decode_instr (encode_j 2 t) = Jump (computeJumpTargetBlock (encode_j 2 t))"
  by (simp add: decode_instr_def encode_j_fields)

section \<open>Mnemonics\<close>

lemma ucast_16: "ucast (ucast x :: 16 word) = take_bit 16 (x :: u32)"
  by (rule bit_word_eqI) (auto simp: bit_simps)

lemma ucast_16_small: "x \<le> 0xFFFF \<Longrightarrow> ucast (ucast x :: 16 word) = (x :: u32)"
  by (simp add: ucast_16 word_unat_eq_iff unsigned_take_bit_eq take_bit_nat_eq_self word_le_nat_alt)

lemma div_half: "x div 0x10000 mod 0x10000 = (x :: u32) div 0x10000" "x mod 0x10000 mod 0x10000 = (x :: u32) mod 0x10000"
proof -
  have "unat x div 0x10000 < 0x10000" using unsigned_less[of x, where ?'a = nat] by (simp add: less_mult_imp_div_less)
  then show "x div 0x10000 mod 0x10000 = x div 0x10000" "x mod 0x10000 mod 0x10000 = x mod 0x10000"
    by (simp_all add: word_unat_eq_iff unat_div unat_mod)
qed

lemma halves:
  "ucast (ucast (drop_bit 16 x AND 0xFFFF) :: 16 word) = (x :: u32) div 0x10000"
  "ucast (ucast (x AND 0xFFFF) :: 16 word) = (x :: u32) mod 0x10000"
  "drop_bit 16 x mod 0x10000 = (x :: u32) div 0x10000"
  unfolding ucast_16 field_masks by (simp_all add: take_bit_eq_mod drop_bit_eq_div div_half)

lemma decode_memory:
  assumes "parse_mem_operand e = Inr (off, rs)" "rt < 32"
  shows "decode_instr (encode_i 0x23 rs rt (word_of_int off)) = Lw rt rs (word_of_int off)"
    "decode_instr (encode_i 0x2B rs rt (word_of_int off)) = Sw rt rs (word_of_int off)"
  using parse_mem_bounds[OF assms(1)] assms(2) by (simp_all add: decode_i)

lemma shift_amount:
  assumes "0 \<le> k" "k \<le> 31"
  shows "word_of_int k < (32 :: u32)"
  using assms by (simp add: word_less_def unsigned_of_int take_bit_int_eq_self)

text \<open>One lemma per group of mnemonics.\<close>

lemmas meaning = encode_instruction_def statement_meaning_def operand_reg_def operand_int_def operand_value_def
  operand_mem_def operand_slot_def Let_def

lemma meaning_alu:
  assumes "encode_instruction st symbols = Inr ws"
    "st_op st \<in> {''nop'', ''add'', ''sub'', ''and'', ''or'', ''xor'', ''mult'', ''aesenc'', ''aesdec''}"
  shows "map decode_instr ws = statement_meaning symbols st"
proof -
  have z: "decode_instr 0 = Sll 0 0 0"
    using decode_r(7)[of 0 0 0 0] by (simp add: encode_r_def)
  show ?thesis using assms(2)
    by (elim insertE emptyE) (use assms(1) in \<open>auto simp: meaning z decode_r parse_reg_less dest!: parse_regs_less split: if_splits\<close>)
qed

lemma meaning_immediate:
  assumes "encode_instruction st symbols = Inr ws"
    "st_op st \<in> {''la'', ''sll'', ''srl'', ''addi'', ''lui'', ''ori'', ''lw'', ''sw''}"
  shows "map decode_instr ws = statement_meaning symbols st"
  using assms(2)
  by (elim insertE emptyE)
    (use assms(1) in \<open>auto simp: meaning halves ucast_16_small decode_memory shift_amount decode_r decode_i parse_reg_less not_less
      dest!: parse_regs_less\<close>)

lemma meaning_control:
  assumes enc: "encode_instruction st symbols = Inr ws" and op: "st_op st \<in> {''beq'', ''bne'', ''j''}"
    and addr: "kTextBaseByte \<le> st_address st" "st_address st mod 4 = 0"
    and labels: "\<And>l y. symbols l = Some y \<Longrightarrow> sym_section y = Text \<Longrightarrow> sym_address y < 0x10000000"
  shows "map decode_instr ws = statement_meaning symbols st"
proof -
  let ?here = "text_slot (st_address st)"
  have label: "\<exists>y. symbols l = Some y \<and> sym_address y = t \<and> kTextBaseByte \<le> t \<and> (t - kTextBaseByte) mod 16 = 0 \<and> t mod 4 = 0
      \<and> t < 0x10000000" if lab: "text_label symbols kind l = Inr t" for kind l t
  proof -
    obtain v where v: "symbols l = Some v" "sym_section v = Text" "sym_address v mod 4 = 0" "kTextBaseByte \<le> sym_address v"
      "(sym_address v - kTextBaseByte) mod 16 = 0" "sym_address v = t"
      using lab unfolding text_label_def need_Inr check_Inr is_block_aligned_text_addr_def is_word_aligned_def not_less sum.inject
      by - (elim exE conjE, rule that)
    show ?thesis using v(3-5) labels[OF v(1,2)] unfolding v(6) by (intro exI[of _ v] conjI) (rule v | assumption)+
  qed
  have off: "\<exists>k. off = word_of_int k \<and> - 32768 \<le> k \<and> k \<le> 32767 \<and> word_of_int k = text_slot t - (?here + 1)"
    if "branch_offset (st_address st) t name = Inr off" "kTextBaseByte \<le> t" "t mod 4 = 0" for name t off
    using branch_offset_value[OF that(1)] branch_slots[OF _ that(2,3) addr] by blast
  have br: "decode_instr (encode_i 0x04 rs rt off) = Beq rs rt (text_slot t - (?here + 1))"
    "decode_instr (encode_i 0x05 rs rt off) = Bne rs rt (text_slot t - (?here + 1))"
    if "branch_offset (st_address st) t name = Inr off" "text_label symbols kind l = Inr t" "rs < 32" "rt < 32" for rs rt name kind l t off
  proof -
    have "kTextBaseByte \<le> t" "t mod 4 = 0" using label[OF that(2)] by blast+
    from off[OF that(1) this] obtain k where "off = word_of_int k" "- 32768 \<le> k" "k \<le> 32767"
      "word_of_int k = text_slot t - (?here + 1)" by blast
    then show "decode_instr (encode_i 0x04 rs rt off) = Beq rs rt (text_slot t - (?here + 1))"
      "decode_instr (encode_i 0x05 rs rt off) = Bne rs rt (text_slot t - (?here + 1))"
      using that(3,4) by (simp_all add: decode_i)
  qed
  have slot: "text_slot (sym_address (the (symbols l))) = text_slot t" if "text_label symbols kind l = Inr t" for kind l t
    using label[OF that] by auto
  have jump: "decode_instr (encode_j 2 (drop_bit 2 t)) = Jump (8 + text_slot t div 4)"
    if "text_label symbols kind l = Inr t" for kind l t
  proof -
    have "kTextBaseByte \<le> t" "(t - kTextBaseByte) mod 16 = 0" "t < 0x10000000" using label[OF that] by blast+
    from jump_target[OF this] show ?thesis by (simp only: decode_j)
  qed
  from op show ?thesis
    by (elim insertE emptyE) (use enc in \<open>auto simp: meaning br jump slot dest!: parse_regs_less\<close>)
qed

text \<open>Every mnemonic the assembler accepts is in one of the groups.\<close>

lemma accepted_mnemonics:
  assumes "encode_instruction st symbols = Inr ws"
  shows "st_op st \<in> {''nop'', ''add'', ''sub'', ''and'', ''or'', ''xor'', ''mult'', ''aesenc'', ''aesdec''}
    \<union> {''la'', ''sll'', ''srl'', ''addi'', ''lui'', ''ori'', ''lw'', ''sw''} \<union> {''beq'', ''bne'', ''j''}"
  by (rule ccontr) (use assms in \<open>simp add: encode_instruction_def Let_def\<close>)

lemma encode_length: "encode_instruction st symbols = Inr ws \<Longrightarrow> length ws = instruction_word_count (st_op st)"
  by (auto simp: encode_instruction_def instruction_word_count_def Let_def split: if_splits)

end
