(* ===== verification/Assembler_Layout.thy ===== *)
theory Assembler_Layout
  imports Assembler_Encoding
begin

text \<open>
  The layout of the sections. \<open>laid_out\<close> is the invariant of the first pass: the address of every
  statement is the end of what stands before it in its section, the address of every label that of
  the next statement of its section. The second pass emits exactly as many words per statement, so
  instructions stand in the output where the first pass said they would.
\<close>

section \<open>The layout of the sections\<close>

definition words_in :: "Section \<Rightarrow> Statement \<Rightarrow> nat" where
  "words_in sec st =
     (if st_section st \<noteq> sec then 0
      else if \<not> st_is_directive st then instruction_word_count (st_op st)
      else if st_op st = ''.word'' then length (st_args st)
      else if st_op st = ''.space'' then unat (the (parse_space (st_args st ! 0))) div 4
      else 0)"

definition extent :: "Section \<Rightarrow> Statement list \<Rightarrow> nat" where
  "extent sec sts = sum_list (map (words_in sec) sts)"

lemma extent_simps [simp]:
  "extent sec [] = 0" "extent sec (st # sts) = words_in sec st + extent sec sts"
  "extent sec (sts @ sts') = extent sec sts + extent sec sts'"
  by (simp_all add: extent_def)

definition slot_addr :: "Section \<Rightarrow> nat \<Rightarrow> u32" where
  "slot_addr sec k = (if sec = Data then kDataBaseByte else kTextBaseByte) + 4 * of_nat k"

definition section_addr :: "first_state \<Rightarrow> Section \<Rightarrow> u32" where
  "section_addr s sec = (if sec = Data then fp_data_addr s else fp_text_addr s)"

lemma section_addr_simps [simp]:
  "section_addr (s\<lparr>fp_section := x\<rparr>) = section_addr s" "section_addr (s\<lparr>fp_symbols := f\<rparr>) = section_addr s"
  "section_addr (s\<lparr>fp_statements := sts\<rparr>) = section_addr s"
  by (simp_all add: fun_eq_iff section_addr_def)

lemma find_app: "find P (xs @ ys) = (case find P xs of None \<Rightarrow> find P ys | Some x \<Rightarrow> Some x)"
  by (induction xs) simp_all

lemma current: "current_addr s = section_addr s (fp_section s)"
  by (simp add: current_addr_def section_addr_def)

text \<open>The first statement of a label's section at or behind the label's line.\<close>

definition labelled :: "Symbol \<Rightarrow> Statement list \<Rightarrow> Statement option" where
  "labelled y = find (\<lambda>st. st_section st = sym_section y \<and> sym_line_no y \<le> st_line_no st)"

definition laid_out :: "nat \<Rightarrow> first_state \<Rightarrow> bool" where
  "laid_out n s \<longleftrightarrow>
     (\<forall>sec. sec \<noteq> NoSection \<longrightarrow> section_addr s sec = slot_addr sec (extent sec (fp_statements s)))
     \<and> (\<forall>xs st ys. fp_statements s = xs @ st # ys \<longrightarrow>
          st_section st \<noteq> NoSection \<and> st_line_no st < n \<and> (\<not> st_is_directive st \<longrightarrow> st_section st = Text)
          \<and> st_address st = slot_addr (st_section st) (extent (st_section st) xs))
     \<and> (\<forall>l y. fp_symbols s l = Some y \<longrightarrow> sym_section y \<noteq> NoSection \<and> sym_line_no y \<le> n
          \<and> sym_address y = (case labelled y (fp_statements s) of
              None \<Rightarrow> section_addr s (sym_section y) | Some st \<Rightarrow> st_address st))"

lemma laid_out_mono: "laid_out n s \<Longrightarrow> n \<le> m \<Longrightarrow> laid_out m s"
  unfolding laid_out_def by (meson le_trans less_le_trans)

lemma laid_out_section [simp]: "laid_out n (s\<lparr>fp_section := sec\<rparr>) = laid_out n s"
  unfolding laid_out_def section_addr_simps by simp

lemma take_labels_laid_out:
  "take_labels n line s = Inr (line', t) \<Longrightarrow> laid_out n s \<Longrightarrow>
     laid_out n t \<and> fp_section t = fp_section s \<and> fp_statements t = fp_statements s"
proof (induction n line s rule: take_labels.induct)
  case (1 n line s)
  show ?case
  proof (cases "label_end line")
    case None
    then show ?thesis using 1 by (simp add: take_labels.simps[of n line])
  next
    case (Some colon)
    let ?label = "trim (take colon line)"
    let ?y = "\<lparr>sym_address = current_addr s, sym_section = fp_section s, sym_line_no = n\<rparr>"
    let ?s = "s\<lparr>fp_symbols := (fp_symbols s)(?label \<mapsto> ?y)\<rparr>"
    have ok: "is_identifier ?label" "fp_symbols s ?label = None" "fp_section s \<noteq> NoSection"
      using 1(2) Some by (auto simp: take_labels.simps[of n line] Let_def split: if_splits)
    have "labelled ?y (fp_statements s) = None"
      using 1(3) split_list[of _ "fp_statements s"] by (fastforce simp: labelled_def find_None_iff laid_out_def)
    then have "laid_out n ?s"
      using 1(3) ok(3) unfolding laid_out_def section_addr_simps by (auto simp: current)
    then show ?thesis
      using 1(1)[OF Some refl] 1(2) Some ok by (auto simp: take_labels.simps[of n line] Let_def split: if_splits)
  qed
qed

text \<open>One statement with the words it takes.\<close>

lemma laid_out_statement:
  fixes op :: string and args :: "string list"
  assumes inv: "laid_out n s" and sec: "fp_section s \<noteq> NoSection" "\<not> directive \<longrightarrow> fp_section s = Text"
  defines "st \<equiv> \<lparr>st_section = fp_section s, st_is_directive = directive, st_address = current_addr s, st_line_no = n,
           st_op = op, st_args = args\<rparr>"
  assumes t: "fp_statements t = fp_statements s @ [st]" "fp_symbols t = fp_symbols s"
    "section_addr t (fp_section s) = current_addr s + 4 * of_nat (words_in (fp_section s) st)"
    "\<And>sec. sec \<noteq> NoSection \<Longrightarrow> sec \<noteq> fp_section s \<Longrightarrow> section_addr t sec = section_addr s sec"
  shows "laid_out (n + 1) t"
proof -
  note cur = current[of s]
  have w: "words_in sec' st = 0" if "sec' \<noteq> fp_section s" for sec' using that by (simp add: words_in_def st_def)
  note i = inv[unfolded laid_out_def]
  have a: "section_addr t sec' = slot_addr sec' (extent sec' (fp_statements t))" if "sec' \<noteq> NoSection" for sec'
    using i that sec t(3,4)[unfolded cur] w[of sec'] by (cases "sec' = fp_section s") (simp_all add: t(1) slot_addr_def algebra_simps)
  have b: "st_section x \<noteq> NoSection \<and> st_line_no x < n + 1 \<and> (\<not> st_is_directive x \<longrightarrow> st_section x = Text)
      \<and> st_address x = slot_addr (st_section x) (extent (st_section x) xs)" if "fp_statements t = xs @ x # ys" for xs x ys
  proof (cases ys rule: rev_cases)
    case Nil
    then have "x = st" "xs = fp_statements s" using that by (simp_all add: t(1))
    then show ?thesis using sec i by (simp add: st_def cur)
  next
    case (snoc zs z)
    then have "fp_statements s = xs @ x # zs" using that by (simp add: t(1))
    then show ?thesis using i less_SucI by (metis Suc_eq_plus1)
  qed
  have c: "sym_section y \<noteq> NoSection \<and> sym_line_no y \<le> n + 1 \<and> sym_address y = (case labelled y (fp_statements t) of
      None \<Rightarrow> section_addr t (sym_section y) | Some st \<Rightarrow> st_address st)" if "fp_symbols t l = Some y" for l y
  proof -
    have y: "sym_section y \<noteq> NoSection" "sym_line_no y \<le> n" "sym_address y = (case labelled y (fp_statements s) of
      None \<Rightarrow> section_addr s (sym_section y) | Some st \<Rightarrow> st_address st)"
      using i that by (simp_all add: t(2))
    show ?thesis
    proof (cases "labelled y (fp_statements s)")
      case (Some z)
      then have "labelled y (fp_statements t) = Some z" by (simp add: labelled_def t(1) find_app)
      then show ?thesis using y Some by simp
    next
      case None
      then have l: "labelled y (fp_statements t) = (if sym_section y = fp_section s then Some st else None)"
        using y(2) by (auto simp: labelled_def t(1) find_app st_def)
      show ?thesis
      proof (cases "sym_section y = fp_section s")
        case True
        then show ?thesis using y None l by (simp add: st_def cur)
      next
        case False
        then show ?thesis using y None l t(4) by simp
      qed
    qed
  qed
  show ?thesis unfolding laid_out_def using a b c by blast
qed

section \<open>The first pass keeps the layout\<close>

lemma checked_add_Some [simp]: "checked_add_u32 a b = Some c \<longleftrightarrow> \<not> a > 0xFFFFFFFF - b \<and> c = a + b"
  by (auto simp: checked_add_u32_def)

lemma reserve_shape:
  assumes "reserve n b s = Inr t" "fp_section s \<noteq> NoSection"
  shows "fp_statements t = fp_statements s" "fp_symbols t = fp_symbols s"
    "section_addr t (fp_section s) = section_addr s (fp_section s) + b"
    "sec \<noteq> NoSection \<Longrightarrow> sec \<noteq> fp_section s \<Longrightarrow> section_addr t sec = section_addr s sec"
proof -
  have "fp_section s = Data \<or> fp_section s = Text" using assms(2) by (cases "fp_section s") simp_all
  then show "fp_statements t = fp_statements s" "fp_symbols t = fp_symbols s"
    "section_addr t (fp_section s) = section_addr s (fp_section s) + b"
    "sec \<noteq> NoSection \<Longrightarrow> sec \<noteq> fp_section s \<Longrightarrow> section_addr t sec = section_addr s sec"
    using assms(1) by (cases sec; auto simp: reserve_def section_addr_def split: if_splits)+
qed

lemma whole_words:
  assumes "4 dvd (b :: u32)" shows "of_nat (unat b div 4) * 4 = b"
proof -
  obtain k where "b = 4 * k" using assms by (rule dvdE)
  then have "unat b = 4 * unat k mod 2 ^ 32" by (simp add: unat_word_ariths)
  then have "unat b mod 4 = 4 * unat k mod 4" by (simp add: mod_mod_cancel)
  then have "unat b mod 4 = 0" by simp
  then have "unat b = unat b div 4 * 4" by presburger
  then have "of_nat (unat b div 4 * 4) = (of_nat (unat b) :: u32)" by simp
  then show ?thesis by simp
qed

lemma first_directive_laid_out:
  assumes d: "first_directive n op args s = Inr t" and inv: "laid_out n s"
  shows "laid_out (n + 1) t"
proof -
  let ?st = "\<lambda>s. \<lparr>st_section = fp_section s, st_is_directive = True, st_address = current_addr s, st_line_no = n,
           st_op = op, st_args = args\<rparr>"
  have zero: "laid_out (n + 1) (add_statement n op args True u)"
    if "laid_out n u" "fp_section u \<noteq> NoSection" "words_in (fp_section u) (?st u) = 0" for u
    by (rule laid_out_statement[OF that(1,2), where directive = True and op = op and args = args])
      (use that(3) in \<open>simp_all add: add_statement_def current\<close>)
  have some: "laid_out (n + 1) t"
    if "laid_out n u" "fp_section u \<noteq> NoSection" "reserve n b (add_statement n op args True u) = Inr t"
      "of_nat (words_in (fp_section u) (?st u)) * 4 = b" for u b
  proof -
    let ?a = "add_statement n op args True u"
    have sa: "fp_section ?a = fp_section u" "section_addr ?a = section_addr u" by (simp_all add: add_statement_def)
    note r = reserve_shape[OF that(3), unfolded sa, OF that(2)]
    show ?thesis
      by (rule laid_out_statement[OF that(1,2), where directive = True and op = op and args = args])
        (use r that(4) in \<open>simp_all add: add_statement_def current mult.commute\<close>)
  qed
  consider "op = ''.data''" | "op = ''.text''" | "op = ''.globl''" | "op = ''.word''" | "op = ''.space''"
    using d by (auto simp: first_directive_def Let_def split: if_splits)
  then show ?thesis
  proof cases
    case 1
    then show ?thesis using d zero[of "s\<lparr>fp_section := Data\<rparr>"] inv by (auto simp: first_directive_def words_in_def)
  next
    case 2
    then show ?thesis using d zero[of "s\<lparr>fp_section := Text\<rparr>"] inv by (auto simp: first_directive_def words_in_def)
  next
    case 3
    then show ?thesis using d zero[of s] inv by (auto simp: first_directive_def words_in_def)
  next
    case 4
    then show ?thesis using d some[of s] inv by (auto simp: first_directive_def words_in_def Let_def)
  next
    case 5
    then show ?thesis using d some[of s] inv by (auto simp: first_directive_def words_in_def Let_def whole_words)
  qed
qed

lemma data_section: "sec \<noteq> NoSection \<Longrightarrow> sec \<noteq> Text \<Longrightarrow> sec = Data"
  by (cases sec) simp_all

lemma first_line_laid_out:
  assumes l: "first_line n raw s = Inr t" and inv: "laid_out n s"
  shows "laid_out (n + 1) t"
proof -
  let ?line = "trim (strip_comment raw)"
  have same: "laid_out (n + 1) u" if "laid_out n u" for u using that laid_out_mono by fastforce
  show ?thesis
  proof (cases "?line = []")
    case True
    then show ?thesis using l same[OF inv] by (simp add: first_line_def)
  next
    case False
    then obtain line u where lu: "take_labels n ?line s = Inr (line, u)"
      "(if line = [] then Inr u else case parse_op_and_args line of None \<Rightarrow> Inr u
        | Some (op, args) \<Rightarrow> if op \<noteq> [] \<and> hd op = CHR ''.'' then first_directive n op args u
            else check (fp_section u = Text) (line_error n ''instruction outside .text section'') (
              let s = add_statement n op args False u in
              need (checked_add_u32 (fp_text_addr s) (of_nat (instruction_word_count op) * 4))
                (line_error n ''text address overflow'') (\<lambda>a. Inr (s\<lparr>fp_text_addr := a\<rparr>)))) = Inr t"
      using l by (auto simp: first_line_def Let_def)
    have u: "laid_out n u" using take_labels_laid_out[OF lu(1) inv] by blast
    show ?thesis
    proof (cases "line = [] \<or> parse_op_and_args line = None")
      case True
      then show ?thesis using lu(2) same[OF u] by (auto split: if_splits)
    next
      case False
      then obtain op args where oa: "parse_op_and_args line = Some (op, args)" "line \<noteq> []" by auto
      show ?thesis
      proof (cases "op \<noteq> [] \<and> hd op = CHR ''.''")
        case True
        then have "first_directive n op args u = Inr t" using lu(2) oa by simp
        then show ?thesis by (rule first_directive_laid_out[OF _ u])
      next
        case False
        then have t: "fp_section u = Text" "t = (add_statement n op args False u)
            \<lparr>fp_text_addr := fp_text_addr u + of_nat (instruction_word_count op) * 4\<rparr>"
          using lu(2) oa by (auto simp: Let_def add_statement_def)
        show ?thesis
          by (rule laid_out_statement[OF u, where directive = False and op = op and args = args])
            (use t(1) in \<open>auto simp: t(2) add_statement_def words_in_def section_addr_def current_addr_def mult.commute dest: data_section\<close>)
      qed
    qed
  qed
qed

lemma first_lines_laid_out:
  "first_lines n raws s = Inr t \<Longrightarrow> laid_out n s \<Longrightarrow> laid_out (n + length raws) t"
proof (induction raws arbitrary: n s)
  case (Cons raw raws)
  then show ?case using first_line_laid_out by fastforce
qed simp

lemma first_pass_laid_out:
  assumes "first_pass contents = Inr s"
  shows "laid_out (1 + length (file_lines contents)) s"
  by (rule first_lines_laid_out[OF assms[unfolded first_pass_def]]) (simp add: laid_out_def section_addr_def slot_addr_def)

section \<open>The emitted words\<close>

lemma second_append:
  "second_statements (xs @ ys) symbols s = and_then (second_statements xs symbols s) (\<lambda>s. second_statements ys symbols s)"
  by (induction xs arbitrary: s) (simp_all add: and_then_def split: sum.split)

lemma emit_words_text:
  "emit_words st symbols args s = Inr t \<Longrightarrow> \<exists>ws. sp_text_words t = sp_text_words s @ ws
     \<and> length ws = (if st_section st = Text then length args else 0)"
proof (induction args arbitrary: s)
  case (Cons arg args)
  then show ?case by (fastforce split: if_splits)
qed simp

lemma second_statement_text:
  assumes "second_statement st symbols s = Inr t" "\<not> st_is_directive st \<longrightarrow> st_section st = Text"
  shows "\<exists>ws. sp_text_words t = sp_text_words s @ ws \<and> length ws = words_in Text st
     \<and> (\<not> st_is_directive st \<longrightarrow> encode_instruction st symbols = Inr ws)"
proof (cases "st_is_directive st")
  case False
  then show ?thesis using assms encode_length by (auto simp: second_statement_def words_in_def)
next
  case True
  then consider "st_op st \<in> {''.data'', ''.text'', ''.globl''}" | "st_op st = ''.word''" | "st_op st = ''.space''"
    using assms(1) by (auto simp: second_statement_def split: if_splits)
  then show ?thesis
  proof cases
    case 2
    then show ?thesis using True assms(1) emit_words_text[of st symbols "st_args st" s t]
      by (auto simp: second_statement_def words_in_def)
  next
    case 3
    then show ?thesis using True assms(1) by (auto simp: second_statement_def words_in_def unat_div split: if_splits)
  qed (use True assms(1) in \<open>auto simp: second_statement_def words_in_def\<close>)
qed

lemma second_statements_text:
  assumes "second_statements sts symbols s = Inr t" "\<forall>st\<in>set sts. \<not> st_is_directive st \<longrightarrow> st_section st = Text"
  shows "\<exists>ws. sp_text_words t = sp_text_words s @ ws \<and> length ws = extent Text sts"
  using assms
proof (induction sts arbitrary: s)
  case (Cons st sts)
  then obtain u where u: "second_statement st symbols s = Inr u" "second_statements sts symbols u = Inr t" by auto
  obtain ws where "sp_text_words u = sp_text_words s @ ws" "length ws = words_in Text st"
    using second_statement_text[OF u(1)] Cons.prems(2) by auto
  moreover obtain ws' where "sp_text_words t = sp_text_words u @ ws'" "length ws' = extent Text sts"
    using Cons.IH[OF u(2)] Cons.prems(2) by auto
  ultimately show ?case by (intro exI[of _ "ws @ ws'"]) simp
qed simp

text \<open>Every instruction stands where the first pass placed it.\<close>

lemma instruction_placed:
  assumes "second_statements (xs @ st # ys) symbols s = Inr t" "\<not> st_is_directive st" "sp_text_words s = []"
    and "\<forall>st\<in>set (xs @ st # ys). \<not> st_is_directive st \<longrightarrow> st_section st = Text"
  shows "\<exists>ws. encode_instruction st symbols = Inr ws \<and> length ws = instruction_word_count (st_op st)
     \<and> take (length ws) (drop (extent Text xs) (sp_text_words t)) = ws
     \<and> extent Text xs + length ws \<le> length (sp_text_words t)"
proof -
  obtain u v where uv: "second_statements xs symbols s = Inr u" "second_statement st symbols u = Inr v"
    "second_statements ys symbols v = Inr t"
    using assms(1) by (auto simp: second_append)
  obtain a where a: "sp_text_words u = a" "length a = extent Text xs"
    using second_statements_text[OF uv(1)] assms(3,4) by auto
  obtain ws where ws: "sp_text_words v = a @ ws" "encode_instruction st symbols = Inr ws"
    using second_statement_text[OF uv(2)] assms(2,4) a(1) by auto
  obtain b where "sp_text_words t = a @ ws @ b"
    using second_statements_text[OF uv(3)] assms(4) ws(1) by auto
  then show ?thesis using a(2) ws(2) encode_length[OF ws(2)] by simp
qed

end
