(* ===== verification/Assembler_Properties.thy ===== *)
theory Assembler_Properties
  imports Assembler_Layout
begin

text \<open>
  What an accepted source program becomes: every statement is assembled as it reads, and branches and
  jumps lead to their labels on the processor.
\<close>

section \<open>Assembled programs\<close>

text \<open>What an accepted program satisfies, from both passes.\<close>

lemma assembled:
  assumes s: "first_pass contents = Inr s" and o: "second_pass (fp_statements s) (fp_symbols s) = Inr (tw, dw)"
    and v: "validate_output_size tw dw = None"
  shows "length tw = extent Text (fp_statements s)" "length tw \<le> 992" "0 < length tw"
    "st \<in> set (fp_statements s) \<Longrightarrow> \<not> st_is_directive st \<Longrightarrow> \<exists>k ws. st_address st = slot_addr Text k
      \<and> encode_instruction st (fp_symbols s) = Inr ws \<and> length ws = instruction_word_count (st_op st)
      \<and> take (length ws) (drop k tw) = ws \<and> k + length ws \<le> length tw"
    "fp_symbols s l = Some y \<Longrightarrow> sym_section y = Text \<Longrightarrow>
       sym_address y = (case labelled y (fp_statements s) of None \<Rightarrow> slot_addr Text (length tw) | Some st \<Rightarrow> st_address st)
       \<and> (\<exists>k\<le>length tw. sym_address y = slot_addr Text k)"
proof -
  have i: "laid_out (1 + length (file_lines contents)) s" by (rule first_pass_laid_out[OF s])
  note inv = i[unfolded laid_out_def]
  let ?init = "\<lparr>sp_text_words = [], sp_data_map = Map.empty, sp_data_cursor = kDataBaseByte\<rparr>"
  obtain t where t: "second_statements (fp_statements s) (fp_symbols s) ?init = Inr t" "sp_text_words t = tw"
    using o by (auto simp: second_pass_def)
  have only_text: "\<forall>st\<in>set (fp_statements s). \<not> st_is_directive st \<longrightarrow> st_section st = Text"
    using inv by (meson split_list)
  show len: "length tw = extent Text (fp_statements s)" using second_statements_text[OF t(1) only_text] t(2) by auto
  show "0 < length tw" "length tw \<le> 992"
    using v by (auto simp: validate_output_size_def align_words_to_crypto_block_def Let_def split: if_splits)
  show "\<exists>k ws. st_address st = slot_addr Text k
      \<and> encode_instruction st (fp_symbols s) = Inr ws \<and> length ws = instruction_word_count (st_op st)
      \<and> take (length ws) (drop k tw) = ws \<and> k + length ws \<le> length tw"
    if st: "st \<in> set (fp_statements s)" "\<not> st_is_directive st" for st
  proof -
    obtain xs ys where x: "fp_statements s = xs @ st # ys" using st(1) by (meson split_list)
    then have "st_section st = Text" "st_address st = slot_addr (st_section st) (extent (st_section st) xs)"
      using inv st(2) by blast+
    then show ?thesis
      using instruction_placed[OF t(1)[unfolded x] st(2)] only_text t(2) unfolding x by auto
  qed
  have pos: "\<exists>k\<le>length tw. st_address st = slot_addr Text k" if st: "st \<in> set (fp_statements s)" "st_section st = Text" for st
  proof -
    obtain xs ys where x: "fp_statements s = xs @ st # ys" using st(1) by (meson split_list)
    then have "st_address st = slot_addr Text (extent Text xs)" using inv st(2) by metis
    then show ?thesis using len x by (intro exI[of _ "extent Text xs"]) simp
  qed
  show "sym_address y = (case labelled y (fp_statements s) of None \<Rightarrow> slot_addr Text (length tw) | Some st \<Rightarrow> st_address st)
       \<and> (\<exists>k\<le>length tw. sym_address y = slot_addr Text k)"
    if "fp_symbols s l = Some y" "sym_section y = Text" for l y
  proof -
    have y: "sym_address y = (case labelled y (fp_statements s) of
        None \<Rightarrow> section_addr s (sym_section y) | Some st \<Rightarrow> st_address st)" using inv that by blast
    have a: "section_addr s Text = slot_addr Text (length tw)" using inv len by simp
    show ?thesis
    proof (cases "labelled y (fp_statements s)")
      case None
      then show ?thesis using y a that(2) by auto
    next
      case (Some st)
      then have "st \<in> set (fp_statements s)" "st_section st = Text"
        using that(2) by (auto simp: labelled_def find_Some_iff)
      then show ?thesis using y Some pos by simp
    qed
  qed
qed

lemma slot_addr_text:
  assumes "k \<le> 992"
  shows "text_slot (slot_addr Text k) = of_nat k" "unat (text_slot (slot_addr Text k)) = k" "kTextBaseByte \<le> slot_addr Text k"
    "slot_addr Text k mod 4 = 0" "slot_addr Text k < 0x10000000"
proof -
  have u: "unat (slot_addr Text k) = 0x00400000 + 4 * k" using assms by (simp add: slot_addr_def unat_word_ariths unat_of_nat)
  show "kTextBaseByte \<le> slot_addr Text k" "slot_addr Text k < 0x10000000"
    using u assms by (simp_all add: word_le_nat_alt word_less_nat_alt)
  have "unat (slot_addr Text k mod 4) = (0x00400000 + 4 * k) mod 4" by (simp only: unat_mod u) simp
  also have "\<dots> = 0" by presburger
  finally show "slot_addr Text k mod 4 = 0" by (simp add: unat_eq_zero)
  show k: "unat (text_slot (slot_addr Text k)) = k"
    using assms by (simp add: text_slot_def slot_addr_def unat_div unat_word_ariths unat_of_nat)
  show "text_slot (slot_addr Text k) = of_nat k"
    by (rule iffD2[OF word_unat_eq_iff]) (use k assms in \<open>simp add: unat_of_nat\<close>)
qed

lemma assembled_meaning:
  assumes a: "first_pass contents = Inr s" "second_pass (fp_statements s) (fp_symbols s) = Inr (tw, dw)"
    "validate_output_size tw dw = None"
    and st: "st \<in> set (fp_statements s)" "\<not> st_is_directive st"
  defines "k \<equiv> unat (text_slot (st_address st))" and "n \<equiv> instruction_word_count (st_op st)"
  shows "k + n \<le> length tw" "map decode_instr (take n (drop k tw)) = statement_meaning (fp_symbols s) st"
    "st_address st = slot_addr Text k"
proof -
  note as = assembled[OF a]
  obtain i ws where i: "st_address st = slot_addr Text i" "encode_instruction st (fp_symbols s) = Inr ws" "length ws = n"
    "take (length ws) (drop i tw) = ws" "i + length ws \<le> length tw"
    using as(4)[OF st] unfolding n_def by blast
  note sl = slot_addr_text[of i]
  have k: "k = i" using sl(2) i(5) as(2) by (simp add: k_def i(1))
  show "k + n \<le> length tw" "st_address st = slot_addr Text k" using i k by simp_all
  have lab: "sym_address y < 0x10000000" if ly: "fp_symbols s l = Some y" "sym_section y = Text" for l y
  proof -
    obtain j where "j \<le> length tw" "sym_address y = slot_addr Text j" using as(5)[OF ly] by blast
    then show ?thesis using slot_addr_text(5)[of j] as(2) by simp
  qed
  have "i \<le> 992" using i(5) as(2) by simp
  then have a: "kTextBaseByte \<le> st_address st" "st_address st mod 4 = 0" using sl(3,4) by (simp_all only: i(1))
  have "map decode_instr ws = statement_meaning (fp_symbols s) st"
    using accepted_mnemonics[OF i(2)]
  proof (elim UnE)
    show ?thesis if "st_op st \<in> {''beq'', ''bne'', ''j''}" by (rule meaning_control[OF i(2) that a]) (rule lab)
  qed (rule meaning_alu[OF i(2)] meaning_immediate[OF i(2)], assumption)+
  then show "map decode_instr (take n (drop k tw)) = statement_meaning (fp_symbols s) st" using i(3,4) k by simp
qed

lemma control_operands:
  assumes "encode_instruction st symbols = Inr ws" "st_op st \<in> {''beq'', ''bne'', ''j''}"
  shows "last (st_args st) = st_args st ! (if st_op st = ''j'' then 0 else 2)" "instruction_word_count (st_op st) = 1"
    "\<exists>kind t. text_label symbols kind (last (st_args st)) = Inr t"
proof -
  have "length (st_args st) = (if st_op st = ''j'' then 1 else 3)
      \<and> (\<exists>kind t. text_label symbols kind (st_args st ! (if st_op st = ''j'' then 0 else 2)) = Inr t)"
    using assms(2) by (elim insertE emptyE) (use assms(1) in \<open>auto simp: encode_instruction_def Let_def\<close>)
  moreover from this have "last (st_args st) = st_args st ! (if st_op st = ''j'' then 0 else 2)"
    by (subst last_conv_nth) (auto split: if_splits)
  moreover show "instruction_word_count (st_op st) = 1" using assms(2) by (auto simp: instruction_word_count_def)
  ultimately show "last (st_args st) = st_args st ! (if st_op st = ''j'' then 0 else 2)"
    "\<exists>kind t. text_label symbols kind (last (st_args st)) = Inr t" by auto
qed

lemma halves_join: "push_bit 16 (a div 0x10000) OR a mod 0x10000 = (a :: u32)"
proof -
  have d: "a div 0x10000 = drop_bit 16 a" "a mod 0x10000 = take_bit 16 a" by (simp_all add: drop_bit_eq_div take_bit_eq_mod)
  show ?thesis unfolding d by (rule bit_word_eqI) (auto simp: bit_simps)
qed

section \<open>Properties\<close>

text \<open>
  C12: An accepted source is assembled as it reads. Every instruction stands in the text words at
  the slot of the address the first pass gave it and decodes, with the decoder of the processor, to
  what the statement means; every text label has the address of the first text statement at or
  behind its line, or that of the end of the text; and the text has between 1 and 992 words.
\<close>

theorem assembled_program:
  assumes "first_pass contents = Inr s" "second_pass (fp_statements s) (fp_symbols s) = Inr (tw, dw)"
    and "validate_output_size tw dw = None"
  shows "0 < length tw \<and> length tw \<le> 992
    \<and> (\<forall>st\<in>set (fp_statements s). \<not> st_is_directive st \<longrightarrow>
         (let k = unat (text_slot (st_address st)); n = instruction_word_count (st_op st)
          in k + n \<le> length tw \<and> map decode_instr (take n (drop k tw)) = statement_meaning (fp_symbols s) st))
    \<and> (\<forall>l y. fp_symbols s l = Some y \<and> sym_section y = Text \<longrightarrow>
         sym_address y = (case labelled y (fp_statements s) of
           None \<Rightarrow> kTextBaseByte + 4 * of_nat (length tw) | Some st \<Rightarrow> st_address st))"
  using assembled(2,3)[OF assms] assembled_meaning(1,2)[OF assms] assembled(5)[OF assms]
  by (auto simp: Let_def slot_addr_def split: option.splits)

text \<open>
  C13: A branch or jump of an accepted source leads to its label on the processor. With the text
  loaded at block 8, the word at the slot of the statement decodes to a jump to the label's block or
  to a branch whose target, computed from its own position, is the label's block, and the label is
  the first instruction of that block. A taken branch goes there unless that is the block where
  execution continues anyway, in which case it falls through.
\<close>

theorem assembled_branch:
  assumes "first_pass contents = Inr s" "second_pass (fp_statements s) (fp_symbols s) = Inr (tw, dw)"
    and "validate_output_size tw dw = None" "st \<in> set (fp_statements s)" "\<not> st_is_directive st"
    and "st_op st \<in> {''beq'', ''bne'', ''j''}" "fp_symbols s (last (st_args st)) = Some y"
  defines "i \<equiv> unat (text_slot (st_address st))" and "target \<equiv> 8 + text_slot (sym_address y) div 4"
  shows "unat (text_slot (sym_address y)) mod 4 = 0 \<and>
    (if st_op st = ''j'' then decode_instr (tw ! i) = Jump target
     else \<exists>rs rt off. (decode_instr (tw ! i) = Beq rs rt off \<or> decode_instr (tw ! i) = Bne rs rt off) \<and>
       (let p = (8 + of_nat (i div 4), i mod 4)
        in branch_to M p off = (if target = fst (advance p) then advance p else enter M target)))"
proof -
  let ?a = "st_address st" and ?j = "text_slot (sym_address y)"
  note m = assembled_meaning[OF assms(1-5), folded i_def]
  obtain ws where enc: "encode_instruction st (fp_symbols s) = Inr ws" using assembled(4)[OF assms(1-5)] by blast
  note c = control_operands[OF enc assms(6)]
  obtain kind t where "text_label (fp_symbols s) kind (last (st_args st)) = Inr t" using c(3) by blast
  note lab = text_label_address[OF this]
  have y: "sym_address y = t" "sym_section y = Text" using lab(1) assms(7) by auto
  obtain j where "j \<le> length tw" "sym_address y = slot_addr Text j" using assembled(5)[OF assms(1-3,7) y(2)] by blast
  then have j: "unat ?j < 1024" "t < 0x10000000" using slot_addr_text[of j] assembled(2)[OF assms(1-3)] y(1) by auto
  have i: "i < length tw" "i < 1024" "text_slot ?a = of_nat i"
    using m(1) c(2) assembled(2)[OF assms(1-3)] by (simp_all add: i_def)
  then have tw: "[decode_instr (tw ! i)] = statement_meaning (fp_symbols s) st"
    using m(2) c(2) by (simp add: take_Suc_conv_app_nth Cons_nth_drop_Suc[symmetric])
  have slot: "operand_slot (fp_symbols s) st (if st_op st = ''j'' then 0 else 2) = ?j"
    using assms(7) c(1) by (simp add: operand_slot_def split: if_splits)
  have "unat (of_nat i :: u32) < 1024" using i(2) by (simp add: unat_of_nat)
  from branch_target_block[OF this j(1)] have ct: "computeBranchTargetBlock (32 + of_nat i) (?j - (of_nat i + 1)) = target"
    by (simp add: target_def)
  have pos: "(8 + of_nat (i div 4)) * 4 + of_nat (i mod 4) = (32 + of_nat i :: u32)"
  proof -
    have "of_nat i = (of_nat (i div 4 * 4 + i mod 4) :: u32)" by simp
    then show ?thesis unfolding of_nat_add of_nat_mult by (simp add: algebra_simps)
  qed
  have to: "branch_to M (8 + of_nat (i div 4), i mod 4) (?j - (of_nat i + 1)) =
      (if target = fst (advance (8 + of_nat (i div 4), i mod 4)) then advance (8 + of_nat (i div 4), i mod 4) else enter M target)"
    unfolding branch_to_def Let_def fst_conv snd_conv pos ct ..
  have "unat ?j mod 4 = 0" using text_slot_aligned(2)[OF lab(2,3) j(2)] y(1) by simp
  moreover consider "st_op st = ''j''" | "st_op st = ''beq''" | "st_op st = ''bne''" using assms(6) by blast
  then have "if st_op st = ''j'' then decode_instr (tw ! i) = Jump target
     else \<exists>rs rt off. (decode_instr (tw ! i) = Beq rs rt off \<or> decode_instr (tw ! i) = Bne rs rt off) \<and>
       (let p = (8 + of_nat (i div 4), i mod 4)
        in branch_to M p off = (if target = fst (advance p) then advance p else enter M target))"
  proof cases
    case 1
    then show ?thesis using tw slot by (simp add: statement_meaning_def target_def)
  next
    case 2
    then have "decode_instr (tw ! i) = Beq (operand_reg st 0) (operand_reg st 1) (?j - (of_nat i + 1))"
      using tw slot i(3) by (simp add: statement_meaning_def Let_def)
    then show ?thesis using to 2 unfolding Let_def by auto
  next
    case 3
    then have "decode_instr (tw ! i) = Bne (operand_reg st 0) (operand_reg st 1) (?j - (of_nat i + 1))"
      using tw slot i(3) by (simp add: statement_meaning_def Let_def)
    then show ?thesis using to 3 unfolding Let_def by auto
  qed
  ultimately show ?thesis by blast
qed

section \<open>A program with a loop\<close>

definition demo_source :: string where
  "demo_source = ''.text'' @ CHR 0x0A # ''main: addi $t0, $t0, 5'' @ CHR 0x0A # ''beq $t0, $zero, main # again'' @ CHR 0x0A # ''j main''"

definition demo_machine :: machine where
  "demo_machine = \<lparr>text_first = 8, text_last = 12, text_block = \<lambda>_. Quad 0 0 0 0, data_first = 48, data_last = 64, app_key = Quad 0 0 0 0\<rparr>"

lemma demo_source_passes:
  "case first_pass demo_source of Inl _ \<Rightarrow> False
   | Inr s \<Rightarrow> (case second_pass (fp_statements s) (fp_symbols s) of Inl _ \<Rightarrow> False
     | Inr (tw, dw) \<Rightarrow> validate_output_size tw dw = None \<and> tw = [0x21080005, 0x1100FFFE, 0x08100000]
        \<and> map (\<lambda>st. (st_op st, st_is_directive st, st_args st)) (fp_statements s) =
          [(''.text'', True, []), (''addi'', False, [''$t0'', ''$t0'', ''5'']), (''beq'', False, [''$t0'', ''$zero'', ''main'']),
           (''j'', False, [''main''])]
        \<and> map_option sym_address (fp_symbols s ''main'') = Some kTextBaseByte
        \<and> map st_address (fp_statements s) = [kTextBaseByte, kTextBaseByte, kTextBaseByte + 4, kTextBaseByte + 8])"
  by code_simp

lemma demo_source_assembled:
  obtains s dw y st where "first_pass demo_source = Inr s"
    "second_pass (fp_statements s) (fp_symbols s) = Inr ([0x21080005, 0x1100FFFE, 0x08100000], dw)"
    "validate_output_size [0x21080005, 0x1100FFFE, 0x08100000] dw = None" "fp_symbols s ''main'' = Some y"
    "sym_address y = kTextBaseByte" "st \<in> set (fp_statements s)" "st_op st = ''beq''" "\<not> st_is_directive st"
    "st_args st = [''$t0'', ''$zero'', ''main'']" "st_address st = kTextBaseByte + 4"
proof -
  obtain s dw where s: "first_pass demo_source = Inr s"
    "second_pass (fp_statements s) (fp_symbols s) = Inr ([0x21080005, 0x1100FFFE, 0x08100000], dw)"
    "validate_output_size [0x21080005, 0x1100FFFE, 0x08100000] dw = None"
    "map_option sym_address (fp_symbols s ''main'') = Some kTextBaseByte"
    "map (\<lambda>st. (st_op st, st_is_directive st, st_args st)) (fp_statements s) =
          [(''.text'', True, []), (''addi'', False, [''$t0'', ''$t0'', ''5'']), (''beq'', False, [''$t0'', ''$zero'', ''main'']),
           (''j'', False, [''main''])]"
    "map st_address (fp_statements s) = [kTextBaseByte, kTextBaseByte, kTextBaseByte + 4, kTextBaseByte + 8]"
    using demo_source_passes by (auto split: sum.splits prod.splits)
  obtain y where y: "fp_symbols s ''main'' = Some y" "sym_address y = kTextBaseByte" using s(4) by auto
  have len: "length (fp_statements s) = 4" using arg_cong[OF s(6), of length] by simp
  have "(\<lambda>st. (st_op st, st_is_directive st, st_args st)) (fp_statements s ! 2) = (''beq'', False, [''$t0'', ''$zero'', ''main''])"
    "st_address (fp_statements s ! 2) = kTextBaseByte + 4"
    using arg_cong[OF s(5), of "\<lambda>xs. xs ! 2"] arg_cong[OF s(6), of "\<lambda>xs. xs ! 2"] len by simp_all
  then show thesis using s(1-3) y len by (intro that[of s dw y "fp_statements s ! 2"]) simp_all
qed

theorem assembled_program_witness:
  "\<exists>s dw. first_pass demo_source = Inr s
     \<and> second_pass (fp_statements s) (fp_symbols s) = Inr ([0x21080005, 0x1100FFFE, 0x08100000], dw)
     \<and> (\<exists>st\<in>set (fp_statements s). statement_meaning (fp_symbols s) st = [decode_instr 0x1100FFFE])"
proof -
  obtain s dw y st where d: "first_pass demo_source = Inr s"
    "second_pass (fp_statements s) (fp_symbols s) = Inr ([0x21080005, 0x1100FFFE, 0x08100000], dw)"
    "validate_output_size [0x21080005, 0x1100FFFE, 0x08100000] dw = None"
    "st \<in> set (fp_statements s)" "st_op st = ''beq''" "\<not> st_is_directive st" "st_address st = kTextBaseByte + 4"
    by (rule demo_source_assembled)
  have "statement_meaning (fp_symbols s) st = [decode_instr 0x1100FFFE]"
    using assembled_program[OF d(1-3)] d(4-7) by (auto simp: Let_def text_slot_def instruction_word_count_def)
  then show ?thesis using d by blast
qed

theorem assembled_branch_witness:
  "\<exists>rs rt off. (decode_instr 0x1100FFFE = Beq rs rt off \<or> decode_instr 0x1100FFFE = Bne rs rt off)
     \<and> branch_to demo_machine (8, 1) off = (8, 2)"
proof -
  obtain s dw y st where d: "first_pass demo_source = Inr s"
    "second_pass (fp_statements s) (fp_symbols s) = Inr ([0x21080005, 0x1100FFFE, 0x08100000], dw)"
    "validate_output_size [0x21080005, 0x1100FFFE, 0x08100000] dw = None" "fp_symbols s ''main'' = Some y"
    "sym_address y = kTextBaseByte" "st \<in> set (fp_statements s)" "st_op st = ''beq''" "\<not> st_is_directive st"
    "st_args st = [''$t0'', ''$zero'', ''main'']" "st_address st = kTextBaseByte + 4"
    by (rule demo_source_assembled)
  have "st_op st \<in> {''beq'', ''bne'', ''j''}" "fp_symbols s (last (st_args st)) = Some y" by (simp_all add: d)
  from assembled_branch[OF d(1-3,6,8) this, of demo_machine] show ?thesis
    by (auto simp: d text_slot_def Let_def advance_def)
qed

end
