(* ===== verification/Assembler_Data.thy ===== *)
theory Assembler_Data
  imports Assembler_Properties Pipeline
begin

text \<open>
  The data of an assembled program: where the second pass puts the values of a \<open>.word\<close>, and that the
  two instructions of a \<open>la\<close> yield the address from which the processor's address translation
  (\<open>translateDataAddress\<close> of \<open>src/3d.cpp\<close>) reaches them.
\<close>

section \<open>Addresses of data words\<close>

lemma unat_data_slot: "k < 2 ^ 28 \<Longrightarrow> unat (slot_addr Data k) = 0x10010000 + 4 * k"
  by (simp add: slot_addr_def unat_word_ariths unat_of_nat)

lemma data_slot_inject: "i < 2 ^ 28 \<Longrightarrow> j < 2 ^ 28 \<Longrightarrow> slot_addr Data i = slot_addr Data j \<longleftrightarrow> i = j"
  by (rule iffI, drule arg_cong[of _ _ unat]) (simp_all add: unat_data_slot)

lemma data_slot_Suc: "slot_addr Data k + 4 = slot_addr Data (Suc k)" "slot_addr Data k + 4 * of_nat j = slot_addr Data (k + j)"
  by (simp_all add: slot_addr_def algebra_simps)

lemma data_slot_aligned:
  assumes "k < 2 ^ 28" shows "slot_addr Data k AND 3 = 0"
proof -
  let ?a = "slot_addr Data k"
  have "?a AND 3 = ?a mod 4" using take_bit_eq_mask[of 2 ?a] take_bit_eq_mod[of 2 ?a] by (simp add: mask_eq_exp_minus_1)
  then have "unat (?a AND 3) = (0x10010000 + 4 * k) mod 4" by (simp only: unat_mod unat_data_slot[OF assms]) simp
  also have "\<dots> = 0" by presburger
  finally show ?thesis by (simp only: unat_eq_zero)
qed

text \<open>The processor maps the address of the \<open>k\<close>-th data word to the \<open>k\<close>-th word of the data region.\<close>

lemma translate_data_slot:
  assumes "unat (active_data_start c) + k < 1024"
  shows "translateDataAddress c (slot_addr Data k) = Some (active_data_start c + of_nat k)"
proof -
  have k: "k < 2 ^ 28" "unat (of_nat k :: u32) = k" using assms by (simp_all add: unat_of_nat)
  note u = unat_data_slot[OF k(1)]
  have "drop_bit 2 (slot_addr Data k - kMarsDataBaseByte) = of_nat k"
    by (rule iffD2[OF word_unat_eq_iff]) (use k assms in \<open>simp add: slot_addr_def drop_bit_eq_div unat_div unat_word_ariths\<close>)
  moreover have "active_data_start c + of_nat k < 1024"
    using assms k by (simp add: word_less_nat_alt unat_word_ariths)
  moreover have "\<not> slot_addr Data k < 1024" "slot_addr Data k \<ge> kMarsDataBaseByte"
    using u by (simp_all add: word_less_nat_alt word_le_nat_alt)
  ultimately show ?thesis using data_slot_aligned[OF k(1)] by (simp add: translateDataAddress_def Let_def)
qed

section \<open>Data words of the second pass\<close>

lemma emit_words_data:
  assumes "emit_words st symbols args s = Inr t" "st_section st = Data"
    "sp_data_cursor s = slot_addr Data e" "e + length args < 2 ^ 28"
  shows "sp_data_cursor t = slot_addr Data (e + length args)
    \<and> (\<forall>j<length args. \<exists>v. parse_u32 (args ! j) symbols = Some v \<and> sp_data_map t (slot_addr Data (e + j)) = Some v)
    \<and> (\<forall>i<e. sp_data_map t (slot_addr Data i) = sp_data_map s (slot_addr Data i))"
  using assms
proof (induction args arbitrary: s e)
  case (Cons arg args)
  let ?s = "\<lambda>v. s\<lparr>sp_data_map := (sp_data_map s)(sp_data_cursor s \<mapsto> v), sp_data_cursor := sp_data_cursor s + 4\<rparr>"
  obtain v where v: "parse_u32 arg symbols = Some v" "emit_words st symbols args (?s v) = Inr t"
    using Cons.prems(1,2) by (auto split: if_splits)
  have IH: "sp_data_cursor t = slot_addr Data (Suc e + length args)"
    "\<And>j. j < length args \<Longrightarrow> \<exists>v. parse_u32 (args ! j) symbols = Some v \<and> sp_data_map t (slot_addr Data (Suc e + j)) = Some v"
    "\<And>i. i < Suc e \<Longrightarrow> sp_data_map t (slot_addr Data i) = sp_data_map (?s v) (slot_addr Data i)"
    using Cons.IH[OF v(2) Cons.prems(2), of "Suc e"] Cons.prems(3,4) by (simp_all add: data_slot_Suc)
  have "\<exists>v. parse_u32 ((arg # args) ! j) symbols = Some v \<and> sp_data_map t (slot_addr Data (e + j)) = Some v"
    if "j < length (arg # args)" for j
    using that v(1) IH(2)[of "j - 1"] IH(3)[of e] Cons.prems(3) by (cases j) simp_all
  moreover have "sp_data_map t (slot_addr Data i) = sp_data_map s (slot_addr Data i)" if "i < e" for i
    using that IH(3)[of i] Cons.prems(3,4) by (simp add: data_slot_inject)
  ultimately show ?case using IH(1) by simp
qed simp

lemma emit_words_other:
  "emit_words st symbols args s = Inr t \<Longrightarrow> st_section st \<noteq> Data \<Longrightarrow>
     sp_data_cursor t = sp_data_cursor s \<and> sp_data_map t = sp_data_map s"
  by (induction args arbitrary: s) (fastforce split: if_splits)+

lemma second_statement_data:
  assumes "second_statement st symbols s = Inr t" "sp_data_cursor s = slot_addr Data e" "e + words_in Data st < 2 ^ 28"
    and "\<not> st_is_directive st \<longrightarrow> st_section st = Text"
  shows "sp_data_cursor t = slot_addr Data (e + words_in Data st)
    \<and> (\<forall>i<e. sp_data_map t (slot_addr Data i) = sp_data_map s (slot_addr Data i))"
proof (cases "st_is_directive st")
  case False
  then show ?thesis using assms by (auto simp: second_statement_def words_in_def)
next
  case True
  then consider "st_op st \<in> {''.data'', ''.text'', ''.globl''}" | "st_op st = ''.word''" | "st_op st = ''.space''"
    using assms(1) by (auto simp: second_statement_def split: if_splits)
  then show ?thesis
  proof cases
    case 2
    then have e: "emit_words st symbols (st_args st) s = Inr t" using True assms(1) by (simp add: second_statement_def)
    then show ?thesis
      using 2 True assms emit_words_data[OF e _ assms(2)] emit_words_other[OF e]
      by (cases "st_section st = Data") (simp_all add: words_in_def)
  next
    case 3
    obtain b where b: "parse_space (st_args st ! 0) = Some b" "4 dvd b"
      "(if st_section st = Data then Inr (s\<lparr>sp_data_cursor := sp_data_cursor s + b\<rparr>)
        else if st_section st = Text then Inr (s\<lparr>sp_text_words := sp_text_words s @ replicate (unat (b div 4)) 0\<rparr>)
        else Inr s) = (Inr t :: string + second_state)"
      using 3 True assms(1) by (auto simp: second_statement_def dvd_eq_mod_eq_0)
    then have "sp_data_cursor t = (if st_section st = Data then sp_data_cursor s + b else sp_data_cursor s)"
      "sp_data_map t = sp_data_map s"
      by (auto split: if_splits)
    then show ?thesis using 3 True assms(2) b(1) whole_words[OF b(2)]
      by (simp add: words_in_def slot_addr_def distrib_left mult.commute[of _ 4])
  qed (use True assms in \<open>auto simp: second_statement_def words_in_def\<close>)
qed

lemma second_statements_data:
  assumes "second_statements sts symbols s = Inr t" "sp_data_cursor s = slot_addr Data e" "e + extent Data sts < 2 ^ 28"
    and "\<forall>st\<in>set sts. \<not> st_is_directive st \<longrightarrow> st_section st = Text"
  shows "sp_data_cursor t = slot_addr Data (e + extent Data sts)
    \<and> (\<forall>i<e. sp_data_map t (slot_addr Data i) = sp_data_map s (slot_addr Data i))"
  using assms
proof (induction sts arbitrary: s e)
  case (Cons st sts)
  then obtain u where u: "second_statement st symbols s = Inr u" "second_statements sts symbols u = Inr t" by auto
  have "sp_data_cursor u = slot_addr Data (e + words_in Data st)
    \<and> (\<forall>i<e. sp_data_map u (slot_addr Data i) = sp_data_map s (slot_addr Data i))"
    by (rule second_statement_data[OF u(1) Cons.prems(2)]) (use Cons.prems(3,4) in simp_all)
  then show ?case using Cons.IH[OF u(2), of "e + words_in Data st"] Cons.prems(3,4) by (simp add: add.assoc)
qed simp

lemma data_words_slots:
  assumes "sp_data_cursor t = slot_addr Data n" "n < 2 ^ 28"
  shows "data_words_of t = map (\<lambda>i. case sp_data_map t (slot_addr Data i) of None \<Rightarrow> 0 | Some v \<Rightarrow> v) [0..<n]"
proof -
  have "\<not> slot_addr Data n < kDataBaseByte" using unat_data_slot[OF assms(2)] by (simp add: word_less_nat_alt)
  moreover have "unat ((slot_addr Data n - kDataBaseByte) div 4) = n"
    using assms(2) by (simp add: slot_addr_def unat_div unat_word_ariths unat_of_nat)
  ultimately show ?thesis
    using data_slot_aligned[OF assms(2)] by (simp add: data_words_of_def assms(1) Let_def slot_addr_def mult.commute)
qed

lemma assembled_data:
  assumes s: "first_pass contents = Inr s" and o: "second_pass (fp_statements s) (fp_symbols s) = Inr (tw, dw)"
    and dst: "fp_statements s = xs @ dst # ys" "st_section dst = Data" "st_is_directive dst" "st_op dst = ''.word''"
    and room: "extent Data (fp_statements s) < 2 ^ 28"
  shows "st_address dst = slot_addr Data (extent Data xs)" "length dw = extent Data (fp_statements s)"
    "j < length (st_args dst) \<Longrightarrow> extent Data xs + j < length dw
       \<and> parse_u32 (st_args dst ! j) (fp_symbols s) = Some (dw ! (extent Data xs + j))"
proof -
  let ?e = "extent Data xs" and ?n = "length (st_args dst)"
  note inv = first_pass_laid_out[OF s, unfolded laid_out_def]
  show "st_address dst = slot_addr Data ?e" using inv dst by metis
  have only: "\<forall>st\<in>set (fp_statements s). \<not> st_is_directive st \<longrightarrow> st_section st = Text" using inv by (meson split_list)
  obtain t where t: "second_statements (fp_statements s) (fp_symbols s)
      \<lparr>sp_text_words = [], sp_data_map = Map.empty, sp_data_cursor = kDataBaseByte\<rparr> = Inr t" "dw = data_words_of t"
    using o by (auto simp: second_pass_def)
  obtain u v where uv: "second_statements xs (fp_symbols s)
      \<lparr>sp_text_words = [], sp_data_map = Map.empty, sp_data_cursor = kDataBaseByte\<rparr> = Inr u"
    "second_statement dst (fp_symbols s) u = Inr v" "second_statements ys (fp_symbols s) v = Inr t"
    using t(1) unfolding dst(1) by (auto simp: second_append)
  have w: "words_in Data dst = ?n" using dst by (simp add: words_in_def)
  have r: "?e + ?n + extent Data ys < 2 ^ 28" using room w by (simp add: dst(1))
  have u: "sp_data_cursor u = slot_addr Data ?e"
    using second_statements_data[OF uv(1), of 0] r only by (simp add: dst(1) slot_addr_def)
  have e: "emit_words dst (fp_symbols s) (st_args dst) u = Inr v" using uv(2) dst by (simp add: second_statement_def)
  note v = emit_words_data[OF e dst(2) u]
  have v: "sp_data_cursor v = slot_addr Data (?e + ?n)"
    "\<And>j. j < ?n \<Longrightarrow> \<exists>x. parse_u32 (st_args dst ! j) (fp_symbols s) = Some x \<and> sp_data_map v (slot_addr Data (?e + j)) = Some x"
    using v r by auto
  have t': "sp_data_cursor t = slot_addr Data (?e + ?n + extent Data ys)"
    "\<And>i. i < ?e + ?n \<Longrightarrow> sp_data_map t (slot_addr Data i) = sp_data_map v (slot_addr Data i)"
    using second_statements_data[OF uv(3) v(1)] r only by (auto simp: dst(1))
  note dw = data_words_slots[OF t'(1) r, folded t(2)]
  show "length dw = extent Data (fp_statements s)" by (simp add: dw dst(1) w)
  show "?e + j < length dw \<and> parse_u32 (st_args dst ! j) (fp_symbols s) = Some (dw ! (?e + j))" if "j < ?n"
    using v(2)[OF that] t'(2)[of "?e + j"] that by (auto simp: dw)
qed

section \<open>The address of a label\<close>

text \<open>
  C14: Addresses of data. In an accepted program, execute on the processor the two words that
  \<open>encode_instruction\<close> emits for a \<open>la\<close> of a label that stands before a \<open>.word\<close>; they stand at the slot
  of the statement. The register then holds the address from which, at byte offset \<open>4 j\<close>,
  \<open>translateDataAddress\<close> reaches the word of the data region that holds the \<open>j\<close>-th value of the
  directive: the word of that index in the data the second pass emits. The data must fit into the
  memory behind the start of the data region.
\<close>

theorem assembled_data_address:
  assumes a: "first_pass contents = Inr s" "second_pass (fp_statements s) (fp_symbols s) = Inr (tw, dw)"
    "validate_output_size tw dw = None"
    and st: "st \<in> set (fp_statements s)" "\<not> st_is_directive st" "st_op st = ''la''" "parse_reg (st_args st ! 0) \<noteq> Some 0"
    and label: "fp_symbols s (trim (st_args st ! 1)) = Some y" "labelled y (fp_statements s) = Some dst"
    and dst: "st_section dst = Data" "st_is_directive dst" "st_op dst = ''.word''" "j < length (st_args dst)"
    and room: "unat (active_data_start c) + extent Data (fp_statements s) \<le> 1024"
  shows "\<exists>r k ws. parse_reg (st_args st ! 0) = Some r \<and> encode_instruction st (fp_symbols s) = Inr ws
      \<and> take 2 (drop (unat (text_slot (st_address st))) tw) = ws
      \<and> translateDataAddress c (get_reg (fold (effect M) (map decode_instr ws) start) r + 4 * of_nat j)
          = Some (active_data_start c + of_nat k)
      \<and> k < length dw \<and> parse_u32 (st_args dst ! j) (fp_symbols s) = Some (dw ! k)"
proof -
  let ?addr = "operand_value (fp_symbols s) st 1"
  obtain i ws where i: "st_address st = slot_addr Text i" "encode_instruction st (fp_symbols s) = Inr ws"
    "length ws = 2" "take (length ws) (drop i tw) = ws" "i + length ws \<le> length tw"
    using assembled(4)[OF a st(1,2)] by (auto simp: instruction_word_count_def st(3))
  have slot: "unat (text_slot (st_address st)) = i" using slot_addr_text(2)[of i] i(1,5) assembled(2)[OF a] by simp
  obtain r where r: "parse_reg (st_args st ! 0) = Some r" "operand_reg st 0 = r"
    using i(2) st(3) by (auto simp: encode_instruction_def operand_reg_def Let_def)
  have "dst \<in> set (fp_statements s)" using label(2) by (auto simp: labelled_def find_Some_iff)
  then obtain xs ys where x: "fp_statements s = xs @ dst # ys" by (meson split_list)
  let ?e = "extent Data xs"
  have "extent Data (fp_statements s) < 2 ^ 28" using room by simp
  note d = assembled_data[OF a(1,2) x dst(1-3) this]
  have "sym_address y = st_address dst"
    using first_pass_laid_out[OF a(1)] label by (auto simp: laid_out_def)
  then have v: "?addr = slot_addr Data ?e" using label(1) d(1) by (simp add: operand_value_def parse_u32_def Let_def)
  have "map decode_instr ws = statement_meaning (fp_symbols s) st"
    by (rule meaning_immediate[OF i(2)]) (simp add: st(3))
  moreover have "r \<noteq> 0" using st(4) r(1) by simp
  ultimately have reg: "get_reg (fold (effect M) (map decode_instr ws) start) r = slot_addr Data ?e"
    using r(2) st(3) v by (simp add: statement_meaning_def Let_def effect_def set_reg_def get_reg_def halves_join)
  have k: "?e + j < length dw" "parse_u32 (st_args dst ! j) (fp_symbols s) = Some (dw ! (?e + j))" using d(3)[OF dst(4)] by auto
  have "translateDataAddress c (slot_addr Data (?e + j)) = Some (active_data_start c + of_nat (?e + j))"
    by (rule translate_data_slot) (use k(1) d(2) room in simp)
  then show ?thesis using r(1) i slot k by (intro exI[of _ r] exI[of _ "?e + j"] exI[of _ ws]) (simp add: reg data_slot_Suc)
qed

section \<open>A program with data\<close>

definition demo_data_source :: string where
  "demo_data_source = ''.data'' @ CHR 0x0A # ''x: .word 7, 9'' @ CHR 0x0A # ''.text'' @ CHR 0x0A # ''la $t0, x''"

definition demo_region :: sec where
  "demo_region = (sec_boot (StackedMemory3D 2 1024))
     \<lparr>secure_runtime_region_valid := True, secure_runtime_data_start_addr := 48, secure_runtime_data_enc_end := 64\<rparr>"

lemma demo_data_passes:
  "case first_pass demo_data_source of Inl _ \<Rightarrow> False
   | Inr s \<Rightarrow> (case second_pass (fp_statements s) (fp_symbols s) of Inl _ \<Rightarrow> False
     | Inr (tw, dw) \<Rightarrow> validate_output_size tw dw = None \<and> tw = [0x3C081001, 0x35080000] \<and> dw = [7, 9]
        \<and> extent Data (fp_statements s) = 2 \<and> parse_u32 ''9'' (fp_symbols s) = Some 9
        \<and> (case fp_statements s of [_, dst, _, st] \<Rightarrow> st_op st = ''la'' \<and> \<not> st_is_directive st
               \<and> st_args st = [''$t0'', ''x''] \<and> st_address st = kTextBaseByte
               \<and> (case fp_symbols s ''x'' of None \<Rightarrow> False | Some y \<Rightarrow> labelled y (fp_statements s) = Some dst)
               \<and> st_section dst = Data \<and> st_is_directive dst \<and> st_op dst = ''.word'' \<and> st_args dst = [''7'', ''9'']
           | _ \<Rightarrow> False))"
  by code_simp

theorem assembled_data_address_witness:
  "translateDataAddress demo_region
     (get_reg (fold (effect demo_machine) (map decode_instr [0x3C081001, 0x35080000])
        \<lparr>pc = (8, 0), regs = \<lambda>_. 0, copro = Quad 0 0 0 0, words = \<lambda>_. 0, locked = False\<rparr>) 8 + 4) = Some 49"
proof -
  obtain s where s: "first_pass demo_data_source = Inr s"
    "second_pass (fp_statements s) (fp_symbols s) = Inr ([0x3C081001, 0x35080000], [7, 9])"
    "validate_output_size [0x3C081001, 0x35080000] [7, 9] = None" "extent Data (fp_statements s) = 2"
    and v: "parse_u32 ''9'' (fp_symbols s) = Some 9" and p: "case fp_statements s of [_, dst, _, st] \<Rightarrow> st_op st = ''la'' \<and> \<not> st_is_directive st
               \<and> st_args st = [''$t0'', ''x''] \<and> st_address st = kTextBaseByte
               \<and> (case fp_symbols s ''x'' of None \<Rightarrow> False | Some y \<Rightarrow> labelled y (fp_statements s) = Some dst)
               \<and> st_section dst = Data \<and> st_is_directive dst \<and> st_op dst = ''.word'' \<and> st_args dst = [''7'', ''9'']
           | _ \<Rightarrow> False"
    using demo_data_passes by (auto split: sum.splits)
  obtain a dst b st where l: "fp_statements s = [a, dst, b, st]" "st_op st = ''la''" "\<not> st_is_directive st"
    "st_args st = [''$t0'', ''x'']" "st_address st = kTextBaseByte"
    "case fp_symbols s ''x'' of None \<Rightarrow> False | Some y \<Rightarrow> labelled y (fp_statements s) = Some dst"
    "st_section dst = Data" "st_is_directive dst" "st_op dst = ''.word''" "st_args dst = [''7'', ''9'']"
    using p by (auto split: list.splits)
  obtain y where y: "fp_symbols s ''x'' = Some y" "labelled y (fp_statements s) = Some dst"
    using l(6) by (auto split: option.splits)
  have t: "trim ''x'' = ''x''" "parse_reg ''$t0'' = Some 8" by code_simp+
  have c: "unat (active_data_start demo_region) + extent Data (fp_statements s) \<le> 1024" "active_data_start demo_region = 48"
    using s(4) by (simp_all add: demo_region_def active_data_start_def)
  have one: "(1 :: nat) < length (st_args dst)" by (simp add: l)
  have "st \<in> set (fp_statements s)" "parse_reg (st_args st ! 0) \<noteq> Some 0" "fp_symbols s (trim (st_args st ! 1)) = Some y"
    by (simp_all add: l t y(1))
  from assembled_data_address[OF s(1-3) this(1) l(3,2) this(2,3) y(2) l(7-9) one c(1), of demo_machine
      "\<lparr>pc = (8, 0), regs = \<lambda>_. 0, copro = Quad 0 0 0 0, words = \<lambda>_. 0, locked = False\<rparr>"]
  have "\<exists>k<2. [7, 9] ! k = (9 :: u32) \<and>
    translateDataAddress demo_region (get_reg (fold (effect demo_machine) (map decode_instr [0x3C081001, 0x35080000])
        \<lparr>pc = (8, 0), regs = \<lambda>_. 0, copro = Quad 0 0 0 0, words = \<lambda>_. 0, locked = False\<rparr>) 8 + 4) = Some (48 + of_nat k)"
    by (auto simp: l(4,5,10) t v c(2) text_slot_def numeral_2_eq_2)
  then obtain k where k: "k < 2" "[7, 9] ! k = (9 :: u32)"
    "translateDataAddress demo_region (get_reg (fold (effect demo_machine) (map decode_instr [0x3C081001, 0x35080000])
        \<lparr>pc = (8, 0), regs = \<lambda>_. 0, copro = Quad 0 0 0 0, words = \<lambda>_. 0, locked = False\<rparr>) 8 + 4) = Some (48 + of_nat k)"
    by blast
  from k(1,2) have "k = 1" by (cases k) auto
  then show ?thesis using k(3) by simp
qed

end
