(* ===== verification/Encryptor.thy ===== *)
theory Encryptor
  imports Sealed_Image Assembler
begin

text \<open>
  The tool \<open>src/encryptor.cpp\<close>, which turns the two hex files of the assembler into a sealed image.
  An exception is the text it carries. The files are a map from names to contents; \<open>writable\<close> says
  which of them can be opened for writing. The random bytes of the operating system are a parameter.
  Overwriting secrets and the printing of \<open>--debug\<close> have no effect on the result.
\<close>

section \<open>Hex files\<close>

definition is_blank :: "char \<Rightarrow> bool" where
  "is_blank c \<longleftrightarrow> c = CHR '' '' \<or> c = CHR 0x09 \<or> c = CHR 0x0D \<or> c = CHR 0x0A"

definition trim_copy :: "string \<Rightarrow> string" where
  "trim_copy s = rev (dropWhile is_blank (rev (dropWhile is_blank s)))"

text \<open>The position of the first \<open>//\<close>.\<close>

fun find_slashes :: "string \<Rightarrow> nat option" where
  "find_slashes (c # d # cs) =
     (if c = CHR ''/'' \<and> d = CHR ''/'' then Some 0 else map_option Suc (find_slashes (d # cs)))"
| "find_slashes _ = None"

definition strip_comment_and_trim :: "string \<Rightarrow> string" where
  "strip_comment_and_trim line =
     (let hash_pos = find_char (CHR ''#'') line; slash_pos = find_slashes line;
          cut = (case slash_pos of None \<Rightarrow> hash_pos
                 | Some p \<Rightarrow> (case hash_pos of None \<Rightarrow> Some p | Some h \<Rightarrow> Some (min h p)))
      in trim_copy (case cut of None \<Rightarrow> line | Some n \<Rightarrow> take n line))"

text \<open>
  \<open>strtoull\<close>: white space, a sign, which negates in the unsigned type, a prefix, digits. The value,
  \<open>None\<close> when it is out of range, and the number of characters read, 0 when there is no number.
\<close>

definition strtoull :: "nat \<Rightarrow> string \<Rightarrow> int option \<times> nat" where
  "strtoull base s =
     (let s1 = dropWhile isspace s;
          neg = (s1 \<noteq> [] \<and> hd s1 = CHR ''-'');
          s2 = (if s1 \<noteq> [] \<and> (hd s1 = CHR ''-'' \<or> hd s1 = CHR ''+'') then tl s1 else s1);
          hex = ((base = 0 \<or> base = 16) \<and> length s2 > 2 \<and> s2 ! 0 = CHR ''0'' \<and> (s2 ! 1 = CHR ''x'' \<or> s2 ! 1 = CHR ''X'')
                 \<and> digit_value (s2 ! 2) < 16);
          base = (if hex then 16 else if base \<noteq> 0 then base else if s2 \<noteq> [] \<and> hd s2 = CHR ''0'' then 8 else 10);
          s3 = (if hex then drop 2 s2 else s2);
          ds = takeWhile (\<lambda>c. digit_value c < base) s3;
          v = foldl (\<lambda>v c. v * int base + int (digit_value c)) 0 ds
      in (if v \<ge> 2 ^ 64 then None else Some (if neg then (2 ^ 64 - v) mod 2 ^ 64 else v),
          if ds = [] then 0 else length s - length s3 + length ds))"

text \<open>\<open>parse_u32\<close>, which reads the string up to its first NUL.\<close>

definition parse_u32_base :: "string \<Rightarrow> nat \<Rightarrow> u32 option" where
  "parse_u32_base s base =
     (if s = [] then None
      else let c_str = takeWhile (\<lambda>c. c \<noteq> CHR 0x00) s
        in case strtoull base c_str of
             (None, _) \<Rightarrow> None
           | (Some v, used) \<Rightarrow>
               if used = 0 \<or> used \<noteq> length c_str then None
               else if v > 2 ^ 32 - 1 then None else Some (word_of_int v))"

fun hex_lines_strict :: "string \<Rightarrow> u32 \<Rightarrow> string list \<Rightarrow> u32 list \<Rightarrow> string + u32 list" where
  "hex_lines_strict label line_no [] words = Inr words"
| "hex_lines_strict label line_no (line # lines) words =
     (let line_no = line_no + 1; token = strip_comment_and_trim line in
      if token = [] then hex_lines_strict label line_no lines words
      else case parse_u32_base token 16 of
        None \<Rightarrow> Inl (''invalid hex word in '' @ label @ '' file at line '' @ format_u (unat line_no))
      | Some v \<Rightarrow> hex_lines_strict label line_no lines (words @ [v]))"

type_synonym files = "string \<Rightarrow> string option"

definition read_hex_words_strict :: "files \<Rightarrow> string \<Rightarrow> string \<Rightarrow> string + u32 list" where
  "read_hex_words_strict files path label =
     (case files path of
        None \<Rightarrow> Inl (''cannot open '' @ label @ '' file: '' @ path)
      | Some contents \<Rightarrow> hex_lines_strict label 0 (file_lines contents) [])"

section \<open>Arguments\<close>

record EncOptions =
  text_file :: string
  data_file :: string
  output_file :: string
  opt_epoch :: u32
  epoch_provided :: bool
  opt_debug :: bool
  deterministic_key :: bool
  deterministic_seed :: u32

fun parse_options_enc :: "string list \<Rightarrow> EncOptions \<Rightarrow> string + EncOptions" where
  "parse_options_enc [] opt = Inr opt"
| "parse_options_enc (arg # args) opt =
     (if arg = ''--debug'' then parse_options_enc args (opt\<lparr>opt_debug := True\<rparr>)
      else if take 25 arg = ''--deterministic-test-key='' then
        (let seed_s = drop 25 arg in
         case parse_u32_base seed_s 0 of
           None \<Rightarrow> Inl (''invalid deterministic key seed: '' @ seed_s)
         | Some seed \<Rightarrow> parse_options_enc args (opt\<lparr>deterministic_key := True, deterministic_seed := seed\<rparr>))
      else if arg = ''--deterministic-test-key'' then
        (case args of
           [] \<Rightarrow> Inl ''--deterministic-test-key requires a seed argument''
         | seed_s # args \<Rightarrow>
             (case parse_u32_base seed_s 0 of
                None \<Rightarrow> Inl ''invalid deterministic key seed''
              | Some seed \<Rightarrow> parse_options_enc args (opt\<lparr>deterministic_key := True, deterministic_seed := seed\<rparr>)))
      else if \<not> epoch_provided opt then
        (case parse_u32_base arg 0 of
           None \<Rightarrow> Inl (''invalid epoch or option: '' @ arg)
         | Some epoch \<Rightarrow> parse_options_enc args (opt\<lparr>opt_epoch := epoch, epoch_provided := True\<rparr>))
      else Inl (''unexpected argument: '' @ arg))"

text \<open>\<open>argv[1]\<close> and what follows.\<close>

definition parse_args :: "string list \<Rightarrow> string + EncOptions" where
  "parse_args args =
     (case args of
        text # data # output # options \<Rightarrow>
          parse_options_enc options
            \<lparr>text_file = text, data_file = data, output_file = output, opt_epoch = 1, epoch_provided = False,
             opt_debug = False, deterministic_key = False, deterministic_seed = 0\<rparr>
      | _ \<Rightarrow> Inl ''missing required arguments'')"

section \<open>The application key\<close>

definition local_mix32 :: "u32 \<Rightarrow> u32" where
  "local_mix32 x =
     (let x = x XOR drop_bit 16 x; x = x * 0x7FEB352D; x = x XOR drop_bit 15 x; x = x * 0x846CA68B
      in x XOR drop_bit 16 x)"

definition key_is_zero :: "block \<Rightarrow> bool" where
  "key_is_zero key \<longleftrightarrow> (quad_nth key 0 OR quad_nth key 1 OR quad_nth key 2 OR quad_nth key 3) = 0"

definition generate_deterministic_test_key :: "u32 \<Rightarrow> block" where
  "generate_deterministic_test_key seed =
     (let x = (if seed \<noteq> 0 then seed else 0xD1CEB00C);
          (x, key) = for_up 0 4
            (\<lambda>i (x, key). let x = local_mix32 ((x XOR 0x9E3779B9 * of_nat (i + 1)) XOR 0x43525054)
                          in (x, quad_upd key i x)) (x, Quad 0 0 0 0)
      in if key_is_zero key then quad_upd key 0 0xA5A5A5A5 else key)"

definition generate_secure_app_key :: "bool \<Rightarrow> u32 \<Rightarrow> (nat \<Rightarrow> u8) option \<Rightarrow> string + block" where
  "generate_secure_app_key deterministic seed random =
     (if deterministic then Inr (generate_deterministic_test_key seed)
      else case random of
        None \<Rightarrow> Inl ''OS CSPRNG unavailable; refusing to generate a weak app key''
      | Some raw \<Rightarrow>
          let key = quad_gen (\<lambda>i. push_bit 24 (ucast (raw (i * 4 + 0))) OR push_bit 16 (ucast (raw (i * 4 + 1)))
                                  OR push_bit 8 (ucast (raw (i * 4 + 2))) OR ucast (raw (i * 4 + 3)))
          in Inr (if key_is_zero key
                  then Quad (local_mix32 0xA5A5A5A5) (local_mix32 0x3C6EF372) (local_mix32 0xBB67AE85) (local_mix32 0x510E527F)
                  else key))"

definition derive_auto_epoch :: "u32 \<Rightarrow> u32 \<Rightarrow> u32 \<Rightarrow> block \<Rightarrow> u32" where
  "derive_auto_epoch text_words text_enc_end data_words key =
     (let x = 0x13579BDF;
          x = x XOR text_words * 0x9E3779B9;
          x = x XOR text_enc_end * 0x85EBCA6B;
          x = x XOR data_words * 0xC2B2AE35;
          x = x XOR (quad_nth key 0 XOR local_mix32 (quad_nth key 1) XOR local_mix32 (quad_nth key 2 XOR quad_nth key 3));
          x = local_mix32 x
      in if x \<noteq> 0 then x else 1)"

definition align_up_words :: "u32 \<Rightarrow> u32 \<Rightarrow> u32" where
  "align_up_words v alignment =
     (if alignment = 0 then v
      else let rem = v mod alignment in if rem = 0 then v else v + (alignment - rem))"

section \<open>Access to the memory\<close>

definition write_plain_word :: "'a sec_scheme \<Rightarrow> nat \<Rightarrow> u32 \<Rightarrow> 'a sec_scheme" where
  "write_plain_word s addr v = (if addr < SEC_HDR_WORDS then protectedWrite s 0 addr v else mem_write s 0 addr v)"

definition read_plain_word :: "'a sec_scheme \<Rightarrow> nat \<Rightarrow> u32 \<times> 'a sec_scheme" where
  "read_plain_word s addr = (if addr < SEC_HDR_WORDS then protectedRead s 0 addr else (mem_read s 0 addr, s))"

definition reset_memory_to_known_state :: "'a sec_scheme \<Rightarrow> nat \<Rightarrow> 'a sec_scheme" where
  "reset_memory_to_known_state s mem_words =
     for_up 0 mem_words
       (\<lambda>i s. let v = (if i < SEC_HDR_WORDS then 0xDEADBEEF else 0)
              in if i < SEC_HDR_WORDS then protectedWrite s 0 i v else mem_write s 0 i v) s"

text \<open>The first loop of both encryption functions, and the reading of a block.\<close>

definition fill_buffer :: "'a sec_scheme \<Rightarrow> (nat \<Rightarrow> u32) \<Rightarrow> (nat \<Rightarrow> u32) \<times> 'a sec_scheme" where
  "fill_buffer s buf =
     for_up 0 1024 (\<lambda>i (buf, s). let (v, s) = read_plain_word s i in (buf(i := v), s)) (buf, s)"

definition read_plain_block :: "'a sec_scheme \<Rightarrow> nat \<Rightarrow> block \<times> 'a sec_scheme" where
  "read_plain_block s addr =
     for_up 0 4 (\<lambda>i (plain, s). let (v, s) = read_plain_word s (addr + i) in (quad_upd plain i v, s))
       (Quad 0 0 0 0, s)"

section \<open>Encryption\<close>

definition encrypt_text_block ::
  "block \<Rightarrow> nat \<Rightarrow> (nat \<Rightarrow> u32) \<times> 'a sec_scheme \<Rightarrow> string + ((nat \<Rightarrow> u32) \<times> 'a sec_scheme)" where
  "encrypt_text_block key blk bs =
     (let (buf, s) = bs; logical_addr = blk * 4 in
      if logical_addr < SEC_HDR_WORDS then Inl ''text region overlaps secure header''
      else let (plain, s) = read_plain_block s logical_addr;
               cipher = aes_encrypt_block plain key;
               phys_addr = secure_map_text_block s (of_nat blk) * 4
        in if phys_addr < of_nat SEC_HDR_WORDS \<or> phys_addr + 4 > 1024 then Inl ''invalid mapped text block address''
           else Inr (put_block buf (unat phys_addr) cipher, s))"

definition encrypt_text_region_mapped ::
  "'a sec_scheme \<Rightarrow> u32 \<Rightarrow> u32 \<Rightarrow> block \<Rightarrow> (nat \<Rightarrow> u32) \<Rightarrow> string + ((nat \<Rightarrow> u32) \<times> 'a sec_scheme)" where
  "encrypt_text_region_mapped s text_start text_enc_end key buf =
     and_then (for_up (unat (text_start div 4)) (unat (text_enc_end div 4))
                 (\<lambda>blk r. and_then r (encrypt_text_block key blk)) (Inr (fill_buffer s buf)))
       (\<lambda>(buf, s). Inr (buf, for_up (unat text_start) (unat text_enc_end) (\<lambda>i s. mem_write s 0 i (buf i)) s))"

definition encrypt_data_block ::
  "block \<Rightarrow> nat \<Rightarrow> (nat \<Rightarrow> u32) \<times> 'a sec_scheme \<Rightarrow> string + ((nat \<Rightarrow> u32) \<times> 'a sec_scheme)" where
  "encrypt_data_block key blk bs =
     (let (buf, s) = bs; logical_addr = of_nat blk * 4 :: u32 in
      if logical_addr + 4 > 1024 then Inl ''data block exceeds memory size''
      else let (plain, s) = read_plain_block s (unat logical_addr);
               cipher = aes_encrypt_block plain key
        in Inr (put_block buf (unat logical_addr) cipher, s))"

definition encrypt_data_region_in_place ::
  "'a sec_scheme \<Rightarrow> u32 \<Rightarrow> u32 \<Rightarrow> block \<Rightarrow> (nat \<Rightarrow> u32) \<Rightarrow> string + ((nat \<Rightarrow> u32) \<times> 'a sec_scheme)" where
  "encrypt_data_region_in_place s data_start data_enc_end key buf =
     and_then (for_up (unat (data_start div 4)) (unat (data_enc_end div 4))
                 (\<lambda>blk r. and_then r (encrypt_data_block key blk)) (Inr (fill_buffer s buf)))
       (\<lambda>(buf, s). Inr (buf, for_up (unat data_start) (unat data_enc_end) (\<lambda>i s. mem_write s 0 i (buf i)) s))"

section \<open>The tool\<close>

text \<open>The contents of the image file.\<close>

definition output_image :: "'a sec_scheme \<Rightarrow> nat \<Rightarrow> string \<times> 'a sec_scheme" where
  "output_image s mem_words =
     for_up 0 mem_words
       (\<lambda>i (out, s). let (v, s) = read_plain_word s i in (out @ format_08X v @ [CHR 0x0A], s)) ([], s)"

definition write_output_image ::
  "'a sec_scheme \<Rightarrow> files \<Rightarrow> (string \<Rightarrow> bool) \<Rightarrow> string \<Rightarrow> nat \<Rightarrow> string + (files \<times> 'a sec_scheme)" where
  "write_output_image s files writable output mem_words =
     check (writable output) (''cannot write output file: '' @ output) (
     let (out, s) = output_image s mem_words in Inr (files(output \<mapsto> out), s))"

definition verify_wrapped_key_roundtrip :: "'a sec_scheme \<Rightarrow> block \<Rightarrow> string + 'a sec_scheme" where
  "verify_wrapped_key_roundtrip s expected_key =
     (let (rc, extracted_key, s) = extract_key_from_large_block s 0 in
      if rc \<noteq> 0 then Inl ''could not extract app key from wrapped secure header''
      else let diff = (quad_nth extracted_key 0 XOR quad_nth expected_key 0) OR (quad_nth extracted_key 1 XOR quad_nth expected_key 1)
                      OR (quad_nth extracted_key 2 XOR quad_nth expected_key 2) OR (quad_nth extracted_key 3 XOR quad_nth expected_key 3)
        in if diff \<noteq> 0 then Inl ''wrapped-key unwrap mismatch'' else Inr s)"

text \<open>\<open>std::to_string\<close> of an \<open>int\<close>.\<close>

definition format_d :: "int \<Rightarrow> string" where
  "format_d n = (if n < 0 then ''-'' @ format_u (nat (- n)) else format_u (nat n))"

text \<open>Placing the words of the two files, and the configuration of the regions.\<close>

definition place_text :: "'a sec_scheme \<Rightarrow> nat \<Rightarrow> u32 list \<Rightarrow> string + (u32 \<times> 'a sec_scheme)" where
  "place_text s mem_words text_words =
     (let text_plain_words = of_nat (length text_words);
          text_plain_end = kTextStartAddr + text_plain_words;
          text_enc_end = align_up_words text_plain_end 4
      in if text_plain_end < kTextStartAddr \<or> text_enc_end > of_nat mem_words
         then Inl ''text image does not fit in memory''
         else let s = for_up 0 (unat text_plain_words) (\<lambda>i s. write_plain_word s (32 + i) (text_words ! i)) s;
                  s = for_up (unat text_plain_end) (unat text_enc_end) (\<lambda>i s. write_plain_word s i 0) s
           in Inr (text_enc_end, s))"

definition place_data :: "'a sec_scheme \<Rightarrow> nat \<Rightarrow> u32 \<Rightarrow> u32 list \<Rightarrow> string + (u32 \<times> 'a sec_scheme)" where
  "place_data s mem_words data_start data_words =
     (let data_plain_words = of_nat (length data_words);
          data_plain_end = data_start + data_plain_words;
          data_enc_end = align_up_words data_plain_end 4
      in if data_plain_end < data_start \<or> data_enc_end > of_nat mem_words
         then Inl ''data image does not fit in memory after encrypted text region''
         else let s = for_up 0 (unat data_plain_words) (\<lambda>i s. write_plain_word s (unat data_start + i) (data_words ! i)) s;
                  s = for_up (unat data_plain_end) (unat data_enc_end) (\<lambda>i s. write_plain_word s i 0) s;
                  s = for_up (unat data_enc_end) mem_words (\<lambda>i s. write_plain_word s i 0) s
           in Inr (data_enc_end, s))"

definition choose_epoch :: "EncOptions \<Rightarrow> u32 \<Rightarrow> u32 \<Rightarrow> u32 \<Rightarrow> block \<Rightarrow> u32" where
  "choose_epoch opt text_plain_words text_enc_end data_plain_words key =
     (let mapping_epoch = opt_epoch opt;
          mapping_epoch = (if mapping_epoch = 0 then derive_auto_epoch text_plain_words text_enc_end data_plain_words key
                           else mapping_epoch)
      in if mapping_epoch = 0 then 1 else mapping_epoch)"

definition seal_image ::
  "'a sec_scheme \<Rightarrow> EncOptions \<Rightarrow> u32 \<Rightarrow> u32 \<Rightarrow> u32 \<Rightarrow> u32 \<Rightarrow> block \<Rightarrow> string + 'a sec_scheme" where
  "seal_image s opt text_plain_words text_enc_end data_plain_words data_enc_end key =
     (let s = secure_set_image_region s kTextStartAddr text_plain_words text_enc_end;
          s = secure_set_data_region s text_enc_end data_plain_words data_enc_end SEC_DATA_FLAG_ENCRYPTED;
          s = secure_set_mapping_epoch s (choose_epoch opt text_plain_words text_enc_end data_plain_words key)
      in and_then (encrypt_text_region_mapped s kTextStartAddr text_enc_end key (\<lambda>_. 0)) (\<lambda>(enc_buffer, s).
         and_then (encrypt_data_region_in_place s text_enc_end data_enc_end key enc_buffer) (\<lambda>(enc_buffer, s).
         let (seal_rc, s) = create_large_block_with_key s 0 key in
         check (seal_rc = 0) (''secure key wrapping/header sealing failed with rc='' @ format_d seal_rc) (
         let (validate_rc, s) = secure_validate_image s 0 in
         check (validate_rc = 0) (''secure image validation failed with rc='' @ format_d validate_rc) (
         verify_wrapped_key_roundtrip s key)))))"

text \<open>\<open>main\<close>: the message of the exception that ends it with status 1, or the files behind it.\<close>

definition encryptor_main ::
  "'a sec_scheme \<Rightarrow> files \<Rightarrow> (string \<Rightarrow> bool) \<Rightarrow> (nat \<Rightarrow> u8) option \<Rightarrow> string list \<Rightarrow> string + (files \<times> 'a sec_scheme)" where
  "encryptor_main s files writable random args =
     and_then (parse_args args) (\<lambda>opt.
     let mem_words = getNumWords s in
     check (\<not> (mem_words = 0 \<or> mem_words > 1024)) ''unexpected stacked-memory size'' (
     and_then (read_hex_words_strict files (text_file opt) ''text'') (\<lambda>text_words.
     and_then (read_hex_words_strict files (data_file opt) ''data'') (\<lambda>data_words.
     check (text_words \<noteq> []) ''text image is empty'' (
     let s = reset_memory_to_known_state s mem_words in
     and_then (place_text s mem_words text_words) (\<lambda>(text_enc_end, s).
     and_then (place_data s mem_words text_enc_end data_words) (\<lambda>(data_enc_end, s).
     and_then (generate_secure_app_key (deterministic_key opt) (deterministic_seed opt) random) (\<lambda>key.
     and_then (seal_image s opt (of_nat (length text_words)) text_enc_end (of_nat (length data_words)) data_enc_end key) (\<lambda>s.
     write_output_image s files writable (output_file opt) mem_words)))))))))"

end
