(* ===== verification/Decryptor.thy ===== *)
theory Decryptor
  imports Encryptor
begin

text \<open>
  The tool \<open>src/decryptor.cpp\<close>, which validates a sealed image and writes its plain text and data. It
  trims and strips comments as the assembler does (\<open>trim\<close>, \<open>strip_comment\<close>). The result of \<open>main\<close> is
  the exit status, the error text and the files behind it.
\<close>

section \<open>Hex files\<close>

definition isxdigit :: "char \<Rightarrow> bool" where
  "isxdigit c \<longleftrightarrow> digit_value c < 16"

definition parse_hex_word :: "string \<Rightarrow> u32 option" where
  "parse_hex_word token =
     (let t = trim token in
      if t = [] then None
      else let t = (if length t > 2 \<and> t ! 0 = CHR ''0'' \<and> (t ! 1 = CHR ''x'' \<or> t ! 1 = CHR ''X'') then drop 2 t else t)
        in if t = [] \<or> length t > 8 then None
           else if \<not> list_all isxdigit t then None
           else case strtoull 16 t of
             (None, _) \<Rightarrow> None
           | (Some parsed, idx) \<Rightarrow> if idx \<noteq> length t then None else Some (word_of_int parsed))"

fun hex_lines_bounded :: "string \<Rightarrow> u32 \<Rightarrow> u32 \<Rightarrow> string list \<Rightarrow> u32 list \<Rightarrow> string + u32 list" where
  "hex_lines_bounded path max_words line_no [] words = Inr words"
| "hex_lines_bounded path max_words line_no (line # lines) words =
     (let line_no = line_no + 1; clean = trim (strip_comment line) in
      if clean = [] then hex_lines_bounded path max_words line_no lines words
      else case parse_hex_word clean of
        None \<Rightarrow> Inl (''Invalid hex word at '' @ path @ '':'' @ format_u (unat line_no) @ '' -> '' @ [CHR 0x27] @ clean @ [CHR 0x27])
      | Some v \<Rightarrow>
          if int (length words) \<ge> uint max_words
          then Inl (''File exceeds maximum supported image size of '' @ format_u (unat max_words) @ '' words: '' @ path)
          else hex_lines_bounded path max_words line_no lines (words @ [v]))"

definition load_hex_words :: "files \<Rightarrow> string \<Rightarrow> u32 \<Rightarrow> string + u32 list" where
  "load_hex_words files path max_words =
     (case files path of
        None \<Rightarrow> Inl (''Cannot open file: '' @ path)
      | Some contents \<Rightarrow>
          and_then (hex_lines_bounded path max_words 0 (file_lines contents) []) (\<lambda>words.
          if words = [] then Inl (''File contains no hex words: '' @ path) else Inr words))"

definition write_hex_words :: "files \<Rightarrow> (string \<Rightarrow> bool) \<Rightarrow> string \<Rightarrow> u32 list \<Rightarrow> string + files" where
  "write_hex_words files writable path words =
     check (writable path) (''Cannot open output file: '' @ path) (Inr (files(path \<mapsto> hex_file words)))"

section \<open>Options\<close>

record DecOptions =
  input_image :: string
  output_text :: string
  compare_text :: string
  output_data :: string
  opt_verbose :: bool

text \<open>\<open>Inl None\<close> stands for the help text and exit status 0.\<close>

fun scan_options ::
  "string list \<Rightarrow> DecOptions \<Rightarrow> string list \<Rightarrow> string option + (DecOptions \<times> string list)" where
  "scan_options [] opt positional = Inr (opt, positional)"
| "scan_options (arg # args) opt positional =
     (if arg = ''--help'' \<or> arg = ''-h'' then Inl None
      else if arg = ''--verbose'' \<or> arg = ''-v'' then scan_options args (opt\<lparr>opt_verbose := True\<rparr>) positional
      else if arg = ''--compare'' then
        (case args of [] \<Rightarrow> Inl (Some ''--compare requires a path'')
         | path # args \<Rightarrow> scan_options args (opt\<lparr>compare_text := path\<rparr>) positional)
      else if arg = ''--data-output'' then
        (case args of [] \<Rightarrow> Inl (Some ''--data-output requires a path'')
         | path # args \<Rightarrow> scan_options args (opt\<lparr>output_data := path\<rparr>) positional)
      else if arg \<noteq> [] \<and> hd arg = CHR ''-'' \<and> arg \<noteq> ''-'' then Inl (Some (''Unknown option: '' @ arg))
      else scan_options args opt (positional @ [arg]))"

definition parse_options :: "string list \<Rightarrow> string option + DecOptions" where
  "parse_options args =
     and_then (scan_options args \<lparr>input_image = [], output_text = [], compare_text = [], output_data = [], opt_verbose = False\<rparr> [])
       (\<lambda>(opt, positional).
         and_then
           (case positional of
              [img, text] \<Rightarrow> Inr (opt\<lparr>input_image := img, output_text := text\<rparr>)
            | [img, ref, text] \<Rightarrow>
                if ref \<noteq> ''-'' then
                  if compare_text opt \<noteq> [] \<and> compare_text opt \<noteq> ref
                  then Inl (Some ''Reference provided both positionally and with --compare'')
                  else Inr (opt\<lparr>input_image := img, compare_text := ref, output_text := text\<rparr>)
                else Inr (opt\<lparr>input_image := img, output_text := text\<rparr>)
            | _ \<Rightarrow> Inl (Some ''Invalid number of positional arguments''))
           (\<lambda>opt. check (\<not> (input_image opt = [] \<or> output_text opt = [])) (Some ''Missing input or output path'') (Inr opt)))"

section \<open>Decryption\<close>

definition reset_and_load_image :: "'a sec_scheme \<Rightarrow> u32 list \<Rightarrow> 'a sec_scheme" where
  "reset_and_load_image s img =
     (let s = (if isSecurityLocked s then clearSecurityLockdown s else s);
          s = for_up 0 1024 (\<lambda>i s. mem_write s 0 i 0) s;
          s = for_up 0 (min (length img) 1024) (\<lambda>i s. mem_write s 0 i (img ! i)) s
      in invalidateCaches s)"

text \<open>
  The regions in use: start, plain words and end of the text, the epoch, and start, plain words, end
  and flags of the data.
\<close>

definition read_and_validate_metadata ::
  "'a sec_scheme \<Rightarrow> string + ((u32 \<times> u32 \<times> u32 \<times> u32) \<times> (u32 \<times> u32 \<times> u32 \<times> u32))" where
  "read_and_validate_metadata s =
     (let (text_start, text_words, text_end, epoch) = secure_get_image_region s;
          (data_start, data_words, data_end, data_flags) = secure_get_data_region s
      in check (\<not> (text_start < 32 \<or> text_start > 1024)) ''Invalid text_start in secure header'' (
         check (\<not> (text_end < text_start \<or> text_end > 1024)) ''Invalid text_end in secure header'' (
         check (\<not> text_words > text_end - text_start) ''Invalid text_words in secure header'' (
         check (\<not> (text_start mod 4 \<noteq> 0 \<or> text_end mod 4 \<noteq> 0)) ''Text region is not AES-block aligned'' (
         check (epoch \<noteq> 0) ''Invalid zero epoch in secure header'' (
         check (\<not> (data_start < text_end \<or> data_start > 1024)) ''Invalid data_start in secure header'' (
         check (\<not> (data_end < data_start \<or> data_end > 1024)) ''Invalid data_end in secure header'' (
         check (\<not> data_words > data_end - data_start) ''Invalid data_words in secure header'' (
         check (\<not> (data_start mod 4 \<noteq> 0 \<or> data_end mod 4 \<noteq> 0)) ''Data region is not AES-block aligned'' (
         Inr ((text_start, text_words, text_end, epoch), (data_start, data_words, data_end, data_flags))))))))))))"

definition decrypt_text_block ::
  "'a sec_scheme \<Rightarrow> block \<Rightarrow> u32 \<Rightarrow> u32 \<Rightarrow> nat \<Rightarrow> u32 list \<Rightarrow> string + u32 list" where
  "decrypt_text_block s key text_start text_plain_end logical_block plain_text =
     (let phys_block = secure_map_text_block s (of_nat logical_block); phys_addr = phys_block * 4 in
      if phys_block \<ge> 256 \<or> phys_addr + 4 > 1024 then Inl ''Invalid mapped physical text block during decryption''
      else let cipher = quad_gen (\<lambda>i. rawRead s 0 (unat (phys_addr + of_nat i)));
               plain = aes_decrypt_block cipher key;
               logical_addr = of_nat logical_block * 4
        in Inr (for_up 0 4
             (\<lambda>i plain_text. let word_addr = logical_addr + of_nat i
                 in if word_addr \<ge> text_start \<and> word_addr < text_plain_end
                    then plain_text[unat (word_addr - text_start) := quad_nth plain i] else plain_text) plain_text))"

definition decrypt_text_region :: "'a sec_scheme \<Rightarrow> block \<Rightarrow> u32 \<Rightarrow> u32 \<Rightarrow> u32 \<Rightarrow> string + u32 list" where
  "decrypt_text_region s key text_start text_words text_end =
     for_up (unat (text_start div 4)) (unat (text_end div 4))
       (\<lambda>blk r. and_then r (decrypt_text_block s key text_start (text_start + text_words) blk))
       (Inr (replicate (unat text_words) 0))"

definition dump_data_region_plain :: "'a sec_scheme \<Rightarrow> u32 \<Rightarrow> u32 \<Rightarrow> string + (u32 list \<times> 'a sec_scheme)" where
  "dump_data_region_plain s data_start data_words =
     for_up 0 (unat data_words)
       (\<lambda>i r. and_then r (\<lambda>(plain_data, s).
          let (rc, v, s) = secure_read_data_word_plain s (data_start + of_nat i)
          in if rc \<noteq> 0
             then Inl (''Could not read plaintext data word at image word '' @ format_u (unat (data_start + of_nat i))
                       @ '' (rc='' @ format_d rc @ '')'')
             else Inr (plain_data[i := the v], s)))
       (Inr (replicate (unat data_words) 0, s))"

definition compare_with_reference :: "u32 list \<Rightarrow> files \<Rightarrow> string \<Rightarrow> string + unit" where
  "compare_with_reference got files reference_path =
     and_then (load_hex_words files reference_path 0xFFFFFFFF) (\<lambda>ref.
     let mismatches = length (filter
           (\<lambda>i. i \<ge> length got \<or> i \<ge> length ref \<or> got ! i \<noteq> ref ! i) [0..<max (length got) (length ref)])
     in if mismatches \<noteq> 0 then Inl (''Reference compare failed: '' @ format_u mismatches @ '' mismatch(es)'')
        else Inr ())"

section \<open>The tool\<close>

text \<open>
  Continue with a result, or exit with a status: the status, the message, and the files as they are.
\<close>

definition or_exit :: "nat \<Rightarrow> files \<Rightarrow> string + 'a \<Rightarrow> ('a \<Rightarrow> nat \<times> string \<times> files) \<Rightarrow> nat \<times> string \<times> files" where
  "or_exit status files r k = (case r of Inl err \<Rightarrow> (status, err, files) | Inr a \<Rightarrow> k a)"

definition decryptor_main ::
  "'a sec_scheme \<Rightarrow> files \<Rightarrow> (string \<Rightarrow> bool) \<Rightarrow> string list \<Rightarrow> nat \<times> string \<times> files" where
  "decryptor_main s files writable args =
     (case parse_options args of
        Inl None \<Rightarrow> (0, [], files)
      | Inl (Some err) \<Rightarrow> (1, err, files)
      | Inr opt \<Rightarrow>
        or_exit 2 files (load_hex_words files (input_image opt) 1024) (\<lambda>img.
        let s = reset_and_load_image s img; (validate_rc, s) = secure_validate_image s 0 in
        if validate_rc \<noteq> 0 \<or> isSecurityLocked s
        then (3, ''Secure image validation failed; refusing to decrypt (rc='' @ format_d validate_rc @ '').'', files)
        else let (key_rc, key, s) = extract_key_from_large_block s 0 in
        if key_rc \<noteq> 0 \<or> isSecurityLocked s
        then (4, ''Secure app-key unwrap failed (rc='' @ format_d key_rc @ '').'', files)
        else
        or_exit 5 files (read_and_validate_metadata s)
          (\<lambda>((text_start, text_words, text_end, epoch), (data_start, data_words, data_end, data_flags)).
        or_exit 6 files (decrypt_text_region s key text_start text_words text_end) (\<lambda>plain_text.
        or_exit 7 files (write_hex_words files writable (output_text opt) plain_text) (\<lambda>files.
        or_exit 8 files (if compare_text opt \<noteq> [] then compare_with_reference plain_text files (compare_text opt) else Inr ()) (\<lambda>_.
        if output_data opt = [] then (0, [], files)
        else
        or_exit 9 files (dump_data_region_plain s data_start data_words) (\<lambda>(plain_data, s).
        or_exit 10 files (write_hex_words files writable (output_data opt) plain_data) (\<lambda>files.
        (0, [], files)))))))))"

end
