(* ===== verification/Hex_Files.thy ===== *)
theory Hex_Files
  imports Decryptor
begin

text \<open>
  Hex files: eight digits written by the assembler or a tool are read back as the same word, and a
  file of such lines as the same list of words, by the readers of both tools.
\<close>

section \<open>Hexadecimal digits\<close>

lemma digit_char_values:
  "map digit_char [0, 1, 2, 3, 4, 5, 6, 7, 8, 9, 10, 11, 12, 13, 14, 15] = ''0123456789ABCDEF''"
  by code_simp

lemma digit_char_cases:
  assumes "d < 16"
  shows "digit_value (digit_char d) = d" "isxdigit (digit_char d)" "\<not> is_blank (digit_char d)" "\<not> isspace (digit_char d)"
    "digit_char d \<notin> {CHR ''#'', CHR ''/'', CHR ''-'', CHR ''+'', CHR ''x'', CHR ''X'', CHR 0x0A, CHR 0x00}"
proof -
  have d: "d \<in> {0, 1, 2, 3, 4, 5, 6, 7, 8, 9, 10, 11, 12, 13, 14, 15}"
    unfolding insert_iff empty_iff using assms by presburger
  then have c: "digit_char d \<in> set ''0123456789ABCDEF''"
    unfolding digit_char_values[symmetric] by (auto simp del: digit_char.simps)
  have "map digit_value ''0123456789ABCDEF'' = [0, 1, 2, 3, 4, 5, 6, 7, 8, 9, 10, 11, 12, 13, 14, 15]" by code_simp
  then have v: "map (\<lambda>d. digit_value (digit_char d)) [0, 1, 2, 3, 4, 5, 6, 7, 8, 9, 10, 11, 12, 13, 14, 15] =
      [0, 1, 2, 3, 4, 5, 6, 7, 8, 9, 10, 11, 12, 13, 14, 15]"
    unfolding digit_char_values[symmetric] by (simp only: list.map)
  then show v: "digit_value (digit_char d) = d" using d by (auto simp del: digit_char.simps)
  show "isxdigit (digit_char d)" using v assms by (simp add: isxdigit_def del: digit_char.simps)
  have "list_all (\<lambda>c. \<not> isspace c) ''0123456789ABCDEF''" by code_simp
  then show "\<not> isspace (digit_char d)" using c unfolding list_all_iff by blast
  show "\<not> is_blank (digit_char d)"
    "digit_char d \<notin> {CHR ''#'', CHR ''/'', CHR ''-'', CHR ''+'', CHR ''x'', CHR ''X'', CHR 0x0A, CHR 0x00}"
    using c by (auto simp: is_blank_def simp del: digit_char.simps)
qed

definition hex_digits :: "string \<Rightarrow> bool" where
  "hex_digits s \<longleftrightarrow> s \<noteq> [] \<and> length s \<le> 8 \<and> (\<forall>c\<in>set s. \<exists>d<16. c = digit_char d)"

lemma hex_digits_format: "hex_digits (format_08X w)"
proof -
  have "unat (x AND 0xF) < 16" for x :: u32
  proof -
    have "x AND 0xF = take_bit 4 x" by (simp add: take_bit_eq_mask mask_eq_exp_minus_1)
    then show ?thesis by (simp add: unsigned_take_bit_eq take_bit_nat_less_exp[of 4, simplified])
  qed
  then show ?thesis by (auto simp: hex_digits_def format_08X_def simp del: digit_char.simps)
qed

text \<open>No comment, no white space, no sign and no prefix in such a string.\<close>

lemma hex_digits_chars:
  assumes "hex_digits s" "c \<in> set s"
  shows "isxdigit c" "\<not> is_blank c" "\<not> isspace c" "c \<notin> {CHR ''#'', CHR ''/'', CHR ''-'', CHR ''+'', CHR ''x'', CHR ''X'', CHR 0x0A, CHR 0x00}"
proof -
  obtain d where "d < 16" "c = digit_char d" using assms by (auto simp: hex_digits_def)
  then show "isxdigit c" "\<not> is_blank c" "\<not> isspace c" "c \<notin> {CHR ''#'', CHR ''/'', CHR ''-'', CHR ''+'', CHR ''x'', CHR ''X'', CHR 0x0A, CHR 0x00}"
    using digit_char_cases by (simp_all del: digit_char.simps)
qed

lemma find_char_absent: "c \<notin> set s \<Longrightarrow> find_char c s = None"
proof -
  assume "c \<notin> set s"
  then have "takeWhile (\<lambda>x. x \<noteq> c) s = s" by (auto simp: takeWhile_eq_all_conv)
  then show ?thesis by (simp only: find_char_def Let_def) simp
qed

lemma find_slashes_absent: "CHR ''/'' \<notin> set s \<Longrightarrow> find_slashes s = None"
  by (induction s rule: find_slashes.induct) auto

lemma dropWhile_none: "\<forall>c\<in>set s. \<not> P c \<Longrightarrow> dropWhile P s = s"
  by (cases s) auto

lemma hex_digits_stripped:
  assumes "hex_digits s"
  shows "strip_comment_and_trim s = s" "trim (strip_comment s) = s" "trim s = s"
proof -
  note h = hex_digits_chars[OF assms]
  have c: "find_char (CHR ''#'') s = None" "find_slashes s = None"
    using h(4) by (auto intro!: find_char_absent find_slashes_absent)
  have "trim_copy s = s" using h(2) by (simp add: trim_copy_def dropWhile_none)
  then show "strip_comment_and_trim s = s" using c by (simp add: strip_comment_and_trim_def)
  show "trim s = s" using h(3) by (simp add: trim_def dropWhile_none)
  then show "trim (strip_comment s) = s" using c by (simp add: strip_comment_def)
qed

lemma strtoull_hex_digits:
  assumes "hex_digits s"
  shows "strtoull 16 s = (Some (foldl (\<lambda>v c. v * 16 + int (digit_value c)) 0 s), length s)"
proof -
  note h = hex_digits_chars[OF assms]
  obtain c cs where s: "s = c # cs" using assms by (cases s) (auto simp: hex_digits_def)
  have bound: "foldl (\<lambda>v c. v * 16 + int (digit_value c)) a ds < (a + 1) * 16 ^ length ds" if "\<forall>c\<in>set ds. isxdigit c" for a ds
    using that
  proof (induction ds arbitrary: a)
    case (Cons d ds)
    have "digit_value d < 16" using Cons.prems by (simp add: isxdigit_def)
    then have "a * 16 + int (digit_value d) + 1 \<le> (a + 1) * 16" by simp
    then have "(a * 16 + int (digit_value d) + 1) * 16 ^ length ds \<le> (a + 1) * 16 * 16 ^ length ds"
      by (intro mult_right_mono) simp_all
    moreover have "foldl (\<lambda>v c. v * 16 + int (digit_value c)) (a * 16 + int (digit_value d)) ds
        < (a * 16 + int (digit_value d) + 1) * 16 ^ length ds" by (rule Cons.IH) (use Cons.prems in simp)
    ultimately have "foldl (\<lambda>v c. v * 16 + int (digit_value c)) (a * 16 + int (digit_value d)) ds < (a + 1) * 16 * 16 ^ length ds"
      by (rule less_le_trans[rotated])
    then show ?case by (simp add: algebra_simps)
  qed simp
  have v: "foldl (\<lambda>v c. v * 16 + int (digit_value c)) 0 s < 16 ^ length s" using bound[of s 0] h(1) by simp
  have "(16::int) ^ length s \<le> 16 ^ 8" using assms by (intro power_increasing) (auto simp: hex_digits_def)
  with v have v: "foldl (\<lambda>v c. v * 16 + int (digit_value c)) 0 s < 16 ^ 8" by linarith
  have drop: "dropWhile isspace s = s" using h(3) by (intro dropWhile_none) auto
  have sign: "hd s \<noteq> CHR ''-''" "hd s \<noteq> CHR ''+''" using h(4)[of c] by (simp_all add: s)
  have pre: "s ! Suc 0 \<noteq> CHR ''x'' \<and> s ! Suc 0 \<noteq> CHR ''X''" if "2 < length s" using h(4)[OF nth_mem, of 1] that by simp
  have tw: "takeWhile (\<lambda>c. digit_value c < 16) s = s" using h(1) by (auto simp: takeWhile_eq_all_conv isxdigit_def)
  have "s \<noteq> []" by (simp add: s)
  then show ?thesis using v pre by (auto simp: strtoull_def Let_def drop sign tw)
qed

lemma format_value: "foldl (\<lambda>v c. v * 16 + int (digit_value c)) 0 (format_08X w) = uint w"
proof -
  define a where "a k = uint w div 2 ^ k" for k
  have d: "int (digit_value (digit_char (unat (drop_bit k w AND 0xF)))) = a k mod 16" for k
  proof -
    have m: "drop_bit k w AND 0xF = take_bit 4 (drop_bit k w)" by (simp add: take_bit_eq_mask mask_eq_exp_minus_1)
    have "uint (drop_bit k w AND 0xF) = take_bit 4 (drop_bit k (uint w))"
      unfolding m using take_bit_int_eq_self[of "uint w" 32] uint_lt2p[of w]
      by (simp add: unsigned_take_bit_eq unsigned_drop_bit_eq)
    then have i: "int (unat (drop_bit k w AND 0xF)) = a k mod 16" by (simp add: a_def drop_bit_eq_div take_bit_eq_mod)
    then have "unat (drop_bit k w AND 0xF) < 16" by linarith
    then show ?thesis using digit_char_cases(1) i by (simp del: digit_char.simps)
  qed
  have step: "int (digit_value (digit_char (unat (drop_bit k w AND 0xF)))) = a k - 16 * a (k + 4)" for k
  proof -
    have "a (k + 4) = a k div 16" by (simp add: a_def power_add zdiv_zmult2_eq)
    then show ?thesis unfolding d by (simp add: minus_mult_div_eq_mod)
  qed
  have a: "a 32 = 0" "a 0 = uint w" using uint_lt2p[of w] by (simp_all add: a_def)
  have "[0..<8] = [0, 1, 2, 3, 4, 5, 6, 7::nat]" by (simp add: upt_rec)
  then have "foldl (\<lambda>v c. v * 16 + int (digit_value c)) 0 (format_08X w) =
    ((((((((a 28 - 16 * a 32) * 16 + (a 24 - 16 * a 28)) * 16 + (a 20 - 16 * a 24)) * 16 + (a 16 - 16 * a 20)) * 16
      + (a 12 - 16 * a 16)) * 16 + (a 8 - 16 * a 12)) * 16 + (a 4 - 16 * a 8)) * 16 + (a 0 - 16 * a 4))"
    using step[of 0] step[of 4] step[of 8] step[of 12] step[of 16] step[of 20] step[of 24] step[of 28]
    by (simp add: format_08X_def del: digit_char.simps)
  also have "\<dots> = uint w" using a by simp
  finally show ?thesis .
qed

lemma format_parses:
  "parse_u32_base (format_08X w) 16 = Some w" "parse_hex_word (format_08X w) = Some w"
proof -
  let ?s = "format_08X w"
  note hd = hex_digits_format[of w]
  note h = hex_digits_chars[OF hd]
  have "takeWhile (\<lambda>c. c \<noteq> CHR 0x00) ?s = ?s" using h(4) by (auto simp: takeWhile_eq_all_conv)
  moreover have "?s \<noteq> []" "length ?s \<le> 8" using hd by (auto simp: hex_digits_def)
  moreover have "uint w \<le> 2 ^ 32 - 1" using uint_lt2p[of w] by simp
  ultimately show "parse_u32_base ?s 16 = Some w"
    by (simp only: parse_u32_base_def strtoull_hex_digits[OF hd] format_value Let_def) simp
  have "?s ! Suc 0 \<noteq> CHR ''x'' \<and> ?s ! Suc 0 \<noteq> CHR ''X''"
    using h(4)[OF nth_mem, of 1] by (simp add: format_08X_def del: digit_char.simps)
  moreover have "list_all isxdigit ?s" using h(1) by (simp add: list_all_iff)
  ultimately show "parse_hex_word ?s = Some w" using \<open>?s \<noteq> []\<close> \<open>length ?s \<le> 8\<close>
    by (simp add: parse_hex_word_def hex_digits_stripped[OF hd] strtoull_hex_digits[OF hd] format_value Let_def)
qed

section \<open>Files\<close>

lemma file_lines_line: "CHR 0x0A \<notin> set x \<Longrightarrow> file_lines (x @ CHR 0x0A # rest) = x # file_lines rest"
proof -
  assume x: "CHR 0x0A \<notin> set x"
  then have "\<forall>c\<in>set x. c \<noteq> CHR 0x0A" by auto
  then have t: "takeWhile (\<lambda>c. c \<noteq> CHR 0x0A) (x @ CHR 0x0A # rest) = x" "dropWhile (\<lambda>c. c \<noteq> CHR 0x0A) (x @ CHR 0x0A # rest) = CHR 0x0A # rest"
    by simp_all
  obtain c cs where c: "x @ CHR 0x0A # rest = c # cs" by (cases "x @ CHR 0x0A # rest") auto
  show ?thesis using t unfolding c file_lines.simps by simp
qed

lemma file_lines_hex: "file_lines (hex_file ws) = map format_08X ws"
proof (induction ws)
  case (Cons w ws)
  have "CHR 0x0A \<notin> set (format_08X w)" using hex_digits_chars(4)[OF hex_digits_format] by blast
  then show ?case using Cons file_lines_line[of "format_08X w" "hex_file ws"] by (simp add: hex_file_def)
qed (simp add: hex_file_def)

lemma hex_lines_strict_format: "hex_lines_strict label n (map format_08X ws) vs = Inr (vs @ ws)"
proof (induction ws arbitrary: n vs)
  case (Cons w ws)
  have "format_08X w \<noteq> []" using hex_digits_format by (auto simp: hex_digits_def)
  then show ?case using Cons by (simp add: hex_digits_stripped[OF hex_digits_format] format_parses)
qed simp

lemma hex_lines_bounded_format:
  "int (length vs + length ws) \<le> uint m \<Longrightarrow> hex_lines_bounded path m n (map format_08X ws) vs = Inr (vs @ ws)"
proof (induction ws arbitrary: n vs)
  case (Cons w ws)
  have "format_08X w \<noteq> []" using hex_digits_format by (auto simp: hex_digits_def)
  then show ?case using Cons by (simp add: hex_digits_stripped[OF hex_digits_format] format_parses)
qed simp

end
