(* ===== verification/Tool_Memory.thy ===== *)
theory Tool_Memory
  imports Hex_Files Top_Level Image_Properties
begin

text \<open>
  The memory of the tools before anything is encrypted: a layer of 1024 plain words, what writing and
  reading does to it, the placement of header, text and data, and the loop that encrypts blocks.
\<close>

lemma and_then_result [simp]: "and_then (Inr a) k = k a" "and_then (Inl e) k = Inl e"
  by (simp_all add: and_then_def)

lemma for_up_step: "a \<le> b \<Longrightarrow> for_up a b body s = t \<Longrightarrow> for_up a (Suc b) body s = body b t"
  by (simp add: for_up_Suc)

section \<open>Writing the plain layer\<close>

definition plain :: "'a smem_scheme \<Rightarrow> bool" where
  "plain s \<longleftrightarrow> smem_wf s \<and> accessible s 0 \<and> \<not> layer_is_encrypted s 0 \<and> num_words s = 1024 \<and> \<not> security_lockdown s"

text \<open>\<open>holds s m t\<close>: the state \<open>t\<close> is \<open>s\<close> with the words \<open>m\<close> in layer 0, but for the log.\<close>

definition holds :: "'a smem_scheme \<Rightarrow> (nat \<Rightarrow> u32) \<Rightarrow> 'a smem_scheme \<Rightarrow> bool" where
  "holds s m t \<longleftrightarrow> (\<exists>f. t = s\<lparr>layer_log := f, memory := (memory s)(0 := m)\<rparr>) \<and> smem_wf t"

lemma holds_fields:
  assumes "holds s m t"
  shows "memory t 0 = m" "plain s \<Longrightarrow> plain t" "words32 t = words32 s" "hardware_root t = hardware_root s"
    "num_layers t = num_layers s" "smem.more t = smem.more s"
  using assms by (auto simp: holds_def plain_def accessible_def isValidLayer_def words32_def getNumWords_def)

lemma holds_refl: "plain s \<Longrightarrow> holds s (memory s 0) s"
  by (auto simp: holds_def plain_def intro!: exI[of _ "layer_log s"])

lemma holds_trans: "holds s m t \<Longrightarrow> holds t n u \<Longrightarrow> holds s n u"
  by (auto simp: holds_def)

lemma holds_eq: "holds s m t \<Longrightarrow> m = n \<Longrightarrow> holds s n t"
  by simp

lemma holds_quiet: "plain s \<Longrightarrow> quiet s t \<Longrightarrow> holds s (memory s 0) t"
  by (auto simp: holds_def quiet_def plain_def)

lemma plain_reads:
  assumes "plain s" "a < 1024"
  shows "mem_read s 0 a = memory s 0 a" "rawRead s 0 a = memory s 0 a" "fst (read_plain_word s a) = memory s 0 a"
    "quiet s (snd (read_plain_word s a))"
proof -
  show m: "mem_read s 0 a = memory s 0 a" using assms by (simp add: plain_def plain_read)
  show "rawRead s 0 a = memory s 0 a" using assms by (simp add: plain_def accessible_def rawRead_def)
  show "fst (read_plain_word s a) = memory s 0 a" "quiet s (snd (read_plain_word s a))"
    by (simp_all add: read_plain_word_def protectedRead_pair m quiet_rd)
qed

lemma holds_write:
  assumes "plain s" "a < 1024"
  shows "holds s ((memory s 0)(a := v)) (mem_write s 0 a v)" "holds s ((memory s 0)(a := v)) (protectedWrite s 0 a v)"
    "holds s ((memory s 0)(a := v)) (write_plain_word s a v)"
proof -
  have p: "accessible s 0" "\<not> layer_is_encrypted s 0" "a < num_words s" "smem_wf s" using assms by (simp_all add: plain_def)
  show m: "holds s ((memory s 0)(a := v)) (mem_write s 0 a v)"
    using plain_mem_write[OF p(1-3), of v] wf_mem_write[OF p(4)] by (metis holds_def)
  show w: "holds s ((memory s 0)(a := v)) (protectedWrite s 0 a v)"
    using plain_write[OF p(1-3), of v] wf_protectedWrite[OF p(4)] by (metis holds_def)
  show "holds s ((memory s 0)(a := v)) (write_plain_word s a v)" using m w by (simp add: write_plain_word_def)
qed

lemma holds_loop:
  fixes s :: "'a sec_scheme"
  assumes "plain s" and step: "\<And>i s. a \<le> i \<Longrightarrow> i < b \<Longrightarrow> plain s \<Longrightarrow> holds s ((memory s 0)(c + i := h i)) (body i s)"
  shows "holds s (\<lambda>x. if c + a \<le> x \<and> x < c + b then h (x - c) else memory s 0 x) (for_up a b body s)"
  using step
proof (induction b)
  case 0
  have "holds s (memory s 0) (for_up a 0 body s)" using holds_refl[OF assms(1)] by simp
  then show ?case by (rule holds_eq) (auto simp: fun_eq_iff)
next
  case (Suc b)
  show ?case
  proof (cases "a \<le> b")
    case True
    let ?m = "\<lambda>x. if c + a \<le> x \<and> x < c + b then h (x - c) else memory s 0 x"
    have IH: "holds s ?m (for_up a b body s)" by (rule Suc.IH) (use Suc.prems in simp)
    note f = holds_fields[OF IH]
    let ?u = "for_up a b body s"
    have "holds ?u ((memory ?u 0)(c + b := h b)) (body b ?u)"
      using Suc.prems[of b ?u] True f(2)[OF assms(1)] by blast
    then have "holds s ((memory ?u 0)(c + b := h b)) (for_up a (Suc b) body s)"
      using holds_trans[OF IH] True by (simp add: for_up_Suc)
    then show ?thesis by (rule holds_eq) (use True in \<open>auto simp: fun_eq_iff f(1)\<close>)
  next
    case False
    then have "holds s (memory s 0) (for_up a (Suc b) body s)" using holds_refl[OF assms(1)] by simp
    then show ?thesis by (rule holds_eq) (use False in \<open>auto simp: fun_eq_iff\<close>)
  qed
qed

section \<open>The plain image\<close>

text \<open>The words before encryption: header, text, padding, data, padding.\<close>

definition text_end :: "u32 list \<Rightarrow> nat" where
  "text_end tw = 32 + align_words_to_crypto_block (length tw)"

definition data_end :: "u32 list \<Rightarrow> u32 list \<Rightarrow> nat" where
  "data_end tw dw = text_end tw + align_words_to_crypto_block (length dw)"

definition plain_image :: "u32 list \<Rightarrow> u32 list \<Rightarrow> nat \<Rightarrow> u32" where
  "plain_image tw dw a =
     (if a < 32 then 0xDEADBEEF
      else if a < 32 + length tw then tw ! (a - 32)
      else if text_end tw \<le> a \<and> a < text_end tw + length dw then dw ! (a - text_end tw) else 0)"

lemma align_words: "n \<le> align_words_to_crypto_block n" "4 dvd align_words_to_crypto_block n"
    "align_words_to_crypto_block n < n + 4"
  unfolding align_words_to_crypto_block_def by presburger+

lemma text_end_bounds: "32 + length tw \<le> text_end tw" "4 dvd text_end tw" "text_end tw + length dw \<le> data_end tw dw"
    "4 dvd data_end tw dw" "text_end tw \<le> data_end tw dw"
  using align_words by (simp_all add: text_end_def data_end_def)

lemma align_up:
  assumes "4 dvd b" "b + align_words_to_crypto_block n \<le> 2000"
  shows "align_up_words (of_nat b + of_nat n) 4 = of_nat (b + align_words_to_crypto_block n)"
proof -
  define k where "k = b + n"
  have k: "k \<le> 2000" using align_words[of n] assms(2) by (simp add: k_def)
  then have u: "unat (of_nat k :: u32) = k" by (simp add: unat_of_nat)
  have m: "unat (of_nat k mod 4 :: u32) = k mod 4" by (simp add: unat_mod u)
  have al: "b + align_words_to_crypto_block n = (if k mod 4 = 0 then k else k + (4 - k mod 4))"
  proof -
    have "align_words_to_crypto_block n = (if n mod 4 = 0 then n else n + (4 - n mod 4))"
      unfolding align_words_to_crypto_block_def by presburger
    moreover have "k mod 4 = n mod 4" using assms(1) by (auto simp: k_def elim: dvdE)
    ultimately show ?thesis using mod_less_divisor[of 4 n] by (simp add: k_def) arith
  qed
  have "of_nat k mod 4 = (0 :: u32) \<longleftrightarrow> k mod 4 = 0" using m by (metis unat_eq_zero)
  moreover have "of_nat k mod 4 = (of_nat (k mod 4) :: u32)" unfolding m[symmetric] by simp
  ultimately have "align_up_words (of_nat k) 4 = of_nat (if k mod 4 = 0 then k else k + (4 - k mod 4))"
    using mod_less_divisor[of 4 k] by (simp add: align_up_words_def Let_def of_nat_diff)
  then show ?thesis unfolding al k_def by simp
qed

lemma reset_holds:
  assumes "plain s"
  shows "holds s (\<lambda>x. if x < 32 then 0xDEADBEEF else 0) (reset_memory_to_known_state s 1024)"
proof -
  have "holds s (\<lambda>x. if 0 + 0 \<le> x \<and> x < 0 + 1024 then if x - 0 < 32 then 0xDEADBEEF else 0 else memory s 0 x)
      (reset_memory_to_known_state s 1024)"
    unfolding reset_memory_to_known_state_def
    by (rule holds_loop[OF assms]) (simp add: Let_def holds_write)
  moreover have "memory s 0 x = 0" if "1024 \<le> x" for x using assms that by (simp add: plain_def smem_wf_def)
  ultimately show ?thesis by (elim holds_eq) (auto simp: fun_eq_iff)
qed

lemma place_text_holds:
  assumes p: "plain s" and m: "memory s 0 = (\<lambda>x. if x < 32 then 0xDEADBEEF else 0)"
    and n: "align_words_to_crypto_block (length tw) \<le> 992"
  obtains t where "place_text s 1024 tw = Inr (of_nat (text_end tw), t)" "holds s (plain_image tw []) t"
proof -
  let ?n = "length tw"
  have l: "?n \<le> 992" using n align_words(1)[of ?n] by linarith
  have te: "align_up_words (32 + of_nat ?n) 4 = (of_nat (text_end tw) :: u32)"
    using align_up[of 32 ?n] n by (simp add: text_end_def)
  have te_le: "text_end tw \<le> 1024" using n by (simp add: text_end_def)
  have u: "unat (of_nat ?n :: u32) = ?n" "unat (32 + of_nat ?n :: u32) = 32 + ?n" "unat (of_nat (text_end tw) :: u32) = text_end tw"
    using l te_le by (simp_all add: unat_word_ariths unat_of_nat)
  let ?t1 = "for_up 0 ?n (\<lambda>i s. write_plain_word s (32 + i) (tw ! i)) s"
  let ?t2 = "for_up (32 + ?n) (text_end tw) (\<lambda>i s. write_plain_word s i 0) ?t1"
  have h1: "holds s (\<lambda>x. if 32 + 0 \<le> x \<and> x < 32 + ?n then tw ! (x - 32) else memory s 0 x) ?t1"
    by (rule holds_loop[OF p]) (use l in \<open>simp add: holds_write\<close>)
  note f = holds_fields[OF h1]
  have h2: "holds ?t1 (\<lambda>x. if 0 + (32 + ?n) \<le> x \<and> x < 0 + text_end tw then 0 else memory ?t1 0 x) ?t2"
    by (rule holds_loop[OF f(2)[OF p]]) (use te_le in \<open>simp add: holds_write\<close>)
  have "holds s (plain_image tw []) ?t2"
    using holds_trans[OF h1 h2] by (rule holds_eq) (auto simp: fun_eq_iff f(1) m plain_image_def)
  moreover have "\<not> 32 + of_nat ?n < (32 :: u32)" "\<not> of_nat (text_end tw) > (of_nat 1024 :: u32)"
    using u l te_le by (simp_all add: word_less_nat_alt)
  then have "place_text s 1024 tw = Inr (of_nat (text_end tw), ?t2)"
    by (simp add: place_text_def Let_def te u)
  ultimately show thesis by (rule_tac that)
qed

lemma place_data_holds:
  assumes p: "plain s" and m: "memory s 0 = plain_image tw []" and n: "data_end tw dw \<le> 1024"
  obtains t where "place_data s 1024 (of_nat (text_end tw)) dw = Inr (of_nat (data_end tw dw), t)" "holds s (plain_image tw dw) t"
proof -
  let ?n = "length dw" and ?b = "text_end tw"
  note tb = text_end_bounds
  have l: "?b + ?n \<le> 1024" using n tb(3)[of tw dw] by linarith
  have de: "align_up_words (of_nat ?b + of_nat ?n) 4 = (of_nat (data_end tw dw) :: u32)"
    using align_up[OF tb(2), of tw ?n] n by (simp add: data_end_def)
  have u: "unat (of_nat ?n :: u32) = ?n" "unat (of_nat ?b :: u32) = ?b" "unat (of_nat ?b + of_nat ?n :: u32) = ?b + ?n"
    "unat (of_nat (data_end tw dw) :: u32) = data_end tw dw"
    using l n by (simp_all add: unat_word_ariths unat_of_nat)
  let ?t1 = "for_up 0 ?n (\<lambda>i s. write_plain_word s (?b + i) (dw ! i)) s"
  let ?t2 = "for_up (?b + ?n) (data_end tw dw) (\<lambda>i s. write_plain_word s i 0) ?t1"
  let ?t3 = "for_up (data_end tw dw) 1024 (\<lambda>i s. write_plain_word s i 0) ?t2"
  have h1: "holds s (\<lambda>x. if ?b + 0 \<le> x \<and> x < ?b + ?n then dw ! (x - ?b) else memory s 0 x) ?t1"
    by (rule holds_loop[OF p]) (use l in \<open>simp add: holds_write\<close>)
  note f1 = holds_fields[OF h1]
  have h2: "holds ?t1 (\<lambda>x. if 0 + (?b + ?n) \<le> x \<and> x < 0 + data_end tw dw then 0 else memory ?t1 0 x) ?t2"
    by (rule holds_loop[OF f1(2)[OF p]]) (use n in \<open>simp add: holds_write\<close>)
  note f2 = holds_fields[OF h2]
  have h3: "holds ?t2 (\<lambda>x. if 0 + data_end tw dw \<le> x \<and> x < 0 + 1024 then 0 else memory ?t2 0 x) ?t3"
    by (rule holds_loop[OF f2(2)[OF f1(2)[OF p]]]) (simp add: holds_write)
  have "holds s (plain_image tw dw) ?t3"
    using holds_trans[OF holds_trans[OF h1 h2] h3]
    by (rule holds_eq) (use tb(1)[of tw] tb(3)[of tw dw] in \<open>auto simp: fun_eq_iff f1(1) f2(1) m plain_image_def\<close>)
  moreover have "\<not> of_nat ?b + of_nat ?n < (of_nat ?b :: u32)" "\<not> of_nat (data_end tw dw) > (of_nat 1024 :: u32)"
    using u n by (simp_all add: word_less_nat_alt)
  then have "place_data s 1024 (of_nat ?b) dw = Inr (of_nat (data_end tw dw), ?t3)"
    by (simp add: place_data_def Let_def de u)
  ultimately show thesis by (rule_tac that)
qed

section \<open>Encrypting the regions\<close>

lemma fill_buffer_plain:
  fixes s :: "'a sec_scheme"
  assumes "plain s"
  obtains t where "fill_buffer s buf = (\<lambda>x. if x < 1024 then memory s 0 x else buf x, t)" "quiet s t"
proof -
  let ?body = "\<lambda>i (buf, s :: 'a sec_scheme). let (v, s) = read_plain_word s i in (buf(i := v), s)"
  have "\<exists>t. for_up 0 n ?body (buf, s) = (\<lambda>x. if x < n then memory s 0 x else buf x, t) \<and> quiet s t" if "n \<le> 1024" for n
    using that
  proof (induction n)
    case (Suc n)
    then obtain t where t: "for_up 0 n ?body (buf, s) = (\<lambda>x. if x < n then memory s 0 x else buf x, t)" "quiet s t" using Suc_leD by blast
    note h = holds_quiet[OF assms t(2)]
    obtain u where u: "read_plain_word t n = (memory s 0 n, u)" "quiet t u"
      using plain_reads(3,4)[OF holds_fields(2)[OF h assms], of n] holds_fields(1)[OF h] Suc.prems by (metis Suc_le_lessD prod.collapse)
    have "(\<lambda>x. if x < n then memory s 0 x else buf x)(n := memory s 0 n) = (\<lambda>x. if x < Suc n then memory s 0 x else buf x)"
      by (auto simp: fun_eq_iff less_Suc_eq)
    note upd = this
    have "for_up 0 (Suc n) ?body (buf, s) = ?body n (\<lambda>x. if x < n then memory s 0 x else buf x, t)"
      by (rule for_up_step[OF le0 t(1)])
    also have "\<dots> = (\<lambda>x. if x < Suc n then memory s 0 x else buf x, u)" by (simp only: u(1) prod.case Let_def upd)
    finally have "for_up 0 (Suc n) ?body (buf, s) = (\<lambda>x. if x < Suc n then memory s 0 x else buf x, u)" .
    then show ?case using quiet_trans[OF t(2) u(2)] by blast
  qed simp
  from this[of 1024] show thesis using that unfolding fill_buffer_def by auto
qed

lemma read_plain_block_plain:
  fixes s :: "'a sec_scheme"
  assumes "plain s" "a + 4 \<le> 1024"
  obtains t where "read_plain_block s a = (quad_gen (\<lambda>i. memory s 0 (a + i)), t)" "quiet s t"
proof -
  have rd: "\<exists>u. read_plain_word t (a + i) = (memory s 0 (a + i), u) \<and> quiet s u" if "quiet s t" "i < 4" for t i
  proof -
    note h = holds_quiet[OF assms(1) that(1)]
    show ?thesis using plain_reads(3,4)[OF holds_fields(2)[OF h assms(1)], of "a + i"] holds_fields(1)[OF h] that assms(2)
      by (metis prod.collapse quiet_trans add_strict_left_mono less_le_trans)
  qed
  obtain t0 where t0: "read_plain_word s (a + 0) = (memory s 0 (a + 0), t0)" "quiet s t0" using rd[OF quiet_refl, of 0] by auto
  obtain t1 where t1: "read_plain_word t0 (a + 1) = (memory s 0 (a + 1), t1)" "quiet s t1" using rd[OF t0(2), of 1] by auto
  obtain t2 where t2: "read_plain_word t1 (a + 2) = (memory s 0 (a + 2), t2)" "quiet s t2" using rd[OF t1(2), of 2] by auto
  obtain t3 where t3: "read_plain_word t2 (a + 3) = (memory s 0 (a + 3), t3)" "quiet s t3" using rd[OF t2(2), of 3] by auto
  have "[0..<4] = [0, 1, 2, 3::nat]" by (simp add: upt_rec)
  then have "read_plain_block s a = (quad_gen (\<lambda>i. memory s 0 (a + i)), t3)"
    using t0(1) t1(1) t2(1) t3(1) by (simp add: read_plain_block_def for_up_def quad_gen_def numeral_eq_Suc)
  then show thesis using that t3(2) by blast
qed

lemma block_loop:
  fixes s :: "'a sec_scheme"
  assumes step: "\<And>blk buf t. a \<le> blk \<Longrightarrow> blk < b \<Longrightarrow> quiet s t \<Longrightarrow>
      \<exists>u. step blk (buf, t) = Inr (put_block buf (P blk * 4) (E blk), u) \<and> quiet s u"
    and inj: "inj_on P {a..<b}" and s: "quiet s s1"
  obtains buf' t where "for_up a b (\<lambda>blk r. and_then r (step blk)) (Inr (buf, s1)) = Inr (buf', t)" "quiet s t"
    "\<And>blk. a \<le> blk \<Longrightarrow> blk < b \<Longrightarrow> quad_gen (\<lambda>i. buf' (P blk * 4 + i)) = E blk"
    "\<And>x. x div 4 \<notin> P ` {a..<b} \<Longrightarrow> buf' x = buf x"
proof -
  have "\<exists>buf' t. for_up a c (\<lambda>blk r. and_then r (step blk)) (Inr (buf, s1)) = Inr (buf', t) \<and> quiet s t
      \<and> (\<forall>blk. a \<le> blk \<and> blk < c \<longrightarrow> quad_gen (\<lambda>i. buf' (P blk * 4 + i)) = E blk)
      \<and> (\<forall>x. x div 4 \<notin> P ` {a..<c} \<longrightarrow> buf' x = buf x)" if "c \<le> b" for c
    using that
  proof (induction c)
    case 0
    show ?case using s by simp
  next
    case (Suc c)
    show ?case
    proof (cases "a \<le> c")
      case True
      obtain buf1 t where IH: "for_up a c (\<lambda>blk r. and_then r (step blk)) (Inr (buf, s1)) = Inr (buf1, t)" "quiet s t"
        "\<And>blk. a \<le> blk \<Longrightarrow> blk < c \<Longrightarrow> quad_gen (\<lambda>i. buf1 (P blk * 4 + i)) = E blk"
        "\<And>x. x div 4 \<notin> P ` {a..<c} \<Longrightarrow> buf1 x = buf x"
        using Suc.IH Suc.prems by auto
      obtain u where u: "step c (buf1, t) = Inr (put_block buf1 (P c * 4) (E c), u)" "quiet s u"
        using step[OF True _ IH(2), of buf1] Suc.prems by auto
      let ?buf = "put_block buf1 (P c * 4) (E c)"
      let ?body = "\<lambda>blk r. and_then r (step blk)"
      have "for_up a (Suc c) ?body (Inr (buf, s1)) = ?body c (Inr (buf1, t))" by (rule for_up_step[OF True IH(1)])
      then have run: "for_up a (Suc c) ?body (Inr (buf, s1)) = Inr (?buf, u)" by (simp only: and_then_def sum.case u(1))
      have "quad_gen (\<lambda>i. ?buf (P blk * 4 + i)) = E blk" if "a \<le> blk" "blk < Suc c" for blk
      proof (cases "blk = c")
        case True
        then show ?thesis by (intro quad_eqI) (simp add: put_block_apply)
      next
        case False
        then have "blk < c" using that by simp
        then have "P blk \<noteq> P c" using inj_onD[OF inj, of blk c] that True Suc.prems by auto
        then have "?buf (P blk * 4 + i) = buf1 (P blk * 4 + i)" if "i < 4" for i
          using that by (auto simp: put_block_apply)
        then show ?thesis using IH(3)[OF that(1) \<open>blk < c\<close>] by (metis (no_types, lifting) quad_eqI quad_nth_gen)
      qed
      moreover have "?buf x = buf x" if "x div 4 \<notin> P ` {a..<Suc c}" for x
      proof -
        have "x div 4 \<noteq> P c" "x div 4 \<notin> P ` {a..<c}" using that True by auto
        then show ?thesis using IH(4) by (auto simp: put_block_apply)
      qed
      ultimately show ?thesis using run u(2) by blast
    next
      case False
      then show ?thesis using s by auto
    qed
  qed
  from this[of b] show thesis using that by auto
qed

end
