(* ===== verification/Encryptor_Image.thy ===== *)
theory Encryptor_Image
  imports Tool_Memory
begin

text \<open>
  The image that \<open>encryptor_main\<close> produces: the regions it configures, where the encrypted blocks
  go, and the predicate \<open>tool_image\<close>, which says of a memory that it holds the sealed image of given
  text and data words. Validation and extraction of the key keep it.
\<close>

section \<open>The configuration\<close>

definition configured :: "'a sec_scheme \<Rightarrow> u32 list \<Rightarrow> u32 list \<Rightarrow> u32 \<Rightarrow> 'a sec_scheme" where
  "configured s tw dw epoch =
     secure_set_mapping_epoch
       (secure_set_data_region (secure_set_image_region s 32 (of_nat (length tw)) (of_nat (text_end tw)))
          (of_nat (text_end tw)) (of_nat (length dw)) (of_nat (data_end tw dw)) 1) epoch"

text \<open>The header before the measurement.\<close>

definition tool_header :: "u32 \<Rightarrow> u32 list \<Rightarrow> u32 list \<Rightarrow> u32 \<Rightarrow> block \<Rightarrow> SecureHeaderState" where
  "tool_header policy tw dw epoch key =
     (let hdr = \<lparr>h_policy = policy, h_text_start = 32, h_text_words = of_nat (length tw), h_text_end = of_nat (text_end tw),
                 h_data_start = of_nat (text_end tw), h_data_words = of_nat (length dw), h_data_end = of_nat (data_end tw dw),
                 h_data_flags = 1, h_epoch = epoch, h_nonce = Quad 0 0 0 0, h_wrapped = Quad 0 0 0 0,
                 h_key_tag = Quad 0 0 0 0, h_img_tag = Quad 0 0 0 0, h_measurements = Quad 0 0 0 0\<rparr>
      in hdr\<lparr>h_nonce := secure_derive_nonce key hdr\<rparr>)"

lemma tool_header_fields [simp]:
  "h_policy (tool_header p tw dw ep key) = p" "h_text_start (tool_header p tw dw ep key) = 32"
  "h_text_words (tool_header p tw dw ep key) = of_nat (length tw)" "h_text_end (tool_header p tw dw ep key) = of_nat (text_end tw)"
  "h_data_start (tool_header p tw dw ep key) = of_nat (text_end tw)" "h_data_words (tool_header p tw dw ep key) = of_nat (length dw)"
  "h_data_end (tool_header p tw dw ep key) = of_nat (data_end tw dw)" "h_data_flags (tool_header p tw dw ep key) = 1"
  "h_epoch (tool_header p tw dw ep key) = ep"
  by (simp_all add: tool_header_def Let_def)

lemma image_words_bounds:
  assumes "data_end tw dw \<le> 1024"
  shows "unat (of_nat (length tw) :: u32) = length tw" "unat (of_nat (length dw) :: u32) = length dw"
    "unat (of_nat (text_end tw) :: u32) = text_end tw" "unat (of_nat (data_end tw dw) :: u32) = data_end tw dw"
    "(of_nat (text_end tw) :: u32) mod 4 = 0" "(of_nat (data_end tw dw) :: u32) mod 4 = 0"
    "32 \<le> (of_nat (text_end tw) :: u32)" "(of_nat (text_end tw) :: u32) \<le> of_nat (data_end tw dw)"
    "of_nat (data_end tw dw) \<le> (1024 :: u32)" "(of_nat (length tw) :: u32) \<le> of_nat (text_end tw) - 32"
    "(of_nat (length dw) :: u32) \<le> of_nat (data_end tw dw) - of_nat (text_end tw)"
proof -
  note b = text_end_bounds(1,2)[of tw] text_end_bounds(3,4,5)[of tw dw]
  have l: "length tw \<le> 1024" "length dw \<le> 1024" "text_end tw \<le> 1024" using b assms by linarith+
  show u: "unat (of_nat (length tw) :: u32) = length tw" "unat (of_nat (length dw) :: u32) = length dw"
    "unat (of_nat (text_end tw) :: u32) = text_end tw" "unat (of_nat (data_end tw dw) :: u32) = data_end tw dw"
    using l assms by (simp_all add: unat_of_nat)
  have z: "(of_nat n :: u32) mod 4 = 0" if "4 dvd n" "unat (of_nat n :: u32) = n" for n
  proof -
    have "unat (of_nat n mod 4 :: u32) = 0" using that by (simp add: unat_mod)
    then show ?thesis by (simp only: unat_eq_zero)
  qed
  show "(of_nat (text_end tw) :: u32) mod 4 = 0" "(of_nat (data_end tw dw) :: u32) mod 4 = 0"
    using z[OF b(2) u(3)] z[OF b(4) u(4)] .
  show ge: "32 \<le> (of_nat (text_end tw) :: u32)" "(of_nat (text_end tw) :: u32) \<le> of_nat (data_end tw dw)"
    "of_nat (data_end tw dw) \<le> (1024 :: u32)" using b assms u by (simp_all add: word_le_nat_alt)
  have "unat (of_nat (text_end tw) - 32 :: u32) = text_end tw - 32" using ge(1) u(3) by (simp add: unat_sub)
  then show "(of_nat (length tw) :: u32) \<le> of_nat (text_end tw) - 32" using b(1) u(1) by (simp add: word_le_nat_alt)
  have "unat (of_nat (data_end tw dw) - of_nat (text_end tw) :: u32) = data_end tw dw - text_end tw"
    using ge(2) u(3,4) by (simp add: unat_sub)
  then show "(of_nat (length dw) :: u32) \<le> of_nat (data_end tw dw) - of_nat (text_end tw)"
    using b(3) u(2) by (simp add: word_le_nat_alt)
qed

lemma tool_clamps:
  assumes "data_end tw dw \<le> 1024"
  defines "te \<equiv> of_nat (text_end tw) :: u32" and "de \<equiv> of_nat (data_end tw dw) :: u32"
  shows "clamp_lo 32 1024 32 = 32" "clamp_hi 32 1024 te = te" "clamp_len (te - 32) (of_nat (length tw)) = of_nat (length tw)"
    "clamp_lo te 1024 te = te" "clamp_hi te 1024 de = de" "clamp_len (de - te) (of_nat (length dw)) = of_nat (length dw)"
    "align_lo te te = te" "align_hi 1024 de = de"
proof -
  note b = image_words_bounds[OF assms(1), folded te_def de_def]
  have "te \<le> 1024" by (rule order_trans[OF b(8,9)])
  then show "clamp_lo 32 1024 32 = 32" "clamp_hi 32 1024 te = te" "clamp_len (te - 32) (of_nat (length tw)) = of_nat (length tw)"
    "clamp_lo te 1024 te = te" "clamp_hi te 1024 de = de" "clamp_len (de - te) (of_nat (length dw)) = of_nat (length dw)"
    "align_lo te te = te" "align_hi 1024 de = de"
    using b by (simp_all only: clamp_lo_def clamp_hi_def clamp_len_def align_lo_def align_hi_def Let_def not_less[symmetric]
        if_False simp_thms) (simp_all add: not_less)
qed

lemma configured_fields:
  assumes w: "words32 s = 1024" and de: "data_end tw dw \<le> 1024" and ep: "epoch \<noteq> 0"
  defines "t \<equiv> configured s tw dw epoch"
  shows "secure_text_start_addr t = 32" "secure_text_plain_words t = of_nat (length tw)"
    "secure_text_enc_end t = of_nat (text_end tw)" "secure_data_start_addr t = of_nat (text_end tw)"
    "secure_data_plain_words t = of_nat (length dw)" "secure_data_enc_end t = of_nat (data_end tw dw)"
    "secure_data_flags t = 1" "secure_epoch t = epoch" "secure_policy t = secure_policy s"
    "\<not> secure_runtime_map_valid t"
proof -
  note c = tool_clamps[OF de]
  define s1 where "s1 = secure_set_image_region s 32 (of_nat (length tw)) (of_nat (text_end tw))"
  have 1: "secure_text_start_addr s1 = 32" "secure_text_plain_words s1 = of_nat (length tw)"
    "secure_text_enc_end s1 = of_nat (text_end tw)" "secure_policy s1 = secure_policy s" "words32 s1 = 1024"
    using w by (simp_all add: s1_def secure_set_image_region_def Let_def c words32_def getNumWords_def)
  show "secure_text_start_addr t = 32" "secure_text_plain_words t = of_nat (length tw)"
    "secure_text_enc_end t = of_nat (text_end tw)" "secure_data_start_addr t = of_nat (text_end tw)"
    "secure_data_plain_words t = of_nat (length dw)" "secure_data_enc_end t = of_nat (data_end tw dw)"
    "secure_data_flags t = 1" "secure_epoch t = epoch" "secure_policy t = secure_policy s"
    "\<not> secure_runtime_map_valid t"
    unfolding t_def configured_def s1_def[symmetric]
    by (simp_all add: secure_set_mapping_epoch_def secure_set_data_region_def Let_def 1 c ep)
qed

lemma configured_memory:
  "plain (configured s tw dw epoch) = plain s" "memory (configured s tw dw epoch) = memory s"
  "hardware_root (configured s tw dw epoch) = hardware_root s" "words32 (configured s tw dw epoch) = words32 s"
  "num_layers (configured s tw dw epoch) = num_layers s" "sec.more (configured s tw dw epoch) = sec.more s"
  by (simp_all add: configured_def secure_set_mapping_epoch_def secure_set_data_region_def secure_set_image_region_def
    Let_def plain_def smem_wf_def accessible_def isValidLayer_def words32_def getNumWords_def)

text \<open>The header of a configured memory, also after layer 0 has been written.\<close>

lemma configured_header:
  assumes w: "words32 s = 1024" and de: "data_end tw dw \<le> 1024" and ep: "epoch \<noteq> 0"
    and t: "holds (configured s tw dw epoch) m t"
  shows "initial_header t key = tool_header (secure_policy s) tw dw epoch key"
    "header_ranges_ok 1024 (tool_header (secure_policy s) tw dw epoch key)"
proof -
  obtain f where f: "t = (configured s tw dw epoch)\<lparr>layer_log := f, memory := (memory (configured s tw dw epoch))(0 := m)\<rparr>"
    using t by (auto simp: holds_def)
  note c = configured_fields[OF w de ep]
  note k = tool_clamps[OF de] and b = image_words_bounds[OF de]
  have "words32 t = 1024" using holds_fields(3)[OF t] configured_memory(4)[of s] w by simp
  then show "initial_header t key = tool_header (secure_policy s) tw dw epoch key"
    by (simp add: initial_header_def tool_header_def clamp_header_def Let_def f c ep k)
  show "header_ranges_ok 1024 (tool_header (secure_policy s) tw dw epoch key)"
    using ep b(5-11) order_trans[OF b(8,9)] by (simp add: header_ranges_ok_def not_less)
qed

section \<open>Where the text blocks go\<close>

definition place_of :: "u32 list \<Rightarrow> u32 \<Rightarrow> nat \<Rightarrow> nat" where
  "place_of tw epoch b =
     unat (secure_map_block_with_params (of_nat b) (secure_build_map_params 32 (of_nat (text_end tw)) epoch))"

lemma place_of_range:
  assumes "text_end tw \<le> 1024"
  shows "8 \<le> b \<Longrightarrow> b < text_end tw div 4 \<Longrightarrow> 8 \<le> place_of tw epoch b \<and> place_of tw epoch b < text_end tw div 4"
    "inj_on (place_of tw epoch) {8..<text_end tw div 4}"
proof -
  let ?p = "secure_build_map_params 32 (of_nat (text_end tw)) epoch"
  have te: "unat (of_nat (text_end tw) :: u32) = text_end tw" using assms by (simp add: unat_of_nat)
  have pl: "placed ?p x \<longleftrightarrow> 8 \<le> unat x \<and> unat x < text_end tw div 4" for x
    by (auto simp: placed_def word_le_nat_alt build_count te)
  have u: "unat (of_nat b :: u32) = b" if "b < text_end tw div 4" for b using that assms by (simp add: unat_of_nat)
  show "8 \<le> b \<Longrightarrow> b < text_end tw div 4 \<Longrightarrow> 8 \<le> place_of tw epoch b \<and> place_of tw epoch b < text_end tw div 4"
    using map_block_placed[OF build_well_placed, of 32 "of_nat (text_end tw)" epoch "of_nat b"] u pl by (simp add: place_of_def)
  show "inj_on (place_of tw epoch) {8..<text_end tw div 4}"
  proof (rule inj_onI)
    fix x y assume xy: "x \<in> {8..<text_end tw div 4}" "y \<in> {8..<text_end tw div 4}" "place_of tw epoch x = place_of tw epoch y"
    then have "secure_map_block_with_params (of_nat x) ?p = secure_map_block_with_params (of_nat y) ?p"
      by (simp add: place_of_def word_unat_eq_iff)
    then have "of_nat x = (of_nat y :: u32)" by (rule map_block_inject[OF build_well_placed])
    then show "x = y" using u xy(1,2) by (metis atLeastLessThan_iff)
  qed
qed

section \<open>The encrypted image\<close>

text \<open>\<open>pl\<close> are the plain words.\<close>

definition encrypted_image :: "(nat \<Rightarrow> u32) \<Rightarrow> u32 list \<Rightarrow> u32 list \<Rightarrow> u32 \<Rightarrow> block \<Rightarrow> (nat \<Rightarrow> u32) \<Rightarrow> bool" where
  "encrypted_image pl tw dw epoch key m \<longleftrightarrow>
     (\<forall>b. 8 \<le> b \<and> b < text_end tw div 4 \<longrightarrow>
        quad_gen (\<lambda>i. m (place_of tw epoch b * 4 + i)) = aes_encrypt_block (quad_gen (\<lambda>i. pl (b * 4 + i))) key)
     \<and> (\<forall>b. text_end tw div 4 \<le> b \<and> b < data_end tw dw div 4 \<longrightarrow>
        quad_gen (\<lambda>i. m (b * 4 + i)) = aes_encrypt_block (quad_gen (\<lambda>i. pl (b * 4 + i))) key)"

lemma encrypt_text_holds:
  fixes s :: "'a sec_scheme"
  assumes p: "plain s" and te: "text_end tw \<le> 1024" and cfg: "secure_text_start_addr s = 32"
    "secure_text_enc_end s = of_nat (text_end tw)" "secure_epoch s = epoch" "\<not> secure_runtime_map_valid s"
  obtains buf' t m where "encrypt_text_region_mapped s 32 (of_nat (text_end tw)) key buf = Inr (buf', t)" "holds s m t"
    "\<And>b. 8 \<le> b \<Longrightarrow> b < text_end tw div 4 \<Longrightarrow> quad_gen (\<lambda>i. m (place_of tw epoch b * 4 + i)) =
       aes_encrypt_block (quad_gen (\<lambda>i. memory s 0 (b * 4 + i))) key"
    "\<And>x. x < 32 \<or> text_end tw \<le> x \<Longrightarrow> m x = memory s 0 x"
proof -
  obtain s1 where s1: "fill_buffer s buf = (\<lambda>x. if x < 1024 then memory s 0 x else buf x, s1)" "quiet s s1"
    by (rule fill_buffer_plain[OF p])
  let ?E = "\<lambda>b. aes_encrypt_block (quad_gen (\<lambda>i. memory s 0 (b * 4 + i))) key" and ?P = "place_of tw epoch"
  note pr = place_of_range[OF te]
  have step: "\<exists>u. encrypt_text_block key blk (buf, t) = Inr (put_block buf (?P blk * 4) (?E blk), u) \<and> quiet s u"
    if b: "8 \<le> blk" "blk < text_end tw div 4" and t: "quiet s t" for blk buf t
  proof -
    note h = holds_quiet[OF p t]
    have "blk * 4 + 4 \<le> 1024" using b te by linarith
    then obtain u where u: "read_plain_block t (blk * 4) = (quad_gen (\<lambda>i. memory s 0 (blk * 4 + i)), u)" "quiet t u"
      using read_plain_block_plain[OF holds_fields(2)[OF h p]] holds_fields(1)[OF h] by metis
    have q: "quiet s u" by (rule quiet_trans[OF t u(2)])
    then obtain f where f: "u = s\<lparr>layer_log := f\<rparr>" by (auto simp: quiet_def)
    define w where "w = secure_map_text_block u (of_nat blk)"
    have w: "unat w = ?P blk" using cfg by (simp add: w_def place_of_def secure_map_text_block_def f)
    have range: "8 \<le> ?P blk" "?P blk < 256" using pr(1)[OF b, of epoch] te by linarith+
    then have "unat (w * 4) = ?P blk * 4" "unat (w * 4 + 4) = ?P blk * 4 + 4"
      using w by (simp_all add: unat_word_ariths)
    then have "\<not> w * 4 < 32" "\<not> w * 4 + 4 > 1024" "unat (w * 4) = ?P blk * 4"
      using range by (simp_all add: word_less_nat_alt)
    then show ?thesis using q b(1) by (simp add: encrypt_text_block_def Let_def u(1) w_def[symmetric])
  qed
  obtain buf2 t where loop: "for_up 8 (text_end tw div 4) (\<lambda>blk r. and_then r (encrypt_text_block key blk))
      (Inr (\<lambda>x. if x < 1024 then memory s 0 x else buf x, s1)) = Inr (buf2, t)" "quiet s t"
    "\<And>b. 8 \<le> b \<Longrightarrow> b < text_end tw div 4 \<Longrightarrow> quad_gen (\<lambda>i. buf2 (?P b * 4 + i)) = ?E b"
    by (rule block_loop[where buf = "\<lambda>x. if x < 1024 then memory s 0 x else buf x" and step = "encrypt_text_block key" and P = ?P and E = ?E, OF step pr(2) s1(2)]) blast+
  note h = holds_quiet[OF p loop(2)]
  note f = holds_fields[OF h]
  let ?t = "for_up 32 (text_end tw) (\<lambda>i s. mem_write s 0 i (buf2 i)) t"
  let ?m = "\<lambda>x. if 0 + 32 \<le> x \<and> x < 0 + text_end tw then buf2 (x - 0) else memory t 0 x"
  have "holds t ?m ?t" by (rule holds_loop[OF f(2)[OF p]]) (use te in \<open>simp add: holds_write\<close>)
  then have "holds s ?m ?t" by (rule holds_trans[OF h])
  moreover have te_u: "unat (of_nat (text_end tw) div 4 :: u32) = text_end tw div 4" "unat (of_nat (text_end tw) :: u32) = text_end tw"
    using te by (simp_all add: unat_div unat_of_nat)
  then have "encrypt_text_region_mapped s 32 (of_nat (text_end tw)) key buf = Inr (buf2, ?t)"
    by (simp add: encrypt_text_region_mapped_def s1(1) loop(1))
  moreover have "quad_gen (\<lambda>i. ?m (?P b * 4 + i)) = ?E b" if "8 \<le> b" "b < text_end tw div 4" for b
  proof -
    have "?m (?P b * 4 + i) = buf2 (?P b * 4 + i)" if "i < 4" for i
    proof -
      have "32 \<le> ?P b * 4 + i" "?P b * 4 + i < text_end tw"
        using pr(1)[OF \<open>8 \<le> b\<close> \<open>b < _\<close>, of epoch] that by linarith+
      then show ?thesis by simp
    qed
    then have "quad_gen (\<lambda>i. ?m (?P b * 4 + i)) = quad_gen (\<lambda>i. buf2 (?P b * 4 + i))" by (rule quad_gen_cong)
    then show ?thesis using loop(3)[OF that] by simp
  qed
  ultimately show thesis using f(1) by (intro that[of buf2 ?t ?m]) auto
qed

lemma encrypt_data_holds:
  fixes s :: "'a sec_scheme"
  assumes p: "plain s" and de: "data_end tw dw \<le> 1024"
  obtains buf' t m where "encrypt_data_region_in_place s (of_nat (text_end tw)) (of_nat (data_end tw dw)) key buf = Inr (buf', t)"
    "holds s m t"
    "\<And>b. text_end tw div 4 \<le> b \<Longrightarrow> b < data_end tw dw div 4 \<Longrightarrow> quad_gen (\<lambda>i. m (b * 4 + i)) =
       aes_encrypt_block (quad_gen (\<lambda>i. memory s 0 (b * 4 + i))) key"
    "\<And>x. x < text_end tw \<Longrightarrow> m x = memory s 0 x"
proof -
  obtain s1 where s1: "fill_buffer s buf = (\<lambda>x. if x < 1024 then memory s 0 x else buf x, s1)" "quiet s s1"
    by (rule fill_buffer_plain[OF p])
  let ?E = "\<lambda>b. aes_encrypt_block (quad_gen (\<lambda>i. memory s 0 (b * 4 + i))) key"
  note bd = text_end_bounds(1,2)[of tw] text_end_bounds(4,5)[of tw dw]
  have step: "\<exists>u. encrypt_data_block key blk (buf, t) = Inr (put_block buf (id blk * 4) (?E blk), u) \<and> quiet s u"
    if b: "text_end tw div 4 \<le> blk" "blk < data_end tw dw div 4" and t: "quiet s t" for blk buf t
  proof -
    note h = holds_quiet[OF p t]
    have b4: "blk * 4 + 4 \<le> 1024" using b(2) de by linarith
    then obtain u where u: "read_plain_block t (blk * 4) = (quad_gen (\<lambda>i. memory s 0 (blk * 4 + i)), u)" "quiet t u"
      using read_plain_block_plain[OF holds_fields(2)[OF h p]] holds_fields(1)[OF h] by metis
    have w: "unat (of_nat blk * 4 :: u32) = blk * 4" "unat (of_nat blk * 4 + 4 :: u32) = blk * 4 + 4"
      using b4 by (simp_all add: unat_word_ariths unat_of_nat)
    then have "\<not> of_nat blk * 4 + 4 > (1024 :: u32)" using b4 by (simp add: word_less_nat_alt)
    then show ?thesis using quiet_trans[OF t u(2)] by (simp add: encrypt_data_block_def Let_def w(1) u(1))
  qed
  obtain buf2 t where loop: "for_up (text_end tw div 4) (data_end tw dw div 4) (\<lambda>blk r. and_then r (encrypt_data_block key blk))
      (Inr (\<lambda>x. if x < 1024 then memory s 0 x else buf x, s1)) = Inr (buf2, t)" "quiet s t"
    "\<And>b. text_end tw div 4 \<le> b \<Longrightarrow> b < data_end tw dw div 4 \<Longrightarrow> quad_gen (\<lambda>i. buf2 (id b * 4 + i)) = ?E b"
    by (rule block_loop[where buf = "\<lambda>x. if x < 1024 then memory s 0 x else buf x" and step = "encrypt_data_block key" and P = id and E = ?E, OF step inj_on_id s1(2)]) blast+
  note h = holds_quiet[OF p loop(2)]
  note f = holds_fields[OF h]
  let ?t = "for_up (text_end tw) (data_end tw dw) (\<lambda>i s. mem_write s 0 i (buf2 i)) t"
  let ?m = "\<lambda>x. if 0 + text_end tw \<le> x \<and> x < 0 + data_end tw dw then buf2 (x - 0) else memory t 0 x"
  have "holds t ?m ?t" by (rule holds_loop[OF f(2)[OF p]]) (use de in \<open>simp add: holds_write\<close>)
  then have "holds s ?m ?t" by (rule holds_trans[OF h])
  moreover have te_u: "unat (of_nat (text_end tw) div 4 :: u32) = text_end tw div 4" "unat (of_nat (text_end tw) :: u32) = text_end tw"
    "unat (of_nat (data_end tw dw) div 4 :: u32) = data_end tw dw div 4" "unat (of_nat (data_end tw dw) :: u32) = data_end tw dw"
    using de bd(4) image_words_bounds(3,4)[OF de] by (simp_all add: unat_div)
  then have "encrypt_data_region_in_place s (of_nat (text_end tw)) (of_nat (data_end tw dw)) key buf = Inr (buf2, ?t)"
    by (simp add: encrypt_data_region_in_place_def s1(1) loop(1))
  moreover have "quad_gen (\<lambda>i. ?m (b * 4 + i)) = ?E b" if "text_end tw div 4 \<le> b" "b < data_end tw dw div 4" for b
  proof -
    have "?m (b * 4 + i) = buf2 (b * 4 + i)" if "i < 4" for i
    proof -
      have "text_end tw \<le> b * 4 + i" "b * 4 + i < data_end tw dw"
        using \<open>text_end tw div 4 \<le> b\<close> \<open>b < _\<close> that bd(2) by (auto elim!: dvdE)
      then show ?thesis by simp
    qed
    then have "quad_gen (\<lambda>i. ?m (b * 4 + i)) = quad_gen (\<lambda>i. buf2 (b * 4 + i))" by (rule quad_gen_cong)
    then show ?thesis using loop(3)[OF that] by simp
  qed
  ultimately show thesis using f(1) by (intro that[of buf2 ?t ?m]) auto
qed

section \<open>Images in other memories\<close>

lemma image_sealed_layer:
  assumes "mem_read t l = mem_read s l" "rawRead t l = rawRead s l" "num_words t = num_words s" "hardware_root t = hardware_root s"
  shows "image_sealed t l hdr ps sk = image_sealed s l hdr ps sk"
proof -
  note e = assms
  have w: "words32 t = words32 s" by (simp add: words32_def getNumWords_def e)
  have d: "decoded t l = decoded s l" by (simp add: decoded_def w e)
  have h: "hidden_wrapped t l = hidden_wrapped s l" by (intro ext) (simp add: hidden_wrapped_def e)
  have raw: "text_raw_words t l = text_raw_words s l" "data_raw_words t l = data_raw_words s l"
    by (simp_all add: text_raw_words_def data_raw_words_def fun_eq_iff e)
  have sk: "secure_derive_session_key t l = secure_derive_session_key s l"
    by (simp add: secure_derive_session_key_def secure_collect_measurements_def
        secure_derive_root_from_nonce_def deriveHardwareWord_def fun_eq_iff raw e)
  have img: "secure_compute_img_tag t l = secure_compute_img_tag s l"
    by (simp add: secure_compute_img_tag_def img_tag_words_def fun_eq_iff raw)
  have k: "key_sealed t l hdr ps sk = key_sealed s l hdr ps sk" by (simp add: key_sealed_def w d h sk)
  show ?thesis by (simp add: image_sealed_def k img)
qed

lemma plain_same_layer:
  assumes "plain s" "plain t" "\<And>a. a < 1024 \<Longrightarrow> memory t 0 a = memory s 0 a"
  shows "mem_read t 0 = mem_read s 0" "rawRead t 0 = rawRead s 0"
  using assms by (auto simp: plain_def mem_read_def rawRead_def accessible_def fun_eq_iff)

lemma plain_sealed:
  assumes "plain s" "plain t" "\<And>a. a < 1024 \<Longrightarrow> memory t 0 a = memory s 0 a" "hardware_root t = hardware_root s"
    "image_sealed s 0 hdr ps sk"
  shows "image_sealed t 0 hdr ps sk"
proof -
  have "num_words t = num_words s" using assms(1,2) by (simp add: plain_def)
  then show ?thesis using image_sealed_layer[OF plain_same_layer[OF assms(1-3)] _ assms(4)] assms(5) by blast
qed

section \<open>Sealing\<close>

text \<open>
  A memory with the image of plain words \<open>pl\<close>, for text and data as long as \<open>tw\<close> and \<open>dw\<close>: sealed
  with the announced header, with the application key as wrapped key, and outside the header and the
  hiding places the words of the encrypted image.
\<close>

definition tool_image ::
  "'a sec_scheme \<Rightarrow> u32 \<Rightarrow> (nat \<Rightarrow> u32) \<Rightarrow> u32 list \<Rightarrow> u32 list \<Rightarrow> u32 \<Rightarrow> block \<Rightarrow> u32 list \<Rightarrow> SecureHeaderState \<Rightarrow> block \<Rightarrow> bool" where
  "tool_image s policy pl tw dw epoch key ps hdr sk \<longleftrightarrow>
     plain s \<and> image_sealed s 0 hdr ps sk \<and> aes_decrypt_block (h_wrapped hdr) sk = key
     \<and> hdr = (tool_header policy tw dw epoch key)\<lparr>h_measurements := h_measurements hdr, h_wrapped := h_wrapped hdr,
         h_key_tag := h_key_tag hdr, h_img_tag := h_img_tag hdr\<rparr>
     \<and> (\<exists>m. encrypted_image pl tw dw epoch key m
          \<and> (\<forall>a<1024. 32 \<le> a \<and> a \<notin> (\<lambda>p. unat p div 32) ` set ps \<longrightarrow> memory s 0 a = m a))"

lemma tool_image_header:
  assumes "tool_image s policy pl tw dw epoch key ps hdr sk"
  shows "h_policy hdr = policy" "h_text_start hdr = 32" "h_text_words hdr = of_nat (length tw)"
    "h_text_end hdr = of_nat (text_end tw)" "h_data_start hdr = of_nat (text_end tw)" "h_data_words hdr = of_nat (length dw)"
    "h_data_end hdr = of_nat (data_end tw dw)" "h_data_flags hdr = 1" "h_epoch hdr = epoch"
proof -
  have h: "hdr = (tool_header policy tw dw epoch key)\<lparr>h_measurements := h_measurements hdr, h_wrapped := h_wrapped hdr,
         h_key_tag := h_key_tag hdr, h_img_tag := h_img_tag hdr\<rparr>" using assms by (simp add: tool_image_def)
  show "h_policy hdr = policy" "h_text_start hdr = 32" "h_text_words hdr = of_nat (length tw)"
    "h_text_end hdr = of_nat (text_end tw)" "h_data_start hdr = of_nat (text_end tw)" "h_data_words hdr = of_nat (length dw)"
    "h_data_end hdr = of_nat (data_end tw dw)" "h_data_flags hdr = 1" "h_epoch hdr = epoch"
    by (subst h, simp)+
qed

lemma tool_image_other:
  assumes "tool_image s policy pl tw dw epoch key ps hdr sk" "plain t" "\<And>a. a < 1024 \<Longrightarrow> memory t 0 a = memory s 0 a"
    "hardware_root t = hardware_root s"
  shows "tool_image t policy pl tw dw epoch key ps hdr sk"
  using assms plain_sealed[OF _ assms(2-4)] by (auto simp: tool_image_def)

lemma plain_words32: "plain s \<Longrightarrow> words32 s = 1024"
  by (simp add: plain_def words32_def getNumWords_def)

lemma plain_layers: "plain s \<Longrightarrow> 0 < num_layers s"
  by (simp add: plain_def accessible_def isValidLayer_def)

lemma create_holds:
  fixes s :: "'a sec_scheme"
  assumes p: "plain s" and de: "data_end tw dw \<le> 1024"
    and hdr: "initial_header s key = tool_header policy tw dw epoch key" "header_ranges_ok 1024 (tool_header policy tw dw epoch key)"
    and ps: "secure_generate_positions (h_nonce (tool_header policy tw dw epoch key)) 32 (of_nat (text_end tw)) 1024 = Some ps"
    and m: "encrypted_image pl tw dw epoch key (memory s 0)"
  obtains t hf sk where "create_large_block_with_key s 0 key = (0, t)" "tool_image t policy pl tw dw epoch key ps hf sk"
    "hardware_root t = hardware_root s"
proof -
  have w: "words32 s = 1024" by (rule plain_words32[OF p])
  have l: "0 < num_layers s" by (rule plain_layers[OF p])
  have wf: "smem_wf s" "accessible s 0" using p by (simp_all add: plain_def)
  have code: "fst (create_large_block_with_key s 0 key) = 0" by (simp add: create_code[OF l] hdr w ps)
  let ?t = "snd (create_large_block_with_key s 0 key)" and ?h = "tool_header policy tw dw epoch key"
  obtain hf sk ps' qs where c0: "h_wrapped hf = aes_encrypt_block key sk"
    "\<exists>meas kt it. hf = ?h\<lparr>h_measurements := meas, h_wrapped := aes_encrypt_block key sk, h_key_tag := kt, h_img_tag := it\<rparr>"
    "header_ranges_ok 1024 ?h \<longrightarrow> image_sealed ?t 0 hf ps' sk" "smem_wf ?t" "accessible ?t 0" "num_words ?t = num_words s"
    "security_lockdown ?t = security_lockdown s"
    "secure_generate_positions (h_nonce ?h) (h_text_start ?h) (h_text_end ?h) 1024 = Some qs"
    "wrote 0 ({..<32} \<union> (\<lambda>p. unat p div 32) ` set qs) s ?t"
    using create_sealed[OF wf code] unfolding hdr(1) w by blast
  have "qs = ps" using c0(8) ps by simp
  note c = c0(1,2) mp[OF c0(3) hdr(2)] c0(4-7) c0(9)[unfolded this]
  have pt: "plain ?t" using c(4-8) p by (simp add: plain_def wrote_def)
  have hf: "hf = ?h\<lparr>h_measurements := h_measurements hf, h_wrapped := h_wrapped hf, h_key_tag := h_key_tag hf, h_img_tag := h_img_tag hf\<rparr>"
    using c(2) by fastforce
  have "secure_generate_positions (h_nonce hf) (h_text_start hf) (h_text_end hf) (words32 ?t) = Some ps'"
    using c(3) by (simp add: image_sealed_def key_sealed_def)
  moreover have "h_nonce hf = h_nonce ?h" "h_text_start hf = 32" "h_text_end hf = of_nat (text_end tw)" by (subst hf, simp)+
  ultimately have "ps' = ps" using ps plain_words32[OF pt] by simp
  moreover have "memory ?t 0 a = memory s 0 a" if "a < 1024" "32 \<le> a" "a \<notin> (\<lambda>p. unat p div 32) ` set ps" for a
    using c(8) wf that plain_reads(1)[OF p that(1)] plain_reads(1)[OF pt that(1)] by (auto simp: wrote_def)
  ultimately have "tool_image ?t policy pl tw dw epoch key ps hf sk"
    unfolding tool_image_def using pt c(1,3) hf m by (auto simp: aes.dec_enc)
  moreover have "create_large_block_with_key s 0 key = (0, ?t)" using code by (simp add: prod_eq_iff)
  moreover have "hardware_root ?t = hardware_root s" using c(8) by (simp add: wrote_def)
  ultimately show thesis by (rule_tac that)
qed

text \<open>Validation and extraction succeed and keep the words.\<close>

lemma tool_image_validates:
  fixes s :: "'a sec_scheme"
  assumes "tool_image s policy pl tw dw epoch key ps hdr sk"
  obtains t where "secure_validate_image s 0 = (0, t)" "tool_image t policy pl tw dw epoch key ps hdr sk"
    "memory t = memory s" "hardware_root t = hardware_root s"
proof -
  have s: "image_sealed s 0 hdr ps sk" "plain s" using assms by (simp_all add: tool_image_def)
  obtain u where u: "quiet s u" "secure_validate_image s 0 = (0, secure_apply_runtime_region u hdr)"
    using validate_accepts[OF s(1) plain_layers[OF s(2)]] by blast
  let ?t = "secure_apply_runtime_region u hdr"
  have "plain u" using holds_fields(2)[OF holds_quiet[OF s(2) u(1)] s(2)] .
  then have "plain ?t" by (simp add: plain_def secure_apply_runtime_region_def smem_wf_def accessible_def isValidLayer_def)
  moreover have "memory ?t = memory s" "hardware_root ?t = hardware_root s"
    using quiet_reads[OF u(1)] by (simp_all add: secure_apply_runtime_region_def)
  moreover from calculation have "tool_image ?t policy pl tw dw epoch key ps hdr sk"
    by (intro tool_image_other[OF assms]) simp_all
  ultimately show thesis using u(2) by (intro that[of ?t])
qed

lemma tool_image_extracts:
  fixes s :: "'a sec_scheme"
  assumes "tool_image s policy pl tw dw epoch key ps hdr sk"
  obtains f where "extract_key_from_large_block s 0 = (0, key, (secure_apply_runtime_region s hdr)\<lparr>layer_log := f\<rparr>)"
    "tool_image ((secure_apply_runtime_region s hdr)\<lparr>layer_log := f\<rparr>) policy pl tw dw epoch key ps hdr sk"
proof -
  have s: "image_sealed s 0 hdr ps sk" "plain s" "aes_decrypt_block (h_wrapped hdr) sk = key" using assms by (simp_all add: tool_image_def)
  obtain f where f: "extract_key_from_large_block s 0 = (0, key, (secure_apply_runtime_region s hdr)\<lparr>layer_log := f\<rparr>)"
    "smem_wf s \<longrightarrow> smem_wf ((secure_apply_runtime_region s hdr)\<lparr>layer_log := f\<rparr>)"
    using extract_sealed_state[OF s(1) plain_layers[OF s(2)]] unfolding s(3) by blast
  let ?t = "(secure_apply_runtime_region s hdr)\<lparr>layer_log := f\<rparr>"
  have "plain ?t" using s(2) f(2) by (simp add: plain_def secure_apply_runtime_region_def accessible_def isValidLayer_def)
  then have "tool_image ?t policy pl tw dw epoch key ps hdr sk"
    by (rule tool_image_other[OF assms]) (simp_all add: secure_apply_runtime_region_def)
  then show thesis by (rule that[OF f(1)])
qed

lemma tool_image_verified:
  fixes s :: "'a sec_scheme"
  assumes "tool_image s policy pl tw dw epoch key ps hdr sk"
  obtains t where "verify_wrapped_key_roundtrip s key = Inr t" "tool_image t policy pl tw dw epoch key ps hdr sk" "memory t = memory s"
    "hardware_root t = hardware_root s"
proof -
  obtain f where f: "extract_key_from_large_block s 0 = (0, key, (secure_apply_runtime_region s hdr)\<lparr>layer_log := f\<rparr>)"
    "tool_image ((secure_apply_runtime_region s hdr)\<lparr>layer_log := f\<rparr>) policy pl tw dw epoch key ps hdr sk"
    by (rule tool_image_extracts[OF assms])
  let ?t = "(secure_apply_runtime_region s hdr)\<lparr>layer_log := f\<rparr>"
  have "verify_wrapped_key_roundtrip s key = Inr ?t" by (simp add: verify_wrapped_key_roundtrip_def f(1))
  moreover have "memory ?t = memory s" "hardware_root ?t = hardware_root s" by (simp_all add: secure_apply_runtime_region_def)
  ultimately show thesis using f(2) by (intro that[of ?t])
qed

lemma choose_epoch_positive: "choose_epoch opt a b c key \<noteq> 0"
  by (simp add: choose_epoch_def Let_def)

lemma seal_image_result:
  fixes s :: "'a sec_scheme" and opt :: EncOptions and key :: block
  assumes p: "plain s" and m: "memory s 0 = plain_image tw dw" and de: "data_end tw dw \<le> 1024"
  defines "epoch \<equiv> choose_epoch opt (of_nat (length tw)) (of_nat (text_end tw)) (of_nat (length dw)) key"
  assumes ps: "secure_generate_positions (h_nonce (tool_header (secure_policy s) tw dw epoch key)) 32 (of_nat (text_end tw)) 1024 = Some ps"
  obtains t hdr sk where
    "seal_image s opt (of_nat (length tw)) (of_nat (text_end tw)) (of_nat (length dw)) (of_nat (data_end tw dw)) key = Inr t"
    "tool_image t (secure_policy s) (plain_image tw dw) tw dw epoch key ps hdr sk" "hardware_root t = hardware_root s"
proof -
  have w: "words32 s = 1024" by (rule plain_words32[OF p])
  have ep: "epoch \<noteq> 0" by (simp add: epoch_def choose_epoch_positive)
  have te: "text_end tw \<le> 1024" using de text_end_bounds(5)[of tw dw] by linarith
  define c where "c = configured s tw dw epoch"
  note cm = configured_memory[of s tw dw epoch, folded c_def]
  note cf = configured_fields[OF w de ep, folded c_def]
  have pc: "plain c" using p by (simp add: cm)
  obtain buf1 s1 m1 where t: "encrypt_text_region_mapped c 32 (of_nat (text_end tw)) key (\<lambda>_. 0) = Inr (buf1, s1)" "holds c m1 s1"
    "\<And>b. 8 \<le> b \<Longrightarrow> b < text_end tw div 4 \<Longrightarrow> quad_gen (\<lambda>i. m1 (place_of tw epoch b * 4 + i)) =
       aes_encrypt_block (quad_gen (\<lambda>i. memory c 0 (b * 4 + i))) key"
    "\<And>x. x < 32 \<or> text_end tw \<le> x \<Longrightarrow> m1 x = memory c 0 x"
    by (rule encrypt_text_holds[OF pc te cf(1,3,8,10)]) blast
  note f1 = holds_fields[OF t(2)]
  obtain buf2 s2 m2 where d: "encrypt_data_region_in_place s1 (of_nat (text_end tw)) (of_nat (data_end tw dw)) key buf1 = Inr (buf2, s2)"
    "holds s1 m2 s2"
    "\<And>b. text_end tw div 4 \<le> b \<Longrightarrow> b < data_end tw dw div 4 \<Longrightarrow> quad_gen (\<lambda>i. m2 (b * 4 + i)) =
       aes_encrypt_block (quad_gen (\<lambda>i. memory s1 0 (b * 4 + i))) key"
    "\<And>x. x < text_end tw \<Longrightarrow> m2 x = memory s1 0 x"
    by (rule encrypt_data_holds[OF f1(2)[OF pc] de]) blast
  have h: "holds c m2 s2" by (rule holds_trans[OF t(2) d(2)])
  note f2 = holds_fields[OF h]
  have "encrypted_image (plain_image tw dw) tw dw epoch key m2"
    unfolding encrypted_image_def
  proof (intro conjI allI impI)
    fix b assume b: "8 \<le> b \<and> b < text_end tw div 4"
    have "place_of tw epoch b * 4 + i < text_end tw" if "i < 4" for i
      using place_of_range(1)[OF te, of b epoch] b that by linarith
    then have "quad_gen (\<lambda>i. m2 (place_of tw epoch b * 4 + i)) = quad_gen (\<lambda>i. m1 (place_of tw epoch b * 4 + i))"
      using d(4) f1(1) by (intro quad_gen_cong) simp
    then show "quad_gen (\<lambda>i. m2 (place_of tw epoch b * 4 + i)) = aes_encrypt_block (quad_gen (\<lambda>i. plain_image tw dw (b * 4 + i))) key"
      using t(3)[of b] b cm(2) m by simp
  next
    fix b assume b: "text_end tw div 4 \<le> b \<and> b < data_end tw dw div 4"
    have "text_end tw \<le> b * 4 + i" for i using b text_end_bounds(2)[of tw] by (auto elim!: dvdE)
    then show "quad_gen (\<lambda>i. m2 (b * 4 + i)) = aes_encrypt_block (quad_gen (\<lambda>i. plain_image tw dw (b * 4 + i))) key"
      using d(3)[of b] b f1(1) t(4) cm(2) m by simp
  qed
  then have enc: "encrypted_image (plain_image tw dw) tw dw epoch key (memory s2 0)" using f2(1) by simp
  note hd = configured_header[OF w de ep h[unfolded c_def]]
  obtain s3 hdr sk where s3: "create_large_block_with_key s2 0 key = (0, s3)"
    "tool_image s3 (secure_policy s) (plain_image tw dw) tw dw epoch key ps hdr sk" "hardware_root s3 = hardware_root s2"
    by (rule create_holds[OF f2(2)[OF pc] de hd ps enc]) blast
  obtain s4 where s4: "secure_validate_image s3 0 = (0, s4)" "tool_image s4 (secure_policy s) (plain_image tw dw) tw dw epoch key ps hdr sk"
    "memory s4 = memory s3" "hardware_root s4 = hardware_root s3" by (rule tool_image_validates[OF s3(2)])
  obtain s5 where s5: "verify_wrapped_key_roundtrip s4 key = Inr s5" "tool_image s5 (secure_policy s) (plain_image tw dw) tw dw epoch key ps hdr sk"
    "memory s5 = memory s4" "hardware_root s5 = hardware_root s4" by (rule tool_image_verified[OF s4(2)])
  have "seal_image s opt (of_nat (length tw)) (of_nat (text_end tw)) (of_nat (length dw)) (of_nat (data_end tw dw)) key = Inr s5"
    unfolding seal_image_def epoch_def[symmetric] configured_def[symmetric] c_def[symmetric] Let_def
    by (simp add: configured_def[symmetric] c_def[symmetric] t(1) d(1) s3(1) s4(1) s5(1))
  moreover have "hardware_root s5 = hardware_root s" by (simp add: s5(4) s4(4) s3(3) f2(4) cm(3))
  ultimately show thesis using s5(2) by (intro that)
qed

section \<open>The tool\<close>

lemma output_image_plain:
  fixes s :: "'a sec_scheme"
  assumes "plain s"
  obtains t where "output_image s 1024 = (hex_file (map (memory s 0) [0..<1024]), t)" "quiet s t"
proof -
  let ?body = "\<lambda>i (out, s :: 'a sec_scheme). let (v, s) = read_plain_word s i in (out @ format_08X v @ [CHR 0x0A], s)"
  have "\<exists>t. for_up 0 n ?body ([], s) = (hex_file (map (memory s 0) [0..<n]), t) \<and> quiet s t" if "n \<le> 1024" for n
    using that
  proof (induction n)
    case 0
    show ?case by (simp add: hex_file_def)
  next
    case (Suc n)
    then obtain t where t: "for_up 0 n ?body ([], s) = (hex_file (map (memory s 0) [0..<n]), t)" "quiet s t" using Suc_leD by blast
    note h = holds_quiet[OF assms t(2)]
    obtain u where u: "read_plain_word t n = (memory s 0 n, u)" "quiet t u"
      using plain_reads(3,4)[OF holds_fields(2)[OF h assms], of n] holds_fields(1)[OF h] Suc.prems by (metis Suc_le_lessD prod.collapse)
    have "for_up 0 (Suc n) ?body ([], s) = ?body n (hex_file (map (memory s 0) [0..<n]), t)" by (rule for_up_step[OF le0 t(1)])
    also have "\<dots> = (hex_file (map (memory s 0) [0..<Suc n]), u)" by (simp add: u(1) hex_file_def)
    finally show ?case using quiet_trans[OF t(2) u(2)] by blast
  qed
  from this[of 1024] show thesis using that unfolding output_image_def by auto
qed

lemma read_hex_file: "files path = Some (hex_file ws) \<Longrightarrow> read_hex_words_strict files path label = Inr ws"
  by (simp add: read_hex_words_strict_def file_lines_hex hex_lines_strict_format)

definition tool_epoch :: "EncOptions \<Rightarrow> u32 list \<Rightarrow> u32 list \<Rightarrow> block \<Rightarrow> u32" where
  "tool_epoch opt tw dw key = choose_epoch opt (of_nat (length tw)) (of_nat (text_end tw)) (of_nat (length dw)) key"

lemma encryptor_result:
  fixes s :: "'a sec_scheme" and opt :: EncOptions and key :: block
  assumes p: "plain s" and opt: "parse_args args = Inr opt"
    and tf: "files (text_file opt) = Some (hex_file tw)" and df: "files (data_file opt) = Some (hex_file dw)"
    and size: "tw \<noteq> []" "data_end tw dw \<le> 1024"
    and key: "generate_secure_app_key (deterministic_key opt) (deterministic_seed opt) random = Inr key"
    and out: "writable (output_file opt)"
    and ps: "secure_generate_positions (h_nonce (tool_header (secure_policy s) tw dw (tool_epoch opt tw dw key) key)) 32
      (of_nat (text_end tw)) 1024 = Some ps"
  obtains t u :: "'a sec_scheme" and hdr sk where "encryptor_main s files writable random args =
      Inr (files(output_file opt \<mapsto> hex_file (map (memory t 0) [0..<1024])), u)"
    "tool_image t (secure_policy s) (plain_image tw dw) tw dw (tool_epoch opt tw dw key) key ps hdr sk" "hardware_root t = hardware_root s"
proof -
  have n: "getNumWords s = 1024" using p by (simp add: plain_def getNumWords_def)
  have te: "align_words_to_crypto_block (length tw) \<le> 992"
    using size(2) text_end_bounds(5)[of tw dw] by (simp add: text_end_def)
  let ?s0 = "reset_memory_to_known_state s 1024"
  note h0 = reset_holds[OF p]
  note f0 = holds_fields[OF h0]
  obtain s1 where s1: "place_text ?s0 1024 tw = Inr (of_nat (text_end tw), s1)" "holds ?s0 (plain_image tw []) s1"
    by (rule place_text_holds[OF f0(2)[OF p] f0(1) te])
  note f1 = holds_fields[OF s1(2)]
  obtain s2 where s2: "place_data s1 1024 (of_nat (text_end tw)) dw = Inr (of_nat (data_end tw dw), s2)" "holds s1 (plain_image tw dw) s2"
    by (rule place_data_holds[OF f1(2)[OF f0(2)[OF p]] f1(1) size(2)])
  note f2 = holds_fields[OF s2(2)]
  have pol: "secure_policy s2 = secure_policy s" "hardware_root s2 = hardware_root s"
    using h0 s1(2) s2(2) by (auto simp: holds_def)
  obtain t hdr sk where t: "seal_image s2 opt (of_nat (length tw)) (of_nat (text_end tw)) (of_nat (length dw)) (of_nat (data_end tw dw)) key = Inr t"
    "tool_image t (secure_policy s2) (plain_image tw dw) tw dw (tool_epoch opt tw dw key) key ps hdr sk" "hardware_root t = hardware_root s2"
    unfolding tool_epoch_def
    by (rule seal_image_result[OF f2(2)[OF f1(2)[OF f0(2)[OF p]]] f2(1) size(2), where opt = opt and key = key and ps = ps])
      (use ps in \<open>simp add: pol tool_epoch_def\<close>)
  obtain u where u: "output_image t 1024 = (hex_file (map (memory t 0) [0..<1024]), u)"
    using output_image_plain[of t] t(2) unfolding tool_image_def by blast
  have "encryptor_main s files writable random args = Inr (files(output_file opt \<mapsto> hex_file (map (memory t 0) [0..<1024])), u)"
    by (simp add: encryptor_main_def opt n read_hex_file[of files, OF tf] read_hex_file[of files, OF df] size(1) s1(1) s2(1) key t(1)
      write_output_image_def out u)
  then show thesis using t(2,3) pol by (intro that[of t u hdr sk]) simp_all
qed

end
