(* ===== verification/Decryptor_Image.thy ===== *)
theory Decryptor_Image
  imports Encryptor_Image
begin

text \<open>
  The run of \<open>decryptor_main\<close> on the image of the encryptor: loading, the regions in the header, the
  decrypted text blocks and data words.
\<close>

section \<open>Loading\<close>

lemma load_plain:
  fixes s :: "'a sec_scheme"
  assumes s: "smem_wf s" "accessible s 0" "\<not> layer_is_encrypted s 0" "num_words s = 1024" and n: "length ws = 1024"
  defines "t \<equiv> reset_and_load_image s ws"
  shows "plain t" "\<And>a. a < 1024 \<Longrightarrow> memory t 0 a = ws ! a" "hardware_root t = hardware_root s"
proof -
  have p: "plain (unlocked s)" using s by (simp add: plain_def)
  let ?t1 = "for_up 0 1024 (\<lambda>i s. mem_write s 0 i 0) (unlocked s)"
  let ?t2 = "for_up 0 1024 (\<lambda>i s. mem_write s 0 i (ws ! i)) ?t1"
  have h1: "holds (unlocked s) (\<lambda>x. if 0 + 0 \<le> x \<and> x < 0 + 1024 then 0 else memory (unlocked s) 0 x) ?t1"
    by (rule holds_loop[OF p]) (simp add: holds_write)
  note f1 = holds_fields[OF h1]
  have h2: "holds ?t1 (\<lambda>x. if 0 + 0 \<le> x \<and> x < 0 + 1024 then ws ! (x - 0) else memory ?t1 0 x) ?t2"
    by (rule holds_loop[OF f1(2)[OF p]]) (simp add: holds_write)
  note f2 = holds_fields[OF h2]
  have t: "t = invalidateCaches ?t2" by (simp add: t_def reset_and_load_image_def unlocked_def n Let_def)
  have "plain ?t2" using f2(2)[OF f1(2)[OF p]] .
  then show "plain t" by (simp add: t invalidateCaches_def plain_def smem_wf_def accessible_def isValidLayer_def)
  show "\<And>a. a < 1024 \<Longrightarrow> memory t 0 a = ws ! a" by (simp add: t invalidateCaches_def f2(1))
  have "hardware_root (unlocked s) = hardware_root s" by (simp add: unlocked_def clearSecurityLockdown_def add_log_def)
  then show "hardware_root t = hardware_root s" by (simp add: t invalidateCaches_def f2(4) f1(4))
qed

lemma load_hex_file:
  "files path = Some (hex_file ws) \<Longrightarrow> ws \<noteq> [] \<Longrightarrow> int (length ws) \<le> uint m \<Longrightarrow> load_hex_words files path m = Inr ws"
  by (simp add: load_hex_words_def file_lines_hex hex_lines_bounded_format)

section \<open>Reading the sealed words\<close>

text \<open>The hiding places lie outside header and text, and behind word 511.\<close>

lemma positions_high:
  assumes "secure_generate_positions nonce ts te 1024 = Some ps" "p \<in> set ps"
  shows "512 \<le> unat p div 32"
proof -
  have one: "512 \<le> unat pos div 32" if pp: "place_position 512 512 ts te qs i n seed = Some (pos, seed')" for qs i n seed pos seed'
  proof -
    obtain x b where pos: "pos = (512 + x mod 512) * 32 + (drop_bit 27 b AND 31)"
      using place_position_range[OF pp] by blast
    have "unat (x mod 512) < 512" by (simp add: unat_mod)
    then have w: "unat (512 + x mod 512) < 2 ^ 27" "512 \<le> unat (512 + x mod 512)" by (simp_all add: unat_word_ariths)
    then show ?thesis using unat_position[OF w(1), of b] pos by simp
  qed
  have "\<forall>p\<in>set ps. 512 \<le> unat p div 32"
    if "place_positions 512 512 ts te i n qs seed = Some ps" "\<forall>p\<in>set qs. 512 \<le> unat p div 32" for i n qs seed
    using that
  proof (induction n arbitrary: i qs seed)
    case (Suc n)
    then obtain pos seed' where s: "place_position 512 512 ts te qs i 2048 seed = Some (pos, seed')"
      "place_positions 512 512 ts te (i + 1) n (qs @ [pos]) seed' = Some ps"
      by (auto split: option.splits)
    show ?case by (rule Suc.IH[OF s(2)]) (use Suc.prems(2) one[OF s(1)] in auto)
  qed simp
  then show ?thesis using assms by (auto simp: secure_generate_positions_def Let_def)
qed

lemma tool_image_positions:
  assumes "tool_image s policy pl tw dw epoch key ps hdr sk"
  shows "\<And>p. p \<in> set ps \<Longrightarrow> 512 \<le> unat p div 32"
    "\<And>p. data_end tw dw \<le> 1024 \<Longrightarrow> p \<in> set ps \<Longrightarrow> \<not> (unat p div 32 < text_end tw)"
proof -
  note h = tool_image_header[OF assms]
  have s: "plain s" "image_sealed s 0 hdr ps sk" using assms by (simp_all add: tool_image_def)
  then have g: "secure_generate_positions (h_nonce hdr) 32 (of_nat (text_end tw)) 1024 = Some ps"
    by (simp add: image_sealed_def key_sealed_def h plain_words32)
  show "\<And>p. p \<in> set ps \<Longrightarrow> 512 \<le> unat p div 32" by (rule positions_high[OF g])
  show "\<And>p. data_end tw dw \<le> 1024 \<Longrightarrow> p \<in> set ps \<Longrightarrow> \<not> (unat p div 32 < text_end tw)"
    using generate_positions_ok[OF g] by (auto simp: position_ok_def image_words_bounds)
qed

text \<open>The raw words of a text block, and of a data block without hidden bits.\<close>

lemma tool_image_text:
  assumes i: "tool_image s policy pl tw dw epoch key ps hdr sk" and de: "data_end tw dw \<le> 1024"
    and b: "8 \<le> b" "b < text_end tw div 4"
  shows "aes_decrypt_block (quad_gen (\<lambda>i. memory s 0 (place_of tw epoch b * 4 + i))) key = quad_gen (\<lambda>i. pl (b * 4 + i))"
proof -
  obtain m where m: "encrypted_image pl tw dw epoch key m"
    "\<And>a. a < 1024 \<Longrightarrow> 32 \<le> a \<Longrightarrow> a \<notin> (\<lambda>p. unat p div 32) ` set ps \<Longrightarrow> memory s 0 a = m a"
    using i by (auto simp: tool_image_def)
  have te: "text_end tw \<le> 1024" using de text_end_bounds(5)[of tw dw] by linarith
  have "memory s 0 (place_of tw epoch b * 4 + i) = m (place_of tw epoch b * 4 + i)" if "i < 4" for i
  proof (rule m(2))
    show "place_of tw epoch b * 4 + i < 1024" "32 \<le> place_of tw epoch b * 4 + i"
      using place_of_range(1)[OF te b, of epoch] te that by linarith+
    have "place_of tw epoch b * 4 + i < text_end tw" using place_of_range(1)[OF te b, of epoch] that by linarith
    then show "place_of tw epoch b * 4 + i \<notin> (\<lambda>p. unat p div 32) ` set ps" using tool_image_positions(2)[OF i de] by fastforce
  qed
  then have "quad_gen (\<lambda>i. memory s 0 (place_of tw epoch b * 4 + i)) = quad_gen (\<lambda>i. m (place_of tw epoch b * 4 + i))"
    by (rule quad_gen_cong)
  also have "\<dots> = aes_encrypt_block (quad_gen (\<lambda>i. pl (b * 4 + i))) key"
    using m(1) b by (simp add: encrypted_image_def)
  finally show ?thesis by (simp add: aes.dec_enc)
qed

lemma tool_image_data:
  assumes i: "tool_image s policy pl tw dw epoch key ps hdr sk" and de: "data_end tw dw \<le> 1024"
    and b: "text_end tw div 4 \<le> b" "b < data_end tw dw div 4" and free: "\<And>p. p \<in> set ps \<Longrightarrow> unat p div 32 div 4 \<noteq> b"
  shows "aes_decrypt_block (quad_gen (\<lambda>i. memory s 0 (b * 4 + i))) key = quad_gen (\<lambda>i. pl (b * 4 + i))"
proof -
  obtain m where m: "encrypted_image pl tw dw epoch key m"
    "\<And>a. a < 1024 \<Longrightarrow> 32 \<le> a \<Longrightarrow> a \<notin> (\<lambda>p. unat p div 32) ` set ps \<Longrightarrow> memory s 0 a = m a"
    using i by (auto simp: tool_image_def)
  have "memory s 0 (b * 4 + i) = m (b * 4 + i)" if "i < 4" for i
  proof (rule m(2))
    show "b * 4 + i < 1024" using b(2) de that by linarith
    show "32 \<le> b * 4 + i" using b(1) text_end_bounds(1,2)[of tw] by (auto elim!: dvdE)
    show "b * 4 + i \<notin> (\<lambda>p. unat p div 32) ` set ps" using free that by force
  qed
  then have "quad_gen (\<lambda>i. memory s 0 (b * 4 + i)) = quad_gen (\<lambda>i. m (b * 4 + i))" by (rule quad_gen_cong)
  also have "\<dots> = aes_encrypt_block (quad_gen (\<lambda>i. pl (b * 4 + i))) key"
    using m(1) b by (simp add: encrypted_image_def)
  finally show ?thesis by (simp add: aes.dec_enc)
qed

text \<open>The words of text and data.\<close>

definition image_text :: "(nat \<Rightarrow> u32) \<Rightarrow> u32 list \<Rightarrow> u32 list" where
  "image_text pl tw = map (\<lambda>j. pl (32 + j)) [0..<length tw]"

definition image_data :: "(nat \<Rightarrow> u32) \<Rightarrow> u32 list \<Rightarrow> u32 list \<Rightarrow> u32 list" where
  "image_data pl tw dw = map (\<lambda>j. pl (text_end tw + j)) [0..<length dw]"

lemma plain_image_words: "image_text (plain_image tw dw) tw = tw" "image_data (plain_image tw dw) tw dw = dw"
  using text_end_bounds(1)[of tw] by (auto simp: image_text_def image_data_def plain_image_def intro!: nth_equalityI)

section \<open>The text\<close>

lemma decrypt_text_step:
  assumes i: "tool_image s policy pl tw dw epoch key ps hdr sk" and de: "data_end tw dw \<le> 1024"
    and map_ok: "secure_runtime_map_valid s" "secure_runtime_map s = secure_build_map_params 32 (of_nat (text_end tw)) epoch"
    and b: "8 \<le> b" "b < text_end tw div 4"
  shows "decrypt_text_block s key 32 (32 + of_nat (length tw)) b (map (\<lambda>j. if 32 + j < 4 * b then pl (32 + j) else 0) [0..<length tw])
    = Inr (map (\<lambda>j. if 32 + j < 4 * Suc b then pl (32 + j) else 0) [0..<length tw])"
proof -
  have p: "plain s" using i by (simp add: tool_image_def)
  have te: "text_end tw \<le> 1024" using de text_end_bounds(5)[of tw dw] by linarith
  let ?P = "place_of tw epoch b"
  define w where "w = secure_map_text_block s (of_nat b)"
  have w: "unat w = ?P" by (simp add: w_def place_of_def secure_map_text_block_def map_ok)
  have range: "8 \<le> ?P" "?P < 256" "?P * 4 + 4 \<le> 1024" using place_of_range(1)[OF te b, of epoch] te by linarith+
  have u: "unat (w * 4) = ?P * 4" "unat (w * 4 + 4) = ?P * 4 + 4" using w range by (simp_all add: unat_word_ariths)
  have ok: "\<not> w \<ge> 256" "\<not> w * 4 + 4 > 1024" using w u range by (simp_all add: word_le_nat_alt word_less_nat_alt)
  have raw: "rawRead s 0 (unat (w * 4 + of_nat k)) = memory s 0 (?P * 4 + k)" if "k < 4" for k
  proof -
    have "unat (w * 4 + of_nat k) = ?P * 4 + k" using u(1) range that by (simp add: unat_word_ariths unat_of_nat)
    then show ?thesis using plain_reads(2)[OF p, of "?P * 4 + k"] range that by simp
  qed
  define P where "P = aes_decrypt_block (quad_gen (\<lambda>i. rawRead s 0 (unat (w * 4 + of_nat i)))) key"
  have plain: "P = quad_gen (\<lambda>i. pl (b * 4 + i))"
  proof -
    have "quad_gen (\<lambda>i. rawRead s 0 (unat (w * 4 + of_nat i))) = quad_gen (\<lambda>i. memory s 0 (?P * 4 + i))"
      by (rule quad_gen_cong) (rule raw)
    then show ?thesis using tool_image_text[OF i de b] by (simp add: P_def)
  qed
  let ?f = "\<lambda>k xs. let word_addr = of_nat b * 4 + of_nat k :: u32
     in if word_addr \<ge> 32 \<and> word_addr < 32 + of_nat (length tw)
        then xs[unat (word_addr - 32) := quad_nth P k] else xs"
  have "for_up 0 c ?f (map (\<lambda>j. if 32 + j < 4 * b then pl (32 + j) else 0) [0..<length tw])
      = map (\<lambda>j. if 32 + j < 4 * b + c then pl (32 + j) else 0) [0..<length tw]" if "c \<le> 4" for c
    using that
  proof (induction c)
    case (Suc c)
    let ?a = "of_nat b * 4 + of_nat c :: u32"
    have l: "length tw \<le> 1024" using te text_end_bounds(1)[of tw] by linarith
    have a: "unat ?a = 4 * b + c" using b te Suc.prems by (simp add: unat_word_ariths unat_of_nat)
    have "unat (32 + of_nat (length tw) :: u32) = 32 + length tw" using l by (simp add: unat_word_ariths unat_of_nat)
    then have cond: "32 \<le> ?a" "?a < 32 + of_nat (length tw) \<longleftrightarrow> 4 * b + c < 32 + length tw"
      using a b(1) by (simp_all add: word_le_nat_alt word_less_nat_alt)
    have ix: "unat (?a - 32) = 4 * b + c - 32" using cond(1) a by (simp add: unat_sub)
    have v: "quad_nth P c = pl (4 * b + c)" unfolding plain using Suc.prems by (simp add: mult.commute)
    have add_back: "32 + (4 * b + c - 32) = 4 * b + c" using b(1) by simp
    have "for_up 0 (Suc c) ?f (map (\<lambda>j. if 32 + j < 4 * b then pl (32 + j) else 0) [0..<length tw])
      = ?f c (map (\<lambda>j. if 32 + j < 4 * b + c then pl (32 + j) else 0) [0..<length tw])"
      by (rule for_up_step) (use Suc in auto)
    also have "\<dots> = map (\<lambda>j. if 32 + j < 4 * b + Suc c then pl (32 + j) else 0) [0..<length tw]"
      using b(1) add_back by (auto simp: v cond ix Let_def nth_list_update intro!: nth_equalityI)
    finally show ?case .
  qed simp
  from this[of 4] have "for_up 0 4 ?f (map (\<lambda>j. if 32 + j < 4 * b then pl (32 + j) else 0) [0..<length tw])
      = map (\<lambda>j. if 32 + j < 4 * Suc b then pl (32 + j) else 0) [0..<length tw]" by (simp only: mult_Suc_right add.commute le_refl)
  then show ?thesis
    using ok unfolding decrypt_text_block_def Let_def w_def[symmetric] P_def[symmetric] by simp
qed

lemma decrypt_text_plain:
  assumes i: "tool_image s policy pl tw dw epoch key ps hdr sk" and de: "data_end tw dw \<le> 1024"
    and map_ok: "secure_runtime_map_valid s" "secure_runtime_map s = secure_build_map_params 32 (of_nat (text_end tw)) epoch"
  shows "decrypt_text_region s key 32 (of_nat (length tw)) (of_nat (text_end tw)) = Inr (image_text pl tw)"
proof -
  have te: "text_end tw \<le> 1024" using de text_end_bounds(5)[of tw dw] by linarith
  let ?body = "\<lambda>blk r. and_then r (decrypt_text_block s key 32 (32 + of_nat (length tw)) blk)"
  let ?xs = "\<lambda>b. map (\<lambda>j. if 32 + j < 4 * b then pl (32 + j) else 0) [0..<length tw]"
  have "for_up 8 b ?body (Inr (?xs 8)) = Inr (?xs b)" if "8 \<le> b" "b \<le> text_end tw div 4" for b
    using that
  proof (induction b rule: dec_induct)
    case (step b)
    have "for_up 8 (Suc b) ?body (Inr (?xs 8)) = ?body b (Inr (?xs b))"
      by (rule for_up_step[OF step(1) step(3)]) (use step in simp)
    also have "\<dots> = Inr (?xs (Suc b))"
      using decrypt_text_step[OF i de map_ok, of b] step by (simp only: and_then_result Suc_le_eq)
    finally show ?case .
  qed simp
  moreover have "?xs 8 = replicate (length tw) 0" by (auto intro!: nth_equalityI)
  moreover have "4 * (text_end tw div 4) = text_end tw" using text_end_bounds(2)[of tw] by simp
  then have "?xs (text_end tw div 4) = image_text pl tw" using text_end_bounds(1)[of tw] by (auto simp: image_text_def)
  moreover have "8 \<le> text_end tw div 4" using text_end_bounds(1)[of tw] by simp
  moreover have "unat (of_nat (length tw) :: u32) = length tw" "unat (of_nat (text_end tw) div 4 :: u32) = text_end tw div 4"
    using image_words_bounds[OF de] by (simp_all add: unat_div)
  ultimately show ?thesis by (simp add: decrypt_text_region_def)
qed

section \<open>The data\<close>

lemma dump_data_plain:
  fixes s :: "'a sec_scheme"
  assumes i: "tool_image s policy pl tw dw epoch key ps hdr sk" and de: "data_end tw dw \<le> 1024"
    and free: "\<And>p. p \<in> set ps \<Longrightarrow> data_end tw dw \<le> unat p div 32"
  obtains t where "dump_data_region_plain s (of_nat (text_end tw)) (of_nat (length dw)) = Inr (image_data pl tw dw, t)"
proof -
  note h = tool_image_header[OF i]
  have p: "plain s" and k: "aes_decrypt_block (h_wrapped hdr) sk = key" using i by (simp_all add: tool_image_def)
  let ?ds = "of_nat (text_end tw) :: u32"
  note tb = text_end_bounds(1,2)[of tw] text_end_bounds(3,4,5)[of tw dw]
  note ib = image_words_bounds[OF de]
  have read: "\<exists>v. secure_read_data_word_plain u (?ds + of_nat j) = (0, Some (pl (text_end tw + j)), v) \<and> quiet s v"
    if u: "quiet s u" and j: "j < length dw" for u j
  proof -
    note hq = holds_quiet[OF p u]
    have pu: "plain u" by (rule holds_fields(2)[OF hq p])
    have mem: "memory u 0 = memory s 0" by (rule holds_fields(1)[OF hq])
    have iu: "tool_image u policy pl tw dw epoch key ps hdr sk"
      by (rule tool_image_other[OF i pu]) (simp_all add: mem holds_fields(4)[OF hq])
    then have sealed: "image_sealed u 0 hdr ps sk" by (simp add: tool_image_def)
    let ?a = "text_end tw + j"
    have a: "unat (?ds + of_nat j) = ?a" "?a < 1024" "?a < data_end tw dw"
      using j tb(3) de ib(3) by (simp_all add: unat_word_ariths unat_of_nat)
    have w: "words32 u = 1024" by (rule plain_words32[OF pu])
    have lt: "?ds + of_nat j < words32 u" "h_data_start hdr \<le> ?ds + of_nat j" "?ds + of_nat j < h_data_end hdr"
      using a ib(3,4) by (simp_all add: w h word_less_nat_alt word_le_nat_alt)
    obtain v where v: "quiet u v" "secure_read_data_word_plain u (?ds + of_nat j) =
       (0, Some (quad_nth (aes_decrypt_block (quad_gen (\<lambda>i. rawRead u 0 (?a div 4 * 4 + i))) key) (?a mod 4)), v)"
      using read_data_plain[OF sealed lt(1)] lt(2,3) by (auto simp: w h(8) k a(1))
    have "text_end tw div 4 \<le> ?a div 4" "?a div 4 < data_end tw dw div 4"
      using a(3) tb(4) by (auto elim!: dvdE simp: div_le_mono)
    moreover have "unat p div 32 div 4 \<noteq> ?a div 4" if "p \<in> set ps" for p
      using free[OF that] \<open>?a div 4 < data_end tw dw div 4\<close> div_le_mono[of "data_end tw dw" "unat p div 32" 4] by simp
    ultimately have "aes_decrypt_block (quad_gen (\<lambda>i. memory u 0 (?a div 4 * 4 + i))) key = quad_gen (\<lambda>i. pl (?a div 4 * 4 + i))"
      by (rule tool_image_data[OF iu de])
    moreover have "quad_gen (\<lambda>i. rawRead u 0 (?a div 4 * 4 + i)) = quad_gen (\<lambda>i. memory u 0 (?a div 4 * 4 + i))"
    proof (rule quad_gen_cong)
      fix k :: nat assume "k < 4"
      moreover have "?a div 4 < 256" using a(2) by simp
      ultimately have "?a div 4 * 4 + k < 1024" by linarith
      then show "rawRead u 0 (?a div 4 * 4 + k) = memory u 0 (?a div 4 * 4 + k)" by (rule plain_reads(2)[OF pu])
    qed
    moreover have "pl (?a div 4 * 4 + ?a mod 4) = pl ?a" by simp
    ultimately show ?thesis using v quiet_trans[OF u v(1)] by simp
  qed
  let ?body = "\<lambda>i r. and_then r (\<lambda>(plain_data, s).
          let (rc, v, s) = secure_read_data_word_plain s (?ds + of_nat i)
          in if rc \<noteq> 0
             then Inl (''Could not read plaintext data word at image word '' @ format_u (unat (?ds + of_nat i))
                       @ '' (rc='' @ format_d rc @ '')'')
             else Inr (plain_data[i := the v], s :: 'a sec_scheme))"
  let ?xs = "\<lambda>n. map (\<lambda>j. if j < n then pl (text_end tw + j) else 0) [0..<length dw]"
  have "\<exists>t. for_up 0 n ?body (Inr (?xs 0, s)) = Inr (?xs n, t) \<and> quiet s t" if "n \<le> length dw" for n
    using that
  proof (induction n)
    case (Suc n)
    then obtain u where u: "for_up 0 n ?body (Inr (?xs 0, s)) = Inr (?xs n, u)" "quiet s u" using Suc_leD by blast
    obtain v where v: "secure_read_data_word_plain u (?ds + of_nat n) = (0, Some (pl (text_end tw + n)), v)" "quiet s v"
      using read[OF u(2), of n] Suc.prems by auto
    have "for_up 0 (Suc n) ?body (Inr (?xs 0, s)) = ?body n (Inr (?xs n, u))" by (rule for_up_step[OF le0 u(1)])
    also have "\<dots> = Inr ((?xs n)[n := pl (text_end tw + n)], v)" by (simp add: v(1))
    also have "(?xs n)[n := pl (text_end tw + n)] = ?xs (Suc n)"
      by (rule nth_equalityI) (simp_all add: nth_list_update less_Suc_eq)
    finally show ?case using v(2) by blast
  qed simp
  from this[of "length dw"] obtain t where t: "for_up 0 (length dw) ?body (Inr (?xs 0, s)) = Inr (?xs (length dw), t)" by auto
  moreover have "?xs 0 = replicate (length dw) 0" "?xs (length dw) = image_data pl tw dw" by (auto simp: image_data_def intro!: nth_equalityI)
  ultimately show thesis using ib(2) by (intro that[of t]) (simp add: dump_data_region_plain_def)
qed

section \<open>The tool\<close>

lemma tool_region:
  fixes s :: "'a sec_scheme"
  assumes i: "tool_image s policy pl tw dw epoch key ps hdr sk" and de: "data_end tw dw \<le> 1024" and ep: "epoch \<noteq> 0"
  shows "read_and_validate_metadata ((secure_apply_runtime_region s hdr)\<lparr>layer_log := f\<rparr>) =
      Inr ((32, of_nat (length tw), of_nat (text_end tw), epoch), (of_nat (text_end tw), of_nat (length dw), of_nat (data_end tw dw), 1))"
    "secure_runtime_map_valid ((secure_apply_runtime_region s hdr)\<lparr>layer_log := f\<rparr>)"
    "secure_runtime_map ((secure_apply_runtime_region s hdr)\<lparr>layer_log := f\<rparr>) = secure_build_map_params 32 (of_nat (text_end tw)) epoch"
proof -
  note h = tool_image_header[OF i]
  note b = image_words_bounds[OF de]
  let ?t = "(secure_apply_runtime_region s hdr)\<lparr>layer_log := f\<rparr>"
  show "secure_runtime_map_valid ?t" "secure_runtime_map ?t = secure_build_map_params 32 (of_nat (text_end tw)) epoch"
    by (simp_all add: secure_apply_runtime_region_def h)
  have "of_nat (text_end tw) \<le> (1024 :: u32)" using b(8,9) by (rule order_trans)
  then show "read_and_validate_metadata ?t =
      Inr ((32, of_nat (length tw), of_nat (text_end tw), epoch), (of_nat (text_end tw), of_nat (length dw), of_nat (data_end tw dw), 1))"
    using b ep by (simp add: read_and_validate_metadata_def secure_get_image_region_def secure_get_data_region_def
        secure_apply_runtime_region_def h check_def not_less Let_def)
qed

lemma decryptor_result:
  fixes s :: "'a sec_scheme"
  assumes s: "smem_wf s" "accessible s 0" "\<not> layer_is_encrypted s 0" "num_words s = 1024"
    and opt: "parse_options args = Inr opt"
    and img: "files (input_image opt) = Some (hex_file ws)" "length ws = 1024"
    and t: "tool_image t policy pl tw dw epoch key ps hdr sk" "ws = map (memory t 0) [0..<1024]" "hardware_root t = hardware_root s"
    and size: "tw \<noteq> []" "data_end tw dw \<le> 1024" "epoch \<noteq> 0"
    and out: "writable (output_text opt)" "output_data opt = [] \<or> writable (output_data opt)"
    and cmp: "compare_text opt = [] \<or> (files(output_text opt \<mapsto> hex_file (image_text pl tw))) (compare_text opt) = Some (hex_file (image_text pl tw))"
    and free: "output_data opt \<noteq> [] \<Longrightarrow> data_end tw dw \<le> 512"
  shows "decryptor_main s files writable args =
    (0, [], if output_data opt = [] then files(output_text opt \<mapsto> hex_file (image_text pl tw))
            else files(output_text opt \<mapsto> hex_file (image_text pl tw), output_data opt \<mapsto> hex_file (image_data pl tw dw)))"
proof -
  let ?s1 = "reset_and_load_image s ws"
  note l = load_plain[OF s img(2)]
  have w: "ws ! a = memory t 0 a" if "a < 1024" for a using that by (simp add: t(2))
  have "tool_image ?s1 policy pl tw dw epoch key ps hdr sk"
    by (rule tool_image_other[OF t(1) l(1)]) (simp_all add: l(2,3) w t(3))
  then obtain s2 where s2: "secure_validate_image ?s1 0 = (0, s2)" "tool_image s2 policy pl tw dw epoch key ps hdr sk"
    using tool_image_validates by blast
  obtain f where f: "extract_key_from_large_block s2 0 = (0, key, (secure_apply_runtime_region s2 hdr)\<lparr>layer_log := f\<rparr>)"
    "tool_image ((secure_apply_runtime_region s2 hdr)\<lparr>layer_log := f\<rparr>) policy pl tw dw epoch key ps hdr sk"
    using tool_image_extracts[OF s2(2)] by blast
  define s3 where "s3 = (secure_apply_runtime_region s2 hdr)\<lparr>layer_log := f\<rparr>"
  note s3 = f[folded s3_def] tool_region[OF s2(2) size(2,3), of f, folded s3_def]
  have locked: "\<not> isSecurityLocked s2" "\<not> isSecurityLocked s3"
    using s2(2) s3(2) by (simp_all add: tool_image_def plain_def isSecurityLocked_def)
  have tx: "decrypt_text_region s3 key 32 (of_nat (length tw)) (of_nat (text_end tw)) = Inr (image_text pl tw)"
    by (rule decrypt_text_plain[OF s3(2) size(2) s3(4,5)])
  have "length tw \<le> 1024" using text_end_bounds(1)[of tw] text_end_bounds(5)[of tw dw] size(2) by linarith
  moreover have len: "length (image_text pl tw) = length tw" "image_text pl tw \<noteq> []" using size(1) by (simp_all add: image_text_def)
  ultimately have cmp_ok: "compare_text opt \<noteq> [] \<Longrightarrow>
      compare_with_reference (image_text pl tw) (files(output_text opt \<mapsto> hex_file (image_text pl tw))) (compare_text opt) = Inr ()"
    using cmp size(1) load_hex_file[of "files(output_text opt \<mapsto> hex_file (image_text pl tw))" "compare_text opt" "image_text pl tw" "0xFFFFFFFF"]
    by (simp add: compare_with_reference_def len)
  have "ws \<noteq> []" "int (length ws) \<le> uint (1024 :: u32)" using img(2) by auto
  then have "load_hex_words files (input_image opt) 1024 = Inr ws" by (intro load_hex_file img(1))
  note base = opt this s2(1) locked s3(1,3) tx
  show ?thesis
  proof (cases "output_data opt = []")
    case True
    then show ?thesis
      by (simp add: decryptor_main_def base or_exit_def write_hex_words_def check_def out cmp_ok)
  next
    case False
    have "data_end tw dw \<le> unat p div 32" if "p \<in> set ps" for p
      using tool_image_positions(1)[OF s3(2) that] free[OF False] by linarith
    then obtain u where "dump_data_region_plain s3 (of_nat (text_end tw)) (of_nat (length dw)) = Inr (image_data pl tw dw, u)"
      using dump_data_plain[OF s3(2) size(2)] by blast
    then show ?thesis using False out(2)
      by (simp add: decryptor_main_def base or_exit_def write_hex_words_def check_def out(1) cmp_ok)
  qed
qed

end
