(* ===== verification/Tool_Chain.thy ===== *)
theory Tool_Chain
  imports Decryptor_Image Program_Properties Assembler_Properties
begin

text \<open>
  The processor on an image of the encryptor: the sequential machine of the assembled words, which the
  image describes, and the run of the top function on the words of the image file.
\<close>

section \<open>The machine of a source\<close>

text \<open>
  The sequential machine on the assembled words themselves: the text from block 8 on, the data behind
  it, and no encryption but that of the AES instructions.
\<close>

definition source_machine :: "u32 list \<Rightarrow> u32 list \<Rightarrow> block \<Rightarrow> machine" where
  "source_machine tw dw key =
     \<lparr>text_first = 8, text_last = of_nat (text_end tw div 4),
      text_block = (\<lambda>b. if 8 \<le> b \<and> b < of_nat (text_end tw div 4)
        then quad_gen (\<lambda>i. plain_image tw dw (unat b * 4 + i)) else Quad 0 0 0 0),
      data_first = of_nat (text_end tw), data_last = of_nat (data_end tw dw), app_key = key\<rparr>"

definition source_start :: "'a cpu_scheme \<Rightarrow> u32 list \<Rightarrow> u32 list \<Rightarrow> isa" where
  "source_start c tw dw =
     \<lparr>pc = (8, 0), regs = (\<lambda>r. if r < 32 then 0 else reg_file c r), copro = Quad 0 0 0 0,
      words = (\<lambda>a. plain_image tw dw (unat a)), locked = False\<rparr>"

text \<open>A program sees only the words of its data region.\<close>

definition agree :: "machine \<Rightarrow> isa \<Rightarrow> isa \<Rightarrow> bool" where
  "agree M st st' \<longleftrightarrow> pc st' = pc st \<and> regs st' = regs st \<and> copro st' = copro st \<and> locked st' = locked st
     \<and> (\<forall>a. in_data M a \<longrightarrow> words st' a = words st a)"

lemma agree_effect: "agree M st st' \<Longrightarrow> agree M (effect M i st) (effect M i st')"
  by (cases i) (auto simp: agree_def effect_def set_reg_def get_reg_def load_def store_def Let_def split: option.splits)

lemma agree_step:
  assumes "agree M st st'"
  shows "agree M (isa_step M st) (isa_step M st')"
proof -
  have "next_pc M i st' = next_pc M i st" for i
    using assms by (simp add: agree_def next_pc_def get_reg_def split: mips.split)
  then show ?thesis using agree_effect[OF assms] assms by (simp add: isa_step_def Let_def at_end_def agree_def)
qed

lemma agree_run:
  assumes "agree M st st'"
  shows "agree M (isa_run M m st) (isa_run M m st')"
  unfolding isa_run_def by (induction m) (simp_all add: assms agree_step)

lemma agree_fields:
  assumes "agree M st st'"
  shows "pc st' = pc st" "regs st' = regs st" "copro st' = copro st" "locked st' = locked st" "at_end M st' = at_end M st"
    "in_data M a \<Longrightarrow> words st' a = words st a"
  using assms by (auto simp: agree_def at_end_def)

section \<open>What the encryptor needs\<close>

text \<open>
  The two input files hold the words; there is a key; and hiding places for its bits are found.
\<close>

definition sealable :: "'a sec_scheme \<Rightarrow> EncOptions \<Rightarrow> files \<Rightarrow> (nat \<Rightarrow> u8) option \<Rightarrow> u32 list \<Rightarrow> u32 list \<Rightarrow> block \<Rightarrow> bool" where
  "sealable s opt files random tw dw key \<longleftrightarrow>
     files (text_file opt) = Some (hex_file tw) \<and> files (data_file opt) = Some (hex_file dw)
     \<and> generate_secure_app_key (deterministic_key opt) (deterministic_seed opt) random = Inr key
     \<and> secure_generate_positions (h_nonce (tool_header (secure_policy s) tw dw (tool_epoch opt tw dw key) key)) 32
         (of_nat (text_end tw)) 1024 \<noteq> None"

lemma sealable_result:
  fixes s :: "'a sec_scheme"
  assumes "plain s" "parse_args args = Inr opt" "writable (output_file opt)" "sealable s opt files random tw dw key"
    "tw \<noteq> []" "data_end tw dw \<le> 1024"
  obtains t u :: "'a sec_scheme" and ps hdr sk where "encryptor_main s files writable random args =
      Inr (files(output_file opt \<mapsto> hex_file (map (memory t 0) [0..<1024])), u)"
    "tool_image t (secure_policy s) (plain_image tw dw) tw dw (tool_epoch opt tw dw key) key ps hdr sk"
    "hardware_root t = hardware_root s"
proof -
  obtain ps where sl: "files (text_file opt) = Some (hex_file tw)" "files (data_file opt) = Some (hex_file dw)"
    "generate_secure_app_key (deterministic_key opt) (deterministic_seed opt) random = Inr key"
    "secure_generate_positions (h_nonce (tool_header (secure_policy s) tw dw (tool_epoch opt tw dw key) key)) 32
         (of_nat (text_end tw)) 1024 = Some ps"
    using assms(4) unfolding sealable_def by blast
  show thesis
    by (rule encryptor_result[where files = files and writable = writable, OF assms(1,2) sl(1,2) assms(5,6) sl(3) assms(3) sl(4)])
      (rule that)
qed

section \<open>The processor on the image of the encryptor\<close>

lemma tool_machine:
  assumes i: "tool_image s policy (plain_image tw dw) tw dw epoch key ps hdr sk" and de: "data_end tw dw \<le> 1024"
  shows "image_machine s hdr key = source_machine tw dw key"
proof -
  note h = tool_image_header[OF i] and ib = image_words_bounds[OF de]
  have te: "text_end tw div 4 < 2 ^ 32" using text_end_bounds(5)[of tw dw] de by simp
  have d: "(of_nat (text_end tw) :: u32) div 4 = of_nat (text_end tw div 4)"
  proof (rule word_unat_eq_iff[THEN iffD2])
    have "unat ((of_nat (text_end tw) :: u32) div 4) = text_end tw div 4" by (simp add: unat_div ib)
    then show "unat ((of_nat (text_end tw) :: u32) div 4) = unat (of_nat (text_end tw div 4) :: u32)"
      using te by (simp only: unat_of_nat, simp)
  qed
  have "aes_decrypt_block (quad_gen (\<lambda>i. memory s 0 (unat (secure_map_block_with_params b
      (secure_build_map_params 32 (of_nat (text_end tw)) epoch)) * 4 + i))) key = quad_gen (\<lambda>i. plain_image tw dw (unat b * 4 + i))"
    if b: "8 \<le> b" "b < of_nat (text_end tw div 4)" for b :: u32
  proof -
    have "8 \<le> unat b" "unat b < text_end tw div 4"
      using b te by (simp_all add: word_le_nat_alt word_less_nat_alt unat_of_nat)
    then show ?thesis using tool_image_text[OF i de, of "unat b"] by (simp add: place_of_def)
  qed
  then show ?thesis by (auto simp: image_machine_def source_machine_def h d Let_def fun_eq_iff)
qed

lemma tool_words:
  assumes i: "tool_image s policy (plain_image tw dw) tw dw epoch key ps hdr sk" and de: "data_end tw dw \<le> 512"
    and a: "of_nat (text_end tw) \<le> a" "a < of_nat (data_end tw dw)"
  shows "image_words s key a = plain_image tw dw (unat a)"
proof -
  have p: "plain s" using i by (simp add: tool_image_def)
  have de': "data_end tw dw \<le> 1024" using de by simp
  note ib = image_words_bounds[OF de'] and tb = text_end_bounds(1,2)[of tw] text_end_bounds(3,4,5)[of tw dw]
  have a': "text_end tw \<le> unat a" "unat a < data_end tw dw" using a by (simp_all add: word_le_nat_alt word_less_nat_alt ib)
  let ?b = "unat a div 4"
  have b: "text_end tw div 4 \<le> ?b" "?b < data_end tw dw div 4" using a' tb(4) by (auto elim!: dvdE simp: div_le_mono)
  have u: "unat (a div 4 * 4 + 4) = ?b * 4 + 4" using a'(2) de by (simp add: unat_word_ariths unat_div)
  have "\<not> a div 4 * 4 + 4 > words32 s" using u a'(2) de by (simp add: plain_words32[OF p] word_less_nat_alt)
  moreover have "quad_gen (\<lambda>i. rawRead s 0 (?b * 4 + i)) = quad_gen (\<lambda>i. memory s 0 (?b * 4 + i))"
    by (rule quad_gen_cong, rule plain_reads(2)[OF p]) (use a'(2) de in linarith)
  moreover have "unat p div 32 div 4 \<noteq> ?b" if "p \<in> set ps" for p
    using div_le_mono[OF tool_image_positions(1)[OF i that], of 4] a'(2) de by simp
  then have "aes_decrypt_block (quad_gen (\<lambda>i. memory s 0 (?b * 4 + i))) key = quad_gen (\<lambda>i. plain_image tw dw (?b * 4 + i))"
    by (rule tool_image_data[OF i de' b])
  ultimately show ?thesis by (simp add: image_words_def unat_mod)
qed

lemma tool_boots:
  fixes c :: "'a cpu_scheme" and host :: "nat \<Rightarrow> u32"
  assumes i: "tool_image t policy (plain_image tw dw) tw dw epoch key ps hdr sk" and de: "data_end tw dw \<le> 512"
    and c: "smem_wf c" "accessible c 0" "\<not> layer_is_encrypted c 0" "num_words c = 1024" "hardware_root c = hardware_root t"
    and host: "\<forall>a<1024. host a = memory t 0 a"
  defines "s1 \<equiv> load_image (unlocked c) host (io_word_count 0)"
  shows "bootable s1 hdr ps sk" "aes_decrypt_block (h_wrapped hdr) sk = key" "image_machine s1 hdr key = source_machine tw dw key"
    "agree (source_machine tw dw key) (initial_isa s1 hdr key) (source_start c tw dw)"
proof -
  have io: "io_word_count 0 = 1024" by (simp add: io_word_count_def)
  note l = loaded[OF c(1-4), where host = host and wc = 0, folded s1_def]
  have u: "accessible (unlocked c) 0" "\<not> layer_is_encrypted (unlocked c) 0" "num_words (unlocked c) = 1024" using c by simp_all
  obtain f m where "s1 = (unlocked c)\<lparr>layer_log := f, memory := (memory (unlocked c))(0 := m)\<rparr>"
    unfolding s1_def io by (rule load_image_shape[OF u, of 1024 host]) auto
  then have root: "hardware_root s1 = hardware_root t"
    using c(5) by (simp add: unlocked_def clearSecurityLockdown_def add_log_def)
  have p: "plain s1" using l by (simp add: plain_def)
  have mem: "memory s1 0 a = memory t 0 a" if "a < 1024" for a using l(7)[OF that] host that by (simp add: io)
  have i1: "tool_image s1 policy (plain_image tw dw) tw dw epoch key ps hdr sk" by (rule tool_image_other[OF i p mem root])
  note h = tool_image_header[OF i1]
  show k: "aes_decrypt_block (h_wrapped hdr) sk = key" using i by (simp add: tool_image_def)
  show "bootable s1 hdr ps sk" using i1 l h by (simp add: bootable_def tool_image_def)
  show M: "image_machine s1 hdr key = source_machine tw dw key" using tool_machine[OF i1] de by simp
  have "plain_image tw dw (unat a) = image_words s1 key a" if "in_data (source_machine tw dw key) a" for a
    using tool_words[OF i1 de, of a] that by (simp add: in_data_def source_machine_def)
  then show "agree (source_machine tw dw key) (initial_isa s1 hdr key) (source_start c tw dw)"
    by (simp add: agree_def source_start_def initial_isa_def h l(6) cong: if_cong)
qed

text \<open>
  The top function on that image, for a program that ends: the data lies below the hidden key bits,
  so the image validates again.
\<close>

lemma tool_runs:
  fixes c :: "'a cpu_scheme" and host :: "nat \<Rightarrow> u32" and m :: nat
  assumes i: "tool_image t policy (plain_image tw dw) tw dw epoch key ps hdr sk" and de: "data_end tw dw \<le> 512" and pol: "policy AND 4 \<noteq> 0"
    and c: "smem_wf c" "accessible c 0" "\<not> layer_is_encrypted c 0" "num_words c = 1024" "hardware_root c = hardware_root t"
    and host: "\<forall>a<1024. host a = memory t 0 a"
  defines "M \<equiv> source_machine tw dw key"
  defines "f \<equiv> isa_run M m (source_start c tw dw)"
  assumes fin: "at_end M f" "\<not> locked f" "m \<le> 498"
  obtains out status u where "Crypto3DStackCPU_top c (Some host) 0 = (Some out, status, u)" "status AND 3 = 0" "reg_file u = regs f"
    "\<forall>a. in_data M a \<longrightarrow> image_words u key a = words f a" "\<forall>i<1024. out i = memory u 0 i"
    "fst (secure_validate_image u 0) = 0" "fst (snd (extract_key_from_large_block u 0)) = key"
    "\<forall>a<1024. a < 20 \<or> 24 \<le> a \<and> a < text_end tw \<or> data_end tw dw \<le> a \<longrightarrow> memory u 0 a = memory t 0 a"
    "accessible u 0" "\<not> layer_is_encrypted u 0" "num_words u = 1024" "hardware_root u = hardware_root t"
proof -
  let ?s1 = "load_image (unlocked c) host (io_word_count 0)"
  have io: "io_word_count 0 = 1024" by (simp add: io_word_count_def)
  have "data_end tw dw \<le> 1024" using de by simp
  note ib = image_words_bounds[OF this] and h = tool_image_header[OF i]
  note b = tool_boots[OF i de c host, folded M_def]
  let ?g = "isa_run M m (initial_isa ?s1 hdr key)"
  have ag: "agree M ?g f" unfolding f_def by (rule agree_run[OF b(4)])
  note g = agree_fields[OF ag]
  have p: "h_policy hdr AND 4 \<noteq> 0" using pol h(1) by simp
  have fin': "at_end M ?g" "\<not> locked ?g" using fin g by simp_all
  obtain out status u where u: "Crypto3DStackCPU_top c (Some host) 0 = (Some out, status, u)"
    "\<forall>i<io_word_count 0. out i = memory u 0 i" "reg_file u = regs ?g"
    "\<forall>a. in_data M a \<longrightarrow> image_words u key a = words ?g a"
    "\<forall>a<1024. a < 20 \<or> 24 \<le> a \<and> a < unat (h_data_start hdr) \<or> unat (h_data_end hdr) \<le> a
         \<longrightarrow> memory u 0 a = (if a < io_word_count 0 then host a else 0)"
    "if status AND 3 = 0 then fst (secure_validate_image u 0) = 0 \<and> fst (snd (extract_key_from_large_block u 0)) = key
     else status AND 3 = 3 \<and> isSecurityLocked u"
    "(\<forall>p\<in>set ps. unat p div 32 < unat (h_data_start hdr) \<or> unat (h_data_end hdr) \<le> unat p div 32) \<longrightarrow> status AND 3 = 0"
    by (rule top_runs[OF c(1-4) b(1) p, of m, unfolded b(2,3), OF fin' fin(3)])
  have "data_end tw dw \<le> unat p div 32" if "p \<in> set ps" for p
    using tool_image_positions(1)[OF i that] de by linarith
  then have st: "status AND 3 = 0" using u(7) by (simp add: h ib)
  obtain z where z: "frame 0 (unlocked c) z" "snd (snd (Crypto3DStackCPU_top c (Some host) 0)) =
    z\<lparr>runtime_app_key := Quad 0 0 0 0, copro_reg := Quad 0 0 0 0, key_valid := False\<rparr>" by (rule top_framed)
  have uz: "u = z\<lparr>runtime_app_key := Quad 0 0 0 0, copro_reg := Quad 0 0 0 0, key_valid := False\<rparr>" using z(2) by (simp add: u(1))
  have "num_layers (unlocked c) = num_layers c" "layer_access (unlocked c) = layer_access c" "hardware_root (unlocked c) = hardware_root c"
    by (simp_all add: unlocked_def clearSecurityLockdown_def add_log_def)
  then have "accessible u 0" "\<not> layer_is_encrypted u 0" "num_words u = 1024" "hardware_root u = hardware_root t"
    using z(1) c unfolding uz frame_def by (simp_all add: accessible_def isValidLayer_def)
  then show thesis
    by (intro that[OF u(1) st]) (use u(2-6) st g host in \<open>simp_all add: io h ib\<close>)
qed

section \<open>The image after the run\<close>

definition ran_image :: "(u32 \<Rightarrow> u32) \<Rightarrow> u32 list \<Rightarrow> u32 list \<Rightarrow> nat \<Rightarrow> u32" where
  "ran_image w tw dw a = (if text_end tw \<le> a \<and> a < data_end tw dw then w (of_nat a) else plain_image tw dw a)"

lemma ran_image_words:
  "image_text (ran_image w tw dw) tw = tw"
  "image_data (ran_image w tw dw) tw dw = map (\<lambda>j. w (of_nat (text_end tw + j))) [0..<length dw]"
proof -
  note b = text_end_bounds(1)[of tw] text_end_bounds(3)[of tw dw]
  show "image_text (ran_image w tw dw) tw = tw"
    using b by (auto simp: image_text_def ran_image_def plain_image_def intro!: nth_equalityI)
  show "image_data (ran_image w tw dw) tw dw = map (\<lambda>j. w (of_nat (text_end tw + j))) [0..<length dw]"
    using b by (auto simp: image_data_def ran_image_def)
qed

lemma decoded_same_header:
  assumes "decoded s 0 = Some hdr" "decoded t 0 = Some hdr'"
    and "\<And>a. a < 20 \<or> 24 \<le> a \<and> a < 32 \<Longrightarrow> mem_read t 0 a = mem_read s 0 a"
  shows "hdr' = hdr\<lparr>h_img_tag := h_img_tag hdr'\<rparr>"
proof -
  have "hdr = header_of (mem_read s 0)" "hdr' = header_of (mem_read t 0)"
    using assms(1,2) by (auto simp: decoded_def Let_def split: if_splits)
  then show ?thesis using assms(3) by (simp add: header_of_def quad_gen_def)
qed

lemma tool_image_ran:
  assumes i: "tool_image t policy (plain_image tw dw) tw dw epoch key ps hdr sk" and de: "data_end tw dw \<le> 512"
    and u: "fst (secure_validate_image u 0) = 0" "fst (snd (extract_key_from_large_block u 0)) = key"
      "accessible u 0" "\<not> layer_is_encrypted u 0" "num_words u = 1024"
    and kept: "\<forall>a<1024. a < 20 \<or> 24 \<le> a \<and> a < text_end tw \<or> data_end tw dw \<le> a \<longrightarrow> memory u 0 a = memory t 0 a"
    and data: "\<forall>a. in_data (source_machine tw dw key) a \<longrightarrow> image_words u key a = w a"
    and v: "plain v" "\<And>a. a < 1024 \<Longrightarrow> memory v 0 a = memory u 0 a" "hardware_root v = hardware_root u"
  obtains hdr' sk' where "tool_image v policy (ran_image w tw dw) tw dw epoch key ps hdr' sk'"
proof -
  have de': "data_end tw dw \<le> 1024" using de by simp
  note ib = image_words_bounds[OF de'] and tb = text_end_bounds(1,2)[of tw] text_end_bounds(3,4,5)[of tw dw]
  have t: "plain t" "image_sealed t 0 hdr ps sk" using i by (simp_all add: tool_image_def)
  have n: "0 < num_layers u" using u(3) by (simp add: accessible_def isValidLayer_def)
  obtain hdr' ps' sk' where iu: "image_sealed u 0 hdr' ps' sk'" using u(1) validate_iff[OF n] by blast
  have k: "aes_decrypt_block (h_wrapped hdr') sk' = key" using extract_sealed[OF iu n] u(2) by auto
  have "mem_read v 0 = mem_read u 0" "rawRead v 0 = rawRead u 0" "num_words v = num_words u"
    using u(3-5) v(1,2) by (auto simp: plain_def mem_read_def rawRead_def accessible_def fun_eq_iff)
  then have iv: "image_sealed v 0 hdr' ps' sk'" using image_sealed_layer[of v 0 u] v(3) iu by blast
  have same: "memory v 0 a = memory t 0 a" if "a < 1024" "a < 20 \<or> 24 \<le> a \<and> a < text_end tw \<or> data_end tw dw \<le> a" for a
    using kept that v(2)[OF that(1)] by metis
  have hd: "hdr' = hdr\<lparr>h_img_tag := h_img_tag hdr'\<rparr>"
  proof (rule decoded_same_header)
    show "decoded t 0 = Some hdr" "decoded v 0 = Some hdr'" using t(2) iv by (simp_all add: image_sealed_def key_sealed_def)
    show "mem_read v 0 a = mem_read t 0 a" if "a < 20 \<or> 24 \<le> a \<and> a < 32" for a
      using same[of a] that tb(1) plain_reads(1)[OF v(1), of a] plain_reads(1)[OF t(1), of a] by auto
  qed
  have "secure_generate_positions (h_nonce hdr') (h_text_start hdr') (h_text_end hdr') 1024 = Some ps'"
    "secure_generate_positions (h_nonce hdr) (h_text_start hdr) (h_text_end hdr) 1024 = Some ps"
    using iv t(2) plain_words32[OF v(1)] plain_words32[OF t(1)] by (simp_all add: image_sealed_def key_sealed_def)
  moreover have "h_nonce hdr' = h_nonce hdr" "h_text_start hdr' = h_text_start hdr" "h_text_end hdr' = h_text_end hdr"
    by (subst hd, simp)+
  ultimately have ps: "ps' = ps" by simp
  have hdr: "hdr' = (tool_header policy tw dw epoch key)\<lparr>h_measurements := h_measurements hdr', h_wrapped := h_wrapped hdr',
         h_key_tag := h_key_tag hdr', h_img_tag := h_img_tag hdr'\<rparr>"
  proof -
    have chain: "x = H\<lparr>h_measurements := a, h_wrapped := b, h_key_tag := c, h_img_tag := d\<rparr> \<Longrightarrow> y = x\<lparr>h_img_tag := e\<rparr> \<Longrightarrow>
      y = H\<lparr>h_measurements := h_measurements y, h_wrapped := h_wrapped y, h_key_tag := h_key_tag y, h_img_tag := h_img_tag y\<rparr>"
      for x y H :: SecureHeaderState and a b c d e by simp
    have "hdr = (tool_header policy tw dw epoch key)\<lparr>h_measurements := h_measurements hdr, h_wrapped := h_wrapped hdr,
         h_key_tag := h_key_tag hdr, h_img_tag := h_img_tag hdr\<rparr>" using i by (simp add: tool_image_def)
    then show ?thesis by (rule chain[OF _ hd])
  qed
  obtain m where m: "encrypted_image (plain_image tw dw) tw dw epoch key m"
    "\<And>a. a < 1024 \<Longrightarrow> 32 \<le> a \<Longrightarrow> a \<notin> (\<lambda>p. unat p div 32) ` set ps \<Longrightarrow> memory t 0 a = m a"
    using i by (auto simp: tool_image_def)
  define m' where "m' a = (if text_end tw \<le> a \<and> a < data_end tw dw then memory v 0 a else m a)" for a
  have "encrypted_image (ran_image w tw dw) tw dw epoch key m'"
    unfolding encrypted_image_def
  proof (intro conjI allI impI)
    fix b assume b: "8 \<le> b \<and> b < text_end tw div 4"
    have te: "text_end tw \<le> 1024" using de' tb(5) by linarith
    have lt: "\<not> text_end tw \<le> place_of tw epoch b * 4 + j" "\<not> text_end tw \<le> b * 4 + j" if "j < 4" for j
      using place_of_range(1)[OF te, of b epoch] b that by linarith+
    have "quad_gen (\<lambda>j. m' (place_of tw epoch b * 4 + j)) = quad_gen (\<lambda>j. m (place_of tw epoch b * 4 + j))"
      by (rule quad_gen_cong) (simp add: m'_def lt)
    moreover have "quad_gen (\<lambda>j. ran_image w tw dw (b * 4 + j)) = quad_gen (\<lambda>j. plain_image tw dw (b * 4 + j))"
      by (rule quad_gen_cong) (simp add: ran_image_def lt)
    ultimately show "quad_gen (\<lambda>i. m' (place_of tw epoch b * 4 + i)) = aes_encrypt_block (quad_gen (\<lambda>i. ran_image w tw dw (b * 4 + i))) key"
      using m(1) b by (simp add: encrypted_image_def)
  next
    fix b assume b: "text_end tw div 4 \<le> b \<and> b < data_end tw dw div 4"
    have in_region: "text_end tw \<le> b * 4 + j" "b * 4 + j < data_end tw dw" "b * 4 + j < 1024" if "j < 4" for j
      using b that tb(2,4) de' by (auto elim!: dvdE)
    let ?q = "quad_gen (\<lambda>j. memory v 0 (b * 4 + j))"
    have "aes_decrypt_block ?q key = quad_gen (\<lambda>j. ran_image w tw dw (b * 4 + j))"
    proof (rule quad_eqI)
      fix j :: nat assume j: "j < 4"
      let ?a = "of_nat (b * 4 + j) :: u32"
      note r = in_region[OF j]
      have ua: "unat ?a = b * 4 + j" using r(3) by (subst unat_of_nat) simp
      have "in_data (source_machine tw dw key) ?a"
        using r ib(3,4) ua by (simp add: in_data_def source_machine_def word_le_nat_alt word_less_nat_alt)
      then have "image_words u key ?a = ran_image w tw dw (b * 4 + j)" using data r by (simp add: ran_image_def)
      moreover have "image_words u key ?a = quad_nth (aes_decrypt_block ?q key) j"
      proof -
        have d: "unat ?a div 4 = b" "unat (?a mod 4) = j" using j by (simp_all add: ua unat_mod del: of_nat_add)
        have "unat (?a div 4 * 4 + 4) = b * 4 + 4" using r j by (simp add: unat_word_ariths unat_div ua del: of_nat_add)
        then have "\<not> ?a div 4 * 4 + 4 > words32 u"
          using in_region(3)[of 3] u(5) by (simp add: words32_def getNumWords_def word_less_nat_alt)
        moreover have "quad_gen (\<lambda>i. rawRead u 0 (b * 4 + i)) = ?q"
        proof (rule quad_gen_cong)
          fix i :: nat assume "i < 4"
          note r' = in_region(3)[OF this]
          show "rawRead u 0 (b * 4 + i) = memory v 0 (b * 4 + i)"
            using u(3,5) r' v(2)[OF r'] by (simp add: rawRead_def accessible_def)
        qed
        ultimately show ?thesis by (simp add: image_words_def d del: of_nat_add)
      qed
      ultimately show "quad_nth (aes_decrypt_block ?q key) j = quad_nth (quad_gen (\<lambda>j. ran_image w tw dw (b * 4 + j))) j"
        using j by simp
    qed
    then have "?q = aes_encrypt_block (quad_gen (\<lambda>j. ran_image w tw dw (b * 4 + j))) key" by (metis aes.enc_dec)
    moreover have "quad_gen (\<lambda>j. m' (b * 4 + j)) = ?q" by (rule quad_gen_cong) (simp add: m'_def in_region)
    ultimately show "quad_gen (\<lambda>i. m' (b * 4 + i)) = aes_encrypt_block (quad_gen (\<lambda>i. ran_image w tw dw (b * 4 + i))) key" by simp
  qed
  moreover have "memory v 0 a = m' a" if "a < 1024" "32 \<le> a" "a \<notin> (\<lambda>p. unat p div 32) ` set ps" for a
    using same[of a] m(2)[of a] that by (auto simp: m'_def)
  ultimately show thesis
    by (intro that[of hdr' sk']) (use v(1) iv ps k hdr in \<open>auto simp: tool_image_def\<close>)
qed

end
