(* ===== verification/Tool_Properties.thy ===== *)
theory Tool_Properties
  imports Tool_Chain
begin

text \<open>
  What the assembler, the two image tools and the processor do together: the hex files they exchange
  are read as written, an image gives back the text and data it was made from, the decryptor writes
  nothing for an image that does not validate, the processor computes from the image what the
  assembled words mean, and the decryptor reads the results from the image it leaves; with an example
  program that goes through all of them.
\<close>

section \<open>A small program\<close>

text \<open>Load a word of data, add 5 to it and store it back.\<close>

definition tool_source :: string where
  "tool_source = ''.data'' @ CHR 0x0A # ''x: .word 7'' @ CHR 0x0A # ''.text'' @ CHR 0x0A # ''la $t1, x'' @ CHR 0x0A
     # ''lw $t0, 0($t1)'' @ CHR 0x0A # ''addi $t0, $t0, 5'' @ CHR 0x0A # ''sw $t0, 0($t1)''"

definition tool_text :: "u32 list" where
  "tool_text = [0x3C091001, 0x35290000, 0x8D280000, 0x21080005, 0xAD280000]"

definition tool_key :: block where
  "tool_key = Quad 2482002313 3202893187 1497737025 1058704899"

definition tool_positions :: "u32 list" where
  "tool_positions = [29933, 32735, 19360, 17912, 32249, 31669, 20184, 21686, 31419, 22660, 26194, 29057, 23237, 21524, 25463, 25248, 24833,
   32122, 27430, 24726, 18087, 25501, 19216, 21985, 25394, 27520, 26430, 19408, 24175, 27562, 22267, 28134, 22872, 32540,
   27532, 31012, 27128, 32242, 26778, 17486, 17148, 30277, 22007, 19669, 31068, 24100, 29894, 28000, 32657, 19511, 19660,
   19135, 29657, 16681, 18609, 24315, 21877, 29157, 25613, 25719, 22192, 22786, 17499, 26903, 22645, 28053, 24460, 21819,
   26943, 22476, 20857, 31716, 22204, 19607, 21952, 28401, 22013, 18806, 29307, 28114, 18176, 28245, 29565, 31825, 19003,
   31275, 26236, 28095, 28050, 23334, 26052, 20313, 21626, 28285, 20676, 30809, 26618, 26619, 16699, 26941, 24404, 30250,
   29434, 24341, 22803, 29193, 19202, 28355, 29376, 30870, 18283, 18648, 17980, 22345, 21479, 26827, 30450, 32600, 30174,
   23645, 28892, 22298, 19880, 21896, 25854, 29025, 19184, 18870]"

lemma tool_source_assembled: "asm_main ''p.asm'' (Some tool_source) = Inr (hex_file tool_text, hex_file [7])"
  by code_simp

lemma tool_key_generated: "generate_secure_app_key True 1 None = Inr tool_key"
  by code_simp

lemma tool_layout: "text_end tool_text = 40" "data_end tool_text [7] = 44"
  by (simp_all add: text_end_def data_end_def tool_text_def align_words_to_crypto_block_def)

lemma tool_nonce: "h_nonce (tool_header 7 tool_text [7] 1 tool_key) = Quad 38251342 1454156233 3516040938 2778724984"
  by code_simp

lemma tool_first: "first_positions 512 512 32 40 0 128
   (let nonce = Quad 38251342 1454156233 3516040938 2778724984;
        seed = quad_nth nonce 0 XOR rotl32 (quad_nth nonce 1) 3 XOR rotl32 (quad_nth nonce 2) 9
          XOR rotl32 (quad_nth nonce 3) 15
    in (seed XOR 32 * 0x9E3779B9) XOR 40 * 0x85EBCA6B) = Some tool_positions"
  by code_simp

lemma tool_generate:
  "secure_generate_positions (h_nonce (tool_header 7 tool_text [7] 1 tool_key)) 32 (of_nat (text_end tool_text)) 1024 = Some tool_positions"
proof -
  have "distinct tool_positions" unfolding tool_positions_def by simp
  then show ?thesis using first_positions[of 512 512 32 40 0 128 _ tool_positions "[]"] tool_first
    by (simp add: secure_generate_positions_def Let_def tool_nonce tool_layout)
qed

definition tool_memory :: sec where
  "tool_memory = sec_boot (StackedMemory3D 2 1024)"

lemma tool_memory_plain: "plain tool_memory" "secure_policy tool_memory = 7"
proof -
  have "smem_wf tool_memory" by (simp add: tool_memory_def wf_StackedMemory3D)
  moreover have "\<not> layer_is_encrypted (StackedMemory3D 2 1024) 0" "\<not> security_lockdown (StackedMemory3D 2 1024)"
    "num_words (StackedMemory3D 2 1024) = 1024" "num_layers (StackedMemory3D 2 1024) = 2" "layer_access (StackedMemory3D 2 1024) 0"
    by (simp_all add: StackedMemory3D_def initLayerKeys_def Let_def)
  ultimately show "plain tool_memory"
    by (simp add: plain_def accessible_def isValidLayer_def tool_memory_def sec_boot_def smem.defs)
  show "secure_policy tool_memory = 7" by (simp add: tool_memory_def sec_boot_config)
qed

lemma tool_memory_fields:
  "smem_wf tool_memory" "accessible tool_memory 0" "\<not> layer_is_encrypted tool_memory 0" "num_words tool_memory = 1024"
  using tool_memory_plain(1)[unfolded plain_def] by blast+

definition tool_cpu :: cpu where
  "tool_cpu = cpu_boot tool_memory"

lemma tool_cpu_fields:
  "smem_wf tool_cpu" "accessible tool_cpu 0" "\<not> layer_is_encrypted tool_cpu 0" "num_words tool_cpu = 1024"
  "hardware_root tool_cpu = hardware_root tool_memory" "reg_file tool_cpu r = 0"
  using tool_memory_plain(1) by (simp_all add: plain_def tool_cpu_def cpu_boot_def sec.defs smem_wf_def accessible_def isValidLayer_def)

definition tool_files :: files where
  "tool_files = [''p.text'' \<mapsto> hex_file tool_text, ''p.data'' \<mapsto> hex_file [7]]"

definition tool_args :: "string list" where
  "tool_args = [''p.text'', ''p.data'', ''p.img'', ''--deterministic-test-key=1'']"

definition tool_options :: EncOptions where
  "tool_options = \<lparr>text_file = ''p.text'', data_file = ''p.data'', output_file = ''p.img'', opt_epoch = 1, epoch_provided = False,
     opt_debug = False, deterministic_key = True, deterministic_seed = 1\<rparr>"

lemma tool_args_parsed: "parse_args tool_args = Inr tool_options"
  by code_simp

lemma tool_epoch_1: "tool_epoch tool_options tw dw key = 1"
  by (simp add: tool_epoch_def choose_epoch_def tool_options_def)

lemma tool_sealable: "sealable tool_memory tool_options tool_files None tool_text [7] tool_key"
  by (simp add: sealable_def tool_epoch_1 tool_memory_plain tool_generate)
    (simp add: tool_files_def tool_options_def tool_key_generated)

lemma tool_sizes: "tool_text \<noteq> []" "data_end tool_text [7] \<le> 1024" "data_end tool_text [7] \<le> 512" "secure_policy tool_memory AND 4 \<noteq> 0"
  by (simp_all add: tool_layout tool_memory_plain) (simp add: tool_text_def)

text \<open>The decryptor with a reference text, and as it is run on the image behind the program.\<close>

definition tool_decrypt_args :: "string list" where
  "tool_decrypt_args = [''p.img'', ''p.text'', ''q.text'', ''--data-output'', ''q.data'']"

definition tool_decrypt_options :: DecOptions where
  "tool_decrypt_options =
     \<lparr>input_image = ''p.img'', output_text = ''q.text'', compare_text = ''p.text'', output_data = ''q.data'', opt_verbose = False\<rparr>"

lemma tool_decrypt_parsed: "parse_options tool_decrypt_args = Inr tool_decrypt_options"
  by code_simp

definition tool_result_args :: "string list" where
  "tool_result_args = [''r.img'', ''r.text'', ''--data-output'', ''r.data'']"

definition tool_result_options :: DecOptions where
  "tool_result_options =
     \<lparr>input_image = ''r.img'', output_text = ''r.text'', compare_text = [], output_data = ''r.data'', opt_verbose = False\<rparr>"

lemma tool_result_parsed: "parse_options tool_result_args = Inr tool_result_options"
  by code_simp

lemma tool_decode:
  "decode_instr 0x3C091001 = Lui 9 0x1001" "decode_instr 0x35290000 = Ori 9 9 0" "decode_instr 0x8D280000 = Lw 8 9 0"
  "decode_instr 0x21080005 = Addi 8 8 5" "decode_instr 0xAD280000 = Sw 8 9 0" "decode_instr 0 = Sll 0 0 0"
  by (simp_all add: decode_instr_def decode_special_def mips_opcode_def mips_funct_def mips_rs_def mips_rt_def mips_rd_def
    mips_simm_def mips_shamt_def mips_imm_def Let_def)

lemma tool_run:
  defines "M \<equiv> source_machine tool_text [7] tool_key"
  defines "f \<equiv> isa_run M 8 (source_start tool_cpu tool_text [7])"
  shows "at_end M f" "\<not> locked f" "regs f 8 = 12" "words f 40 = 12"
proof -
  define st where "st = source_start tool_cpu tool_text [7]"
  have M: "text_first M = 8" "text_last M = 10" "data_first M = 40" "data_last M = 44"
    by (simp_all add: M_def source_machine_def tool_layout)
  have "text_block M 8 = quad_gen (\<lambda>i. plain_image tool_text [7] (32 + i))"
    "text_block M 9 = quad_gen (\<lambda>i. plain_image tool_text [7] (36 + i))"
    by (simp_all add: M_def source_machine_def tool_layout)
  moreover have "quad_gen (\<lambda>i. plain_image tool_text [7] (32 + i)) = Quad 0x3C091001 0x35290000 0x8D280000 0x21080005"
    "quad_gen (\<lambda>i. plain_image tool_text [7] (36 + i)) = Quad 0xAD280000 0 0 0"
    by (simp_all add: quad_gen_def plain_image_def tool_layout) (simp_all add: tool_text_def)
  ultimately have w: "quad_nth (text_block M 8) 0 = 0x3C091001" "quad_nth (text_block M 8) 1 = 0x35290000"
    "quad_nth (text_block M 8) 2 = 0x8D280000" "quad_nth (text_block M 8) 3 = 0x21080005"
    "quad_nth (text_block M 9) 0 = 0xAD280000" "quad_nth (text_block M 9) 1 = 0" "quad_nth (text_block M 9) 2 = 0"
    "quad_nth (text_block M 9) 3 = 0" by simp_all
  have l: "8 < text_last M" "9 < text_last M" by (simp_all add: M)
  note step = isa_step_at[OF w(1) l(1)] isa_step_at[OF w(2) l(1)] isa_step_at[OF w(3) l(1)] isa_step_at[OF w(4) l(1)]
    isa_step_at[OF w(5) l(2)] isa_step_at[OF w(6) l(2)] isa_step_at[OF w(7) l(2)] isa_step_at[OF w(8) l(2)]
  note step = step[unfolded tool_decode]
  note ev = effect_def next_pc_def advance_def set_reg_def get_reg_def load_def store_def data_address_def in_data_def M
  have st: "pc st = (8, 0)" "\<not> locked st" "words st 40 = 7" "regs st 0 = 0"
    by (simp_all add: st_def source_start_def plain_image_def tool_layout tool_cpu_fields) (simp add: tool_text_def)
  let ?s1 = "st\<lparr>regs := (regs st)(9 := 0x10010000), pc := (8, 1)\<rparr>"
  have "isa_step M st = ?s1" by (subst step(1)) (simp_all add: st ev)
  moreover have "isa_step M ?s1 = ?s1\<lparr>pc := (8, 2)\<rparr>" (is "_ = ?s2")
    by (subst step(2)) (simp_all add: ev)
  moreover have "isa_step M ?s2 = ?s2\<lparr>pc := (8, 3), regs := (regs ?s2)(8 := 7)\<rparr>" (is "_ = ?s3")
    by (subst step(3)) (simp_all add: ev st)
  moreover have "isa_step M ?s3 = ?s3\<lparr>pc := (9, 0), regs := (regs ?s3)(8 := 12)\<rparr>" (is "_ = ?s4")
    by (subst step(4)) (simp_all add: ev)
  moreover have "isa_step M ?s4 = ?s4\<lparr>pc := (9, 1), words := (words ?s4)(40 := 12)\<rparr>" (is "_ = ?s5")
    by (subst step(5)) (simp_all add: ev)
  moreover have "isa_step M ?s5 = ?s5\<lparr>pc := (9, 2)\<rparr>" (is "_ = ?s6") by (subst step(6)) (simp_all add: ev)
  moreover have "isa_step M ?s6 = ?s6\<lparr>pc := (9, 3)\<rparr>" (is "_ = ?s7") by (subst step(7)) (simp_all add: ev)
  moreover have "isa_step M ?s7 = ?s7\<lparr>pc := (10, 0)\<rparr>" (is "_ = ?s8") by (subst step(8)) (simp_all add: ev)
  ultimately have "f = ?s8" unfolding f_def st_def[symmetric] by (simp add: isa_run_def numeral_eq_Suc)
  then show "at_end M f" "\<not> locked f" "regs f 8 = 12" "words f 40 = 12" by (simp_all add: at_end_def M st)
qed

text \<open>The encryptor's files for the example, and what the decryptor makes of them.\<close>

lemma tool_decrypted:
  obtains files where "snd (snd (decryptor_main tool_memory files (\<lambda>_. True) tool_decrypt_args)) \<noteq> files"
proof -
  obtain t u :: sec and ps hdr sk where t: "encryptor_main tool_memory tool_files (\<lambda>_. True) None tool_args =
      Inr (tool_files(output_file tool_options \<mapsto> hex_file (map (memory t 0) [0..<1024])), u)"
    "tool_image t (secure_policy tool_memory) (plain_image tool_text [7]) tool_text [7] (tool_epoch tool_options tool_text [7] tool_key)
      tool_key ps hdr sk"
    "hardware_root t = hardware_root tool_memory"
    by (rule sealable_result[where writable = "\<lambda>_. True", OF tool_memory_plain(1) tool_args_parsed TrueI tool_sealable tool_sizes(1,2)])
  let ?ws = "map (memory t 0) [0..<1024]"
  let ?files = "[''p.img'' \<mapsto> hex_file ?ws, ''p.text'' \<mapsto> hex_file tool_text]"
  have d: "decryptor_main tool_memory ?files (\<lambda>_. True) tool_decrypt_args =
      (0, [], if output_data tool_decrypt_options = [] then ?files(output_text tool_decrypt_options \<mapsto> hex_file tool_text)
              else ?files(output_text tool_decrypt_options \<mapsto> hex_file tool_text, output_data tool_decrypt_options \<mapsto> hex_file [7]))"
    by (rule decryptor_result[where files = ?files and writable = "\<lambda>_. True" and ws = ?ws, OF tool_memory_fields tool_decrypt_parsed _ _ t(2) refl t(3) tool_sizes(1,2),
        unfolded plain_image_words])
      (simp_all add: tool_decrypt_options_def tool_epoch_1 tool_layout)
  have "snd (snd (decryptor_main tool_memory ?files (\<lambda>_. True) tool_decrypt_args)) ''q.text'' \<noteq> ?files ''q.text''"
    unfolding d by (simp add: tool_decrypt_options_def)
  then have "snd (snd (decryptor_main tool_memory ?files (\<lambda>_. True) tool_decrypt_args)) \<noteq> ?files" by metis
  then show thesis by (rule that)
qed

section \<open>Properties\<close>

text \<open>The words a hex file of the assembler stands for are unique.\<close>

lemma hex_file_inject: "hex_file ws = hex_file vs \<Longrightarrow> ws = vs"
  using read_hex_file[of "\<lambda>_. Some (hex_file ws)" "[]" ws] read_hex_file[of "\<lambda>_. Some (hex_file ws)" "[]" vs] by simp

lemma asm_main_sizes:
  assumes "asm_main path (Some source) = Inr (hex_file tw, hex_file dw)"
  shows "tw \<noteq> []" "data_end tw dw \<le> 1024"
proof -
  obtain s :: first_state and vs us where "second_pass (fp_statements s) (fp_symbols s) = Inr (vs, us)" "validate_output_size vs us = None"
    "hex_file vs = hex_file tw" "hex_file us = hex_file dw"
    using assms by (auto simp: asm_main_def split: option.splits)
  then have "validate_output_size tw dw = None" using hex_file_inject by metis
  then show "tw \<noteq> []" "data_end tw dw \<le> 1024"
    by (auto simp: validate_output_size_def data_end_def text_end_def Let_def split: if_splits)
qed

text \<open>
  C11: Hex files round trip. What the assembler or a tool writes for a list of words, the encryptor
  reads back as these words, and so does the decryptor if there is at least one word and no more than
  its limit.
\<close>

theorem hex_files_round_trip:
  assumes "files path = Some (hex_file ws)"
  shows "read_hex_words_strict files path label = Inr ws
    \<and> (ws \<noteq> [] \<and> int (length ws) \<le> uint limit \<longrightarrow> load_hex_words files path limit = Inr ws)"
  using assms by (simp add: read_hex_file load_hex_file)

theorem hex_files_round_trip_witness:
  "read_hex_words_strict [''f'' \<mapsto> hex_file [0xDEADBEEF, 7]] ''f'' ''text'' = Inr [0xDEADBEEF, 7]
   \<and> load_hex_words [''f'' \<mapsto> hex_file [0xDEADBEEF, 7]] ''f'' 1024 = Inr [0xDEADBEEF, 7]"
  using hex_files_round_trip[of "[''f'' \<mapsto> hex_file [0xDEADBEEF, 7]]" "''f''" "[0xDEADBEEF, 7]" "''text''" 1024] by simp

text \<open>
  C9: The tools round trip. From readable text and data files that fit the memory, with a key and
  with hiding places found, the encryptor writes an image; and on any memory with the same hardware
  root the decryptor accepts that image and writes back exactly the text words, and the data words
  when asked to. Data round trips if it ends below word 512, where the bits of the key are hidden.
\<close>

theorem tools_round_trip:
  fixes s :: "'a sec_scheme" and r :: "'b sec_scheme" and opt :: EncOptions and dopt :: DecOptions
  assumes "plain s" "parse_args args = Inr opt" "writable (output_file opt)" "sealable s opt files random tw dw key"
    and "tw \<noteq> []" "data_end tw dw \<le> 1024"
    and "smem_wf r" "accessible r 0" "\<not> layer_is_encrypted r 0" "num_words r = 1024" "hardware_root r = hardware_root s"
    and "parse_options dargs = Inr dopt" "input_image dopt = output_file opt" "writable (output_text dopt)"
    and "compare_text dopt = [] \<or> compare_text dopt = text_file opt \<and> text_file opt \<noteq> output_file opt"
    and "output_data dopt = [] \<or> writable (output_data dopt) \<and> data_end tw dw \<le> 512"
  shows "\<exists>files' u. encryptor_main s files writable random args = Inr (files', u)
    \<and> decryptor_main r files' writable dargs =
        (0, [], if output_data dopt = [] then files'(output_text dopt \<mapsto> hex_file tw)
                else files'(output_text dopt \<mapsto> hex_file tw, output_data dopt \<mapsto> hex_file dw))"
proof -
  obtain t u :: "'a sec_scheme" and ps hdr sk where e: "encryptor_main s files writable random args =
      Inr (files(output_file opt \<mapsto> hex_file (map (memory t 0) [0..<1024])), u)"
    "tool_image t (secure_policy s) (plain_image tw dw) tw dw (tool_epoch opt tw dw key) key ps hdr sk" "hardware_root t = hardware_root s"
    by (rule sealable_result[where writable = writable, OF assms(1-6)])
  let ?ws = "map (memory t 0) [0..<1024]"
  let ?files = "files(output_file opt \<mapsto> hex_file ?ws)"
  have ep: "tool_epoch opt tw dw key \<noteq> 0" by (simp add: tool_epoch_def choose_epoch_positive)
  have tf: "files (text_file opt) = Some (hex_file tw)" using assms(4) by (simp add: sealable_def)
  have "decryptor_main r ?files writable dargs =
        (0, [], if output_data dopt = [] then ?files(output_text dopt \<mapsto> hex_file tw)
                else ?files(output_text dopt \<mapsto> hex_file tw, output_data dopt \<mapsto> hex_file dw))"
    by (rule decryptor_result[where files = ?files and writable = writable and ws = ?ws, OF assms(7-10,12) _ _ e(2) refl _ assms(5,6) ep assms(14),
          unfolded plain_image_words])
      (use assms(11,13,15,16) tf e(3) in auto)
  then show ?thesis using e(1) by blast
qed

theorem tools_round_trip_witness:
  "\<exists>files u. encryptor_main tool_memory tool_files (\<lambda>_. True) None tool_args = Inr (files, u)
    \<and> decryptor_main tool_memory files (\<lambda>_. True) tool_decrypt_args =
        (0, [], files(''q.text'' \<mapsto> hex_file tool_text, ''q.data'' \<mapsto> hex_file [7]))"
proof -
  have o: "input_image tool_decrypt_options = output_file tool_options"
    "compare_text tool_decrypt_options = text_file tool_options" "text_file tool_options \<noteq> output_file tool_options"
    "output_data tool_decrypt_options = ''q.data''" "output_text tool_decrypt_options = ''q.text''"
    by (simp_all add: tool_decrypt_options_def tool_options_def)
  have "compare_text tool_decrypt_options = [] \<or>
      compare_text tool_decrypt_options = text_file tool_options \<and> text_file tool_options \<noteq> output_file tool_options"
    "output_data tool_decrypt_options = [] \<or> True \<and> data_end tool_text [7] \<le> 512" using o tool_sizes(3) by blast+
  from tools_round_trip[where writable = "\<lambda>_. True", OF tool_memory_plain(1) tool_args_parsed TrueI tool_sealable tool_sizes(1,2)
      tool_memory_fields refl tool_decrypt_parsed o(1) TrueI this]
  show ?thesis unfolding o(4,5) by simp
qed

text \<open>
  C10: The decryptor leaves every file alone unless the image validates. If it changes any file, its
  image file was read as words, these words validate as a sealed image once loaded, and only the two
  output files the options name have changed.
\<close>

theorem decryptor_writes_only_valid:
  fixes r :: "'a sec_scheme"
  assumes "snd (snd (decryptor_main r files writable args)) \<noteq> files"
  shows "\<exists>opt img. parse_options args = Inr opt \<and> load_hex_words files (input_image opt) 1024 = Inr img
    \<and> fst (secure_validate_image (reset_and_load_image r img) 0) = 0
    \<and> (\<forall>path. path \<noteq> output_text opt \<and> path \<noteq> output_data opt \<longrightarrow> snd (snd (decryptor_main r files writable args)) path = files path)"
proof -
  obtain opt where opt: "parse_options args = Inr opt"
    using assms by (cases "parse_options args") (auto simp: decryptor_main_def split: option.splits)
  obtain img where img: "load_hex_words files (input_image opt) 1024 = Inr img"
    using assms by (cases "load_hex_words files (input_image opt) 1024") (auto simp: decryptor_main_def opt or_exit_def)
  obtain rc s2 where v: "secure_validate_image (reset_and_load_image r img) 0 = (rc, s2)" by fastforce
  have ok: "rc = 0" "\<not> isSecurityLocked s2"
    using assms by (auto simp: decryptor_main_def opt img v or_exit_def split: if_splits)
  obtain krc key s3 where k: "extract_key_from_large_block s2 0 = (krc, key, s3)" by (metis prod_cases3)
  have kok: "krc = 0" "\<not> isSecurityLocked s3"
    using assms by (auto simp: decryptor_main_def opt img v ok k or_exit_def split: if_splits)
  obtain ts tn te ep ds dn de df where m: "read_and_validate_metadata s3 = Inr ((ts, tn, te, ep), (ds, dn, de, df))"
    using assms by (cases "read_and_validate_metadata s3") (auto simp: decryptor_main_def opt img v ok k kok or_exit_def)
  obtain tw where t: "decrypt_text_region s3 key ts tn te = Inr tw"
    using assms by (cases "decrypt_text_region s3 key ts tn te") (auto simp: decryptor_main_def opt img v ok k kok m or_exit_def)
  have w: "writable (output_text opt)"
    using assms by (auto simp: decryptor_main_def opt img v ok k kok m t or_exit_def write_hex_words_def check_def split: if_splits)
  have "snd (snd (decryptor_main r files writable args)) path = files path"
    if "path \<noteq> output_text opt" "path \<noteq> output_data opt" for path
    using that
    by (auto simp: decryptor_main_def opt img v ok k kok m t w or_exit_def write_hex_words_def check_def split: sum.splits)
  then show ?thesis using opt img v ok by auto
qed

theorem decryptor_writes_only_valid_witness:
  "\<exists>files img. load_hex_words files ''p.img'' 1024 = Inr img
    \<and> fst (secure_validate_image (reset_and_load_image tool_memory img) 0) = 0"
proof -
  obtain files where "snd (snd (decryptor_main tool_memory files (\<lambda>_. True) tool_decrypt_args)) \<noteq> files" by (rule tool_decrypted)
  from decryptor_writes_only_valid[OF this] show ?thesis by (auto simp: tool_decrypt_parsed tool_decrypt_options_def)
qed

text \<open>
  C7: From the source to the registers. An assembled source whose words end below word 512 is sealed
  by the encryptor. The words of the image file, given to the top function of the processor, leave
  the registers and in the data region the words that the sequential machine computes on the
  assembled words themselves, and a memory that validates again and yields the same key, if the
  program ends there without an access violation within 498 instructions.
\<close>

theorem source_to_processor:
  fixes s :: "'a sec_scheme" and c :: "'b cpu_scheme" and opt :: EncOptions and m :: nat
  assumes "asm_main path (Some source) = Inr (hex_file tw, hex_file dw)" "data_end tw dw \<le> 512"
    and "plain s" "parse_args args = Inr opt" "writable (output_file opt)" "sealable s opt files random tw dw key"
    and "secure_policy s AND 4 \<noteq> 0"
    and "smem_wf c" "accessible c 0" "\<not> layer_is_encrypted c 0" "num_words c = 1024" "hardware_root c = hardware_root s"
  defines "M \<equiv> source_machine tw dw key"
  defines "f \<equiv> isa_run M m (source_start c tw dw)"
  assumes "at_end M f" "\<not> locked f" "m \<le> 498"
  shows "\<exists>img u. encryptor_main s files writable random args = Inr (files(output_file opt \<mapsto> hex_file img), u)
    \<and> length img = 1024
    \<and> (let (out, status, t) = Crypto3DStackCPU_top c (Some (\<lambda>i. img ! i)) 0
       in status AND 3 = 0 \<and> reg_file t = regs f \<and> (\<forall>a. in_data M a \<longrightarrow> image_words t key a = words f a)
        \<and> fst (secure_validate_image t 0) = 0 \<and> fst (snd (extract_key_from_large_block t 0)) = key)"
proof -
  note size = asm_main_sizes[OF assms(1)]
  obtain t u :: "'a sec_scheme" and ps hdr sk where e: "encryptor_main s files writable random args =
      Inr (files(output_file opt \<mapsto> hex_file (map (memory t 0) [0..<1024])), u)"
    "tool_image t (secure_policy s) (plain_image tw dw) tw dw (tool_epoch opt tw dw key) key ps hdr sk" "hardware_root t = hardware_root s"
    by (rule sealable_result[where writable = writable, OF assms(3-6) size])
  let ?img = "map (memory t 0) [0..<1024]"
  have root: "hardware_root c = hardware_root t" using assms(12) e(3) by simp
  have host: "\<forall>a<1024. ?img ! a = memory t 0 a" by simp
  obtain out status v where v: "Crypto3DStackCPU_top c (Some (\<lambda>i. ?img ! i)) 0 = (Some out, status, v)"
    "status AND 3 = 0 \<and> reg_file v = regs f \<and> (\<forall>a. in_data M a \<longrightarrow> image_words v key a = words f a)
      \<and> fst (secure_validate_image v 0) = 0 \<and> fst (snd (extract_key_from_large_block v 0)) = key"
    by (rule tool_runs[OF e(2) assms(2,7-11) root host, of m, folded M_def, OF assms(15-17)[unfolded f_def], folded f_def]) blast
  show ?thesis
    by (rule exI[of _ ?img], rule exI[of _ u]) (unfold v(1) Let_def prod.case, use e(1) v(2) in simp)
qed

theorem source_to_processor_witness:
  "\<exists>img u. encryptor_main tool_memory tool_files (\<lambda>_. True) None tool_args = Inr (tool_files(''p.img'' \<mapsto> hex_file img), u)
    \<and> reg_file (snd (snd (Crypto3DStackCPU_top tool_cpu (Some (\<lambda>i. img ! i)) 0))) 8 = 12"
proof -
  obtain img u where "encryptor_main tool_memory tool_files (\<lambda>_. True) None tool_args =
      Inr (tool_files(output_file tool_options \<mapsto> hex_file img), u)"
    "reg_file (snd (snd (Crypto3DStackCPU_top tool_cpu (Some (\<lambda>i. img ! i)) 0))) =
      regs (isa_run (source_machine tool_text [7] tool_key) 8 (source_start tool_cpu tool_text [7]))"
    using source_to_processor[where writable = "\<lambda>_. True" and m = 8, OF tool_source_assembled tool_sizes(3) tool_memory_plain(1)
      tool_args_parsed TrueI tool_sealable tool_sizes(4) tool_cpu_fields(1-5) tool_run(1,2)]
    by (auto simp: case_prod_unfold Let_def)
  then show ?thesis using tool_run(3) by (auto simp: tool_options_def)
qed

text \<open>
  C8: From the words to the results. A program and its data, sealed by the encryptor, run by the
  processor and decrypted from the words the processor returns, give back the text as it was and as
  data the words that the sequential machine leaves in their place. As before the data ends below
  word 512, the program within 498 instructions and without an access violation.
\<close>

theorem run_then_decrypt:
  fixes s :: "'a sec_scheme" and c :: "'b cpu_scheme" and r :: "'c sec_scheme" and opt :: EncOptions and m :: nat
  assumes "plain s" "parse_args args = Inr opt" "writable (output_file opt)" "sealable s opt files random tw dw key"
    and "tw \<noteq> []" "data_end tw dw \<le> 512" "secure_policy s AND 4 \<noteq> 0"
    and "smem_wf c" "accessible c 0" "\<not> layer_is_encrypted c 0" "num_words c = 1024" "hardware_root c = hardware_root s"
  defines "M \<equiv> source_machine tw dw key"
  defines "f \<equiv> isa_run M m (source_start c tw dw)"
  assumes "at_end M f" "\<not> locked f" "m \<le> 498"
    and "smem_wf r" "accessible r 0" "\<not> layer_is_encrypted r 0" "num_words r = 1024" "hardware_root r = hardware_root s"
    and "parse_options dargs = Inr dopt" "compare_text dopt = []" "output_data dopt \<noteq> []"
    and "writable (output_text dopt)" "writable (output_data dopt)"
  shows "\<exists>img u. encryptor_main s files writable random args = Inr (files(output_file opt \<mapsto> hex_file img), u)
    \<and> (let (out, status, t) = Crypto3DStackCPU_top c (Some (\<lambda>i. img ! i)) 0;
           files' = files(input_image dopt \<mapsto> hex_file (map (the out) [0..<1024]))
       in decryptor_main r files' writable dargs =
          (0, [], files'(output_text dopt \<mapsto> hex_file tw,
             output_data dopt \<mapsto> hex_file (map (\<lambda>j. words f (of_nat (text_end tw + j))) [0..<length dw]))))"
proof -
  have size: "data_end tw dw \<le> 1024" using assms(6) by simp
  obtain t u :: "'a sec_scheme" and ps hdr sk where e: "encryptor_main s files writable random args =
      Inr (files(output_file opt \<mapsto> hex_file (map (memory t 0) [0..<1024])), u)"
    "tool_image t (secure_policy s) (plain_image tw dw) tw dw (tool_epoch opt tw dw key) key ps hdr sk" "hardware_root t = hardware_root s"
    by (rule sealable_result[where writable = writable, OF assms(1-5) size])
  let ?img = "map (memory t 0) [0..<1024]"
  have root: "hardware_root c = hardware_root t" using assms(12) e(3) by simp
  have host: "\<forall>a<1024. ?img ! a = memory t 0 a" by simp
  obtain out status v where v: "Crypto3DStackCPU_top c (Some (\<lambda>i. ?img ! i)) 0 = (Some out, status, v)" "status AND 3 = 0"
    "reg_file v = regs f" "\<forall>a. in_data M a \<longrightarrow> image_words v key a = words f a" "\<forall>i<1024. out i = memory v 0 i"
    "fst (secure_validate_image v 0) = 0" "fst (snd (extract_key_from_large_block v 0)) = key"
    "\<forall>a<1024. a < 20 \<or> 24 \<le> a \<and> a < text_end tw \<or> data_end tw dw \<le> a \<longrightarrow> memory v 0 a = memory t 0 a"
    "accessible v 0" "\<not> layer_is_encrypted v 0" "num_words v = 1024" "hardware_root v = hardware_root t"
    by (rule tool_runs[OF e(2) assms(6,7-11) root host, of m, folded M_def, OF assms(15-17)[unfolded f_def], folded f_def])
  let ?ws = "map out [0..<1024]" and ?r = "reset_and_load_image r (map out [0..<1024])"
  let ?files = "files(input_image dopt \<mapsto> hex_file ?ws)"
  have len: "length ?ws = 1024" by simp
  note l = load_plain[OF assms(18-21) len]
  have mem: "memory ?r 0 a = memory v 0 a" if "a < 1024" for a using l(2)[OF that] v(5) that by simp
  have roots: "hardware_root ?r = hardware_root v" using l(3) assms(22) e(3) v(12) by simp
  obtain hdr' sk' where ti: "tool_image ?r (secure_policy s) (ran_image (words f) tw dw) tw dw (tool_epoch opt tw dw key) key ps hdr' sk'"
    by (rule tool_image_ran[OF e(2) assms(6) v(6,7,9-11) v(8) v(4)[unfolded M_def] l(1) mem roots])
  have ep: "tool_epoch opt tw dw key \<noteq> 0" by (simp add: tool_epoch_def choose_epoch_positive)
  have ws: "?ws = map (memory ?r 0) [0..<1024]" using l(2) by (intro map_cong) simp_all
  note d = decryptor_result[where files = ?files and writable = writable and ws = ?ws, OF assms(18-21,23) _ len ti ws l(3) assms(5) size ep assms(26)]
  have "decryptor_main r ?files writable dargs = (0, [], ?files(output_text dopt \<mapsto> hex_file tw,
      output_data dopt \<mapsto> hex_file (map (\<lambda>j. words f (of_nat (text_end tw + j))) [0..<length dw])))"
    using d assms(24,25,27,6) by (simp add: ran_image_words)
  then show ?thesis
    by (intro exI[of _ ?img] exI[of _ u]) (unfold v(1) Let_def prod.case option.sel, use e(1) in simp)
qed

theorem run_then_decrypt_witness:
  "\<exists>img u. encryptor_main tool_memory tool_files (\<lambda>_. True) None tool_args = Inr (tool_files(''p.img'' \<mapsto> hex_file img), u)
    \<and> (let (out, status, t) = Crypto3DStackCPU_top tool_cpu (Some (\<lambda>i. img ! i)) 0;
           files = tool_files(''r.img'' \<mapsto> hex_file (map (the out) [0..<1024]))
       in decryptor_main tool_memory files (\<lambda>_. True) tool_result_args =
          (0, [], files(''r.text'' \<mapsto> hex_file tool_text, ''r.data'' \<mapsto> hex_file [12])))"
proof -
  have o: "compare_text tool_result_options = []" "output_data tool_result_options \<noteq> []" "input_image tool_result_options = ''r.img''"
    "output_data tool_result_options = ''r.data''" "output_text tool_result_options = ''r.text''" "output_file tool_options = ''p.img''"
    by (simp_all add: tool_result_options_def tool_options_def)
  have "map (\<lambda>j. words (isa_run (source_machine tool_text [7] tool_key) 8 (source_start tool_cpu tool_text [7]))
      (of_nat (text_end tool_text + j))) [0..<length [7 :: u32]] = [12]"
    using tool_run(4) by (simp add: tool_layout)
  then show ?thesis
    using run_then_decrypt[where writable = "\<lambda>_. True" and m = 8, OF tool_memory_plain(1) tool_args_parsed TrueI tool_sealable tool_sizes(1,3,4)
      tool_cpu_fields(1-5) tool_run(1,2) _ tool_memory_fields refl tool_result_parsed o(1,2) TrueI TrueI]
    unfolding o(3-6) by simp
qed

end
