(* ===== verification/Fips_Roots.thy ===== *)
theory Fips_Roots
  imports Complex_Main Fips_180_4
begin

text \<open>
  The constants of the reference hash in the reals: \<open>fips_frac k p\<close> is made of the first thirty-two bits
  of the fractional part of the \<open>k\<close>-th root of \<open>p\<close>.
\<close>

theorem fips_frac_root:
  assumes "0 < k"
  shows "fips_frac k p = of_int \<lfloor>frac (root k (real p)) * 2 ^ 32\<rfloor>"
proof -
  let ?r = "root k (real p)"
  define n where "n = nat \<lfloor>?r * 2 ^ 32\<rfloor>"
  have r: "0 \<le> ?r" "?r ^ k = real p" using assms by (simp_all add: real_root_pow_pos2)
  have eq: "(?r * 2 ^ 32) ^ k = real (p * (2 ^ 32) ^ k)" by (simp add: power_mult_distrib r(2))
  have n: "real n \<le> ?r * 2 ^ 32" "?r * 2 ^ 32 < real (n + 1)" using r(1) by (simp_all add: n_def) linarith
  have "real n ^ k \<le> (?r * 2 ^ 32) ^ k" using n(1) by (rule power_mono) simp
  then have lo: "n ^ k \<le> p * (2 ^ 32) ^ k" unfolding eq by (simp only: of_nat_power[symmetric] of_nat_le_iff)
  have "(?r * 2 ^ 32) ^ k < real (n + 1) ^ k" by (rule power_strict_mono[OF n(2)]) (use r assms in simp_all)
  then have hi: "p * (2 ^ 32) ^ k < (n + 1) ^ k" unfolding eq by (simp only: of_nat_power[symmetric] of_nat_less_iff)
  have fl: "\<lfloor>frac ?r * 2 ^ 32\<rfloor> = int n - \<lfloor>?r\<rfloor> * 2 ^ 32"
    unfolding floor_eq_iff using n by (simp add: frac_def algebra_simps)
  have z: "(of_int (2 ^ 32) :: u32) = 0" by simp
  show ?thesis unfolding fips_frac_unique[OF assms lo hi] fl of_int_diff of_int_mult z by simp
qed

end
