(* ===== verification/Spec2Isabelle.thy ===== *)
theory Spec2Isabelle
  imports Trust_Fabric Program_Properties Assembler_Data Tool_Properties Fips_Roots
begin

text \<open>
  Verification of Crypto3DStackCPU: a processor model for high-level synthesis (\<open>src/src/\<close>) that runs
  encrypted programs from a layered memory, with the cryptography, the sealed image format and the
  bus protection around it.

  \<^bold>\<open>The program.\<close> The host passes an image of 1024 words to \<open>Crypto3DStackCPU_top\<close> (\<open>3d.cpp\<close>). The
  words are copied to layer 0 of \<open>StackedMemory3D\<close> (\<open>3d.h\<close>), the image is validated (header, hidden
  wrapped key, measurements, key tag, image tag), the application key is extracted, and a six stage
  MIPS pipeline runs the program for at most 2000 cycles: it fetches encrypted blocks of four
  instructions through a permutation of the text blocks, decrypts them with AES-128, and loads and
  stores words of an encrypted data region. At the end the image tag is renewed and the words are
  copied back. Beside it stand the vertical trust fabric (\<open>vertical_trust_fabric.h\<close>), which
  authenticates bus requests to the layers with AES-CMAC (\<open>aes_cmac.h\<close>, \<open>vtf_hls.cpp\<close>), and a memory
  integrity tree over untrusted storage (\<open>memory_integrity.h\<close>).

  \<^bold>\<open>The theories\<close>, bottom up. State is a \<open>record\<close> per class or group of static variables, threaded
  explicitly; each record of a later part extends that of an earlier one, so that an operation of the
  memory applies unchanged to the state of the processor. Fallible operations return the code's
  status numbers, \<open>option\<close>, or a response record. Words are \<open>32 word\<close> (\<open>u32\<close>) with the wrap-around of
  the code; a block of four words is the datatype \<open>quad\<close>; loops are \<open>for_up\<close>.

  \<^item> \<open>Machine_Words\<close>: blocks, rotations, \<open>mix32\<close>, byte order, the loop \<open>for_up\<close> and its rules.
  \<^item> \<open>AES\<close>: the functions of \<open>3d.cpp\<close> from the tables to \<open>aes_encrypt_block\<close> and
    \<open>aes_decrypt_block\<close>. The locale \<open>block_cipher\<close> (decryption undoes encryption) is what the memory,
    the image and the pipeline rest on.
  \<^item> \<open>CMAC\<close>: the byte loops of \<open>aes_cmac_128\<close> against the definition of SP 800-38B.
  \<^item> \<open>Bit_Scatter\<close>: hiding the bits of a key at given positions of a memory, and gathering them.
  \<^item> \<open>Stacked_Memory\<close>: every operation of \<open>StackedMemory3D\<close>, with the caches it invalidates. Lemmas:
    the invariant \<open>smem_wf\<close> under all operations, reads after writes, encryption of a layer,
    tamper reaction, lockdown.
  \<^item> \<open>Integrity_Tree\<close>: \<open>MemoryIntegrityTree\<close>, with reads after writes and detection of tampering and
    of joint rollback; what a block that was never written shows.
  \<^item> \<open>Trust_Fabric\<close>: \<open>VerticalTrustFabric\<close>: what is granted, the order of the checks, replay, lockdown,
    isolation of the key tier, binding of the tags, sentinels.
  \<^item> \<open>Fips_180_4\<close>: SHA-256 from the text of the standard, with the constants as bits of the roots of
    primes (\<open>Fips_Roots\<close>: in the reals); it uses nothing of the code. \<open>Sha256\<close>: SHA-256, HMAC and HKDF of \<open>3d.cpp\<close> against it and
    against RFC 2104 and RFC 5869.
  \<^item> \<open>Block_Map\<close>: the permutation of the text blocks.
  \<^item> \<open>Sealed_Image\<close>: the image functions (\<open>create_large_block_with_key\<close>, \<open>secure_validate_image\<close>,
    \<open>extract_key_from_large_block\<close>, \<open>secure_reseal_current_image\<close> and their parts).
    \<open>Image_Integrity\<close>: what they read and write; the predicates \<open>key_sealed\<close> and \<open>image_sealed\<close> that
    characterise acceptance. \<open>Image_Properties\<close>: round trip, binding, resealing, failure.
  \<^item> \<open>Mips_ISA\<close>: fields and classification of instruction words. \<open>Pipeline\<close>: the static variables,
    caches, stages, the cycle and the top function of \<open>3d.cpp\<close>.
  \<^item> \<open>Mips_Semantics\<close>: the specification of the processor, a sequential machine without pipeline,
    caches and encryption. \<open>Pipeline_Invariant\<close>: the abstraction \<open>arch\<close> of a pipeline state (the
    instructions in flight are completed first) and the invariant \<open>pipe_ok\<close>. \<open>Pipeline_Stages\<close>: each
    stage against them. \<open>Stuttering\<close>: a locale for simulations in which a step of the
    implementation is a step of the specification or none, with a rank that falls in the second case.
    \<open>Pipeline_Refinement\<close>: its interpretation on the pipeline, where the rank is at most 3.
  \<^item> \<open>Program_Run\<close>: the machine an image describes, the first cycle after reset, whole runs.
    \<open>Top_Level\<close>: the top function from host words to host words. \<open>Layer_Frame\<close>: what no run changes.
    \<open>Program_Properties\<close>: the properties of the processor with an example program, which is sealed,
    run and read back inside the logic.
  \<^item> \<open>Assembler\<close>: \<open>asm_to_hex.cpp\<close>, from the contents of a source file to the contents of the two hex
    files, with the error texts. \<open>Assembler_Encoding\<close>: the words it emits decode on the processor to
    what the statements mean. \<open>Assembler_Layout\<close>: the addresses the first pass gives out are the places
    where the second pass puts the words. \<open>Assembler_Properties\<close>: accepted programs. \<open>Assembler_Data\<close>:
    the data words, and that the processor's address translation finds them from the address of a
    label.
  \<^item> \<open>Encryptor\<close>, \<open>Decryptor\<close>: the host tools \<open>encryptor.cpp\<close> and \<open>decryptor.cpp\<close> around the image
    functions, from arguments and file contents to exit status, error text and file contents.
    \<open>Hex_Files\<close>: what one tool prints the others parse. \<open>Tool_Memory\<close>: the plain layer the encryptor
    fills (\<open>plain\<close>, \<open>holds\<close>, \<open>plain_image\<close>). \<open>Encryptor_Image\<close>: the sealed result (\<open>tool_image\<close>).
    \<open>Decryptor_Image\<close>: the decryptor on it. \<open>Tool_Chain\<close>: the processor on it, which runs the program
    of the assembled words (\<open>source_machine\<close>), and the image it leaves (\<open>ran_image\<close>).
    \<open>Tool_Properties\<close>: the properties of the tools together, with an example from the source to the
    decrypted result.

  \<^bold>\<open>How to read the refinement.\<close> \<open>isa_step\<close> executes one instruction of the decrypted text at
  \<open>(block, slot)\<close>. \<open>cycle_step\<close> is the body of the main loop. One cycle starts at most one instruction,
  so a run of \<open>n\<close> cycles is a run of at most \<open>n\<close> instructions, and at least one of four consecutive
  cycles starts one (a load-use stall, a misprediction and a refill of the front end are the
  reasons for the others). Three things of the code are visible in the specification: jumps and
  branches go to the start of a block; a branch into the block where execution continues anyway is
  not taken; an access outside the data region sets the lockdown, behind which at most two more
  instructions take effect.

  \<^bold>\<open>Bounds.\<close> \<open>run_cycles\<close> takes the number of cycles, 2000 in the top function as in the code. A
  program of \<open>m\<close> instructions needs at most \<open>4 m + 7\<close> cycles, hence \<open>m \<le> 498\<close> where the top function
  is to finish it. Recursions with a bound of the code (Euclid, the search for positions and for the
  multiplier) are proved total or carry that bound.

  \<^bold>\<open>Cryptography.\<close> No assumption on AES or SHA-256 is made. Statements on forged tags say that
  acceptance forces an equation of tags (a collision), never that it is impossible.

  \<^bold>\<open>The tools.\<close> A file is its contents; the file system of the tools is a map from names to contents
  and a predicate that says which names can be opened for writing. The random bytes of the operating
  system are a parameter of the encryptor. That hiding places for the key bits are found is a
  hypothesis of the properties that seal an image, part of \<open>sealable\<close> (the search of the code gives
  up after 2048 attempts for a bit); the examples compute them. Data round trips below word 512 only, because the
  key bits are hidden from there on without regard to the data.

  \<^bold>\<open>Not modelled.\<close> Input and output proper: errors of an open stream, the trace file, printing,
  usage texts and the status strings; wiping of buffers; the source of the random bytes. The test
  bench. Of \<open>std::stoll\<close> and \<open>strtoull\<close>: what the standards say, characters in the C locale. Build
  options other than the defaults. The pipeline refinement covers images whose data region is
  encrypted, as the tools create them; for the others the frame and the error behaviour are proved,
  not the functional behaviour (a store there drops instructions in flight). Enumerators outside
  their declared range, which a C++ enumeration of bytes can hold: \<open>VtfOperation\<close> has the two declared
  values (the code takes any other for a write), and all requester codes from 6 on are the one
  invalid value \<open>COUNT\<close>. The fixed arrays of 32 entries in \<open>memory_integrity.h\<close> are lists: trees of
  more than 32 levels, which would overrun them, are outside the model's scope.
\<close>

end
